(* ===== verification/Prelude.thy ===== *)
theory Prelude
  imports Complex_Main
begin

text \<open>
  The vocabulary shared by every component: JavaScript values as they travel through
  Redis and through alert payloads, template literals, thrown errors as values of a sum
  type, and the few list and option lemmas the components share.

  Modelling conventions used in the whole development:
  \<^item> A JavaScript number is a \<^typ>\<open>real\<close>: rounding, the infinities and
    negative zero are not modelled. Where the code produces or tests NaN, the model says
    so with an option. Counters and millisecond times are \<^typ>\<open>int\<close>.
  \<^item> A text that the program writes with \<open>JSON.stringify\<close>, \<open>String\<close> or
    \<open>toISOString\<close> and reads back with \<open>JSON.parse\<close>, \<open>Number\<close> or
    \<open>new Date\<close> is represented by the value it denotes, of type \<open>json\<close>.
  \<^item> A template literal is the list of its pieces (\<open>tmpl\<close>): a string piece, a
    number printed by \<open>String\<close>, or a number printed by \<open>toFixed\<close>.
  \<^item> \<open>Date.now()\<close> is read once per operation and passed as \<open>now\<close>.
  \<^item> Correlation ids (random, never read back by the modelled code) and console log
    lines are left out.
\<close>

named_theorems kv_intro \<open>facts about stores that are safe introduction rules\<close>
named_theorems handler_defs \<open>unfolding equations of the operations of the components\<close>

subsection \<open>Template literals and JSON values\<close>

datatype (plugins only: code size) chunk =
    S string        \<comment> \<open>a literal piece, or an interpolated string\<close>
  | N real          \<comment> \<open>an interpolated number\<close>
  | F real nat      \<comment> \<open>a number printed by \<open>toFixed\<close>\<close>

type_synonym tmpl = "chunk list"

datatype (plugins only: code size) json =
    JNull
  | JBool bool
  | JNum real
  | JStr string
  | JText tmpl               \<comment> \<open>a string built by a template literal\<close>
  | JDate int                \<comment> \<open>the ISO text of an instant, in milliseconds\<close>
  | JArr "json list"
  | JObj "(string \<times> json) list"

text \<open>\<open>o[k]\<close> on a parsed object; \<open>None\<close> is \<open>undefined\<close>.\<close>

fun jget :: "json \<Rightarrow> string \<Rightarrow> json option" where
  "jget (JObj fs) k = map_of fs k"
| "jget _ k = None"

text \<open>\<open>Number(x)\<close> on a value read back: \<open>None\<close> is NaN.\<close>

fun js_number :: "json \<Rightarrow> real option" where
  "js_number (JNum r) = Some r"
| "js_number _ = None"

text \<open>JavaScript truthiness of a property read.\<close>

fun truthy :: "json option \<Rightarrow> bool" where
  "truthy None = False"
| "truthy (Some JNull) = False"
| "truthy (Some (JBool b)) = b"
| "truthy (Some (JNum r)) = (r \<noteq> 0)"
| "truthy (Some (JStr s)) = (s \<noteq> [])"
| "truthy (Some _) = True"

text \<open>The outcome of a fallible operation: \<open>Inl\<close> is a thrown error.\<close>

abbreviation is_ok :: "'e + 'a \<Rightarrow> bool" where
  "is_ok r \<equiv> \<not> isl r"

text \<open>The pieces that a stored text contributes to a template literal; the components only
  store strings, numbers and templates where they later print them.\<close>

fun json_chunks :: "json \<Rightarrow> tmpl" where
  "json_chunks (JStr s) = [S s]"
| "json_chunks (JText t) = t"
| "json_chunks (JNum r) = [N r]"
| "json_chunks _ = [S ''[object]'']"

text \<open>\<open>xs.join(sep)\<close> on template literals.\<close>

fun join_tmpl :: "string \<Rightarrow> tmpl list \<Rightarrow> tmpl" where
  "join_tmpl sep [] = []"
| "join_tmpl sep [t] = t"
| "join_tmpl sep (t # ts) = t @ S sep # join_tmpl sep ts"

text \<open>\<open>x.toFixed(n)\<close> for a nonnegative number, as the number it prints: the nearest multiple of
  \<open>10 ^ -n\<close>, the larger one when two are equally near.\<close>

definition to_fixed :: "nat \<Rightarrow> real \<Rightarrow> real" where
  "to_fixed n x = of_int \<lfloor>x * 10 ^ n + 1 / 2\<rfloor> / 10 ^ n"

subsection \<open>Integer helpers\<close>

text \<open>\<open>Math.ceil(ms / 1000)\<close> on a whole number of milliseconds.\<close>

definition ceil_seconds :: "int \<Rightarrow> int" where
  "ceil_seconds ms = (ms + 999) div 1000"

lemma ceil_seconds_pos [simp]: "0 < ms \<Longrightarrow> 0 < ceil_seconds ms"
  unfolding ceil_seconds_def by linarith

lemma ceil_seconds_ge: "ms \<le> ceil_seconds ms * 1000"
  unfolding ceil_seconds_def by linarith

lemma ceil_seconds_ceiling: "ceil_seconds ms = \<lceil>real_of_int ms / 1000\<rceil>"
proof -
  have "ceil_seconds ms * 1000 < ms + 1000" and "ms \<le> ceil_seconds ms * 1000"
    unfolding ceil_seconds_def by linarith+
  then have "real_of_int (ceil_seconds ms) * 1000 < real_of_int ms + 1000"
    and "real_of_int ms \<le> real_of_int (ceil_seconds ms) * 1000"
    by linarith+
  then show ?thesis by (intro ceiling_unique [symmetric]) linarith+
qed

subsection \<open>Shared list lemmas\<close>

lemma filter_le_mono: "(\<And>x. x \<in> set xs \<Longrightarrow> P x \<Longrightarrow> Q x) \<Longrightarrow>
    length (filter P xs) \<le> length (filter Q xs)"
  by (induction xs) auto

lemma append_suffix_neq [simp]:
  "last xs \<noteq> last ys \<Longrightarrow> xs \<noteq> [] \<Longrightarrow> ys \<noteq> [] \<Longrightarrow> us @ xs \<noteq> vs @ ys"
  by (metis last_appendR)

text \<open>Splitting a composite key at a separator that the first component does not hold.\<close>

lemma append_sep_inject:
  assumes "c \<notin> set a" and "c \<notin> set b"
  shows "a @ c # x = b @ c # y \<longleftrightarrow> a = b \<and> x = y"
  using assms
proof (induction a arbitrary: b)
  case Nil
  then show ?case by (cases b) auto
next
  case (Cons h a)
  then show ?case by (cases b) auto
qed

text \<open>An accumulating loop is a sum.\<close>

lemma foldl_sum: "foldl (\<lambda>s v. s + f v) a xs = a + (\<Sum>v\<leftarrow>xs. f v :: real)"
  by (induction xs arbitrary: a) auto

lemma in_map_filter: "y \<in> set (List.map_filter f xs) \<longleftrightarrow> (\<exists>x \<in> set xs. f x = Some y)"
  by (induction xs) (auto simp: map_filter_simps split: option.split)

lemma distinct_keyed_filter:
  "distinct xs \<Longrightarrow> distinct (map fst (List.map_filter (\<lambda>n. map_option (\<lambda>raw. (n, g raw)) (f n)) xs))"
  by (induction xs) (auto simp: map_filter_simps in_map_filter split: option.split)

end
