(* ===== verification/Sec_Types.thy ===== *)
theory Sec_Types
  imports Prelude
begin

text \<open>
  The data types of \<open>security/types\<close>: event types, risk levels, error codes and
  error classes, agent actions, portfolio snapshots and the security configuration.
\<close>

subsection \<open>Events and risk levels (\<open>types/events.ts\<close>)\<close>

datatype (plugins only: code size) event_type =
    AUTH_SUCCESS | AUTH_FAILURE | SESSION_MISMATCH | MFA_REQUIRED | MFA_SUCCESS
  | MFA_FAILURE | DEVICE_TRUST_GRANTED | DEVICE_TRUST_DENIED | INPUT_SANITIZED
  | INJECTION_DETECTED | CONTEXT_INTEGRITY_FAILURE | FEED_CONSENSUS_FAILURE
  | FEED_SIGNATURE_INVALID | FEED_DATA_STALE | FEED_ANOMALY_DETECTED | ACTION_ALLOWED
  | ACTION_BLOCKED | SANITY_CHECK_FAILED | DUPLICATE_ORDER_DETECTED
  | CIRCUIT_BREAKER_OPEN | CIRCUIT_BREAKER_CLOSED | CIRCUIT_BREAKER_HALF_OPEN
  | KILL_SWITCH_TRIGGERED | KILL_SWITCH_RESET | POSITION_LIMIT_BREACHED
  | LOSS_LIMIT_BREACHED | CONFIRMATION_REQUIRED | CONFIRMATION_APPROVED
  | CONFIRMATION_EXPIRED | WASH_TRADE_DETECTED | LAYERING_DETECTED | SHORT_SELL_BLOCKED
  | TRADE_REPORTED | RATE_LIMIT_BREACHED | EXCHANGE_QUOTA_WARNING | SECRET_LOADED
  | SECRET_ROTATION_DETECTED | DEAD_MANS_SWITCH_TRIGGERED | AUDIT_CHAIN_VALID
  | AUDIT_CHAIN_INVALID | ANOMALY_DETECTED | STRATEGY_DRIFT_DETECTED | ALERT_EMITTED

primrec event_type_str :: "event_type \<Rightarrow> string" where
  "event_type_str AUTH_SUCCESS = ''AUTH_SUCCESS''"
| "event_type_str AUTH_FAILURE = ''AUTH_FAILURE''"
| "event_type_str SESSION_MISMATCH = ''SESSION_MISMATCH''"
| "event_type_str MFA_REQUIRED = ''MFA_REQUIRED''"
| "event_type_str MFA_SUCCESS = ''MFA_SUCCESS''"
| "event_type_str MFA_FAILURE = ''MFA_FAILURE''"
| "event_type_str DEVICE_TRUST_GRANTED = ''DEVICE_TRUST_GRANTED''"
| "event_type_str DEVICE_TRUST_DENIED = ''DEVICE_TRUST_DENIED''"
| "event_type_str INPUT_SANITIZED = ''INPUT_SANITIZED''"
| "event_type_str INJECTION_DETECTED = ''INJECTION_DETECTED''"
| "event_type_str CONTEXT_INTEGRITY_FAILURE = ''CONTEXT_INTEGRITY_FAILURE''"
| "event_type_str FEED_CONSENSUS_FAILURE = ''FEED_CONSENSUS_FAILURE''"
| "event_type_str FEED_SIGNATURE_INVALID = ''FEED_SIGNATURE_INVALID''"
| "event_type_str FEED_DATA_STALE = ''FEED_DATA_STALE''"
| "event_type_str FEED_ANOMALY_DETECTED = ''FEED_ANOMALY_DETECTED''"
| "event_type_str ACTION_ALLOWED = ''ACTION_ALLOWED''"
| "event_type_str ACTION_BLOCKED = ''ACTION_BLOCKED''"
| "event_type_str SANITY_CHECK_FAILED = ''SANITY_CHECK_FAILED''"
| "event_type_str DUPLICATE_ORDER_DETECTED = ''DUPLICATE_ORDER_DETECTED''"
| "event_type_str CIRCUIT_BREAKER_OPEN = ''CIRCUIT_BREAKER_OPEN''"
| "event_type_str CIRCUIT_BREAKER_CLOSED = ''CIRCUIT_BREAKER_CLOSED''"
| "event_type_str CIRCUIT_BREAKER_HALF_OPEN = ''CIRCUIT_BREAKER_HALF_OPEN''"
| "event_type_str KILL_SWITCH_TRIGGERED = ''KILL_SWITCH_TRIGGERED''"
| "event_type_str KILL_SWITCH_RESET = ''KILL_SWITCH_RESET''"
| "event_type_str POSITION_LIMIT_BREACHED = ''POSITION_LIMIT_BREACHED''"
| "event_type_str LOSS_LIMIT_BREACHED = ''LOSS_LIMIT_BREACHED''"
| "event_type_str CONFIRMATION_REQUIRED = ''CONFIRMATION_REQUIRED''"
| "event_type_str CONFIRMATION_APPROVED = ''CONFIRMATION_APPROVED''"
| "event_type_str CONFIRMATION_EXPIRED = ''CONFIRMATION_EXPIRED''"
| "event_type_str WASH_TRADE_DETECTED = ''WASH_TRADE_DETECTED''"
| "event_type_str LAYERING_DETECTED = ''LAYERING_DETECTED''"
| "event_type_str SHORT_SELL_BLOCKED = ''SHORT_SELL_BLOCKED''"
| "event_type_str TRADE_REPORTED = ''TRADE_REPORTED''"
| "event_type_str RATE_LIMIT_BREACHED = ''RATE_LIMIT_BREACHED''"
| "event_type_str EXCHANGE_QUOTA_WARNING = ''EXCHANGE_QUOTA_WARNING''"
| "event_type_str SECRET_LOADED = ''SECRET_LOADED''"
| "event_type_str SECRET_ROTATION_DETECTED = ''SECRET_ROTATION_DETECTED''"
| "event_type_str DEAD_MANS_SWITCH_TRIGGERED = ''DEAD_MANS_SWITCH_TRIGGERED''"
| "event_type_str AUDIT_CHAIN_VALID = ''AUDIT_CHAIN_VALID''"
| "event_type_str AUDIT_CHAIN_INVALID = ''AUDIT_CHAIN_INVALID''"
| "event_type_str ANOMALY_DETECTED = ''ANOMALY_DETECTED''"
| "event_type_str STRATEGY_DRIFT_DETECTED = ''STRATEGY_DRIFT_DETECTED''"
| "event_type_str ALERT_EMITTED = ''ALERT_EMITTED''"

text \<open>\<open>SecurityEventTypeSchema\<close>.\<close>

definition event_types :: "event_type list" where
  "event_types =
     [AUTH_SUCCESS, AUTH_FAILURE, SESSION_MISMATCH, MFA_REQUIRED, MFA_SUCCESS, MFA_FAILURE,
     DEVICE_TRUST_GRANTED, DEVICE_TRUST_DENIED, INPUT_SANITIZED, INJECTION_DETECTED,
     CONTEXT_INTEGRITY_FAILURE, FEED_CONSENSUS_FAILURE, FEED_SIGNATURE_INVALID,
     FEED_DATA_STALE, FEED_ANOMALY_DETECTED, ACTION_ALLOWED, ACTION_BLOCKED,
     SANITY_CHECK_FAILED, DUPLICATE_ORDER_DETECTED, CIRCUIT_BREAKER_OPEN,
     CIRCUIT_BREAKER_CLOSED, CIRCUIT_BREAKER_HALF_OPEN, KILL_SWITCH_TRIGGERED,
     KILL_SWITCH_RESET, POSITION_LIMIT_BREACHED, LOSS_LIMIT_BREACHED, CONFIRMATION_REQUIRED,
     CONFIRMATION_APPROVED, CONFIRMATION_EXPIRED, WASH_TRADE_DETECTED, LAYERING_DETECTED,
     SHORT_SELL_BLOCKED, TRADE_REPORTED, RATE_LIMIT_BREACHED, EXCHANGE_QUOTA_WARNING,
     SECRET_LOADED, SECRET_ROTATION_DETECTED, DEAD_MANS_SWITCH_TRIGGERED, AUDIT_CHAIN_VALID,
     AUDIT_CHAIN_INVALID, ANOMALY_DETECTED, STRATEGY_DRIFT_DETECTED, ALERT_EMITTED]"

definition parse_event_type :: "string \<Rightarrow> event_type option" where
  "parse_event_type s = find (\<lambda>t. event_type_str t = s) event_types"

lemma parse_event_type_str [simp]: "parse_event_type (event_type_str t) = Some t"
  by (cases t) (simp_all add: parse_event_type_def event_types_def)

lemma event_type_str_inject [simp]: "event_type_str a = event_type_str b \<longleftrightarrow> a = b"
  by (metis parse_event_type_str option.inject)

datatype (plugins only: code size) risk_level = LOW | MEDIUM | HIGH | CRITICAL

primrec risk_level_str :: "risk_level \<Rightarrow> string" where
  "risk_level_str LOW = ''LOW''"
| "risk_level_str MEDIUM = ''MEDIUM''"
| "risk_level_str HIGH = ''HIGH''"
| "risk_level_str CRITICAL = ''CRITICAL''"

text \<open>The order table that \<open>risk.engine.ts\<close> and \<open>mfa.gate.ts\<close> each spell out.\<close>

primrec risk_order :: "risk_level \<Rightarrow> nat" where
  "risk_order LOW = 0"
| "risk_order MEDIUM = 1"
| "risk_order HIGH = 2"
| "risk_order CRITICAL = 3"

instantiation risk_level :: linorder
begin

definition less_eq_risk_level :: "risk_level \<Rightarrow> risk_level \<Rightarrow> bool" where
  "a \<le> b \<longleftrightarrow> risk_order a \<le> risk_order b"

definition less_risk_level :: "risk_level \<Rightarrow> risk_level \<Rightarrow> bool" where
  "a < b \<longleftrightarrow> risk_order a < risk_order b"

instance
proof
  fix a b :: risk_level
  show "a \<le> b \<Longrightarrow> b \<le> a \<Longrightarrow> a = b"
    by (cases a; cases b) (simp_all add: less_eq_risk_level_def)
qed (auto simp: less_eq_risk_level_def less_risk_level_def)

end

lemma risk_CRITICAL_top [simp]: "r \<le> CRITICAL"
  by (cases r) (simp_all add: less_eq_risk_level_def)

lemma risk_LOW_bot [simp]: "LOW \<le> r"
  by (cases r) (simp_all add: less_eq_risk_level_def)

datatype (plugins only: code size) source_trust = INTERNAL | VERIFIED_EXTERNAL | UNVERIFIED_EXTERNAL

subsection \<open>Effects on the outside: alerts, structured log events, emitter events\<close>

datatype (plugins only: code size) effect =
    Alert risk_level event_type tmpl "(string \<times> json) list"
      \<comment> \<open>\<open>alertBus.emit({level, type, message, metadata})\<close>\<close>
  | LogEvent event_type risk_level "(string \<times> json) list"
      \<comment> \<open>\<open>logger.log({eventType, riskLevel, payload})\<close>\<close>
  | Emit event_type "(string \<times> json) list"
      \<comment> \<open>\<open>emitter.emit(event, payload)\<close>\<close>

primrec effect_type :: "effect \<Rightarrow> event_type" where
  "effect_type (Alert _ t _ _) = t"
| "effect_type (LogEvent t _ _) = t"
| "effect_type (Emit t _) = t"

primrec effect_level :: "effect \<Rightarrow> risk_level option" where
  "effect_level (Alert l _ _ _) = Some l"
| "effect_level (LogEvent _ l _) = Some l"
| "effect_level (Emit _ _) = None"

subsection \<open>Errors (\<open>types/errors.ts\<close>)\<close>

datatype (plugins only: code size) error_code =
    AUTH_TOKEN_EXPIRED | AUTH_TOKEN_INVALID | AUTH_TOKEN_MISSING | AUTH_CREDENTIALS_INVALID
  | AUTH_ACCOUNT_LOCKED | AUTHZ_INSUFFICIENT_PERMISSIONS | AUTHZ_ROLE_MISMATCH
  | AUTHZ_RESOURCE_FORBIDDEN | SESSION_EXPIRED | SESSION_MISMATCH_CODE
  | SESSION_HIJACK_DETECTED | SESSION_NOT_FOUND | MFA_REQUIRED_CODE | MFA_CODE_INVALID
  | MFA_CODE_EXPIRED | MFA_SETUP_REQUIRED | INJECTION_SQL_DETECTED | INJECTION_XSS_DETECTED
  | INJECTION_COMMAND_DETECTED | INJECTION_PROMPT_DETECTED
  | INJECTION_PATH_TRAVERSAL_DETECTED | INTEGRITY_HASH_MISMATCH
  | INTEGRITY_SIGNATURE_INVALID | INTEGRITY_CONTEXT_TAMPERED | FEED_DATA_STALE_CODE
  | FEED_CONSENSUS_DIVERGED | FEED_SIGNATURE_INVALID_CODE | FEED_ANOMALY_DETECTED_CODE
  | FEED_UNAVAILABLE | ACTION_NOT_IN_UNIVERSE | ACTION_OUTSIDE_TRADING_HOURS
  | ACTION_SANITY_CHECK_FAILED | ACTION_DUPLICATE_ORDER | ACTION_CONFIRMATION_REQUIRED
  | ACTION_CONFIRMATION_EXPIRED | RISK_POSITION_LIMIT_BREACHED
  | RISK_NOTIONAL_LIMIT_BREACHED | RISK_LOSS_LIMIT_BREACHED | RISK_DRAWDOWN_LIMIT_BREACHED
  | CIRCUIT_BREAKER_OPEN_CODE | CIRCUIT_BREAKER_VELOCITY_TRIP
  | CIRCUIT_BREAKER_ERROR_RATE_TRIP | KILL_SWITCH_ACTIVE | COMPLIANCE_WASH_TRADE
  | COMPLIANCE_LAYERING | COMPLIANCE_SHORT_SELL_BLOCKED
  | COMPLIANCE_TRADE_REPORTING_FAILED | RATE_LIMIT_USER | RATE_LIMIT_STRATEGY
  | RATE_LIMIT_INSTRUMENT | RATE_LIMIT_EXCHANGE | SECRET_NOT_FOUND
  | SECRET_DECRYPTION_FAILED | SECRET_ROTATION_FAILED | SECRET_KMS_UNAVAILABLE
  | AUDIT_CHAIN_BROKEN | AUDIT_WRITE_FAILED | AUDIT_HMAC_MISMATCH | ANOMALY_PRICE_SPIKE
  | ANOMALY_VOLUME_SPIKE | ANOMALY_STRATEGY_DRIFT | ANOMALY_BEHAVIORAL
  | DEAD_MAN_SWITCH_TRIGGERED | DEVICE_TRUST_DENIED_CODE

datatype (plugins only: code size) error_class =
    AuthenticationError | AuthorizationError | SessionError | InjectionError
  | IntegrityError | FeedError | ActionBlockedError | RiskLimitError | CircuitBreakerError
  | ComplianceError | RateLimitError | SecretsError | AuditError | AnomalyError
  | ConfirmationExpiredError | ConfirmationReplayError | ConfirmationOwnershipError
  | ConfirmationSignatureError

text \<open>
  The risk level and the message prefix that each subclass passes to the constructor of
  \<open>SecurityError\<close>. The last four classes are declared in
  \<open>confirmation/approval.flow.ts\<close>.
\<close>

primrec class_risk :: "error_class \<Rightarrow> risk_level" where
  "class_risk AuthenticationError = HIGH"
| "class_risk AuthorizationError = MEDIUM"
| "class_risk SessionError = MEDIUM"
| "class_risk InjectionError = CRITICAL"
| "class_risk IntegrityError = CRITICAL"
| "class_risk FeedError = HIGH"
| "class_risk ActionBlockedError = HIGH"
| "class_risk RiskLimitError = CRITICAL"
| "class_risk CircuitBreakerError = CRITICAL"
| "class_risk ComplianceError = CRITICAL"
| "class_risk RateLimitError = MEDIUM"
| "class_risk SecretsError = HIGH"
| "class_risk AuditError = CRITICAL"
| "class_risk AnomalyError = HIGH"
| "class_risk ConfirmationExpiredError = MEDIUM"
| "class_risk ConfirmationReplayError = HIGH"
| "class_risk ConfirmationOwnershipError = HIGH"
| "class_risk ConfirmationSignatureError = HIGH"

primrec class_prefix :: "error_class \<Rightarrow> string" where
  "class_prefix AuthenticationError = ''Authentication failed: ''"
| "class_prefix AuthorizationError = ''Authorization denied: ''"
| "class_prefix SessionError = ''Session error: ''"
| "class_prefix InjectionError = ''Injection detected: ''"
| "class_prefix IntegrityError = ''Integrity violation: ''"
| "class_prefix FeedError = ''Market data feed error: ''"
| "class_prefix ActionBlockedError = ''Action blocked: ''"
| "class_prefix RiskLimitError = ''Risk limit breached: ''"
| "class_prefix CircuitBreakerError = ''Circuit breaker tripped: ''"
| "class_prefix ComplianceError = ''Compliance violation: ''"
| "class_prefix RateLimitError = ''Rate limit exceeded: ''"
| "class_prefix SecretsError = ''Secrets management error: ''"
| "class_prefix AuditError = ''Audit integrity error: ''"
| "class_prefix AnomalyError = ''Anomaly detected: ''"
| "class_prefix ConfirmationExpiredError = ''Confirmation challenge expired: ''"
| "class_prefix ConfirmationReplayError = ''Confirmation challenge already consumed: ''"
| "class_prefix ConfirmationOwnershipError = ''User does not own confirmation challenge: ''"
| "class_prefix ConfirmationSignatureError = ''Invalid approval signature for challenge: ''"

text \<open>
  A thrown value: an instance of a subclass, of the base class \<open>SecurityError\<close>, a plain
  \<open>Error\<close>, a zod error, or the error of using a parsed value of the wrong shape.
\<close>

datatype (plugins only: code size) js_error =
    SecErr error_class error_code risk_level tmpl
  | BaseErr error_code risk_level tmpl
  | PlainError tmpl
  | ZodError
  | ShapeError

text \<open>\<open>error.message\<close>; the text that zod and the runtime compose is not modelled.\<close>

fun error_message :: "js_error \<Rightarrow> tmpl" where
  "error_message (SecErr _ _ _ m) = m"
| "error_message (BaseErr _ _ m) = m"
| "error_message (PlainError m) = m"
| "error_message ZodError = [S ''ZodError'']"
| "error_message ShapeError = [S ''TypeError'']"

definition new_error :: "error_class \<Rightarrow> error_code \<Rightarrow> tmpl \<Rightarrow> js_error" where
  "new_error k c m = SecErr k c (class_risk k) (S (class_prefix k) # m)"

fun thrown_code :: "js_error \<Rightarrow> error_code option" where
  "thrown_code (SecErr _ c _ _) = Some c"
| "thrown_code (BaseErr c _ _) = Some c"
| "thrown_code _ = None"

fun thrown_class :: "js_error \<Rightarrow> error_class option" where
  "thrown_class (SecErr k _ _ _) = Some k"
| "thrown_class _ = None"

lemma thrown_new_error [simp]:
  "thrown_code (new_error k c m) = Some c"
  "thrown_class (new_error k c m) = Some k"
  by (simp_all add: new_error_def)

lemma new_error_inject [simp]:
  "new_error k c m = new_error k' c' m' \<longleftrightarrow> k = k' \<and> c = c' \<and> m = m'"
  by (auto simp: new_error_def)

end
