(* ===== verification/Actions.thy ===== *)
theory Actions
  imports Sec_Types
begin

text \<open>
  Agent actions and portfolio snapshots (\<open>types/actions.ts\<close>, \<open>types/risk.ts\<close>) with
  the zod schemas of the raw model output. A schema is a partial function from a parsed
  JSON value to the typed action: \<open>None\<close> is a failed \<open>safeParse\<close>. The UUID test of
  zod is a parameter.
\<close>

subsection \<open>Actions\<close>

datatype (plugins only: code size) order_side = BUY | SELL

datatype (plugins only: code size) order_type = MARKET | LIMIT | STOP | STOP_LIMIT

fun side_str :: "order_side \<Rightarrow> string" where
  "side_str BUY = ''BUY''"
| "side_str SELL = ''SELL''"

fun order_type_str :: "order_type \<Rightarrow> string" where
  "order_type_str MARKET = ''MARKET''"
| "order_type_str LIMIT = ''LIMIT''"
| "order_type_str STOP = ''STOP''"
| "order_type_str STOP_LIMIT = ''STOP_LIMIT''"

lemma side_str_inject [simp]: "side_str a = side_str b \<longleftrightarrow> a = b"
  by (cases a; cases b) simp_all

lemma order_type_str_inject [simp]: "order_type_str a = order_type_str b \<longleftrightarrow> a = b"
  by (cases a; cases b) simp_all

record place_order =
  po_instrument :: string
  po_side :: order_side
  po_orderType :: order_type
  po_quantity :: real
  po_price :: "real option"
  po_stopPrice :: "real option"
  po_strategyId :: string
  po_clientOrderId :: string

record cancel_order =
  co_clientOrderId :: string
  co_instrument :: string
  co_strategyId :: string

record modify_order =
  mo_clientOrderId :: string
  mo_instrument :: string
  mo_newQuantity :: "real option"
  mo_newPrice :: "real option"
  mo_strategyId :: string

record close_position =
  cp_instrument :: string
  cp_strategyId :: string

record human_review =
  hr_reason :: string
  hr_context :: "(string \<times> json) list"
  hr_strategyId :: string

datatype (plugins only: code size) agent_action =
    PlaceOrder place_order
  | CancelOrder cancel_order
  | ModifyOrder modify_order
  | ClosePosition close_position
  | RequestHumanReview human_review
  | NoAction string

datatype (plugins only: code size) action_type =
    T_PlaceOrder | T_CancelOrder | T_ModifyOrder | T_ClosePosition
  | T_RequestHumanReview | T_NoAction

fun type_of_action :: "agent_action \<Rightarrow> action_type" where
  "type_of_action (PlaceOrder _) = T_PlaceOrder"
| "type_of_action (CancelOrder _) = T_CancelOrder"
| "type_of_action (ModifyOrder _) = T_ModifyOrder"
| "type_of_action (ClosePosition _) = T_ClosePosition"
| "type_of_action (RequestHumanReview _) = T_RequestHumanReview"
| "type_of_action (NoAction _) = T_NoAction"

fun action_type_str :: "action_type \<Rightarrow> string" where
  "action_type_str T_PlaceOrder = ''PlaceOrder''"
| "action_type_str T_CancelOrder = ''CancelOrder''"
| "action_type_str T_ModifyOrder = ''ModifyOrder''"
| "action_type_str T_ClosePosition = ''ClosePosition''"
| "action_type_str T_RequestHumanReview = ''RequestHumanReview''"
| "action_type_str T_NoAction = ''NoAction''"

definition all_action_types :: "action_type list" where
  "all_action_types = [T_PlaceOrder, T_CancelOrder, T_ModifyOrder, T_ClosePosition,
     T_RequestHumanReview, T_NoAction]"

text \<open>\<open>'strategyId' in action\<close> and \<open>'instrument' in action\<close> of the output filters.\<close>

fun extractStrategyId :: "agent_action \<Rightarrow> string" where
  "extractStrategyId (PlaceOrder a) = po_strategyId a"
| "extractStrategyId (CancelOrder a) = co_strategyId a"
| "extractStrategyId (ModifyOrder a) = mo_strategyId a"
| "extractStrategyId (ClosePosition a) = cp_strategyId a"
| "extractStrategyId (RequestHumanReview a) = hr_strategyId a"
| "extractStrategyId (NoAction _) = ''unknown''"

fun extractInstrument :: "agent_action \<Rightarrow> string" where
  "extractInstrument (PlaceOrder a) = po_instrument a"
| "extractInstrument (CancelOrder a) = co_instrument a"
| "extractInstrument (ModifyOrder a) = mo_instrument a"
| "extractInstrument (ClosePosition a) = cp_instrument a"
| "extractInstrument (RequestHumanReview _) = ''unknown''"
| "extractInstrument (NoAction _) = ''unknown''"

subsection \<open>Field schemas\<close>

text \<open>\<open>z.string().min(1)\<close>, \<open>z.string().uuid()\<close>, \<open>z.number().positive()\<close> and the
  last one with \<open>.optional()\<close>, which accepts an absent field.\<close>

fun z_string1 :: "json option \<Rightarrow> string option" where
  "z_string1 (Some (JStr s)) = (if s = [] then None else Some s)"
| "z_string1 _ = None"

fun z_uuid :: "(string \<Rightarrow> bool) \<Rightarrow> json option \<Rightarrow> string option" where
  "z_uuid is_uuid (Some (JStr s)) = (if is_uuid s then Some s else None)"
| "z_uuid is_uuid _ = None"

fun z_positive :: "json option \<Rightarrow> real option" where
  "z_positive (Some (JNum r)) = (if 0 < r then Some r else None)"
| "z_positive _ = None"

fun z_positive_opt :: "json option \<Rightarrow> real option option" where
  "z_positive_opt None = Some None"
| "z_positive_opt v = map_option Some (z_positive v)"

text \<open>\<open>z.number().int().positive()\<close> on a parsed value.\<close>

fun z_posint :: "json option \<Rightarrow> int option" where
  "z_posint (Some (JNum r)) = (if r = of_int \<lfloor>r\<rfloor> \<and> 0 < r then Some \<lfloor>r\<rfloor> else None)"
| "z_posint _ = None"

lemma z_posint_of_int [simp]: "z_posint (Some (JNum (of_int n))) = (if 0 < n then Some n else None)"
  by simp

text \<open>\<open>z.string()\<close>, the same with \<open>.optional()\<close>, \<open>z.string().datetime()\<close>,
  \<open>z.number()\<close>, \<open>z.number().int().nonnegative()\<close> and \<open>z.array(..)\<close>.\<close>

fun z_string :: "json option \<Rightarrow> string option" where
  "z_string (Some (JStr s)) = Some s"
| "z_string _ = None"

fun z_string_opt :: "json option \<Rightarrow> string option option" where
  "z_string_opt None = Some None"
| "z_string_opt v = map_option Some (z_string v)"

fun z_datetime :: "json option \<Rightarrow> int option" where
  "z_datetime (Some (JDate t)) = Some t"
| "z_datetime _ = None"

fun z_number :: "json option \<Rightarrow> real option" where
  "z_number (Some (JNum r)) = Some r"
| "z_number _ = None"

fun z_nonnegint :: "json option \<Rightarrow> int option" where
  "z_nonnegint (Some (JNum r)) = (if r = of_int \<lfloor>r\<rfloor> \<and> 0 \<le> r then Some \<lfloor>r\<rfloor> else None)"
| "z_nonnegint _ = None"

fun z_list :: "(json option \<Rightarrow> 'a option) \<Rightarrow> json list \<Rightarrow> 'a list option" where
  "z_list p [] = Some []"
| "z_list p (x # xs) = (case (p (Some x), z_list p xs) of (Some a, Some as) \<Rightarrow> Some (a # as) | _ \<Rightarrow> None)"

fun z_array :: "(json option \<Rightarrow> 'a option) \<Rightarrow> json option \<Rightarrow> 'a list option" where
  "z_array p (Some (JArr xs)) = z_list p xs"
| "z_array p _ = None"

fun z_side :: "json option \<Rightarrow> order_side option" where
  "z_side (Some (JStr s)) =
     (if s = ''BUY'' then Some BUY else if s = ''SELL'' then Some SELL else None)"
| "z_side _ = None"

fun z_order_type :: "json option \<Rightarrow> order_type option" where
  "z_order_type (Some (JStr s)) =
     (if s = ''MARKET'' then Some MARKET else if s = ''LIMIT'' then Some LIMIT
      else if s = ''STOP'' then Some STOP
      else if s = ''STOP_LIMIT'' then Some STOP_LIMIT else None)"
| "z_order_type _ = None"

fun z_record :: "json option \<Rightarrow> (string \<times> json) list option" where
  "z_record (Some (JObj fs)) = Some fs"
| "z_record _ = None"

subsection \<open>Action schemas\<close>

text \<open>\<open>PlaceOrderActionBaseSchema\<close>: the shape without the refinements, which is the one
  that the discriminated union uses.\<close>

definition parse_place_order :: "(string \<Rightarrow> bool) \<Rightarrow> json \<Rightarrow> place_order option" where
  "parse_place_order is_uuid j =
     (case (z_string1 (jget j ''instrument''), z_side (jget j ''side''),
            z_order_type (jget j ''orderType''), z_positive (jget j ''quantity''),
            z_positive_opt (jget j ''price''), z_positive_opt (jget j ''stopPrice''),
            z_string1 (jget j ''strategyId''), z_uuid is_uuid (jget j ''clientOrderId'')) of
        (Some i, Some sd, Some ot, Some q, Some p, Some sp, Some st, Some c) \<Rightarrow>
          Some \<lparr>po_instrument = i, po_side = sd, po_orderType = ot, po_quantity = q,
                po_price = p, po_stopPrice = sp, po_strategyId = st, po_clientOrderId = c\<rparr>
      | _ \<Rightarrow> None)"

text \<open>The two refinements of \<open>PlaceOrderActionSchema\<close>.\<close>

definition refine_place_order :: "place_order \<Rightarrow> bool" where
  "refine_place_order a \<longleftrightarrow>
     (if po_orderType a = LIMIT \<or> po_orderType a = STOP_LIMIT then po_price a \<noteq> None else True) \<and>
     (if po_orderType a = STOP \<or> po_orderType a = STOP_LIMIT then po_stopPrice a \<noteq> None else True)"

definition parse_cancel_order :: "(string \<Rightarrow> bool) \<Rightarrow> json \<Rightarrow> cancel_order option" where
  "parse_cancel_order is_uuid j =
     (case (z_uuid is_uuid (jget j ''clientOrderId''), z_string1 (jget j ''instrument''),
            z_string1 (jget j ''strategyId'')) of
        (Some c, Some i, Some s) \<Rightarrow>
          Some \<lparr>co_clientOrderId = c, co_instrument = i, co_strategyId = s\<rparr>
      | _ \<Rightarrow> None)"

definition parse_modify_order :: "(string \<Rightarrow> bool) \<Rightarrow> json \<Rightarrow> modify_order option" where
  "parse_modify_order is_uuid j =
     (case (z_uuid is_uuid (jget j ''clientOrderId''), z_string1 (jget j ''instrument''),
            z_positive_opt (jget j ''newQuantity''), z_positive_opt (jget j ''newPrice''),
            z_string1 (jget j ''strategyId'')) of
        (Some c, Some i, Some q, Some p, Some s) \<Rightarrow>
          Some \<lparr>mo_clientOrderId = c, mo_instrument = i, mo_newQuantity = q,
                mo_newPrice = p, mo_strategyId = s\<rparr>
      | _ \<Rightarrow> None)"

definition refine_modify_order :: "modify_order \<Rightarrow> bool" where
  "refine_modify_order a \<longleftrightarrow> mo_newQuantity a \<noteq> None \<or> mo_newPrice a \<noteq> None"

definition parse_close_position :: "json \<Rightarrow> close_position option" where
  "parse_close_position j =
     (case (z_string1 (jget j ''instrument''), z_string1 (jget j ''strategyId'')) of
        (Some i, Some s) \<Rightarrow> Some \<lparr>cp_instrument = i, cp_strategyId = s\<rparr>
      | _ \<Rightarrow> None)"

definition parse_human_review :: "json \<Rightarrow> human_review option" where
  "parse_human_review j =
     (case (z_string1 (jget j ''reason''), z_record (jget j ''context''),
            z_string1 (jget j ''strategyId'')) of
        (Some r, Some c, Some s) \<Rightarrow>
          Some \<lparr>hr_reason = r, hr_context = c, hr_strategyId = s\<rparr>
      | _ \<Rightarrow> None)"

text \<open>\<open>AgentActionSchema.safeParse\<close>: the union is discriminated by the field \<open>type\<close> and
  uses the unrefined shapes.\<close>

definition parse_agent_action :: "(string \<Rightarrow> bool) \<Rightarrow> json \<Rightarrow> agent_action option" where
  "parse_agent_action is_uuid j =
     (case jget j ''type'' of
        Some (JStr t) \<Rightarrow>
          (if t = ''PlaceOrder'' then map_option PlaceOrder (parse_place_order is_uuid j)
           else if t = ''CancelOrder'' then map_option CancelOrder (parse_cancel_order is_uuid j)
           else if t = ''ModifyOrder'' then map_option ModifyOrder (parse_modify_order is_uuid j)
           else if t = ''ClosePosition'' then map_option ClosePosition (parse_close_position j)
           else if t = ''RequestHumanReview''
             then map_option RequestHumanReview (parse_human_review j)
           else if t = ''NoAction''
             then map_option NoAction (z_string1 (jget j ''reason''))
           else None)
      | _ \<Rightarrow> None)"

subsection \<open>Portfolio snapshots\<close>

record position =
  ps_instrument :: string
  ps_quantity :: real
  ps_averageEntryPrice :: real
  ps_currentPrice :: real
  ps_unrealizedPnl :: real
  ps_notionalValue :: real

record portfolio =
  pf_positions :: "position list"
  pf_totalNotional :: real
  pf_totalUnrealizedPnl :: real
  pf_drawdownPercent :: real

text \<open>\<open>portfolio.positions.find((p) => p.instrument === instrument)\<close>.\<close>

definition find_position :: "string \<Rightarrow> portfolio \<Rightarrow> position option" where
  "find_position i pf = List.find (\<lambda>p. ps_instrument p = i) (pf_positions pf)"

definition getCurrentQuantity :: "string \<Rightarrow> portfolio \<Rightarrow> real" where
  "getCurrentQuantity i pf =
     (case find_position i pf of Some p \<Rightarrow> ps_quantity p | None \<Rightarrow> 0)"

definition getCurrentNotional :: "string \<Rightarrow> portfolio \<Rightarrow> real" where
  "getCurrentNotional i pf =
     (case find_position i pf of Some p \<Rightarrow> ps_notionalValue p | None \<Rightarrow> 0)"

text \<open>\<open>PortfolioSnapshotSchema\<close>: the ranges that zod checks.\<close>

definition portfolio_ok :: "portfolio \<Rightarrow> bool" where
  "portfolio_ok pf \<longleftrightarrow> 0 \<le> pf_totalNotional pf \<and>
     list_all (\<lambda>p. ps_instrument p \<noteq> [] \<and> 0 \<le> ps_averageEntryPrice p \<and>
                   0 \<le> ps_currentPrice p \<and> 0 \<le> ps_notionalValue p) (pf_positions pf)"

lemma find_position_SomeD:
  "find_position i pf = Some p \<Longrightarrow> p \<in> set (pf_positions pf) \<and> ps_instrument p = i"
  unfolding find_position_def by (auto simp: find_Some_iff)

lemma portfolio_ok_notional [simp]: "portfolio_ok pf \<Longrightarrow> 0 \<le> getCurrentNotional i pf"
  by (auto simp: portfolio_ok_def getCurrentNotional_def list_all_iff
      dest!: find_position_SomeD split: option.split)

subsection \<open>What a parsed action satisfies\<close>

definition place_order_ok :: "place_order \<Rightarrow> bool" where
  "place_order_ok a \<longleftrightarrow> po_instrument a \<noteq> [] \<and> 0 < po_quantity a \<and>
     pred_option (\<lambda>p. 0 < p) (po_price a) \<and> pred_option (\<lambda>p. 0 < p) (po_stopPrice a) \<and>
     po_strategyId a \<noteq> []"

lemma z_string1_SomeD: "z_string1 v = Some s \<Longrightarrow> v = Some (JStr s) \<and> s \<noteq> []"
  by (cases v rule: z_string1.cases) (auto split: if_splits)

lemma z_positive_SomeD: "z_positive v = Some r \<Longrightarrow> v = Some (JNum r) \<and> 0 < r"
  by (cases v rule: z_positive.cases) (auto split: if_splits)

lemma z_positive_opt_SomeD: "z_positive_opt v = Some r \<Longrightarrow> pred_option (\<lambda>p. 0 < p) r"
  by (cases v) (auto dest: z_positive_SomeD)

lemma parse_place_order_ok:
  "parse_place_order u j = Some a \<Longrightarrow> place_order_ok a"
  by (auto simp: parse_place_order_def place_order_ok_def split: option.splits
      dest!: z_string1_SomeD z_positive_SomeD z_positive_opt_SomeD)

lemma parse_agent_action_type:
  "parse_agent_action u j = Some a \<Longrightarrow>
     jget j ''type'' = Some (JStr (action_type_str (type_of_action a)))"
  by (auto simp: parse_agent_action_def split: option.splits json.splits if_splits)

end
