(* ===== verification/Sec_Config.thy ===== *)
theory Sec_Config
  imports Actions
begin

text \<open>
  The security configuration (\<open>types/config.ts\<close>): its fields, the defaults of the zod
  schema and the ranges the schema checks. Fields that only locate files, keys or external
  endpoints are kept as strings.
\<close>

record rate_tier =
  rt_requests :: int
  rt_windowMs :: int

record config =
  jwtPublicKeyPath :: string
  jwtPrivateKeyPath :: string
  accessTokenExpirySeconds :: int
  refreshTokenExpirySeconds :: int
  mfaTotpIssuer :: string
  mfaStepUpThresholdRiskLevel :: risk_level
  deviceTrustScoreThreshold :: real
  deviceTrustScoreIncrement :: real
  marketDataStalenessThresholdMs :: int
  feedConsensusDivergenceThresholdPercent :: real
  feedSignaturePublicKeys :: "(string \<times> string) list"
  anomalyStdDevMultiplier :: real
  anomalyWindowSize :: int
  injectionDetectionThresholdScore :: real
  approvedTradingUniverse :: "string list"
  positionLimitsPerInstrument :: "(string \<times> real) list"
  portfolioNotionalLimit :: real
  sessionDrawdownKillSwitchPercent :: real
  velocityCircuitBreakerOrderCount :: int
  velocityCircuitBreakerWindowSeconds :: int
  errorRateConsecutiveRejectionCount :: int
  highValueConfirmationThreshold :: real
  washTradeDetectionWindowMs :: int
  layeringDetectionWindowMs :: int
  layeringCancelRatioThreshold :: real
  rateLimitUser :: rate_tier
  rateLimitStrategy :: rate_tier
  rateLimitInstrument :: rate_tier
  rateLimitExchange :: rate_tier
  redisUrl :: string
  secretsRotationPollIntervalSeconds :: int
  deadManSwitchHeartbeatTimeoutSeconds :: int
  auditLogOutputPath :: string
  hmacChainSecret :: string
  corsAllowedOrigins :: "string list"
  adminUserId :: string
  environment :: string

text \<open>The ranges of \<open>SecurityConfigSchema\<close> on the fields the components use.\<close>

definition tier_ok :: "rate_tier \<Rightarrow> bool" where
  "tier_ok r \<longleftrightarrow> 0 < rt_requests r \<and> 0 < rt_windowMs r"

definition config_ok :: "config \<Rightarrow> bool" where
  "config_ok c \<longleftrightarrow>
     0 < accessTokenExpirySeconds c \<and> 0 < refreshTokenExpirySeconds c \<and>
     0 \<le> deviceTrustScoreThreshold c \<and> deviceTrustScoreThreshold c \<le> 100 \<and>
     0 \<le> deviceTrustScoreIncrement c \<and> deviceTrustScoreIncrement c \<le> 100 \<and>
     0 < marketDataStalenessThresholdMs c \<and>
     0 \<le> feedConsensusDivergenceThresholdPercent c \<and>
     feedConsensusDivergenceThresholdPercent c \<le> 100 \<and>
     0 < anomalyStdDevMultiplier c \<and> 0 < anomalyWindowSize c \<and>
     0 \<le> injectionDetectionThresholdScore c \<and> injectionDetectionThresholdScore c \<le> 1 \<and>
     list_all (\<lambda>s. s \<noteq> []) (approvedTradingUniverse c) \<and>
     list_all (\<lambda>(_, l). 0 < l) (positionLimitsPerInstrument c) \<and>
     0 < portfolioNotionalLimit c \<and>
     0 \<le> sessionDrawdownKillSwitchPercent c \<and> sessionDrawdownKillSwitchPercent c \<le> 100 \<and>
     0 < velocityCircuitBreakerOrderCount c \<and> 0 < velocityCircuitBreakerWindowSeconds c \<and>
     0 < errorRateConsecutiveRejectionCount c \<and> 0 < highValueConfirmationThreshold c \<and>
     0 < washTradeDetectionWindowMs c \<and> 0 < layeringDetectionWindowMs c \<and>
     0 \<le> layeringCancelRatioThreshold c \<and> layeringCancelRatioThreshold c \<le> 1 \<and>
     tier_ok (rateLimitUser c) \<and> tier_ok (rateLimitStrategy c) \<and>
     tier_ok (rateLimitInstrument c) \<and> tier_ok (rateLimitExchange c) \<and>
     0 < secretsRotationPollIntervalSeconds c \<and> 0 < deadManSwitchHeartbeatTimeoutSeconds c \<and>
     auditLogOutputPath c \<noteq> [] \<and> 32 \<le> length (hmacChainSecret c) \<and> adminUserId c \<noteq> [] \<and>
     environment c \<in> {''development'', ''staging'', ''production''}"

text \<open>The defaults of the schema. Of the required fields, the HMAC secret and the administrator
  are arguments and the two key paths are fixed names.\<close>

definition default_config :: "string \<Rightarrow> string \<Rightarrow> config" where
  "default_config secret admin = \<lparr>
     jwtPublicKeyPath = ''pub'', jwtPrivateKeyPath = ''priv'',
     accessTokenExpirySeconds = 900, refreshTokenExpirySeconds = 86400,
     mfaTotpIssuer = ''SuperAI'', mfaStepUpThresholdRiskLevel = HIGH,
     deviceTrustScoreThreshold = 70, deviceTrustScoreIncrement = 5,
     marketDataStalenessThresholdMs = 5000,
     feedConsensusDivergenceThresholdPercent = 3 / 2, feedSignaturePublicKeys = [],
     anomalyStdDevMultiplier = 3, anomalyWindowSize = 100,
     injectionDetectionThresholdScore = 7 / 10,
     approvedTradingUniverse = [], positionLimitsPerInstrument = [],
     portfolioNotionalLimit = 1000000, sessionDrawdownKillSwitchPercent = 10,
     velocityCircuitBreakerOrderCount = 50, velocityCircuitBreakerWindowSeconds = 60,
     errorRateConsecutiveRejectionCount = 5, highValueConfirmationThreshold = 50000,
     washTradeDetectionWindowMs = 1000, layeringDetectionWindowMs = 5000,
     layeringCancelRatioThreshold = 8 / 10,
     rateLimitUser = \<lparr>rt_requests = 100, rt_windowMs = 60000\<rparr>,
     rateLimitStrategy = \<lparr>rt_requests = 50, rt_windowMs = 60000\<rparr>,
     rateLimitInstrument = \<lparr>rt_requests = 200, rt_windowMs = 60000\<rparr>,
     rateLimitExchange = \<lparr>rt_requests = 1000, rt_windowMs = 60000\<rparr>,
     redisUrl = ''redis://localhost:6379'',
     secretsRotationPollIntervalSeconds = 300, deadManSwitchHeartbeatTimeoutSeconds = 120,
     auditLogOutputPath = ''./logs/audit.jsonl'', hmacChainSecret = secret,
     corsAllowedOrigins = [''http://localhost:3001''], adminUserId = admin,
     environment = ''development''\<rparr>"

lemma default_config_ok:
  "32 \<le> length secret \<Longrightarrow> admin \<noteq> [] \<Longrightarrow> config_ok (default_config secret admin)"
  by (simp add: config_ok_def default_config_def tier_ok_def)

text \<open>\<open>config.positionLimitsPerInstrument[instrument]\<close>; \<open>None\<close> is \<open>undefined\<close>.\<close>

definition instrument_limit :: "config \<Rightarrow> string \<Rightarrow> real option" where
  "instrument_limit c i = map_of (positionLimitsPerInstrument c) i"

lemma instrument_limit_pos: "config_ok c \<Longrightarrow> instrument_limit c i = Some l \<Longrightarrow> 0 < l"
  by (auto simp: config_ok_def instrument_limit_def list_all_iff dest!: map_of_SomeD)

end
