(* ===== verification/Redis_Store.thy ===== *)
theory Redis_Store
  imports Sec_Config "HOL-Library.AList"
begin

text \<open>
  The Redis interface. The server and the \<open>ioredis\<close> client are not part of the
  repository: a client is a record of functions over an abstract server state \<open>'s\<close>
  (\<open>ioredis\<close>), and what the code relies on is stated as locales, one per kind of key,
  whose assumptions are documented behaviour of Redis: GET after SET / SETEX / DEL, the
  counter of INCR, the deadline set by EXPIRE, list and hash and sorted-set reads. The
  instant of expiry itself is left open (alive before, gone after).

  The two adapters of the repository, \<open>RedisAdapter\<close> (\<open>security/rate-limit\<close>) and
  \<open>SecurityRedisService\<close> (\<open>apps/api\<close>), are translated from the source and shown to
  provide those interfaces from any client that does. They differ in one operation: a
  third argument of \<open>set\<close> is a time-to-live for the second and is dropped by the first.
\<close>

subsection \<open>The interfaces\<close>

locale kv_store =
  fixes get :: "int \<Rightarrow> 's \<Rightarrow> string \<Rightarrow> json option"
    and put :: "int \<Rightarrow> string \<Rightarrow> json \<Rightarrow> 's \<Rightarrow> 's"
    and setex :: "int \<Rightarrow> string \<Rightarrow> int \<Rightarrow> json \<Rightarrow> 's \<Rightarrow> 's"
    and del :: "int \<Rightarrow> string \<Rightarrow> 's \<Rightarrow> 's"
  assumes get_put_same: "t \<le> t' \<Longrightarrow> get t' (put t k v s) k = Some v"
    and get_put_other: "k' \<noteq> k \<Longrightarrow> get t' (put t k v s) k' = get t' s k'"
    and get_setex_live:
      "t \<le> t' \<Longrightarrow> t' < t + ttl * 1000 \<Longrightarrow> get t' (setex t k ttl v s) k = Some v"
    and get_setex_dead:
      "0 < ttl \<Longrightarrow> t + ttl * 1000 < t' \<Longrightarrow> get t' (setex t k ttl v s) k = None"
    and get_setex_other: "k' \<noteq> k \<Longrightarrow> get t' (setex t k ttl v s) k' = get t' s k'"
    and get_del_same: "t \<le> t' \<Longrightarrow> get t' (del t k s) k = None"
    and get_del_other: "k' \<noteq> k \<Longrightarrow> get t' (del t k s) k' = get t' s k'"
    and get_mono: "get t' s k = Some v \<Longrightarrow> t \<le> t' \<Longrightarrow> get t s k = Some v"
begin

lemma get_put: "t \<le> t' \<Longrightarrow>
    get t' (put t k v s) k' = (if k' = k then Some v else get t' s k')"
  by (simp add: get_put_same get_put_other)

lemma get_del: "t \<le> t' \<Longrightarrow>
    get t' (del t k s) k' = (if k' = k then None else get t' s k')"
  by (simp add: get_del_same get_del_other)

text \<open>A key that is gone stays gone until it is written again.\<close>

lemma get_None_mono: "get t s k = None \<Longrightarrow> t \<le> t' \<Longrightarrow> get t' s k = None"
  using get_mono [of t' s k _ t] by (cases "get t' s k") auto

end

text \<open>Counters: INCR creates a missing key at 1 with no deadline and keeps the deadline
  of an existing one; EXPIRE sets a deadline.\<close>

locale counter_store = kv_store get put setex del
  for get :: "int \<Rightarrow> 's \<Rightarrow> string \<Rightarrow> json option"
    and put :: "int \<Rightarrow> string \<Rightarrow> json \<Rightarrow> 's \<Rightarrow> 's"
    and setex :: "int \<Rightarrow> string \<Rightarrow> int \<Rightarrow> json \<Rightarrow> 's \<Rightarrow> 's"
    and del :: "int \<Rightarrow> string \<Rightarrow> 's \<Rightarrow> 's" +
  fixes incr :: "int \<Rightarrow> string \<Rightarrow> 's \<Rightarrow> int \<times> 's"
    and expire :: "int \<Rightarrow> string \<Rightarrow> int \<Rightarrow> 's \<Rightarrow> 's"
  assumes incr_absent: "get t s k = None \<Longrightarrow> fst (incr t k s) = 1"
    and incr_present: "get t s k = Some (JNum (of_int n)) \<Longrightarrow> fst (incr t k s) = n + 1"
    and get_incr_absent:
      "get t s k = None \<Longrightarrow> t \<le> t' \<Longrightarrow> get t' (snd (incr t k s)) k = Some (JNum 1)"
    and get_incr_present:
      "get t s k = Some (JNum (of_int n)) \<Longrightarrow> t \<le> t' \<Longrightarrow>
       get t' (snd (incr t k s)) k = map_option (\<lambda>_. JNum (of_int (n + 1))) (get t' s k)"
    and get_incr_other: "k' \<noteq> k \<Longrightarrow> get t' (snd (incr t k s)) k' = get t' s k'"
    and get_expire_live:
      "t \<le> t' \<Longrightarrow> t' < t + n * 1000 \<Longrightarrow> get t' (expire t k n s) k = get t s k"
    and get_expire_dead:
      "0 < n \<Longrightarrow> t + n * 1000 < t' \<Longrightarrow> get t' (expire t k n s) k = None"
    and get_expire_other: "k' \<noteq> k \<Longrightarrow> get t' (expire t k n s) k' = get t' s k'"

text \<open>Lists, read with LRANGE \<open>0 -1\<close>.\<close>

locale list_store =
  fixes range :: "int \<Rightarrow> 's \<Rightarrow> string \<Rightarrow> json list"
    and lpush :: "int \<Rightarrow> string \<Rightarrow> json \<Rightarrow> 's \<Rightarrow> 's"
    and ltrim :: "int \<Rightarrow> string \<Rightarrow> int \<Rightarrow> int \<Rightarrow> 's \<Rightarrow> 's"
    and expire :: "int \<Rightarrow> string \<Rightarrow> int \<Rightarrow> 's \<Rightarrow> 's"
  assumes range_lpush_same: "range t (lpush t k v s) k = v # range t s k"
    and range_lpush_other: "k' \<noteq> k \<Longrightarrow> range t' (lpush t k v s) k' = range t' s k'"
    and range_ltrim_same:
      "0 \<le> m \<Longrightarrow> range t (ltrim t k 0 m s) k = take (nat (m + 1)) (range t s k)"
    and range_ltrim_other: "k' \<noteq> k \<Longrightarrow> range t' (ltrim t k a m s) k' = range t' s k'"
    and range_expire_live:
      "t \<le> t' \<Longrightarrow> t' < t + n * 1000 \<Longrightarrow> range t' (expire t k n s) k = range t s k"
    and range_expire_dead:
      "0 < n \<Longrightarrow> t + n * 1000 < t' \<Longrightarrow> range t' (expire t k n s) k = []"
    and range_mono: "t \<le> t' \<Longrightarrow> range t' s k = [] \<or> range t' s k = range t s k"

text \<open>Hashes: HGETALL lists each field once.\<close>

locale hash_store =
  fixes all :: "int \<Rightarrow> 's \<Rightarrow> string \<Rightarrow> (string \<times> json) list"
    and hset :: "int \<Rightarrow> string \<Rightarrow> string \<Rightarrow> json \<Rightarrow> 's \<Rightarrow> 's"
    and hdel :: "int \<Rightarrow> string \<Rightarrow> string \<Rightarrow> 's \<Rightarrow> 's"
  assumes all_hset: "map_of (all t (hset t k f v s) k) = (map_of (all t s k))(f \<mapsto> v)"
    and all_hdel: "map_of (all t (hdel t k f s) k) = (map_of (all t s k))(f := None)"
    and all_distinct: "distinct (map fst (all t s k))"

text \<open>Sorted sets: \<open>view\<close> is the set of members with their scores, of which the code
  only reads the cardinality.\<close>

locale zset_store =
  fixes zadd :: "int \<Rightarrow> string \<Rightarrow> int \<Rightarrow> string \<Rightarrow> 's \<Rightarrow> 's"
    and zrem :: "int \<Rightarrow> string \<Rightarrow> int \<Rightarrow> int \<Rightarrow> 's \<Rightarrow> 's"
    and zcard :: "int \<Rightarrow> 's \<Rightarrow> string \<Rightarrow> int"
    and expire :: "int \<Rightarrow> string \<Rightarrow> int \<Rightarrow> 's \<Rightarrow> 's"
    and view :: "int \<Rightarrow> 's \<Rightarrow> string \<Rightarrow> (string \<times> int) set"
  assumes view_finite: "finite (view t s k)"
    and zcard_view: "zcard t s k = int (card (view t s k))"
    and view_zadd_same:
      "view t (zadd t k c m s) k = insert (m, c) {x \<in> view t s k. fst x \<noteq> m}"
    and view_zadd_other: "k' \<noteq> k \<Longrightarrow> view t' (zadd t k c m s) k' = view t' s k'"
    and view_zrem_same:
      "t \<le> t' \<Longrightarrow>
       view t' (zrem t k lo hi s) k = {x \<in> view t' s k. \<not> (lo \<le> snd x \<and> snd x \<le> hi)}"
    and view_zrem_other: "k' \<noteq> k \<Longrightarrow> view t' (zrem t k lo hi s) k' = view t' s k'"
    and view_expire_live:
      "t \<le> t' \<Longrightarrow> t' < t + n * 1000 \<Longrightarrow> view t' (expire t k n s) k = view t s k"
    and view_expire_dead:
      "0 < n \<Longrightarrow> t + n * 1000 < t' \<Longrightarrow> view t' (expire t k n s) k = {}"
    and view_expire_other: "k' \<noteq> k \<Longrightarrow> view t' (expire t k n s) k' = view t' s k'"
    and view_mono: "t \<le> t' \<Longrightarrow> view t' s k = {} \<or> view t' s k = view t s k"

subsection \<open>The client and the adapters\<close>

record 's ioredis =
  c_get :: "int \<Rightarrow> 's \<Rightarrow> string \<Rightarrow> json option"
  c_set :: "int \<Rightarrow> string \<Rightarrow> json \<Rightarrow> 's \<Rightarrow> 's"
  c_setex :: "int \<Rightarrow> string \<Rightarrow> int \<Rightarrow> json \<Rightarrow> 's \<Rightarrow> 's"
  c_del :: "int \<Rightarrow> string \<Rightarrow> 's \<Rightarrow> 's"
  c_incr :: "int \<Rightarrow> string \<Rightarrow> 's \<Rightarrow> int \<times> 's"
  c_expire :: "int \<Rightarrow> string \<Rightarrow> int \<Rightarrow> 's \<Rightarrow> 's"
  c_lpush :: "int \<Rightarrow> string \<Rightarrow> json \<Rightarrow> 's \<Rightarrow> 's"
  c_ltrim :: "int \<Rightarrow> string \<Rightarrow> int \<Rightarrow> int \<Rightarrow> 's \<Rightarrow> 's"
  c_lrange :: "int \<Rightarrow> 's \<Rightarrow> string \<Rightarrow> json list"
  c_hset :: "int \<Rightarrow> string \<Rightarrow> string \<Rightarrow> json \<Rightarrow> 's \<Rightarrow> 's"
  c_hdel :: "int \<Rightarrow> string \<Rightarrow> string \<Rightarrow> 's \<Rightarrow> 's"
  c_hgetall :: "int \<Rightarrow> 's \<Rightarrow> string \<Rightarrow> (string \<times> json) list"
  c_zadd :: "int \<Rightarrow> string \<Rightarrow> int \<Rightarrow> string \<Rightarrow> 's \<Rightarrow> 's"
  c_zremrangebyscore :: "int \<Rightarrow> string \<Rightarrow> int \<Rightarrow> int \<Rightarrow> 's \<Rightarrow> 's"
  c_zcard :: "int \<Rightarrow> 's \<Rightarrow> string \<Rightarrow> int"

text \<open>The interface the components declare: \<open>set\<close> takes an optional time-to-live.\<close>

record 's redis =
  rget :: "int \<Rightarrow> 's \<Rightarrow> string \<Rightarrow> json option"
  rset :: "int \<Rightarrow> string \<Rightarrow> json \<Rightarrow> int option \<Rightarrow> 's \<Rightarrow> 's"
  rsetex :: "int \<Rightarrow> string \<Rightarrow> int \<Rightarrow> json \<Rightarrow> 's \<Rightarrow> 's"
  rdel :: "int \<Rightarrow> string \<Rightarrow> 's \<Rightarrow> 's"
  rincr :: "int \<Rightarrow> string \<Rightarrow> 's \<Rightarrow> int \<times> 's"
  rexpire :: "int \<Rightarrow> string \<Rightarrow> int \<Rightarrow> 's \<Rightarrow> 's"
  rlpush :: "int \<Rightarrow> string \<Rightarrow> json \<Rightarrow> 's \<Rightarrow> 's"
  rltrim :: "int \<Rightarrow> string \<Rightarrow> int \<Rightarrow> int \<Rightarrow> 's \<Rightarrow> 's"
  rlrange :: "int \<Rightarrow> 's \<Rightarrow> string \<Rightarrow> json list"
  rhset :: "int \<Rightarrow> string \<Rightarrow> string \<Rightarrow> json \<Rightarrow> 's \<Rightarrow> 's"
  rhdel :: "int \<Rightarrow> string \<Rightarrow> string \<Rightarrow> 's \<Rightarrow> 's"
  rhgetall :: "int \<Rightarrow> 's \<Rightarrow> string \<Rightarrow> (string \<times> json) list"

text \<open>Only \<open>RedisAdapter\<close> has the sorted-set operations.\<close>

record 's redis_z = "'s redis" +
  rzadd :: "int \<Rightarrow> string \<Rightarrow> int \<Rightarrow> string \<Rightarrow> 's \<Rightarrow> 's"
  rzremrangebyscore :: "int \<Rightarrow> string \<Rightarrow> int \<Rightarrow> int \<Rightarrow> 's \<Rightarrow> 's"
  rzcard :: "int \<Rightarrow> 's \<Rightarrow> string \<Rightarrow> int"

text \<open>\<open>RedisAdapter\<close>: \<open>set(key, value)\<close> passes two arguments to the client, so the
  time-to-live that some callers hand over as a third one is dropped.\<close>

definition RedisAdapter :: "'s ioredis \<Rightarrow> 's redis_z" where
  "RedisAdapter c = \<lparr>
     rget = c_get c,
     rset = (\<lambda>t k v _. c_set c t k v),
     rsetex = c_setex c,
     rdel = c_del c,
     rincr = c_incr c,
     rexpire = c_expire c,
     rlpush = c_lpush c,
     rltrim = c_ltrim c,
     rlrange = c_lrange c,
     rhset = c_hset c,
     rhdel = c_hdel c,
     rhgetall = c_hgetall c,
     rzadd = c_zadd c,
     rzremrangebyscore = c_zremrangebyscore c,
     rzcard = c_zcard c\<rparr>"

definition SecurityRedisService :: "'s ioredis \<Rightarrow> 's redis" where
  "SecurityRedisService c = \<lparr>
     rget = c_get c,
     rset = (\<lambda>t k v ttl. case ttl of
               Some n \<Rightarrow> if 0 < n then c_setex c t k n v else c_set c t k v
             | None \<Rightarrow> c_set c t k v),
     rsetex = c_setex c,
     rdel = c_del c,
     rincr = c_incr c,
     rexpire = c_expire c,
     rlpush = c_lpush c,
     rltrim = c_ltrim c,
     rlrange = c_lrange c,
     rhset = c_hset c,
     rhdel = c_hdel c,
     rhgetall = c_hgetall c\<rparr>"

text \<open>
  The contracts on records: \<open>redis_kv\<close> and its extensions are what the components assume
  of the adapter they are given; \<open>redis_ttl\<close> adds that \<open>set\<close> honours its third argument.
\<close>

locale redis_kv = kv_store "rget R" "\<lambda>t k v. rset R t k v None" "rsetex R" "rdel R"
  for R :: "('s, 'z) redis_scheme"

locale redis_counter = counter_store "rget R" "\<lambda>t k v. rset R t k v None" "rsetex R" "rdel R"
    "rincr R" "rexpire R"
  for R :: "('s, 'z) redis_scheme"

sublocale redis_counter \<subseteq> redis_kv ..

locale redis_ttl = redis_kv R for R :: "('s, 'z) redis_scheme" +
  assumes set_ttl: "0 < n \<Longrightarrow> rset R t k v (Some n) = rsetex R t k n v"

locale redis_drop = redis_kv R for R :: "('s, 'z) redis_scheme" +
  assumes set_drop: "rset R t k v (Some n) = rset R t k v None"

text \<open>What holds of either adapter: the value is readable until the time-to-live has
  passed, and other keys are untouched.\<close>

locale redis_any_ttl = redis_kv R for R :: "('s, 'z) redis_scheme" +
  assumes set_cases: "0 < n \<Longrightarrow> rset R t k v (Some n) = rset R t k v None \<or>
    rset R t k v (Some n) = rsetex R t k n v"
begin

lemma get_set_live:
  "0 < n \<Longrightarrow> t \<le> t' \<Longrightarrow> t' < t + n * 1000 \<Longrightarrow> rget R t' (rset R t k v (Some n) s) k = Some v"
  using set_cases [of n t k v] by (auto simp: get_put_same get_setex_live)

lemma get_set_other:
  "0 < n \<Longrightarrow> k' \<noteq> k \<Longrightarrow> rget R t' (rset R t k v (Some n) s) k' = rget R t' s k'"
  using set_cases [of n t k v] by (auto simp: get_put_other get_setex_other)

text \<open>Later the key holds the value or nothing.\<close>

lemma get_set_later:
  "0 < n \<Longrightarrow> t \<le> t' \<Longrightarrow> rget R t' (rset R t k v (Some n) s) k \<in> {None, Some v}"
  using get_set_live [of n t t k v s] get_mono [of t' "rset R t k v (Some n) s" k _ t]
  by (cases "rget R t' (rset R t k v (Some n) s) k") auto

end

sublocale redis_ttl \<subseteq> redis_any_ttl
  by unfold_locales (simp add: set_ttl)

sublocale redis_drop \<subseteq> redis_any_ttl
  by unfold_locales (simp add: set_drop)

locale redis_list = list_store "rlrange R" "rlpush R" "rltrim R" "rexpire R"
  for R :: "('s, 'z) redis_scheme"

text \<open>\<open>view\<close> is the content of the sorted sets, which no operation returns.\<close>

locale redis_zset = zset_store "rzadd R" "rzremrangebyscore R" "rzcard R" "rexpire R" view
  for R :: "('s, 'z) redis_z_scheme" and view :: "int \<Rightarrow> 's \<Rightarrow> string \<Rightarrow> (string \<times> int) set"

locale redis_hash = hash_store "rhgetall R" "rhset R" "rhdel R"
  for R :: "('s, 'z) redis_scheme"

text \<open>A client that behaves as documented.\<close>

locale ioredis_client =
  kv: counter_store "c_get c" "c_set c" "c_setex c" "c_del c" "c_incr c" "c_expire c" +
  ls: list_store "c_lrange c" "c_lpush c" "c_ltrim c" "c_expire c" +
  hs: hash_store "c_hgetall c" "c_hset c" "c_hdel c"
  for c :: "'s ioredis"

text \<open>Both adapters provide the components' interfaces from any such client.\<close>

sublocale ioredis_client \<subseteq> adapter: redis_counter "RedisAdapter c"
  using kv.counter_store_axioms by (simp add: redis_counter_def RedisAdapter_def)

sublocale ioredis_client \<subseteq> service: redis_counter "SecurityRedisService c"
  using kv.counter_store_axioms by (simp add: redis_counter_def SecurityRedisService_def)

sublocale ioredis_client \<subseteq> service: redis_ttl "SecurityRedisService c"
  by unfold_locales (simp add: SecurityRedisService_def)

sublocale ioredis_client \<subseteq> adapter: redis_drop "RedisAdapter c"
  by unfold_locales (simp add: RedisAdapter_def)

sublocale ioredis_client \<subseteq> adapter: redis_list "RedisAdapter c"
  using ls.list_store_axioms by (simp add: redis_list_def RedisAdapter_def)

sublocale ioredis_client \<subseteq> service: redis_list "SecurityRedisService c"
  using ls.list_store_axioms by (simp add: redis_list_def SecurityRedisService_def)

sublocale ioredis_client \<subseteq> adapter: redis_hash "RedisAdapter c"
  using hs.hash_store_axioms by (simp add: redis_hash_def RedisAdapter_def)

sublocale ioredis_client \<subseteq> service: redis_hash "SecurityRedisService c"
  using hs.hash_store_axioms by (simp add: redis_hash_def SecurityRedisService_def)

subsection \<open>An in-memory client\<close>

text \<open>
  A concrete client with the documented behaviour, used to evaluate the components on
  concrete inputs: each entry is a value with an optional deadline, and an entry is gone
  once the clock has passed its deadline.
\<close>

record mem =
  m_kv :: "string \<Rightarrow> (json \<times> int option) option"
  m_ls :: "string \<Rightarrow> (json list \<times> int option) option"
  m_hs :: "string \<Rightarrow> ((string \<times> json) list \<times> int option) option"
  m_zs :: "string \<Rightarrow> ((string \<times> int) list \<times> int option) option"

definition mem_empty :: mem where
  "mem_empty = \<lparr>m_kv = (\<lambda>_. None), m_ls = (\<lambda>_. None), m_hs = (\<lambda>_. None), m_zs = (\<lambda>_. None)\<rparr>"

definition alive :: "int \<Rightarrow> ('v \<times> int option) option \<Rightarrow> 'v option" where
  "alive t e = (case e of
      None \<Rightarrow> None
    | Some (v, d) \<Rightarrow> (case d of None \<Rightarrow> Some v | Some d \<Rightarrow> if d < t then None else Some v))"

lemma alive_simps [simp]:
  "alive t None = None"
  "alive t (Some (v, None)) = Some v"
  "alive t (Some (v, Some d)) = (if d < t then None else Some v)"
  by (simp_all add: alive_def)

text \<open>The deadline that a write in place keeps.\<close>

definition kept :: "int \<Rightarrow> ('v \<times> int option) option \<Rightarrow> int option" where
  "kept t e = (case alive t e of None \<Rightarrow> None | Some _ \<Rightarrow> snd (the e))"

definition redeadline :: "int \<Rightarrow> int \<Rightarrow> ('v \<times> int option) option \<Rightarrow> ('v \<times> int option) option" where
  "redeadline t d e = (case alive t e of None \<Rightarrow> None | Some v \<Rightarrow> Some (v, Some d))"

definition contents :: "int \<Rightarrow> ('v list \<times> int option) option \<Rightarrow> 'v list" where
  "contents t e = (case alive t e of None \<Rightarrow> [] | Some xs \<Rightarrow> xs)"

text \<open>A collection without members is no key, so it has no deadline to keep.\<close>

definition kept_coll :: "int \<Rightarrow> ('v list \<times> int option) option \<Rightarrow> int option" where
  "kept_coll t e = (if contents t e = [] then None else kept t e)"

definition mem_put :: "string \<Rightarrow> (json \<times> int option) option \<Rightarrow> mem \<Rightarrow> mem" where
  "mem_put k e m = m\<lparr>m_kv := (m_kv m)(k := e)\<rparr>"

definition mem_incr :: "int \<Rightarrow> string \<Rightarrow> mem \<Rightarrow> int \<times> mem" where
  "mem_incr t k m =
     (let n = (case alive t (m_kv m k) of Some (JNum r) \<Rightarrow> \<lfloor>r\<rfloor> + 1 | _ \<Rightarrow> 1)
      in (n, mem_put k (Some (JNum (of_int n), kept t (m_kv m k))) m))"

definition mem_expire :: "int \<Rightarrow> string \<Rightarrow> int \<Rightarrow> mem \<Rightarrow> mem" where
  "mem_expire t k n m =
     (let d = t + n * 1000
      in \<lparr>m_kv = (m_kv m)(k := redeadline t d (m_kv m k)),
          m_ls = (m_ls m)(k := redeadline t d (m_ls m k)),
          m_hs = (m_hs m)(k := redeadline t d (m_hs m k)),
          m_zs = (m_zs m)(k := redeadline t d (m_zs m k))\<rparr>)"

definition mem_del :: "string \<Rightarrow> mem \<Rightarrow> mem" where
  "mem_del k m = \<lparr>m_kv = (m_kv m)(k := None), m_ls = (m_ls m)(k := None),
     m_hs = (m_hs m)(k := None), m_zs = (m_zs m)(k := None)\<rparr>"

definition mem_client :: "mem ioredis" where
  "mem_client = \<lparr>
     c_get = (\<lambda>t m k. alive t (m_kv m k)),
     c_set = (\<lambda>t k v. mem_put k (Some (v, None))),
     c_setex = (\<lambda>t k n v. mem_put k (Some (v, Some (t + n * 1000)))),
     c_del = (\<lambda>t k. mem_del k),
     c_incr = mem_incr,
     c_expire = mem_expire,
     c_lpush = (\<lambda>t k v m. m\<lparr>m_ls := (m_ls m)
        (k := Some (v # contents t (m_ls m k), kept_coll t (m_ls m k)))\<rparr>),
     c_ltrim = (\<lambda>t k a b m. m\<lparr>m_ls := (m_ls m)
        (k := Some (drop (nat a) (take (nat (b + 1)) (contents t (m_ls m k))),
              kept_coll t (m_ls m k)))\<rparr>),
     c_lrange = (\<lambda>t m k. contents t (m_ls m k)),
     c_hset = (\<lambda>t k f v m. m\<lparr>m_hs := (m_hs m)
        (k := Some (AList.update f v (contents t (m_hs m k)), kept_coll t (m_hs m k)))\<rparr>),
     c_hdel = (\<lambda>t k f m. m\<lparr>m_hs := (m_hs m)
        (k := Some (AList.delete f (contents t (m_hs m k)), kept_coll t (m_hs m k)))\<rparr>),
     c_hgetall = (\<lambda>t m k. AList.clearjunk (contents t (m_hs m k))),
     c_zadd = (\<lambda>t k c x m. m\<lparr>m_zs := (m_zs m)
        (k := Some ((x, c) # filter (\<lambda>p. fst p \<noteq> x) (contents t (m_zs m k)),
              kept_coll t (m_zs m k)))\<rparr>),
     c_zremrangebyscore = (\<lambda>t k lo hi m. m\<lparr>m_zs := (m_zs m)
        (k := Some (filter (\<lambda>p. \<not> (lo \<le> snd p \<and> snd p \<le> hi)) (contents t (m_zs m k)),
              kept_coll t (m_zs m k)))\<rparr>),
     c_zcard = (\<lambda>t m k. int (length (remdups (contents t (m_zs m k)))))\<rparr>"

lemma alive_mono: "alive t' e = Some v \<Longrightarrow> t \<le> t' \<Longrightarrow> alive t e = Some v"
  by (auto simp: alive_def split: option.splits if_splits)

lemma alive_redeadline:
  "t \<le> t' \<Longrightarrow> alive t' (redeadline t d e) = (if d < t' then None else alive t e)"
  by (auto simp: redeadline_def split: option.split)

lemma alive_kept:
  "t \<le> t' \<Longrightarrow> alive t' (Some (v, kept t e)) =
     (case alive t e of None \<Rightarrow> Some v | Some _ \<Rightarrow> map_option (\<lambda>_. v) (alive t' e))"
  by (auto simp: alive_def kept_def split: option.splits)

lemma contents_kept: "contents t (Some (xs, kept_coll t e)) = xs"
  by (auto simp: alive_def kept_def kept_coll_def contents_def split: option.splits)

lemma contents_filter_kept:
  "t \<le> t' \<Longrightarrow> contents t' (Some (filter P (contents t e), kept_coll t e)) = filter P (contents t' e)"
  by (auto simp: alive_def kept_def kept_coll_def contents_def split: option.splits)

lemma contents_mono: "t \<le> t' \<Longrightarrow> contents t' e = [] \<or> contents t' e = contents t e"
  by (auto simp: alive_def contents_def split: option.splits)

lemma contents_redeadline:
  "t \<le> t' \<Longrightarrow> contents t' (redeadline t d e) = (if d < t' then [] else contents t e)"
  by (simp add: contents_def alive_redeadline)

interpretation mem: ioredis_client mem_client
proof (unfold_locales, goal_cases)
  case (7 t t' s k)
  then show ?case by (simp add: mem_client_def mem_del_def)
next
  case (8 t' s k v t)
  then show ?case by (auto simp: mem_client_def intro: alive_mono)
qed (auto simp: mem_client_def mem_put_def mem_incr_def mem_expire_def mem_del_def
      alive_redeadline alive_kept contents_kept contents_redeadline contents_mono
      update_conv' delete_conv' map_of_clearjunk distinct_clearjunk Let_def
      split: option.splits)

interpretation mem_zset: zset_store "c_zadd mem_client" "c_zremrangebyscore mem_client"
    "c_zcard mem_client" "c_expire mem_client" "\<lambda>t m k. set (contents t (m_zs m k))"
proof (unfold_locales, goal_cases)
  case (10 t t' s k)
  then show ?case using contents_mono [of t t' "m_zs s k"] by auto
qed (auto simp: mem_client_def mem_expire_def contents_kept contents_redeadline contents_filter_kept
      length_remdups_card_conv Let_def)

abbreviation mem_view :: "int \<Rightarrow> mem \<Rightarrow> string \<Rightarrow> (string \<times> int) set" where
  "mem_view t m k \<equiv> set (contents t (m_zs m k))"

interpretation mem_adapter: redis_zset "RedisAdapter mem_client" mem_view
  using mem_zset.zset_store_axioms by (simp add: redis_zset_def RedisAdapter_def)

subsection \<open>The state an operation runs in\<close>

text \<open>The server and the effects emitted so far, oldest first.\<close>

record 's world =
  db :: 's
  out :: "effect list"

definition with_db :: "('s \<Rightarrow> 's) \<Rightarrow> 's world \<Rightarrow> 's world" where
  "with_db f w = w\<lparr>db := f (db w)\<rparr>"

definition emit :: "effect \<Rightarrow> 's world \<Rightarrow> 's world" where
  "emit e w = w\<lparr>out := out w @ [e]\<rparr>"

lemma world_simps [simp]:
  "db (with_db f w) = f (db w)" "out (with_db f w) = out w"
  "db (emit e w) = db w" "out (emit e w) = out w @ [e]"
  by (simp_all add: with_db_def emit_def)

definition mem_world :: "mem world" where
  "mem_world = \<lparr>db = mem_empty, out = []\<rparr>"

abbreviation adapter :: "mem redis_z" where
  "adapter \<equiv> RedisAdapter mem_client"

abbreviation service :: "mem redis" where
  "service \<equiv> SecurityRedisService mem_client"

lemma mem_empty_reads [simp]:
  "rget adapter t mem_empty k = None" "rget service t mem_empty k = None"
  "rlrange adapter t mem_empty k = []" "rlrange service t mem_empty k = []"
  by (simp_all add: RedisAdapter_def SecurityRedisService_def mem_client_def mem_empty_def
      contents_def)

lemma db_mem_world [simp]: "db mem_world = mem_empty" "out mem_world = []"
  by (simp_all add: mem_world_def)

text \<open>Unfolding equations that evaluate the in-memory store on concrete inputs.\<close>

lemmas mem_eval = RedisAdapter_def SecurityRedisService_def mem_client_def mem_empty_def
  mem_put_def mem_incr_def mem_expire_def mem_del_def redeadline_def kept_def kept_coll_def contents_def
  mem_world_def with_db_def emit_def Let_def

end
