(* ===== verification/Circuit_Breaker.thy ===== *)
theory Circuit_Breaker
  imports Redis_Store
begin

text \<open>
  The circuit breaker of \<open>security/risk/circuit.breaker.ts\<close>. Its state lives in three
  Redis keys per breaker; the operations are translated with their Redis calls and alerts.
  The abstract machine \<open>cb_abs\<close> with its transition relation is what the component
  promises, and \<open>cb_rep\<close> relates it to the three keys.
\<close>

subsection \<open>The operations\<close>

datatype (plugins only: code size) cb_state = CB_CLOSED | CB_OPEN | CB_HALF_OPEN

fun cb_state_str :: "cb_state \<Rightarrow> string" where
  "cb_state_str CB_CLOSED = ''CLOSED''"
| "cb_state_str CB_OPEN = ''OPEN''"
| "cb_state_str CB_HALF_OPEN = ''HALF_OPEN''"

record breaker =
  cb_name :: string
  cb_threshold :: int
  cb_windowMs :: int
  cb_resetTimeoutMs :: int

definition stateKey :: "string \<Rightarrow> string" where
  "stateKey n = ''cb:'' @ n @ '':state''"

definition failCountKey :: "string \<Rightarrow> string" where
  "failCountKey n = ''cb:'' @ n @ '':failures''"

definition openedAtKey :: "string \<Rightarrow> string" where
  "openedAtKey n = ''cb:'' @ n @ '':openedAt''"

definition transitionTo ::
  "('s, 'z) redis_scheme \<Rightarrow> breaker \<Rightarrow> int \<Rightarrow> cb_state \<Rightarrow> 's world \<Rightarrow> 's world" where
  "transitionTo R b now st =
     with_db (rset R now (stateKey (cb_name b)) (JStr (cb_state_str st)) None)"

definition openBreaker ::
  "('s, 'z) redis_scheme \<Rightarrow> breaker \<Rightarrow> int \<Rightarrow> tmpl \<Rightarrow> 's world \<Rightarrow> 's world" where
  "openBreaker R b now reason w =
     (let w1 = transitionTo R b now CB_OPEN w;
          w2 = with_db (rset R now (openedAtKey (cb_name b)) (JNum (of_int now)) None) w1;
          w3 = with_db (rdel R now (failCountKey (cb_name b))) w2
      in emit (Alert CRITICAL CIRCUIT_BREAKER_OPEN
           ([S ''Circuit breaker '', S (cb_name b), S '' opened: ''] @ reason)
           [(''breakerName'', JStr (cb_name b)), (''reason'', JText reason),
            (''threshold'', JNum (of_int (cb_threshold b))),
            (''currentCount'', JNum (of_int (cb_threshold b)))]) w3)"

definition getState ::
  "('s, 'z) redis_scheme \<Rightarrow> breaker \<Rightarrow> int \<Rightarrow> 's world \<Rightarrow> cb_state \<times> 's world" where
  "getState R b now w =
     (let stored = rget R now (db w) (stateKey (cb_name b)) in
      if stored = Some (JStr ''OPEN'') then
        (case rget R now (db w) (openedAtKey (cb_name b)) of
           Some v \<Rightarrow>
             (case js_number v of
                Some openedAt \<Rightarrow>
                  if of_int now - openedAt \<ge> of_int (cb_resetTimeoutMs b) then
                    (CB_HALF_OPEN,
                     emit (Alert MEDIUM CIRCUIT_BREAKER_HALF_OPEN
                        [S ''Circuit breaker '', S (cb_name b),
                         S '' is now half-open, allowing probe'']
                        [(''breakerName'', JStr (cb_name b)), (''testAction'', JStr ''probe'')])
                       (transitionTo R b now CB_HALF_OPEN w))
                  else (CB_OPEN, w)
              | None \<Rightarrow> (CB_OPEN, w))
         | None \<Rightarrow> (CB_OPEN, w))
      else if stored = Some (JStr ''HALF_OPEN'') then (CB_HALF_OPEN, w)
      else (CB_CLOSED, w))"

definition isOpen ::
  "('s, 'z) redis_scheme \<Rightarrow> breaker \<Rightarrow> int \<Rightarrow> 's world \<Rightarrow> bool \<times> 's world" where
  "isOpen R b now w = (let (st, w') = getState R b now w in (st = CB_OPEN, w'))"

definition recordSuccess ::
  "('s, 'z) redis_scheme \<Rightarrow> breaker \<Rightarrow> int \<Rightarrow> 's world \<Rightarrow> 's world" where
  "recordSuccess R b now w =
     (let (st, w1) = getState R b now w in
      if st = CB_HALF_OPEN then
        (let w2 = transitionTo R b now CB_CLOSED w1;
             w3 = with_db (rdel R now (failCountKey (cb_name b))) w2;
             w4 = with_db (rdel R now (openedAtKey (cb_name b))) w3
         in emit (Alert LOW CIRCUIT_BREAKER_CLOSED
              [S ''Circuit breaker '', S (cb_name b), S '' recovered and closed'']
              [(''breakerName'', JStr (cb_name b)), (''recoveryDurationMs'', JNum 0)]) w4)
      else w1)"

definition recordFailure ::
  "('s, 'z) redis_scheme \<Rightarrow> breaker \<Rightarrow> int \<Rightarrow> 's world \<Rightarrow> 's world" where
  "recordFailure R b now w =
     (let (st, w1) = getState R b now w in
      if st = CB_OPEN then w1
      else if st = CB_HALF_OPEN then
        openBreaker R b now [S ''Failure during half-open probe''] w1
      else
        (let (count, s2) = rincr R now (failCountKey (cb_name b)) (db w1);
             w2 = w1\<lparr>db := s2\<rparr>;
             w3 = (if count = 1
                   then with_db (rexpire R now (failCountKey (cb_name b))
                          (ceil_seconds (cb_windowMs b))) w2
                   else w2)
         in if count \<ge> cb_threshold b then
              openBreaker R b now
                [S ''Failure count '', N (of_int count), S '' reached threshold '',
                 N (of_int (cb_threshold b)), S '' within '', N (of_int (cb_windowMs b)),
                 S ''ms window''] w3
            else w3))"

definition forceOpen ::
  "('s, 'z) redis_scheme \<Rightarrow> breaker \<Rightarrow> int \<Rightarrow> string \<Rightarrow> 's world \<Rightarrow> 's world" where
  "forceOpen R b now reason = openBreaker R b now [S ''Force open: '', S reason]"

datatype (plugins only: code size) cb_op = Success | Failure | Query | Force string

fun cb_exec ::
  "('s, 'z) redis_scheme \<Rightarrow> breaker \<Rightarrow> int \<Rightarrow> cb_op \<Rightarrow> 's world \<Rightarrow> 's world" where
  "cb_exec R b now Success w = recordSuccess R b now w"
| "cb_exec R b now Failure w = recordFailure R b now w"
| "cb_exec R b now Query w = snd (getState R b now w)"
| "cb_exec R b now (Force r) w = forceOpen R b now r w"

fun cb_run ::
  "('s, 'z) redis_scheme \<Rightarrow> breaker \<Rightarrow> (int \<times> cb_op) list \<Rightarrow> 's world \<Rightarrow> 's world" where
  "cb_run R b [] w = w"
| "cb_run R b ((t, x) # xs) w = cb_run R b xs (cb_exec R b t x w)"

lemma cb_keys_distinct [simp]:
  "stateKey n \<noteq> failCountKey n" "stateKey n \<noteq> openedAtKey n"
  "failCountKey n \<noteq> stateKey n" "failCountKey n \<noteq> openedAtKey n"
  "openedAtKey n \<noteq> stateKey n" "openedAtKey n \<noteq> failCountKey n"
  by (simp_all add: stateKey_def failCountKey_def openedAtKey_def)

subsection \<open>The abstract machine\<close>

datatype (plugins only: code size) cb_abs = A_Closed int | A_Open int | A_Half

fun spec_query :: "breaker \<Rightarrow> int \<Rightarrow> cb_abs \<Rightarrow> cb_abs" where
  "spec_query b t (A_Open t0) = (if t - t0 \<ge> cb_resetTimeoutMs b then A_Half else A_Open t0)"
| "spec_query b t a = a"

fun abs_state :: "cb_abs \<Rightarrow> cb_state" where
  "abs_state (A_Closed _) = CB_CLOSED"
| "abs_state (A_Open _) = CB_OPEN"
| "abs_state A_Half = CB_HALF_OPEN"

definition spec_success :: "breaker \<Rightarrow> int \<Rightarrow> cb_abs \<Rightarrow> cb_abs" where
  "spec_success b t a = (case spec_query b t a of A_Half \<Rightarrow> A_Closed 0 | a' \<Rightarrow> a')"

definition spec_failure :: "breaker \<Rightarrow> int \<Rightarrow> cb_abs \<Rightarrow> cb_abs" where
  "spec_failure b t a = (case spec_query b t a of
      A_Closed n \<Rightarrow> if n + 1 \<ge> cb_threshold b then A_Open t else A_Closed (n + 1)
    | A_Open t0 \<Rightarrow> A_Open t0
    | A_Half \<Rightarrow> A_Open t)"

fun spec_op :: "breaker \<Rightarrow> int \<Rightarrow> cb_op \<Rightarrow> cb_abs \<Rightarrow> cb_abs" where
  "spec_op b t Success a = spec_success b t a"
| "spec_op b t Failure a = spec_failure b t a"
| "spec_op b t Query a = spec_query b t a"
| "spec_op b t (Force _) a = A_Open t"

text \<open>Between two operations the failure window may run out.\<close>

inductive cb_step :: "breaker \<Rightarrow> (int \<times> cb_op) \<Rightarrow> int \<Rightarrow> cb_abs \<Rightarrow> int \<Rightarrow> cb_abs \<Rightarrow> bool"
  for b where
  kept: "t \<le> t' \<Longrightarrow> cb_step b (t', x) t a t' (spec_op b t' x a)"
| window_over: "t \<le> t' \<Longrightarrow> cb_step b (t', x) t (A_Closed n) t' (spec_op b t' x (A_Closed 0))"

inductive cb_steps :: "breaker \<Rightarrow> (int \<times> cb_op) list \<Rightarrow> int \<Rightarrow> cb_abs \<Rightarrow> int \<Rightarrow> cb_abs \<Rightarrow> bool"
  for b where
  steps_nil: "cb_steps b [] t a t a"
| steps_cons: "cb_step b (t', x) t a t' a' \<Longrightarrow> cb_steps b xs t' a' t'' a'' \<Longrightarrow>
     cb_steps b ((t', x) # xs) t a t'' a''"

inductive_cases cb_stepE: "cb_step b (t', x) t a t' a'"
inductive_cases cb_steps_nilE: "cb_steps b [] t a t' a'"
inductive_cases cb_steps_consE: "cb_steps b (x # xs) t a t' a'"

text \<open>Nondecreasing times from a starting time on.\<close>

fun timed_from :: "int \<Rightarrow> (int \<times> cb_op) list \<Rightarrow> bool" where
  "timed_from t [] = True"
| "timed_from t ((t', _) # xs) = (t \<le> t' \<and> timed_from t' xs)"

fun last_time :: "int \<Rightarrow> (int \<times> cb_op) list \<Rightarrow> int" where
  "last_time t [] = t"
| "last_time t ((t', _) # xs) = last_time t' xs"

subsection \<open>The three keys represent an abstract state\<close>

definition cb_rep ::
  "('s, 'z) redis_scheme \<Rightarrow> breaker \<Rightarrow> int \<Rightarrow> cb_abs \<Rightarrow> 's \<Rightarrow> bool" where
  "cb_rep R b t a s = (case a of
      A_Closed n \<Rightarrow> 0 \<le> n \<and>
        (\<forall>t'\<ge>t. rget R t' s (stateKey (cb_name b)) \<noteq> Some (JStr ''OPEN'') \<and>
                rget R t' s (stateKey (cb_name b)) \<noteq> Some (JStr ''HALF_OPEN'')) \<and>
        rget R t s (failCountKey (cb_name b)) = (if n = 0 then None else Some (JNum (of_int n)))
    | A_Open t0 \<Rightarrow>
        (\<forall>t'\<ge>t. rget R t' s (stateKey (cb_name b)) = Some (JStr ''OPEN'') \<and>
                rget R t' s (openedAtKey (cb_name b)) = Some (JNum (of_int t0))) \<and>
        rget R t s (failCountKey (cb_name b)) = None
    | A_Half \<Rightarrow>
        (\<forall>t'\<ge>t. rget R t' s (stateKey (cb_name b)) = Some (JStr ''HALF_OPEN'')) \<and>
        rget R t s (failCountKey (cb_name b)) = None)"

context redis_counter
begin

lemmas store_simps = get_put get_del get_incr_other get_expire_other

lemma openBreaker_rep:
  "cb_rep R b now (A_Open now) (db (openBreaker R b now r w))"
  by (simp add: cb_rep_def openBreaker_def transitionTo_def Let_def store_simps)

lemma getState_rep:
  assumes "cb_rep R b now a (db w)"
  shows "fst (getState R b now w) = abs_state (spec_query b now a)"
    and "cb_rep R b now (spec_query b now a) (db (snd (getState R b now w)))"
proof -
  have num: "of_int (cb_resetTimeoutMs b) \<le> (of_int now - of_int x :: real) \<longleftrightarrow>
      cb_resetTimeoutMs b \<le> now - x" for x
    by (metis of_int_diff of_int_le_iff)
  show "fst (getState R b now w) = abs_state (spec_query b now a)"
    using assms by (cases a) (auto simp: cb_rep_def getState_def Let_def num)
  show "cb_rep R b now (spec_query b now a) (db (snd (getState R b now w)))"
    using assms
    by (cases a)
      (auto simp: cb_rep_def getState_def Let_def transitionTo_def store_simps num)
qed

lemma recordSuccess_rep:
  assumes "cb_rep R b now a (db w)"
  shows "cb_rep R b now (spec_success b now a) (db (recordSuccess R b now w))"
proof -
  obtain st w1 where g: "getState R b now w = (st, w1)" by (cases "getState R b now w")
  from getState_rep [OF assms] g
  have st: "st = abs_state (spec_query b now a)" and w1: "cb_rep R b now (spec_query b now a) (db w1)"
    by simp_all
  show ?thesis
  proof (cases "spec_query b now a")
    case A_Half
    then show ?thesis
      using st by (simp add: recordSuccess_def g spec_success_def cb_rep_def transitionTo_def
          Let_def store_simps)
  qed (use st w1 in \<open>simp_all add: recordSuccess_def g spec_success_def\<close>)
qed

lemma recordFailure_rep:
  assumes "cb_rep R b now a (db w)" and "0 < cb_windowMs b"
  shows "cb_rep R b now (spec_failure b now a) (db (recordFailure R b now w))"
proof -
  obtain st w1 where g: "getState R b now w = (st, w1)" by (cases "getState R b now w")
  from getState_rep [OF assms(1)] g
  have st: "st = abs_state (spec_query b now a)" and w1: "cb_rep R b now (spec_query b now a) (db w1)"
    by simp_all
  show ?thesis
  proof (cases "spec_query b now a")
    case (A_Closed n)
    obtain c s2 where i: "rincr R now (failCountKey (cb_name b)) (db w1) = (c, s2)"
      by (cases "rincr R now (failCountKey (cb_name b)) (db w1)")
    from w1 A_Closed have n: "0 \<le> n" and
      f: "rget R now (db w1) (failCountKey (cb_name b)) = (if n = 0 then None else Some (JNum (of_int n)))"
      by (simp_all add: cb_rep_def)
    have c: "c = n + 1"
      using f i incr_absent [of now "db w1" "failCountKey (cb_name b)"]
        incr_present [of now "db w1" "failCountKey (cb_name b)" n] by (auto split: if_splits)
    have s2: "rget R now s2 (failCountKey (cb_name b)) = Some (JNum (of_int (n + 1)))"
      using f i get_incr_absent [of now "db w1" "failCountKey (cb_name b)" now]
        get_incr_present [of now "db w1" "failCountKey (cb_name b)" n now]
      by (auto split: if_splits)
    have o2: "rget R t' s2 (stateKey (cb_name b)) = rget R t' (db w1) (stateKey (cb_name b))" for t'
      using i get_incr_other [of "stateKey (cb_name b)" "failCountKey (cb_name b)" t' now "db w1"]
      by simp
    show ?thesis
    proof (cases "n + 1 \<ge> cb_threshold b")
      case True
      then show ?thesis
        using st A_Closed c
        by (simp add: recordFailure_def g i spec_failure_def Let_def openBreaker_rep)
    next
      case False
      then show ?thesis
        using st A_Closed n c s2 o2 w1 assms(2)
        by (auto simp: recordFailure_def g i spec_failure_def Let_def
            cb_rep_def store_simps get_expire_live)
    qed
  qed (use st w1 in \<open>simp_all add: recordFailure_def g spec_failure_def openBreaker_rep\<close>)
qed

lemma cb_exec_rep:
  assumes "cb_rep R b now a (db w)" and "0 < cb_windowMs b"
  shows "cb_rep R b now (spec_op b now x a) (db (cb_exec R b now x w))"
  using assms by (cases x)
    (simp_all add: recordSuccess_rep recordFailure_rep getState_rep forceOpen_def openBreaker_rep)

text \<open>Time passes: only the failure counter can disappear.\<close>

lemma cb_rep_later:
  assumes "cb_rep R b t a s" and "t \<le> t'"
  shows "cb_rep R b t' a s \<or> (\<exists>n. a = A_Closed n \<and> cb_rep R b t' (A_Closed 0) s)"
proof (cases a)
  case (A_Closed n)
  show ?thesis
  proof (cases "rget R t' s (failCountKey (cb_name b))")
    case None
    then show ?thesis using assms A_Closed by (auto simp: cb_rep_def)
  next
    case (Some v)
    then have "rget R t s (failCountKey (cb_name b)) = Some v"
      using assms(2) by (rule get_mono)
    then show ?thesis using assms A_Closed Some by (auto simp: cb_rep_def split: if_splits)
  qed
qed (use assms get_None_mono in \<open>auto simp: cb_rep_def\<close>)

lemma cb_run_simulation:
  assumes "cb_rep R b t a (db w)" and "0 < cb_windowMs b" and "timed_from t xs"
  shows "\<exists>a'. cb_steps b xs t a (last_time t xs) a' \<and>
           cb_rep R b (last_time t xs) a' (db (cb_run R b xs w))"
  using assms(1,3)
proof (induction xs arbitrary: t a w)
  case Nil
  then show ?case by (auto intro: steps_nil)
next
  case (Cons p xs)
  obtain t' x where p: "p = (t', x)" by (cases p)
  with Cons.prems have le: "t \<le> t'" and timed: "timed_from t' xs" by simp_all
  from cb_rep_later [OF Cons.prems(1) le]
  obtain a1 where "cb_step b (t', x) t a t' (spec_op b t' x a1)" and "cb_rep R b t' a1 (db w)"
    using le by (auto intro: kept window_over)
  then show ?case
    using Cons.IH [OF cb_exec_rep [OF _ assms(2)] timed] p by (fastforce intro: steps_cons)
qed

lemma cb_rep_fresh:
  "(\<forall>t'. rget R t' s (stateKey (cb_name b)) = None) \<Longrightarrow>
   rget R t s (failCountKey (cb_name b)) = None \<Longrightarrow> cb_rep R b t (A_Closed 0) s"
  by (simp add: cb_rep_def)

end

subsection \<open>Facts about the abstract machine\<close>

text \<open>Once open, and without \<open>forceOpen\<close>, the machine stays open, with the same opening
  time, until the reset timeout has passed.\<close>

lemma cb_steps_stay_open:
  "cb_steps b xs t a t' a' \<Longrightarrow> a = A_Open t0 \<Longrightarrow> \<forall>(u, x) \<in> set xs. u - t0 < cb_resetTimeoutMs b \<and>
     (\<forall>r. x \<noteq> Force r) \<Longrightarrow> a' = A_Open t0"
proof (induction rule: cb_steps.induct)
  case (steps_cons t' x t a a' xs t'' a'')
  have "a' = A_Open t0"
    using steps_cons.hyps(1) steps_cons.prems
    by (cases x) (auto elim!: cb_step.cases simp: spec_success_def spec_failure_def)
  with steps_cons show ?case by auto
qed simp

text \<open>A closed state always holds fewer failures than the threshold.\<close>

lemma spec_op_bound:
  "(\<forall>n. a = A_Closed n \<longrightarrow> n < cb_threshold b) \<Longrightarrow> 0 < cb_threshold b \<Longrightarrow>
   spec_op b t x a = A_Closed m \<Longrightarrow> m < cb_threshold b"
  by (cases x; cases a)
    (auto simp: spec_success_def spec_failure_def split: if_splits cb_abs.splits)

lemma cb_steps_bound:
  "cb_steps b xs t a t' a' \<Longrightarrow> 0 < cb_threshold b \<Longrightarrow>
   (\<forall>n. a = A_Closed n \<longrightarrow> n < cb_threshold b) \<Longrightarrow>
   (\<forall>n. a' = A_Closed n \<longrightarrow> n < cb_threshold b)"
proof (induction rule: cb_steps.induct)
  case (steps_cons t' x t a a' xs t'' a'')
  from steps_cons.hyps(1) obtain a1 where a1: "a' = spec_op b t' x a1"
    and "a1 = a \<or> a1 = A_Closed 0"
    by (auto elim: cb_step.cases)
  then have "\<forall>n. a1 = A_Closed n \<longrightarrow> n < cb_threshold b" using steps_cons.prems by auto
  then have "\<forall>n. a' = A_Closed n \<longrightarrow> n < cb_threshold b"
    unfolding a1 using spec_op_bound [of a1 b t' x] steps_cons.prems(1) by blast
  with steps_cons show ?case by blast
qed simp

text \<open>The only way out of the open state is through a probe: from open, a closed state is
  reached only by a success recorded at or after the reset timeout.\<close>

lemma cb_step_leaves_open:
  "cb_step b (t', x) t (A_Open t0) t' (A_Closed n) \<Longrightarrow>
   x = Success \<and> n = 0 \<and> cb_resetTimeoutMs b \<le> t' - t0"
  by (cases x) (auto elim!: cb_step.cases simp: spec_success_def spec_failure_def
      split: if_splits)

lemma cb_step_half_open:
  "cb_step b (t', Success) t A_Half t' a' \<longleftrightarrow> t \<le> t' \<and> a' = A_Closed 0"
  "cb_step b (t', Failure) t A_Half t' a' \<longleftrightarrow> t \<le> t' \<and> a' = A_Open t'"
  using kept [of t t' b Success A_Half] kept [of t t' b Failure A_Half]
  by (auto elim!: cb_step.cases simp: spec_success_def spec_failure_def)

subsection \<open>Counting failures inside one window\<close>

text \<open>Closed with \<open>n\<close> failures that stay readable until the deadline of the window.\<close>

definition counting ::
  "('s, 'z) redis_scheme \<Rightarrow> breaker \<Rightarrow> int \<Rightarrow> int \<Rightarrow> int \<Rightarrow> 's \<Rightarrow> bool" where
  "counting R b t dl n s \<longleftrightarrow> 0 < n \<and> cb_rep R b t (A_Closed n) s \<and>
     (\<forall>t'. t \<le> t' \<and> t' < dl \<longrightarrow> rget R t' s (failCountKey (cb_name b)) = Some (JNum (of_int n)))"

definition failures :: "(int \<times> cb_op) list \<Rightarrow> int" where
  "failures xs = int (length (filter (\<lambda>(_, x). x = Failure) xs))"

lemma failures_simps [simp]:
  "failures [] = 0" "failures ((t, Failure) # xs) = failures xs + 1"
  "failures ((t, Success) # xs) = failures xs" "failures ((t, Query) # xs) = failures xs"
  "failures ((t, Force r) # xs) = failures xs"
  by (simp_all add: failures_def)

lemma failures_nonneg: "0 \<le> failures xs"
  by (simp add: failures_def)

context redis_counter
begin

lemma counting_later: "counting R b t dl n s \<Longrightarrow> t \<le> t' \<Longrightarrow> t' < dl \<Longrightarrow> counting R b t' dl n s"
  by (auto simp: counting_def cb_rep_def)

lemma getState_closed:
  "cb_rep R b now (A_Closed n) (db w) \<Longrightarrow> getState R b now w = (CB_CLOSED, w)"
  by (auto simp: cb_rep_def getState_def Let_def)

lemma first_failure:
  assumes "cb_rep R b t (A_Closed 0) (db w)" and "1 < cb_threshold b" and "0 < cb_windowMs b"
  shows "counting R b t (t + cb_windowMs b) 1 (db (recordFailure R b t w))"
proof -
  obtain c s2 where i: "rincr R t (failCountKey (cb_name b)) (db w) = (c, s2)"
    by (cases "rincr R t (failCountKey (cb_name b)) (db w)")
  from assms(1) have f: "rget R t (db w) (failCountKey (cb_name b)) = None"
    by (simp add: cb_rep_def)
  have c: "c = 1" using incr_absent [OF f] i by simp
  have s2: "rget R t s2 (failCountKey (cb_name b)) = Some (JNum 1)"
    using get_incr_absent [OF f, of t] i by simp
  have rf: "db (recordFailure R b t w) =
      rexpire R t (failCountKey (cb_name b)) (ceil_seconds (cb_windowMs b)) s2"
    using assms(2) by (simp add: recordFailure_def getState_closed [OF assms(1)] i c Let_def)
  have "rget R t' (db (recordFailure R b t w)) (failCountKey (cb_name b)) = Some (JNum 1)"
    if "t \<le> t'" "t' < t + cb_windowMs b" for t'
    using that ceil_seconds_ge [of "cb_windowMs b"] s2 rf
      get_expire_live [of t t' "ceil_seconds (cb_windowMs b)" "failCountKey (cb_name b)" s2]
    by simp
  moreover have "spec_failure b t (A_Closed 0) = A_Closed 1"
    using assms(2) by (simp add: spec_failure_def)
  ultimately show ?thesis
    using recordFailure_rep [OF assms(1,3)] by (simp add: counting_def)
qed

lemma next_failure:
  assumes "counting R b t dl n (db w)" and "t < dl" and "0 < cb_windowMs b"
  shows "n + 1 < cb_threshold b \<Longrightarrow> counting R b t dl (n + 1) (db (recordFailure R b t w))"
    and "cb_threshold b \<le> n + 1 \<Longrightarrow> cb_rep R b t (A_Open t) (db (recordFailure R b t w))"
proof -
  from assms(1) have rep: "cb_rep R b t (A_Closed n) (db w)" and n: "0 < n"
    by (simp_all add: counting_def)
  from recordFailure_rep [OF rep assms(3)]
  have rep': "cb_rep R b t (if cb_threshold b \<le> n + 1 then A_Open t else A_Closed (n + 1))
      (db (recordFailure R b t w))"
    by (simp add: spec_failure_def split: if_splits)
  then show "cb_threshold b \<le> n + 1 \<Longrightarrow> cb_rep R b t (A_Open t) (db (recordFailure R b t w))"
    by simp
  assume lt: "n + 1 < cb_threshold b"
  obtain c s2 where i: "rincr R t (failCountKey (cb_name b)) (db w) = (c, s2)"
    by (cases "rincr R t (failCountKey (cb_name b)) (db w)")
  from assms(1,2) have f: "rget R t (db w) (failCountKey (cb_name b)) = Some (JNum (of_int n))"
    by (simp add: counting_def)
  have c: "c = n + 1" using incr_present [OF f] i by simp
  have rf: "db (recordFailure R b t w) = s2"
    using lt n by (simp add: recordFailure_def getState_closed [OF rep] i c Let_def)
  have "rget R t' s2 (failCountKey (cb_name b)) = Some (JNum (of_int (n + 1)))"
    if "t \<le> t'" "t' < dl" for t'
    using get_incr_present [OF f that(1)] i that assms(1) by (simp add: counting_def)
  then show "counting R b t dl (n + 1) (db (recordFailure R b t w))"
    using rep' lt n rf by (simp add: counting_def)
qed

text \<open>Successes and state queries between the failures change nothing.\<close>

lemma counting_run:
  assumes "counting R b t dl n (db w)" and "timed_from t xs" and "0 < cb_windowMs b"
    and "\<forall>(u, x) \<in> set xs. u < dl \<and> (\<forall>r. x \<noteq> Force r)"
    and "n + failures xs < cb_threshold b"
  shows "counting R b (last_time t xs) dl (n + failures xs) (db (cb_run R b xs w))"
  using assms(1,2,4,5)
proof (induction xs arbitrary: t n w)
  case (Cons p xs)
  obtain u x where p: "p = (u, x)" by (cases p)
  with Cons.prems have u: "t \<le> u" "u < dl" "timed_from u xs" "\<forall>r. x \<noteq> Force r"
    "\<forall>(u, x) \<in> set xs. u < dl \<and> (\<forall>r. x \<noteq> Force r)"
    by auto
  have cu: "counting R b u dl n (db w)" by (rule counting_later [OF Cons.prems(1) u(1,2)])
  then have gs: "getState R b u w = (CB_CLOSED, w)"
    by (intro getState_closed [of _ _ n]) (simp add: counting_def)
  show ?case
  proof (cases x)
    case Failure
    have "n + 1 < cb_threshold b"
      using Cons.prems(4) p Failure failures_nonneg [of xs] by simp
    then have "counting R b u dl (n + 1) (db (recordFailure R b u w))"
      by (rule next_failure(1) [OF cu u(2) assms(3)])
    from Cons.IH [OF this u(3,5)] show ?thesis
      using Cons.prems(4) p Failure by (simp add: algebra_simps)
  next
    case Success
    then show ?thesis
      using Cons.IH [OF cu u(3,5)] Cons.prems(4) p by (simp add: recordSuccess_def gs)
  next
    case Query
    then show ?thesis using Cons.IH [OF cu u(3,5)] Cons.prems(4) p by (simp add: gs)
  qed (use u in auto)
qed simp

lemma timed_from_append:
  "timed_from t (xs @ ys) \<longleftrightarrow> timed_from t xs \<and> timed_from (last_time t xs) ys"
  by (induction xs arbitrary: t) auto

lemma cb_run_append: "cb_run R b (xs @ ys) w = cb_run R b ys (cb_run R b xs w)"
  by (induction xs arbitrary: w) auto

lemma opens_in_window:
  assumes "cb_rep R b t (A_Closed 0) (db w)" and "0 < cb_windowMs b"
    and "timed_from t (ys @ [(u, Failure)])" and "u < t + cb_windowMs b"
    and "\<forall>(v, x) \<in> set ys. v < t + cb_windowMs b \<and> (\<forall>r. x \<noteq> Force r)"
    and "failures ys + 2 = cb_threshold b"
  shows "cb_rep R b u (A_Open u) (db (cb_run R b ((t, Failure) # ys @ [(u, Failure)]) w))"
proof -
  let ?dl = "t + cb_windowMs b"
  have thr: "1 < cb_threshold b" using assms(6) failures_nonneg [of ys] by linarith
  have c1: "counting R b t ?dl 1 (db (recordFailure R b t w))"
    by (rule first_failure [OF assms(1) thr assms(2)])
  have le: "last_time t ys \<le> u" and ty: "timed_from t ys"
    using assms(3) by (simp_all add: timed_from_append)
  have "counting R b (last_time t ys) ?dl (1 + failures ys) (db (cb_run R b ys (recordFailure R b t w)))"
    using counting_run [OF c1 ty assms(2,5)] assms(6) by simp
  then have "counting R b u ?dl (1 + failures ys) (db (cb_run R b ys (recordFailure R b t w)))"
    by (rule counting_later [OF _ le assms(4)])
  from next_failure(2) [OF this assms(4,2)] assms(6) show ?thesis
    by (simp add: cb_run_append)
qed

lemma isOpen_rep:
  "cb_rep R b t (A_Open t0) (db w) \<Longrightarrow> t - t0 < cb_resetTimeoutMs b \<Longrightarrow> fst (isOpen R b t w)"
  using getState_rep(1) [of b t "A_Open t0" w]
  by (simp add: isOpen_def split: prod.split) (metis abs_state.simps(2) fst_conv)

lemma cb_rep_open_later: "cb_rep R b t (A_Open t0) s \<Longrightarrow> t \<le> t' \<Longrightarrow> cb_rep R b t' (A_Open t0) s"
  using cb_rep_later [of b t "A_Open t0" s t'] by simp

lemma stays_open:
  assumes "cb_rep R b t (A_Open t0) (db w)" and "0 < cb_windowMs b"
    and "timed_from t xs" and "last_time t xs \<le> u" and "u - t0 < cb_resetTimeoutMs b"
    and "\<forall>(v, x) \<in> set xs. v - t0 < cb_resetTimeoutMs b \<and> (\<forall>r. x \<noteq> Force r)"
  shows "fst (isOpen R b u (cb_run R b xs w))"
proof -
  from cb_run_simulation [OF assms(1-3)] obtain a'
    where st: "cb_steps b xs t (A_Open t0) (last_time t xs) a'"
      and rep: "cb_rep R b (last_time t xs) a' (db (cb_run R b xs w))" by blast
  have "a' = A_Open t0" using cb_steps_stay_open [OF st _ assms(6)] by simp
  with rep have "cb_rep R b u (A_Open t0) (db (cb_run R b xs w))"
    using cb_rep_open_later assms(4) by blast
  then show ?thesis using assms(5) by (rule isOpen_rep)
qed

end

subsection \<open>Properties\<close>

lemma mem_fresh_breaker: "cb_rep adapter b t (A_Closed 0) (db mem_world)"
  by (rule redis_counter.cb_rep_fresh [OF mem.adapter.redis_counter_axioms]) simp_all

definition demo_breaker :: breaker where
  "demo_breaker = \<lparr>cb_name = ''velocity'', cb_threshold = 3, cb_windowMs = 60000,
     cb_resetTimeoutMs = 30000\<rparr>"

text \<open>C9: every run of \<open>recordSuccess\<close>, \<open>recordFailure\<close>, \<open>getState\<close> and
  \<open>forceOpen\<close> over Redis, at nondecreasing times, is a run of the abstract three-state
  machine, and the three Redis keys represent the abstract state it ends in.\<close>

theorem cb_refines:
  assumes "redis_counter R" and "cb_rep R b t a (db w)" and "0 < cb_windowMs b"
    and "timed_from t xs"
  shows "\<exists>a'. cb_steps b xs t a (last_time t xs) a' \<and>
           cb_rep R b (last_time t xs) a' (db (cb_run R b xs w))"
  using redis_counter.cb_run_simulation [OF assms] .

theorem cb_refines_witness:
  "\<exists>a'. cb_steps demo_breaker [(0, Failure), (5, Query)] 0 (A_Closed 0) 5 a' \<and>
        cb_rep adapter demo_breaker 5 a'
          (db (cb_run adapter demo_breaker [(0, Failure), (5, Query)] mem_world))"
  using cb_refines [OF mem.adapter.redis_counter_axioms mem_fresh_breaker,
      where xs = "[(0, Failure), (5, Query)]" and t = 0 and b = demo_breaker]
  by (simp add: demo_breaker_def)

text \<open>C38: from a closed breaker without counted failures, the
  threshold-th failure within one window opens it, whatever successes and queries come in
  between; so the count is of failures in a rolling window, not of consecutive ones.\<close>

theorem cb_opens_at_threshold:
  assumes "redis_counter R" and "cb_rep R b t (A_Closed 0) (db w)" and "0 < cb_windowMs b"
    and "timed_from t (ys @ [(u, Failure)])" and "u < t + cb_windowMs b"
    and "\<forall>(v, x) \<in> set ys. v < t + cb_windowMs b \<and> (\<forall>r. x \<noteq> Force r)"
    and "failures ys + 2 = cb_threshold b" and "0 < cb_resetTimeoutMs b"
  shows "fst (isOpen R b u (cb_run R b ((t, Failure) # ys @ [(u, Failure)]) w))"
  using redis_counter.isOpen_rep [OF assms(1) redis_counter.opens_in_window [OF assms(1-7)]]
    assms(8) by simp

theorem cb_opens_at_threshold_witness:
  "fst (isOpen adapter demo_breaker 9 (cb_run adapter demo_breaker
     [(0, Failure), (3, Success), (4, Failure), (6, Success), (9, Failure)] mem_world))"
  using cb_opens_at_threshold [OF mem.adapter.redis_counter_axioms mem_fresh_breaker,
      where t = 0 and u = 9 and ys = "[(3, Success), (4, Failure), (6, Success)]"
      and b = demo_breaker]
  by (simp add: demo_breaker_def)

text \<open>an open breaker reports open at every time before its reset timeout,
  whatever successes, failures and queries are recorded meanwhile.\<close>

theorem cb_stays_open:
  assumes "redis_counter R" and "cb_rep R b t (A_Open t0) (db w)" and "0 < cb_windowMs b"
    and "timed_from t xs" and "last_time t xs \<le> u" and "u - t0 < cb_resetTimeoutMs b"
    and "\<forall>(v, x) \<in> set xs. v - t0 < cb_resetTimeoutMs b \<and> (\<forall>r. x \<noteq> Force r)"
  shows "fst (isOpen R b u (cb_run R b xs w))"
  using redis_counter.stays_open [OF assms] .

lemma mem_forced_breaker:
  "cb_rep adapter demo_breaker 7 (A_Open 7) (db (forceOpen adapter demo_breaker 7 r mem_world))"
  unfolding forceOpen_def
  by (rule redis_counter.openBreaker_rep [OF mem.adapter.redis_counter_axioms])

theorem cb_stays_open_witness:
  "fst (isOpen adapter demo_breaker 30006 (cb_run adapter demo_breaker
     [(10, Success), (12, Failure)] (forceOpen adapter demo_breaker 7 ''test'' mem_world)))"
  using cb_stays_open [OF mem.adapter.redis_counter_axioms mem_forced_breaker,
      where xs = "[(10, Success), (12, Failure)]" and u = 30006]
  by (simp add: demo_breaker_def)

text \<open>once the reset timeout has passed, an open breaker is half-open at the
  next query; a success of the probe closes it with the failure count cleared, a failure
  opens it again with the timer started anew.\<close>

theorem cb_probe:
  assumes "redis_counter R" and "cb_rep R b t (A_Open t0) (db w)" and "0 < cb_windowMs b"
    and "t0 + cb_resetTimeoutMs b \<le> t"
  shows "fst (getState R b t w) = CB_HALF_OPEN \<and>
    cb_rep R b t (A_Closed 0) (db (recordSuccess R b t w)) \<and>
    cb_rep R b t (A_Open t) (db (recordFailure R b t w))"
  using redis_counter.getState_rep [OF assms(1,2)] redis_counter.recordSuccess_rep [OF assms(1,2)]
    redis_counter.recordFailure_rep [OF assms(1-3)] assms(4)
  by (simp add: spec_success_def spec_failure_def)

theorem cb_probe_witness:
  "fst (getState adapter demo_breaker 30007 (forceOpen adapter demo_breaker 7 ''x'' mem_world))
     = CB_HALF_OPEN"
  using cb_probe [OF mem.adapter.redis_counter_axioms
      redis_counter.cb_rep_open_later [OF mem.adapter.redis_counter_axioms mem_forced_breaker],
      where t = 30007]
  by (simp add: demo_breaker_def)

end
