(* ===== verification/Position_Limits.thy ===== *)
theory Position_Limits
  imports Redis_Store
begin

text \<open>
  The position limits of \<open>security/risk/position.limits.ts\<close>. Each check returns the
  breaches it pushes; \<open>pl_check\<close> runs the four in order and emits one alert when any of
  them found a breach.
\<close>

record breach =
  br_limit :: string
  br_current :: real
  br_maximum :: real

definition getEstimatedPrice :: "place_order \<Rightarrow> portfolio \<Rightarrow> real" where
  "getEstimatedPrice a pf =
     (case po_price a of
        Some p \<Rightarrow> if 0 < p then p
          else (case find_position (po_instrument a) pf of
                  Some q \<Rightarrow> ps_currentPrice q | None \<Rightarrow> 0)
      | None \<Rightarrow> (case find_position (po_instrument a) pf of
                  Some q \<Rightarrow> ps_currentPrice q | None \<Rightarrow> 0))"

definition checkInstrumentQuantityLimit ::
  "config \<Rightarrow> place_order \<Rightarrow> portfolio \<Rightarrow> breach list" where
  "checkInstrumentQuantityLimit cfg a pf =
     (case instrument_limit cfg (po_instrument a) of
        None \<Rightarrow> []
      | Some maxQuantity \<Rightarrow>
          (let currentQty = getCurrentQuantity (po_instrument a) pf;
               projectedQty = (if po_side a = BUY then currentQty + po_quantity a
                               else currentQty - po_quantity a)
           in if \<bar>projectedQty\<bar> > maxQuantity
              then [\<lparr>br_limit = ''per-instrument-quantity:'' @ po_instrument a,
                     br_current = \<bar>projectedQty\<bar>, br_maximum = maxQuantity\<rparr>]
              else []))"

definition checkInstrumentNotionalLimit ::
  "config \<Rightarrow> place_order \<Rightarrow> portfolio \<Rightarrow> breach list" where
  "checkInstrumentNotionalLimit cfg a pf =
     (let price = getEstimatedPrice a pf in
      if price \<le> 0 then []
      else case instrument_limit cfg (po_instrument a) of
        None \<Rightarrow> []
      | Some maxQuantity \<Rightarrow>
          (let maxNotional = maxQuantity * price;
               currentNotional = getCurrentNotional (po_instrument a) pf;
               orderNotional = po_quantity a * price;
               projectedNotional = (if po_side a = BUY then currentNotional + orderNotional
                                    else \<bar>currentNotional - orderNotional\<bar>)
           in if projectedNotional > maxNotional
              then [\<lparr>br_limit = ''per-instrument-notional:'' @ po_instrument a,
                     br_current = projectedNotional, br_maximum = maxNotional\<rparr>]
              else []))"

definition checkPortfolioNotionalLimit ::
  "config \<Rightarrow> place_order \<Rightarrow> portfolio \<Rightarrow> breach list" where
  "checkPortfolioNotionalLimit cfg a pf =
     (let maxPortfolioNotional = portfolioNotionalLimit cfg;
          orderNotional = po_quantity a * getEstimatedPrice a pf;
          projectedTotal = (if po_side a = BUY then pf_totalNotional pf + orderNotional
                            else pf_totalNotional pf)
      in if projectedTotal > maxPortfolioNotional
         then [\<lparr>br_limit = ''portfolio-total-notional'',
                br_current = projectedTotal, br_maximum = maxPortfolioNotional\<rparr>]
         else [])"

definition checkShortSellingRules :: "place_order \<Rightarrow> portfolio \<Rightarrow> breach list" where
  "checkShortSellingRules a pf =
     (if po_side a \<noteq> SELL then []
      else (let currentQty = getCurrentQuantity (po_instrument a) pf in
            if po_quantity a > currentQty
            then [\<lparr>br_limit = ''short-sell-blocked:'' @ po_instrument a,
                   br_current = po_quantity a - currentQty, br_maximum = 0\<rparr>]
            else []))"

definition pl_breaches :: "config \<Rightarrow> place_order \<Rightarrow> portfolio \<Rightarrow> breach list" where
  "pl_breaches cfg a pf = checkInstrumentQuantityLimit cfg a pf
     @ checkInstrumentNotionalLimit cfg a pf
     @ checkPortfolioNotionalLimit cfg a pf
     @ checkShortSellingRules a pf"

definition pl_check ::
  "config \<Rightarrow> place_order \<Rightarrow> portfolio \<Rightarrow> 's world \<Rightarrow> (bool \<times> breach list) \<times> 's world" where
  "pl_check cfg a pf w =
     (let breaches = pl_breaches cfg a pf;
          w' = (if breaches \<noteq> [] then
                  emit (Alert HIGH POSITION_LIMIT_BREACHED
                     (S ''Position limits breached: '' # join_tmpl '', '' (map (\<lambda>b. [S (br_limit b)]) breaches))
                     [(''instrument'', JStr (po_instrument a)),
                      (''strategyId'', JStr (po_strategyId a)),
                      (''currentQuantity'', JNum (getCurrentQuantity (po_instrument a) pf)),
                      (''attemptedQuantity'', JNum (po_quantity a)),
                      (''limit'', JNum (br_maximum (hd breaches)))]) w
                else w)
      in ((breaches = [], breaches), w'))"

subsection \<open>The limits an accepted order respects\<close>

definition within_limits :: "config \<Rightarrow> place_order \<Rightarrow> portfolio \<Rightarrow> bool" where
  "within_limits cfg a pf \<longleftrightarrow>
     (let q = getCurrentQuantity (po_instrument a) pf; p = getEstimatedPrice a pf;
          n = getCurrentNotional (po_instrument a) pf in
      (case po_side a of
         BUY \<Rightarrow> pf_totalNotional pf + po_quantity a * p \<le> portfolioNotionalLimit cfg
       | SELL \<Rightarrow> pf_totalNotional pf \<le> portfolioNotionalLimit cfg \<and> po_quantity a \<le> q) \<and>
      (case instrument_limit cfg (po_instrument a) of
         None \<Rightarrow> True
       | Some m \<Rightarrow>
           (case po_side a of
              BUY \<Rightarrow> \<bar>q + po_quantity a\<bar> \<le> m \<and> (0 < p \<longrightarrow> n + po_quantity a * p \<le> m * p)
            | SELL \<Rightarrow> q - po_quantity a \<le> m \<and>
                (0 < p \<longrightarrow> \<bar>n - po_quantity a * p\<bar> \<le> m * p))))"

lemma pl_breaches_Nil: "pl_breaches cfg a pf = [] \<longleftrightarrow> within_limits cfg a pf"
  by (cases "po_side a"; cases "instrument_limit cfg (po_instrument a)")
    (auto simp: pl_breaches_def within_limits_def checkInstrumentQuantityLimit_def
      checkInstrumentNotionalLimit_def checkPortfolioNotionalLimit_def
      checkShortSellingRules_def Let_def not_less not_le)

lemma pl_check_db [simp]: "db (snd (pl_check cfg a pf w)) = db w"
  by (simp add: pl_check_def Let_def)

lemma pl_check_result: "fst (pl_check cfg a pf w) =
    (within_limits cfg a pf, pl_breaches cfg a pf)"
  by (simp add: pl_check_def Let_def pl_breaches_Nil)

subsection \<open>Filling accepted orders\<close>

text \<open>What a fill does to the held quantity of one instrument.\<close>

definition filled_quantity :: "place_order \<Rightarrow> real \<Rightarrow> real" where
  "filled_quantity a q = (if po_side a = BUY then q + po_quantity a else q - po_quantity a)"

fun fill_accepted ::
  "config \<Rightarrow> (place_order \<times> portfolio) list \<Rightarrow> real \<Rightarrow> real option" where
  "fill_accepted cfg [] q = Some q"
| "fill_accepted cfg ((a, pf) # xs) q =
     (if getCurrentQuantity (po_instrument a) pf = q \<and> pl_breaches cfg a pf = []
      then fill_accepted cfg xs (filled_quantity a q) else None)"

lemma filled_in_limits:
  assumes "pl_breaches cfg a pf = []" and "0 < po_quantity a"
    and "instrument_limit cfg (po_instrument a) = Some m"
    and "getCurrentQuantity (po_instrument a) pf = q" and "0 \<le> q"
  shows "0 \<le> filled_quantity a q \<and> filled_quantity a q \<le> m"
  using assms by (cases "po_side a")
    (auto simp: pl_breaches_Nil within_limits_def filled_quantity_def Let_def)

lemma fill_accepted_bounds:
  "fill_accepted cfg xs q = Some q' \<Longrightarrow> 0 \<le> q \<Longrightarrow> q \<le> m \<Longrightarrow>
   \<forall>(a, pf) \<in> set xs. po_instrument a = i \<and> 0 < po_quantity a \<Longrightarrow>
   instrument_limit cfg i = Some m \<Longrightarrow> 0 \<le> q' \<and> q' \<le> m"
proof (induction xs arbitrary: q)
  case (Cons x xs)
  obtain a pf where x: "x = (a, pf)" by (cases x)
  with Cons.prems have "0 \<le> filled_quantity a q \<and> filled_quantity a q \<le> m"
    by (intro filled_in_limits [of cfg a pf m q]) (auto split: if_splits)
  then show ?case using Cons x by (auto split: if_splits)
qed simp

subsection \<open>Properties\<close>

definition demo_order :: "order_side \<Rightarrow> real \<Rightarrow> place_order" where
  "demo_order sd q = \<lparr>po_instrument = ''BTC-USD'', po_side = sd, po_orderType = LIMIT,
     po_quantity = q, po_price = Some 100, po_stopPrice = None, po_strategyId = ''s1'',
     po_clientOrderId = ''c1''\<rparr>"

definition demo_portfolio :: "real \<Rightarrow> portfolio" where
  "demo_portfolio q = \<lparr>pf_positions = [\<lparr>ps_instrument = ''BTC-USD'', ps_quantity = q,
     ps_averageEntryPrice = 100, ps_currentPrice = 100, ps_unrealizedPnl = 0,
     ps_notionalValue = \<bar>q\<bar> * 100\<rparr>], pf_totalNotional = \<bar>q\<bar> * 100,
     pf_totalUnrealizedPnl = 0, pf_drawdownPercent = 0\<rparr>"

definition demo_config :: config where
  "demo_config = (default_config ''0123456789012345678901234567890123'' ''root'')
     \<lparr>positionLimitsPerInstrument := [(''BTC-USD'', 10)]\<rparr>"

lemmas demo_defs = demo_order_def demo_portfolio_def demo_config_def default_config_def
  instrument_limit_def getCurrentQuantity_def getCurrentNotional_def find_position_def
  getEstimatedPrice_def

text \<open>the check passes exactly for the orders inside the quantity, the
  per-instrument notional and the portfolio notional limit that sell no more than is held;
  it never touches the store, and it emits exactly one alert when it fails and none when it
  passes.\<close>

theorem pl_check_exact:
  "fst (fst (pl_check cfg a pf w)) = within_limits cfg a pf \<and>
   db (snd (pl_check cfg a pf w)) = db w \<and>
   length (out (snd (pl_check cfg a pf w))) =
     length (out w) + (if within_limits cfg a pf then 0 else 1)"
  by (simp add: pl_check_def Let_def pl_breaches_Nil)

text \<open>C37: when every order of a sequence on one instrument passes the
  check against the quantity held at that moment and is then filled, the held quantity
  stays between zero and the configured limit.\<close>

theorem pl_accepted_fills:
  assumes "fill_accepted cfg xs q = Some q'" and "0 \<le> q" and "q \<le> m"
    and "\<forall>(a, pf) \<in> set xs. po_instrument a = i \<and> 0 < po_quantity a"
    and "instrument_limit cfg i = Some m"
  shows "0 \<le> q' \<and> q' \<le> m"
  using fill_accepted_bounds [OF assms] .

theorem pl_accepted_fills_witness:
  "fill_accepted demo_config [(demo_order BUY 4, demo_portfolio 3),
     (demo_order SELL 7, demo_portfolio 7)] 3 = Some 0 \<and> (0::real) \<le> 0 \<and> (0::real) \<le> 10"
proof -
  have f: "fill_accepted demo_config [(demo_order BUY 4, demo_portfolio 3),
     (demo_order SELL 7, demo_portfolio 7)] 3 = Some 0"
    by (simp add: pl_breaches_Nil within_limits_def filled_quantity_def demo_defs)
  then show ?thesis
    using pl_accepted_fills [OF f, of 10 "''BTC-USD''"] by (simp add: demo_defs)
qed

text \<open>the notional check adds the notional of every buy to the absolute
  notional of the position, so a buy that only reduces a short position of full size is
  rejected although the quantity it leaves is inside the limit.\<close>

theorem pl_cover_blocked:
  assumes "po_side a = BUY" and "0 < po_quantity a" and "0 < getEstimatedPrice a pf"
    and "instrument_limit cfg (po_instrument a) = Some m"
    and "getCurrentQuantity (po_instrument a) pf = - m" and "po_quantity a \<le> m"
    and "getCurrentNotional (po_instrument a) pf = m * getEstimatedPrice a pf"
  shows "\<bar>filled_quantity a (- m)\<bar> < m \<and> \<not> fst (fst (pl_check cfg a pf w))"
proof
  show "\<bar>filled_quantity a (- m)\<bar> < m"
    using assms by (simp add: filled_quantity_def)
  show "\<not> fst (fst (pl_check cfg a pf w))"
    using assms by (simp add: pl_check_result within_limits_def Let_def mult_le_0_iff)
qed

theorem pl_cover_blocked_witness:
  "\<not> fst (fst (pl_check demo_config (demo_order BUY 5) (demo_portfolio (- 10)) mem_world))"
  using pl_cover_blocked [of "demo_order BUY 5" "demo_portfolio (- 10)" demo_config 10 mem_world]
  by (simp add: demo_defs)

end
