(* ===== verification/Kill_Switch.thy ===== *)
theory Kill_Switch
  imports Redis_Store
begin

text \<open>
  The kill switch of \<open>security/risk/kill.switch.ts\<close>: trigger, query, administrator reset
  and the Express middleware. The locale \<open>halt_switch\<close> is what the loss monitor, the dead
  man's switch and the risk engine rely on.
\<close>

datatype (plugins only: code size) ks_scope =
    KS_User string
  | KS_Strategy string
  | KS_Global

fun scopeKey :: "ks_scope \<Rightarrow> string" where
  "scopeKey KS_Global = ''killswitch:global''"
| "scopeKey (KS_User u) = ''killswitch:user:'' @ u"
| "scopeKey (KS_Strategy s) = ''killswitch:strategy:'' @ s"

fun scope_type :: "ks_scope \<Rightarrow> string" where
  "scope_type KS_Global = ''GLOBAL''"
| "scope_type (KS_User _) = ''USER''"
| "scope_type (KS_Strategy _) = ''STRATEGY''"

fun scopeDescription :: "ks_scope \<Rightarrow> tmpl" where
  "scopeDescription KS_Global = [S ''global'']"
| "scopeDescription (KS_User u) = [S ''user '', S u]"
| "scopeDescription (KS_Strategy s) = [S ''strategy '', S s]"

lemma scopeKey_inject [simp]: "scopeKey a = scopeKey b \<longleftrightarrow> a = b"
  by (cases a; cases b) simp_all

lemma hd_scopeKey: "hd (scopeKey sc) = CHR ''k''"
  by (cases sc) simp_all

declare scopeKey.simps [simp del]

definition ks_trigger ::
  "('s, 'z) redis_scheme \<Rightarrow> int \<Rightarrow> ks_scope \<Rightarrow> tmpl \<Rightarrow> string \<Rightarrow> 's world \<Rightarrow> 's world" where
  "ks_trigger R now scope reason triggeredBy w =
     emit (Alert CRITICAL KILL_SWITCH_TRIGGERED
        ([S ''Kill switch triggered for ''] @ scopeDescription scope @ [S '': ''] @ reason)
        [(''triggeredBy'', JStr triggeredBy), (''reason'', JText reason),
         (''scopeType'', JStr (scope_type scope))])
      (with_db (rset R now (scopeKey scope)
        (JObj [(''active'', JBool True), (''reason'', JText reason),
               (''triggeredBy'', JStr triggeredBy), (''triggeredAt'', JDate now)]) None) w)"

definition ks_isActive ::
  "('s, 'z) redis_scheme \<Rightarrow> int \<Rightarrow> ks_scope \<Rightarrow> 's world \<Rightarrow> bool" where
  "ks_isActive R now scope w =
     (if (case rget R now (db w) (scopeKey KS_Global) of
            Some raw \<Rightarrow> truthy (jget raw ''active'') | None \<Rightarrow> False)
      then True
      else if scope = KS_Global then False
      else (case rget R now (db w) (scopeKey scope) of
              None \<Rightarrow> False
            | Some raw \<Rightarrow> truthy (jget raw ''active'')))"

definition ks_reset ::
  "('s, 'z) redis_scheme \<Rightarrow> config \<Rightarrow> int \<Rightarrow> ks_scope \<Rightarrow> string \<Rightarrow> 's world \<Rightarrow>
   (js_error + unit) \<times> 's world" where
  "ks_reset R cfg now scope resetBy w =
     (if resetBy \<noteq> adminUserId cfg then
        (Inl (PlainError [S ''Unauthorized kill switch reset attempt by '', S resetBy,
           S ''. Only admin '', S (adminUserId cfg), S '' can reset.'']), w)
      else
        (Inr (),
         emit (Alert MEDIUM KILL_SWITCH_RESET
            ([S ''Kill switch reset for ''] @ scopeDescription scope @ [S '' by '', S resetBy])
            [(''resetBy'', JStr resetBy),
             (''reason'', JText [S ''Reset by admin '', S resetBy])])
          (with_db (rdel R now (scopeKey scope)) w)))"

subsection \<open>The middleware\<close>

text \<open>A header of an Express request: absent, one value, or several.\<close>

datatype (plugins only: code size) header = H_None | H_One string | H_Many "string list"

fun header_value :: "header \<Rightarrow> string option" where
  "header_value H_None = None"
| "header_value (H_One v) = Some v"
| "header_value (H_Many []) = None"
| "header_value (H_Many (v # _)) = Some v"

datatype (plugins only: code size) mw_result = Next | Respond int "(string \<times> json) list"

definition halted :: "tmpl \<Rightarrow> mw_result" where
  "halted m = Respond 503 [(''error'', JStr ''KILL_SWITCH_ACTIVE''), (''message'', JText m)]"

definition ks_middleware ::
  "('s, 'z) redis_scheme \<Rightarrow> int \<Rightarrow> (string \<Rightarrow> header) \<Rightarrow> 's world \<Rightarrow> mw_result" where
  "ks_middleware R now headers w =
     (let userId = header_value (headers ''x-user-id'');
          strategyId = header_value (headers ''x-strategy-id'')
      in if ks_isActive R now KS_Global w then
           halted [S ''Trading is currently halted by the kill switch'']
         else case userId of
           Some (c # u) \<Rightarrow>
             if ks_isActive R now (KS_User (c # u)) w then
               halted [S ''Trading is halted for user '', S (c # u)]
             else (case strategyId of
                 Some (d # s) \<Rightarrow>
                   if ks_isActive R now (KS_Strategy (d # s)) w
                   then halted [S ''Trading is halted for strategy '', S (d # s)] else Next
               | _ \<Rightarrow> Next)
         | _ \<Rightarrow> (case strategyId of
                 Some (d # s) \<Rightarrow>
                   if ks_isActive R now (KS_Strategy (d # s)) w
                   then halted [S ''Trading is halted for strategy '', S (d # s)] else Next
               | _ \<Rightarrow> Next))"

text \<open>The scopes that a request names.\<close>

definition request_scopes :: "(string \<Rightarrow> header) \<Rightarrow> ks_scope set" where
  "request_scopes headers = {KS_Global}
     \<union> {KS_User u | u. header_value (headers ''x-user-id'') = Some u \<and> u \<noteq> []}
     \<union> {KS_Strategy s | s. header_value (headers ''x-strategy-id'') = Some s \<and> s \<noteq> []}"

subsection \<open>The contract\<close>

text \<open>
  \<open>trigger\<close> halts its scope from now on, never lifts another halt, a global halt covers
  every scope, and keys of other components are not touched.
\<close>

definition foreign_key :: "string \<Rightarrow> bool" where
  "foreign_key k \<longleftrightarrow> (\<forall>sc. k \<noteq> scopeKey sc)"

lemma foreign_hd: "hd k \<noteq> CHR ''k'' \<Longrightarrow> foreign_key k"
  unfolding foreign_key_def by (metis hd_scopeKey)

lemma foreign_neq: "foreign_key k \<Longrightarrow> scopeKey sc \<noteq> k" "foreign_key k \<Longrightarrow> k \<noteq> scopeKey sc"
  by (auto simp: foreign_key_def)

locale halt_switch =
  fixes read :: "int \<Rightarrow> 's \<Rightarrow> string \<Rightarrow> json option"
    and trigger :: "int \<Rightarrow> ks_scope \<Rightarrow> tmpl \<Rightarrow> string \<Rightarrow> 's world \<Rightarrow> 's world"
    and active :: "int \<Rightarrow> ks_scope \<Rightarrow> 's world \<Rightarrow> bool"
  assumes trigger_active: "t \<le> t' \<Longrightarrow> active t' sc (trigger t sc r by w)"
    and trigger_keeps: "t \<le> t' \<Longrightarrow> active t' sc' w \<Longrightarrow> active t' sc' (trigger t sc r by w)"
    and trigger_local: "sc \<noteq> KS_Global \<Longrightarrow> sc' \<noteq> sc \<Longrightarrow> t \<le> t' \<Longrightarrow>
      active t' sc' (trigger t sc r by w) = active t' sc' w"
    and global_active: "active t KS_Global w \<Longrightarrow> active t sc w"
    and active_reads: "(\<And>sc. read t (db w) (scopeKey sc) = read t (db w') (scopeKey sc)) \<Longrightarrow>
      active t sc w = active t sc w'"
    and trigger_foreign: "foreign_key k \<Longrightarrow> read t' (db (trigger t sc r by w)) k = read t' (db w) k"
    and trigger_out: "\<exists>m md. out (trigger t sc r by w) =
      out w @ [Alert CRITICAL KILL_SWITCH_TRIGGERED m md]"

sublocale redis_kv \<subseteq> halt: halt_switch "rget R" "ks_trigger R" "ks_isActive R"
proof (unfold_locales, goal_cases)
  case (1 t t' sc r b w)
  then show ?case by (simp add: ks_isActive_def ks_trigger_def get_put)
next
  case (2 t t' sc' w sc r b)
  then show ?case by (auto simp: ks_isActive_def ks_trigger_def get_put split: if_splits option.splits)
next
  case (3 sc sc' t t' r b w)
  then show ?case by (auto simp: ks_isActive_def ks_trigger_def get_put)
next
  case (4 t w sc)
  then show ?case by (auto simp: ks_isActive_def split: if_splits option.splits)
next
  case (5 t w w' sc)
  then show ?case by (simp add: ks_isActive_def)
next
  case (6 k t' t sc r b w)
  then show ?case by (simp add: foreign_key_def ks_trigger_def get_put_other)
next
  case (7 t sc r b w)
  then show ?case by (simp add: ks_trigger_def)
qed

interpretation mem_halt: halt_switch "rget service" "ks_trigger service" "ks_isActive service"
  by (rule mem.service.halt.halt_switch_axioms)

subsection \<open>Runs\<close>

datatype (plugins only: code size) ks_op =
    Trigger ks_scope tmpl string
  | Reset ks_scope string

fun ks_exec ::
  "('s, 'z) redis_scheme \<Rightarrow> config \<Rightarrow> int \<Rightarrow> ks_op \<Rightarrow> 's world \<Rightarrow> 's world" where
  "ks_exec R cfg now (Trigger sc r by) w = ks_trigger R now sc r by w"
| "ks_exec R cfg now (Reset sc by) w = snd (ks_reset R cfg now sc by w)"

fun ks_run ::
  "('s, 'z) redis_scheme \<Rightarrow> config \<Rightarrow> (int \<times> ks_op) list \<Rightarrow> 's world \<Rightarrow> 's world" where
  "ks_run R cfg [] w = w"
| "ks_run R cfg ((t, x) # xs) w = ks_run R cfg xs (ks_exec R cfg t x w)"

text \<open>The operation may lift a halt that covers the scope.\<close>

fun lifts :: "config \<Rightarrow> ks_scope \<Rightarrow> ks_op \<Rightarrow> bool" where
  "lifts cfg sc (Trigger _ _ _) = False"
| "lifts cfg sc (Reset sc' by) = (by = adminUserId cfg \<and> (sc' = sc \<or> sc' = KS_Global))"

context redis_kv
begin

lemma ks_contract: "halt_switch (rget R) (ks_trigger R) (ks_isActive R)"
  by (rule halt.halt_switch_axioms)

lemma reset_keeps:
  "\<not> lifts cfg sc (Reset sc' by) \<Longrightarrow> t \<le> t' \<Longrightarrow> ks_isActive R t' sc w \<Longrightarrow>
   ks_isActive R t' sc (snd (ks_reset R cfg t sc' by w))"
  by (auto simp: ks_isActive_def ks_reset_def get_del split: if_splits option.splits)

lemma reset_inactive:
  "t \<le> t' \<Longrightarrow> sc \<noteq> KS_Global \<Longrightarrow> \<not> ks_isActive R t' KS_Global w \<Longrightarrow>
   \<not> ks_isActive R t' sc (snd (ks_reset R cfg t sc (adminUserId cfg) w))"
  "t \<le> t' \<Longrightarrow> \<not> ks_isActive R t' KS_Global (snd (ks_reset R cfg t KS_Global (adminUserId cfg) w))"
  by (auto simp: ks_isActive_def ks_reset_def get_del split: if_splits option.splits)

lemma run_keeps_active:
  "ks_isActive R t' sc w \<Longrightarrow> \<forall>(t, x) \<in> set xs. t \<le> t' \<and> \<not> lifts cfg sc x \<Longrightarrow>
   ks_isActive R t' sc (ks_run R cfg xs w)"
proof (induction xs arbitrary: w)
  case (Cons p xs)
  obtain t x where p: "p = (t, x)" by (cases p)
  have "ks_isActive R t' sc (ks_exec R cfg t x w)"
    using Cons.prems p halt.trigger_keeps [of t t' sc w] reset_keeps [of cfg sc _ _ t t' w]
    by (cases x) (simp_all del: lifts.simps)
  with Cons p show ?case by simp
qed simp

lemma middleware_next:
  "ks_middleware R now headers w = Next \<longleftrightarrow>
     (\<forall>sc \<in> request_scopes headers. \<not> ks_isActive R now sc w)"
  by (auto simp: ks_middleware_def request_scopes_def halted_def Let_def
      split: option.splits list.splits)

end

lemma middleware_halts:
  "ks_middleware R now headers w = Next \<or> (\<exists>m. ks_middleware R now headers w = halted m)"
  by (auto simp: ks_middleware_def Let_def split: option.split list.split)

subsection \<open>Properties\<close>

text \<open>after \<open>trigger\<close> the scope is active at every later time; a global
  trigger makes every scope active, and a user or strategy trigger changes the answer for
  no other scope.\<close>

theorem ks_halts:
  assumes "redis_kv R" and "t \<le> t'"
  shows "ks_isActive R t' sc (ks_trigger R t sc r by w) \<and>
    ks_isActive R t' sc' (ks_trigger R t KS_Global r by w) \<and>
    (sc \<noteq> KS_Global \<longrightarrow> sc' \<noteq> sc \<longrightarrow>
       ks_isActive R t' sc' (ks_trigger R t sc r by w) = ks_isActive R t' sc' w)"
proof -
  note halt = redis_kv.ks_contract [OF assms(1)]
  show ?thesis
    using halt_switch.trigger_active [OF halt assms(2)]
      halt_switch.trigger_local [OF halt _ _ assms(2)]
      halt_switch.global_active [OF halt halt_switch.trigger_active [OF halt assms(2)]]
    by blast
qed

theorem ks_halts_witness:
  "ks_isActive service 20 (KS_User ''bob'') (ks_trigger service 10 KS_Global [S ''x''] ''ops'' mem_world)"
  using ks_halts [OF mem.service.redis_kv_axioms, of 10 20] by simp

text \<open>C8: an active halt survives every run of triggers and resets that contains
  no administrator reset of that scope or of the global scope; resets by anybody else
  change nothing.\<close>

theorem ks_persists:
  assumes "redis_kv R" and "ks_isActive R t' sc w"
    and "\<forall>(t, x) \<in> set xs. t \<le> t' \<and> \<not> lifts cfg sc x"
  shows "ks_isActive R t' sc (ks_run R cfg xs w)"
  using redis_kv.run_keeps_active [OF assms] .

theorem ks_persists_witness:
  "ks_isActive service 50 (KS_User ''bob'')
     (ks_run service (default_config [] ''root'')
        [(20, Reset (KS_User ''bob'') ''mallory''), (30, Reset (KS_User ''eve'') ''root'')]
        (ks_trigger service 10 (KS_User ''bob'') [] ''ops'' mem_world))"
  by (rule ks_persists [OF mem.service.redis_kv_axioms])
    (simp_all add: halt_switch.trigger_active [OF redis_kv.ks_contract
        [OF mem.service.redis_kv_axioms]] default_config_def)

text \<open>a reset by anyone but the configured administrator throws and
  leaves store and alerts as they were; the administrator's reset lifts the scope unless
  the global halt still covers it.\<close>

theorem ks_reset_admin_only:
  assumes "redis_kv R" and "t \<le> t'"
  shows "(by \<noteq> adminUserId cfg \<longrightarrow>
      (\<exists>m. ks_reset R cfg t sc by w = (Inl (PlainError m), w))) \<and>
    (sc = KS_Global \<or> \<not> ks_isActive R t' KS_Global w \<longrightarrow>
      fst (ks_reset R cfg t sc (adminUserId cfg) w) = Inr () \<and>
      \<not> ks_isActive R t' sc (snd (ks_reset R cfg t sc (adminUserId cfg) w)))"
proof (intro conjI impI)
  show "\<exists>m. ks_reset R cfg t sc by w = (Inl (PlainError m), w)" if "by \<noteq> adminUserId cfg"
    using that by (simp add: ks_reset_def)
  show "fst (ks_reset R cfg t sc (adminUserId cfg) w) = Inr ()"
    by (simp add: ks_reset_def)
  assume "sc = KS_Global \<or> \<not> ks_isActive R t' KS_Global w"
  then show "\<not> ks_isActive R t' sc (snd (ks_reset R cfg t sc (adminUserId cfg) w))"
    using redis_kv.reset_inactive [OF assms] by (cases "sc = KS_Global") simp_all
qed

theorem ks_reset_admin_only_witness:
  "fst (ks_reset service (default_config [] ''root'') 5 KS_Global ''root'' mem_world) = Inr ()"
  using ks_reset_admin_only [OF mem.service.redis_kv_axioms, of 5 9 _ "default_config [] ''root''"
      KS_Global mem_world]
  by (simp add: default_config_def)

text \<open>the middleware calls \<open>next\<close> exactly when none of the scopes the
  request names (global, and user and strategy when their header is not empty) is active;
  otherwise it answers 503.\<close>

theorem ks_middleware_gate:
  assumes "redis_kv R"
  shows "(ks_middleware R now headers w = Next \<longleftrightarrow>
      (\<forall>sc \<in> request_scopes headers. \<not> ks_isActive R now sc w)) \<and>
    (ks_middleware R now headers w \<noteq> Next \<longrightarrow>
      (\<exists>m. ks_middleware R now headers w = halted m))"
  using redis_kv.middleware_next [OF assms, of now headers w] middleware_halts [of R now headers w]
  by blast

theorem ks_middleware_gate_witness:
  "ks_middleware service 3 (\<lambda>_. H_None) mem_world = Next"
  using ks_middleware_gate [OF mem.service.redis_kv_axioms, of 3 "\<lambda>_. H_None" mem_world]
  by (simp add: ks_isActive_def request_scopes_def)

end
