(* ===== verification/Loss_Monitor.thy ===== *)
theory Loss_Monitor
  imports Kill_Switch
begin

text \<open>
  The loss monitor of \<open>security/risk/loss.monitor.ts\<close>: a high watermark and a drawdown
  per user in Redis, and the kill switch of the user when the drawdown reaches the
  configured percentage. The kill switch is the parameter \<open>trig\<close>; the lemmas that need
  its behaviour are proved from the contract \<open>halt_switch\<close>.
\<close>

definition hwmKey :: "string \<Rightarrow> string" where
  "hwmKey u = ''loss:hwm:'' @ u"

definition drawdownKey :: "string \<Rightarrow> string" where
  "drawdownKey u = ''loss:drawdown:'' @ u"

lemma loss_keys_foreign [simp]: "foreign_key (hwmKey u)" "foreign_key (drawdownKey u)"
  by (rule foreign_hd; simp add: hwmKey_def drawdownKey_def)+

lemma loss_keys [simp]:
  "hwmKey u \<noteq> drawdownKey v" "drawdownKey v \<noteq> hwmKey u"
  "hwmKey u = hwmKey v \<longleftrightarrow> u = v" "drawdownKey u = drawdownKey v \<longleftrightarrow> u = v"
  "scopeKey sc \<noteq> hwmKey u" "scopeKey sc \<noteq> drawdownKey u"
  by (simp_all add: foreign_neq) (simp_all add: hwmKey_def drawdownKey_def)

definition currentValue :: "portfolio \<Rightarrow> real" where
  "currentValue pf = pf_totalNotional pf + pf_totalUnrealizedPnl pf"

text \<open>\<open>highWatermark\<close> is \<open>Number(stored)\<close>: a comparison with NaN is false.\<close>

definition drawdownPercent :: "real option \<Rightarrow> real \<Rightarrow> real" where
  "drawdownPercent hw v = (case hw of
      Some h \<Rightarrow> if 0 < h then (h - v) / h * 100 else 0 | None \<Rightarrow> 0)"

definition lm_update ::
  "('s, 'z) redis_scheme \<Rightarrow> (int \<Rightarrow> ks_scope \<Rightarrow> tmpl \<Rightarrow> string \<Rightarrow> 's world \<Rightarrow> 's world) \<Rightarrow>
   config \<Rightarrow> int \<Rightarrow> portfolio \<Rightarrow> string \<Rightarrow> string \<Rightarrow> 's world \<Rightarrow> 's world" where
  "lm_update R trig cfg now pf userId strategyId w =
     (let v = currentValue pf in
      case rget R now (db w) (hwmKey userId) of
        None \<Rightarrow>
          with_db (rset R now (drawdownKey userId) (JNum 0) None)
            (with_db (rset R now (hwmKey userId) (JNum v) None) w)
      | Some storedHwm \<Rightarrow>
          (let highWatermark = js_number storedHwm in
           if (case highWatermark of Some h \<Rightarrow> v > h | None \<Rightarrow> False) then
             with_db (rset R now (drawdownKey userId) (JNum 0) None)
               (with_db (rset R now (hwmKey userId) (JNum v) None) w)
           else
             (let dd = drawdownPercent highWatermark v;
                  w1 = with_db (rset R now (drawdownKey userId) (JNum dd) None) w;
                  threshold = sessionDrawdownKillSwitchPercent cfg
              in if dd \<ge> threshold then
                   trig now (KS_User userId)
                     [S ''Drawdown '', F dd 2, S ''% exceeded threshold '', N threshold, S ''%'']
                     ''loss-monitor''
                     (emit (Alert CRITICAL LOSS_LIMIT_BREACHED
                        [S ''Drawdown '', F dd 2, S ''% exceeded kill switch threshold '',
                         N threshold, S ''%'']
                        [(''strategyId'', JStr strategyId), (''currentDrawdownPercent'', JNum dd),
                         (''limitPercent'', JNum threshold),
                         (''unrealizedPnl'', JNum (pf_totalUnrealizedPnl pf))]) w1)
                 else w1)))"

definition lm_getDrawdown :: "('s, 'z) redis_scheme \<Rightarrow> int \<Rightarrow> string \<Rightarrow> 's world \<Rightarrow> real option" where
  "lm_getDrawdown R now userId w =
     (case rget R now (db w) (drawdownKey userId) of None \<Rightarrow> Some 0 | Some v \<Rightarrow> js_number v)"

definition lm_resetWatermark :: "('s, 'z) redis_scheme \<Rightarrow> int \<Rightarrow> string \<Rightarrow> 's world \<Rightarrow> 's world" where
  "lm_resetWatermark R now userId w =
     with_db (rdel R now (drawdownKey userId)) (with_db (rdel R now (hwmKey userId)) w)"

text \<open>A session: updates of one user at given times.\<close>

fun lm_run ::
  "('s, 'z) redis_scheme \<Rightarrow> (int \<Rightarrow> ks_scope \<Rightarrow> tmpl \<Rightarrow> string \<Rightarrow> 's world \<Rightarrow> 's world) \<Rightarrow>
   config \<Rightarrow> string \<Rightarrow> string \<Rightarrow> (int \<times> portfolio) list \<Rightarrow> 's world \<Rightarrow> 's world" where
  "lm_run R trig cfg u s [] w = w"
| "lm_run R trig cfg u s ((t, pf) # xs) w =
     lm_run R trig cfg u s xs (lm_update R trig cfg t pf u s w)"

fun update_times :: "int \<Rightarrow> (int \<times> portfolio) list \<Rightarrow> bool" where
  "update_times t [] = True"
| "update_times t ((t', _) # xs) = (t \<le> t' \<and> update_times t' xs)"

text \<open>The running maximum of the portfolio value.\<close>

definition peak :: "real \<Rightarrow> (int \<times> portfolio) list \<Rightarrow> real" where
  "peak h xs = foldl (\<lambda>m (_, pf). max m (currentValue pf)) h xs"

lemma peak_simps [simp]:
  "peak h [] = h" "peak h ((t, pf) # xs) = peak (max h (currentValue pf)) xs"
  "peak h (xs @ [(t, pf)]) = max (peak h xs) (currentValue pf)"
  by (simp_all add: peak_def)

text \<open>The watermark reads \<open>h\<close> from time \<open>t\<close> on.\<close>

definition watermark :: "('s, 'z) redis_scheme \<Rightarrow> string \<Rightarrow> int \<Rightarrow> real \<Rightarrow> 's world \<Rightarrow> bool" where
  "watermark R u t h w \<longleftrightarrow> (\<forall>t'\<ge>t. rget R t' (db w) (hwmKey u) = Some (JNum h))"

locale loss_monitor = redis_kv R + halt_switch "rget R" trig active
  for R :: "('s, 'z) redis_scheme" and trig active
begin

lemma update_watermark:
  assumes "watermark R u t h w" and "t \<le> now"
  shows "watermark R u now (max h (currentValue pf)) (lm_update R trig cfg now pf u s w)"
proof -
  have "rget R now (db w) (hwmKey u) = Some (JNum h)"
    using assms by (simp add: watermark_def)
  then show ?thesis
    using assms by (auto simp: watermark_def lm_update_def Let_def get_put trigger_foreign)
qed

lemma update_fresh:
  assumes "rget R now (db w) (hwmKey u) = None"
  shows "watermark R u now (currentValue pf) (lm_update R trig cfg now pf u s w)"
  using assms by (auto simp: watermark_def lm_update_def Let_def get_put)

lemma update_drawdown:
  assumes "watermark R u t h w" and "t \<le> now" and "now \<le> t'"
  shows "lm_getDrawdown R t' u (lm_update R trig cfg now pf u s w) =
    Some (if currentValue pf > h then 0 else drawdownPercent (Some h) (currentValue pf))"
proof -
  have "rget R now (db w) (hwmKey u) = Some (JNum h)"
    using assms by (simp add: watermark_def)
  then show ?thesis
    using assms by (simp add: lm_getDrawdown_def lm_update_def Let_def get_put trigger_foreign)
qed

lemma update_halts:
  assumes "watermark R u t h w" and "t \<le> now" and "now \<le> t'"
    and "currentValue pf \<le> h"
    and "drawdownPercent (Some h) (currentValue pf) \<ge> sessionDrawdownKillSwitchPercent cfg"
  shows "active t' (KS_User u) (lm_update R trig cfg now pf u s w)"
proof -
  have "rget R now (db w) (hwmKey u) = Some (JNum h)"
    using assms by (simp add: watermark_def)
  then show ?thesis
    using assms by (simp add: lm_update_def Let_def trigger_active)
qed

lemma active_put: "k \<noteq> scopeKey sc' \<Longrightarrow> foreign_key k \<Longrightarrow> t \<le> t' \<Longrightarrow>
    active t' sc (with_db (rset R t k v None) w) = active t' sc w"
  by (rule active_reads) (auto simp: get_put foreign_key_def)

lemma active_emit: "active t sc (emit e w) = active t sc w"
  by (rule active_reads) simp

lemma update_keeps_active:
  assumes "now \<le> t'" and "active t' sc w"
  shows "active t' sc (lm_update R trig cfg now pf u s w)"
proof -
  have a: "active t' sc (with_db (rset R now (drawdownKey u) x None) v) = active t' sc v"
    "active t' sc (with_db (rset R now (hwmKey u) x None) v) = active t' sc v" for x v
    using active_put [of "drawdownKey u" KS_Global] active_put [of "hwmKey u" KS_Global] assms(1)
    by (metis loss_keys_foreign loss_keys(5,6))+
  show ?thesis
    using assms by (auto simp: lm_update_def Let_def a active_emit intro!: trigger_keeps
        split: option.splits)
qed

text \<open>Without a breach an update does not halt anybody.\<close>

lemma update_no_halt:
  assumes "watermark R u t h w" and "t \<le> now" and "now \<le> t'"
    and "currentValue pf > h \<or>
      drawdownPercent (Some h) (currentValue pf) < sessionDrawdownKillSwitchPercent cfg"
  shows "active t' sc (lm_update R trig cfg now pf u s w) = active t' sc w"
proof -
  have a: "active t' sc (with_db (rset R now (drawdownKey u) x None) v) = active t' sc v"
    "active t' sc (with_db (rset R now (hwmKey u) x None) v) = active t' sc v" for x v
    using active_put [of "drawdownKey u" KS_Global] active_put [of "hwmKey u" KS_Global] assms(3)
    by (metis loss_keys_foreign loss_keys(5,6))+
  have "rget R now (db w) (hwmKey u) = Some (JNum h)"
    using assms by (simp add: watermark_def)
  then show ?thesis
    using assms(4) by (auto simp: lm_update_def Let_def a)
qed

lemma run_watermark:
  assumes "watermark R u t h w" and "update_times t xs"
  shows "\<exists>t'. watermark R u t' (peak h xs) (lm_run R trig cfg u s xs w) \<and>
     (\<forall>n. update_times t (xs @ [(n, pf)]) \<longrightarrow> t' \<le> n)"
  using assms
proof (induction xs arbitrary: t h w)
  case Nil
  then show ?case by (auto intro: exI [of _ t])
next
  case (Cons x xs)
  obtain n q where x: "x = (n, q)" by (cases x)
  with Cons.prems have "watermark R u n (max h (currentValue q)) (lm_update R trig cfg n q u s w)"
    and "update_times n xs"
    using update_watermark by auto
  from Cons.IH [OF this] show ?case using x by auto
qed

lemma lm_run_append: "lm_run R trig cfg u s (xs @ ys) w = lm_run R trig cfg u s ys (lm_run R trig cfg u s xs w)"
  by (induction xs arbitrary: w) auto

lemma run_halts:
  assumes "rget R t0 (db w) (hwmKey u) = None"
    and "update_times t0 ((t0, pf0) # xs @ [(now, pf)])" and "now \<le> t'"
    and "currentValue pf \<le> peak (currentValue pf0) xs"
    and "drawdownPercent (Some (peak (currentValue pf0) xs)) (currentValue pf)
           \<ge> sessionDrawdownKillSwitchPercent cfg"
  shows "active t' (KS_User u) (lm_run R trig cfg u s ((t0, pf0) # xs @ [(now, pf)]) w)"
proof -
  let ?w1 = "lm_update R trig cfg t0 pf0 u s w"
  have w1: "watermark R u t0 (currentValue pf0) ?w1" by (rule update_fresh [OF assms(1)])
  have times: "update_times t0 (xs @ [(now, pf)])" using assms(2) by simp
  have "update_times t0 xs" using times by (induction xs arbitrary: t0) auto
  from run_watermark [OF w1 this, of cfg s pf] times obtain t1
    where "watermark R u t1 (peak (currentValue pf0) xs) (lm_run R trig cfg u s xs ?w1)"
      and "t1 \<le> now" by blast
  from update_halts [OF this assms(3,4,5)] show ?thesis by (simp add: lm_run_append)
qed

end

text \<open>The kill switch of the repository gives the monitor its contract.\<close>

sublocale redis_kv \<subseteq> monitor: loss_monitor R "ks_trigger R" "ks_isActive R" ..

interpretation mem_monitor: loss_monitor service "ks_trigger service" "ks_isActive service"
  by (rule mem.service.monitor.loss_monitor_axioms)

context redis_kv
begin

lemma lm_contract: "loss_monitor R (ks_trigger R) (ks_isActive R)"
  by (rule monitor.loss_monitor_axioms)

end

subsection \<open>Properties\<close>

definition demo_value :: "real \<Rightarrow> portfolio" where
  "demo_value v = \<lparr>pf_positions = [], pf_totalNotional = v, pf_totalUnrealizedPnl = 0,
     pf_drawdownPercent = 0\<rparr>"

text \<open>over a session of updates at nondecreasing times, the stored watermark is
  the running maximum of the portfolio values, and after a further update the reported
  drawdown is zero at a new maximum and otherwise the percentage below the maximum.\<close>

theorem lm_peak:
  assumes "redis_kv R" and "watermark R u t h w" and "update_times t (xs @ [(now, pf)])"
    and "now \<le> t'"
  shows "watermark R u now (peak h (xs @ [(now, pf)]))
      (lm_run R (ks_trigger R) cfg u s (xs @ [(now, pf)]) w) \<and>
    lm_getDrawdown R t' u (lm_run R (ks_trigger R) cfg u s (xs @ [(now, pf)]) w) =
      Some (if currentValue pf > peak h xs then 0
            else drawdownPercent (Some (peak h xs)) (currentValue pf))"
proof -
  note lm = redis_kv.lm_contract [OF assms(1)]
  have "update_times t xs" using assms(3) by (induction xs arbitrary: t) auto
  from loss_monitor.run_watermark [OF lm assms(2) this, of cfg s pf] assms(3) obtain t1
    where w1: "watermark R u t1 (peak h xs) (lm_run R (ks_trigger R) cfg u s xs w)" "t1 \<le> now"
    by blast
  show ?thesis
    using loss_monitor.update_watermark [OF lm w1] loss_monitor.update_drawdown [OF lm w1 assms(4)]
    by (simp add: loss_monitor.lm_run_append [OF lm])
qed

lemma mem_watermark:
  "watermark service ''bob'' 1 v (lm_update service (ks_trigger service) cfg 1 (demo_value v) ''bob'' s mem_world)"
  using loss_monitor.update_fresh [OF redis_kv.lm_contract [OF mem.service.redis_kv_axioms],
      of 1 mem_world "''bob''" "demo_value v"]
  by (simp add: currentValue_def demo_value_def)

theorem lm_peak_witness:
  "lm_getDrawdown service 9 ''bob''
     (lm_run service (ks_trigger service) (default_config [] ''root'') ''bob'' ''s''
        [(2, demo_value 200), (5, demo_value 190)]
        (lm_update service (ks_trigger service) (default_config [] ''root'') 1 (demo_value 100)
           ''bob'' ''s'' mem_world)) = Some 5"
  using lm_peak [OF mem.service.redis_kv_axioms mem_watermark, where xs = "[(2, demo_value 200)]"
      and now = 5 and pf = "demo_value 190" and t' = 9]
  by (simp add: currentValue_def demo_value_def drawdownPercent_def)

text \<open>when, in a session that starts without a watermark, a portfolio
  value lies the configured percentage or more below the highest value seen before it, the
  kill switch of that user is active from then on.\<close>

theorem lm_drawdown_halts:
  assumes "redis_kv R" and "rget R t0 (db w) (hwmKey u) = None"
    and "update_times t0 ((t0, pf0) # xs @ [(now, pf)])" and "now \<le> t'"
    and "currentValue pf \<le> peak (currentValue pf0) xs"
    and "drawdownPercent (Some (peak (currentValue pf0) xs)) (currentValue pf)
           \<ge> sessionDrawdownKillSwitchPercent cfg"
  shows "ks_isActive R t' (KS_User u)
    (lm_run R (ks_trigger R) cfg u s ((t0, pf0) # xs @ [(now, pf)]) w)"
  by (rule loss_monitor.run_halts [OF redis_kv.lm_contract [OF assms(1)] assms(2-6)])

theorem lm_drawdown_halts_witness:
  "ks_isActive service 99 (KS_User ''bob'')
     (lm_run service (ks_trigger service) (default_config [] ''root'') ''bob'' ''s''
        [(1, demo_value 100), (2, demo_value 200), (5, demo_value 180)] mem_world)"
  using lm_drawdown_halts [OF mem.service.redis_kv_axioms,
      of 1 mem_world "''bob''" "demo_value 100" "[(2, demo_value 200)]" 5 "demo_value 180" 99
      "default_config [] ''root''" "''s''"]
  by (simp add: currentValue_def demo_value_def drawdownPercent_def default_config_def)

end
