(* ===== verification/Risk_Engine.thy ===== *)
theory Risk_Engine
  imports Circuit_Breaker Position_Limits Loss_Monitor
begin

text \<open>
  The risk engine of \<open>security/risk/risk.engine.ts\<close>: one evaluation consults the kill
  switch in three scopes, the three circuit breakers, the position limits for order
  actions, updates the loss monitor, and emits the verdict. The engine's collaborators are
  the modelled components over one Redis adapter.
\<close>

record risk_context =
  rc_userId :: string
  rc_strategyId :: string
  rc_portfolio :: portfolio
  rc_sessionId :: string

record risk_evaluation =
  re_approved :: bool
  re_riskLevel :: risk_level
  re_blockReasons :: "tmpl list"

record risk_engine =
  eng_config :: config
  eng_velocity :: breaker
  eng_errorRate :: breaker
  eng_loss :: breaker

definition elevateRisk :: "risk_level \<Rightarrow> risk_level \<Rightarrow> risk_level" where
  "elevateRisk current candidate =
     (if risk_order candidate > risk_order current then candidate else current)"

fun computeBaseRiskLevel :: "agent_action \<Rightarrow> risk_level" where
  "computeBaseRiskLevel (PlaceOrder _) = MEDIUM"
| "computeBaseRiskLevel (CancelOrder _) = LOW"
| "computeBaseRiskLevel (ModifyOrder _) = MEDIUM"
| "computeBaseRiskLevel (ClosePosition _) = MEDIUM"
| "computeBaseRiskLevel (RequestHumanReview _) = LOW"
| "computeBaseRiskLevel (NoAction _) = LOW"

definition context_scopes :: "risk_context \<Rightarrow> ks_scope list" where
  "context_scopes ctx = [KS_Global, KS_User (rc_userId ctx), KS_Strategy (rc_strategyId ctx)]"

definition checkKillSwitch ::
  "('s, 'z) redis_scheme \<Rightarrow> int \<Rightarrow> risk_context \<Rightarrow> 's world \<Rightarrow> bool" where
  "checkKillSwitch R now ctx w = list_ex (\<lambda>sc. ks_isActive R now sc w) (context_scopes ctx)"

definition checkCircuitBreakers ::
  "('s, 'z) redis_scheme \<Rightarrow> risk_engine \<Rightarrow> int \<Rightarrow> 's world \<Rightarrow> tmpl list \<times> 's world" where
  "checkCircuitBreakers R e now w =
     (let (v, w1) = isOpen R (eng_velocity e) now w;
          (x, w2) = isOpen R (eng_errorRate e) now w1;
          (l, w3) = isOpen R (eng_loss e) now w2
      in ((if v then [[S ''Velocity circuit breaker is open'']] else [])
          @ (if x then [[S ''Error rate circuit breaker is open'']] else [])
          @ (if l then [[S ''Loss circuit breaker is open'']] else []), w3))"

definition breach_reason :: "breach \<Rightarrow> tmpl" where
  "breach_reason b = [S ''Position limit breached: '', S (br_limit b), S '' (current: '',
     N (br_current b), S '', max: '', N (br_maximum b), S '')'']"

definition limits_stage ::
  "risk_engine \<Rightarrow> agent_action \<Rightarrow> risk_context \<Rightarrow> 's world \<Rightarrow> breach list \<times> 's world" where
  "limits_stage e action ctx w =
     (case action of
        PlaceOrder a \<Rightarrow>
          (let ((passed, breaches), w') = pl_check (eng_config e) a (rc_portfolio ctx) w
           in (if passed then [] else breaches, w'))
      | _ \<Rightarrow> ([], w))"

definition verdict_alert :: "agent_action \<Rightarrow> risk_context \<Rightarrow> risk_level \<Rightarrow> tmpl list \<Rightarrow> effect" where
  "verdict_alert action ctx level reasons =
     (if reasons = [] then
        Alert level ACTION_ALLOWED
          [S ''Action '', S (action_type_str (type_of_action action)), S '' approved for user '',
           S (rc_userId ctx)]
          [(''actionType'', JStr (action_type_str (type_of_action action))),
           (''strategyId'', JStr (rc_strategyId ctx)),
           (''checksPerformed'', JArr [JStr ''kill-switch'', JStr ''circuit-breakers'',
              JStr ''position-limits'', JStr ''loss-monitor''])]
      else
        Alert level ACTION_BLOCKED
          ([S ''Action '', S (action_type_str (type_of_action action)), S '' blocked: ''] @ hd reasons)
          [(''actionType'', JStr (action_type_str (type_of_action action))),
           (''strategyId'', JStr (rc_strategyId ctx)),
           (''reason'', JText (join_tmpl ''; '' reasons)),
           (''violatedRule'', JText (hd reasons))])"

definition evaluate ::
  "('s, 'z) redis_scheme \<Rightarrow> risk_engine \<Rightarrow> int \<Rightarrow> agent_action \<Rightarrow> risk_context \<Rightarrow> 's world \<Rightarrow>
   risk_evaluation \<times> 's world" where
  "evaluate R e now action ctx w =
     (let killed = checkKillSwitch R now ctx w;
          reasons1 = (if killed then [[S ''Kill switch is active'']] else []);
          risk1 = (if killed then CRITICAL else LOW);
          (breakerReasons, w1) = checkCircuitBreakers R e now w;
          risk2 = (if breakerReasons \<noteq> [] then elevateRisk risk1 HIGH else risk1);
          (breaches, w2) = limits_stage e action ctx w1;
          risk3 = (if breaches \<noteq> [] then elevateRisk risk2 HIGH else risk2);
          w3 = lm_update R (ks_trigger R) (eng_config e) now (rc_portfolio ctx)
                 (rc_userId ctx) (rc_strategyId ctx) w2;
          reasons = reasons1 @ breakerReasons @ map breach_reason breaches;
          risk = (if reasons = [] then computeBaseRiskLevel action else risk3)
      in (\<lparr>re_approved = (reasons = []), re_riskLevel = risk, re_blockReasons = reasons\<rparr>,
          emit (verdict_alert action ctx risk reasons) w3))"

definition distinct_breakers :: "risk_engine \<Rightarrow> bool" where
  "distinct_breakers e \<longleftrightarrow>
     distinct [cb_name (eng_velocity e), cb_name (eng_errorRate e), cb_name (eng_loss e)]"

subsection \<open>What each stage reads\<close>

lemma breaker_keys_foreign [simp]:
  "foreign_key (stateKey n)" "foreign_key (openedAtKey n)" "foreign_key (failCountKey n)"
  by (rule foreign_hd; simp add: stateKey_def openedAtKey_def failCountKey_def)+

lemma key_families [simp]:
  "scopeKey sc \<noteq> stateKey n" "stateKey n \<noteq> scopeKey sc"
  "hwmKey u \<noteq> stateKey n" "drawdownKey u \<noteq> stateKey n"
  by (simp_all add: foreign_neq) (simp_all add: stateKey_def hwmKey_def drawdownKey_def)

lemma key_names [simp]:
  "stateKey n = stateKey m \<longleftrightarrow> n = m" "openedAtKey n = openedAtKey m \<longleftrightarrow> n = m"
  "openedAtKey n \<noteq> stateKey m" "stateKey m \<noteq> openedAtKey n"
proof -
  show "openedAtKey n \<noteq> stateKey m"
  proof
    assume "openedAtKey n = stateKey m"
    then have "rev (openedAtKey n) = rev (stateKey m)" by simp
    then show False by (simp add: openedAtKey_def stateKey_def)
  qed
  then show "stateKey m \<noteq> openedAtKey n" by metis
qed (simp_all add: stateKey_def openedAtKey_def)

context redis_kv
begin

lemma isOpen_frame:
  "k \<noteq> stateKey (cb_name b) \<Longrightarrow> rget R t (db (snd (isOpen R b now w))) k = rget R t (db w) k"
  by (auto simp: isOpen_def getState_def transitionTo_def Let_def get_put_other
      split: option.splits prod.splits)

lemma isOpen_reads:
  assumes "rget R now (db w) (stateKey (cb_name b)) = rget R now (db w') (stateKey (cb_name b))"
    and "rget R now (db w) (openedAtKey (cb_name b)) = rget R now (db w') (openedAtKey (cb_name b))"
  shows "fst (isOpen R b now w) = fst (isOpen R b now w')"
  using assms by (auto simp: isOpen_def getState_def Let_def split: option.splits prod.splits)

lemma isOpen_other:
  "cb_name b \<noteq> cb_name b' \<Longrightarrow> fst (isOpen R b now (snd (isOpen R b' now w))) = fst (isOpen R b now w)"
  by (rule isOpen_reads) (simp_all add: isOpen_frame)

lemma breakers_db:
  "k \<notin> {stateKey (cb_name (eng_velocity e)), stateKey (cb_name (eng_errorRate e)),
      stateKey (cb_name (eng_loss e))} \<Longrightarrow>
   rget R t (db (snd (checkCircuitBreakers R e now w))) k = rget R t (db w) k"
  by (simp add: checkCircuitBreakers_def Let_def split_beta isOpen_frame)

lemma breakers_fst:
  assumes "distinct_breakers e"
  shows "fst (checkCircuitBreakers R e now w) =
     (if fst (isOpen R (eng_velocity e) now w) then [[S ''Velocity circuit breaker is open'']] else [])
     @ (if fst (isOpen R (eng_errorRate e) now w) then [[S ''Error rate circuit breaker is open'']] else [])
     @ (if fst (isOpen R (eng_loss e) now w) then [[S ''Loss circuit breaker is open'']] else [])"
proof -
  have n: "cb_name (eng_errorRate e) \<noteq> cb_name (eng_velocity e)"
    "cb_name (eng_loss e) \<noteq> cb_name (eng_velocity e)"
    "cb_name (eng_loss e) \<noteq> cb_name (eng_errorRate e)"
    using assms unfolding distinct_breakers_def by auto
  show ?thesis
    by (simp only: checkCircuitBreakers_def Let_def split_beta isOpen_other [OF n(1)]
        isOpen_other [OF n(2)] isOpen_other [OF n(3)] fst_conv)
qed

lemma breakers_reasons:
  "distinct_breakers e \<Longrightarrow>
   fst (checkCircuitBreakers R e now w) = [] \<longleftrightarrow>
     \<not> fst (isOpen R (eng_velocity e) now w) \<and> \<not> fst (isOpen R (eng_errorRate e) now w) \<and>
     \<not> fst (isOpen R (eng_loss e) now w)"
  by (simp add: breakers_fst)

lemma breakers_active: "ks_isActive R t sc (snd (checkCircuitBreakers R e now w)) = ks_isActive R t sc w"
  by (rule halt.active_reads) (simp add: breakers_db)

lemma limits_stage_db [simp]: "db (snd (limits_stage e action ctx w)) = db w"
  by (cases action) (simp_all add: limits_stage_def split_beta Let_def)

lemma limits_stage_breaches:
  "fst (limits_stage e action ctx w) = [] \<longleftrightarrow>
     (case action of PlaceOrder a \<Rightarrow> within_limits (eng_config e) a (rc_portfolio ctx) | _ \<Rightarrow> True)"
  by (cases action)
    (simp_all add: limits_stage_def split_beta Let_def pl_check_result pl_breaches_Nil)

lemma limits_stage_active: "ks_isActive R t sc (snd (limits_stage e action ctx w)) = ks_isActive R t sc w"
  by (rule halt.active_reads) simp

lemma evaluate_active:
  "now \<le> t \<Longrightarrow> ks_isActive R t sc w \<Longrightarrow> ks_isActive R t sc (snd (evaluate R e now action ctx w))"
  by (simp add: evaluate_def Let_def split_beta monitor.active_emit monitor.update_keeps_active
      limits_stage_active breakers_active)

lemma evaluate_approved:
  assumes "distinct_breakers e"
  shows "re_approved (fst (evaluate R e now action ctx w)) \<longleftrightarrow>
     (\<forall>sc \<in> set (context_scopes ctx). \<not> ks_isActive R now sc w) \<and>
     \<not> fst (isOpen R (eng_velocity e) now w) \<and> \<not> fst (isOpen R (eng_errorRate e) now w) \<and>
     \<not> fst (isOpen R (eng_loss e) now w) \<and>
     (case action of PlaceOrder a \<Rightarrow> within_limits (eng_config e) a (rc_portfolio ctx) | _ \<Rightarrow> True)"
  using breakers_reasons [OF assms, of now w]
  by (auto simp: evaluate_def Let_def split_beta checkKillSwitch_def list_ex_iff
      limits_stage_breaches split: if_splits)

lemma evaluate_killed:
  assumes "sc \<in> set (context_scopes ctx)" and "ks_isActive R now sc w"
  shows "\<not> re_approved (fst (evaluate R e now action ctx w)) \<and>
    re_riskLevel (fst (evaluate R e now action ctx w)) = CRITICAL"
  using assms
  by (auto simp: evaluate_def Let_def split_beta checkKillSwitch_def list_ex_iff elevateRisk_def)

lemma evaluate_halts:
  assumes "watermark R (rc_userId ctx) t0 h w" and "t0 \<le> now" and "now \<le> t"
    and "currentValue (rc_portfolio ctx) \<le> h"
    and "drawdownPercent (Some h) (currentValue (rc_portfolio ctx))
           \<ge> sessionDrawdownKillSwitchPercent (eng_config e)"
  shows "ks_isActive R t (KS_User (rc_userId ctx)) (snd (evaluate R e now action ctx w))"
proof -
  let ?w2 = "snd (limits_stage e action ctx (snd (checkCircuitBreakers R e now w)))"
  have "watermark R (rc_userId ctx) t0 h ?w2"
    using assms(1) by (simp add: watermark_def breakers_db)
  from monitor.update_halts [OF this assms(2-5)] show ?thesis
    by (simp add: evaluate_def Let_def split_beta monitor.active_emit)
qed

end

text \<open>A sequence of evaluations, as the agent submits actions one after the other.\<close>

fun evaluate_all ::
  "('s, 'z) redis_scheme \<Rightarrow> risk_engine \<Rightarrow> (int \<times> agent_action \<times> risk_context) list \<Rightarrow> 's world \<Rightarrow>
   risk_evaluation list \<times> 's world" where
  "evaluate_all R e [] w = ([], w)"
| "evaluate_all R e ((t, a, ctx) # xs) w =
     (let (r, w1) = evaluate R e t a ctx w; (rs, w2) = evaluate_all R e xs w1 in (r # rs, w2))"

context redis_kv
begin

text \<open>An active scope blocks every evaluation that names it, in any order of times.\<close>

lemma evaluate_all_killed:
  assumes "\<forall>t \<ge> t0. ks_isActive R t sc w"
    and "sorted_wrt (\<lambda>x y. fst x \<le> fst y) xs"
    and "\<forall>(t, a, ctx) \<in> set xs. t0 \<le> t \<and> sc \<in> set (context_scopes ctx)"
  shows "\<forall>r \<in> set (fst (evaluate_all R e xs w)). \<not> re_approved r \<and> re_riskLevel r = CRITICAL"
  using assms
proof (induction xs arbitrary: t0 w)
  case (Cons x xs)
  obtain t a ctx where x: "x = (t, a, ctx)" by (cases x) auto
  let ?w1 = "snd (evaluate R e t a ctx w)"
  from Cons.prems x have t: "t0 \<le> t" and sc: "sc \<in> set (context_scopes ctx)" by auto
  have "\<forall>t' \<ge> t. ks_isActive R t' sc ?w1"
    using Cons.prems(1) t by (auto intro: evaluate_active)
  moreover have "\<forall>(t', a, ctx) \<in> set xs. t \<le> t' \<and> sc \<in> set (context_scopes ctx)"
    using Cons.prems(2,3) x by fastforce
  ultimately have "\<forall>r \<in> set (fst (evaluate_all R e xs ?w1)). \<not> re_approved r \<and> re_riskLevel r = CRITICAL"
    using Cons.IH [of t ?w1] Cons.prems(2) by simp
  moreover have "ks_isActive R t sc w" using Cons.prems(1) t by blast
  ultimately show ?case
    using evaluate_killed [OF sc, of t w e a] x by (simp add: Let_def split_beta)
qed simp

end

subsection \<open>Properties\<close>

definition demo_engine :: risk_engine where
  "demo_engine = \<lparr>eng_config = demo_config, eng_velocity = demo_breaker,
     eng_errorRate = demo_breaker\<lparr>cb_name := ''error-rate''\<rparr>,
     eng_loss = demo_breaker\<lparr>cb_name := ''loss''\<rparr>\<rparr>"

definition demo_context :: "portfolio \<Rightarrow> risk_context" where
  "demo_context pf = \<lparr>rc_userId = ''bob'', rc_strategyId = ''s1'', rc_portfolio = pf,
     rc_sessionId = ''x''\<rparr>"

lemma demo_engine_distinct: "distinct_breakers demo_engine"
  by (simp add: distinct_breakers_def demo_engine_def demo_breaker_def)

text \<open>C5: an action is approved exactly when no kill switch covers the
  user, the strategy or everything, none of the three breakers is open, and an order is
  inside the position limits.\<close>

theorem re_approved_exact:
  assumes "redis_kv R" and "distinct_breakers e"
  shows "re_approved (fst (evaluate R e now action ctx w)) \<longleftrightarrow>
     (\<forall>sc \<in> set (context_scopes ctx). \<not> ks_isActive R now sc w) \<and>
     \<not> fst (isOpen R (eng_velocity e) now w) \<and> \<not> fst (isOpen R (eng_errorRate e) now w) \<and>
     \<not> fst (isOpen R (eng_loss e) now w) \<and>
     (case action of PlaceOrder a \<Rightarrow> within_limits (eng_config e) a (rc_portfolio ctx) | _ \<Rightarrow> True)"
  by (rule redis_kv.evaluate_approved [OF assms])

theorem re_approved_exact_witness:
  "re_approved (fst (evaluate service demo_engine 3 (NoAction ''r'')
     (demo_context (demo_portfolio 1)) mem_world))"
  using re_approved_exact [OF mem.service.redis_kv_axioms demo_engine_distinct,
      of 3 "NoAction ''r''" "demo_context (demo_portfolio 1)" mem_world]
  by (simp add: ks_isActive_def isOpen_def getState_def)

text \<open>an approved action carries the base risk level of its type, never HIGH
  or CRITICAL; a blocked one is HIGH or CRITICAL, and CRITICAL exactly when a kill switch
  covers it; the last effect of every evaluation is the matching verdict alert.\<close>

theorem re_verdict:
  "let (r, w') = evaluate R e now action ctx w in
     (if re_approved r
      then re_riskLevel r = computeBaseRiskLevel action \<and> re_riskLevel r < HIGH \<and>
           re_blockReasons r = []
      else re_riskLevel r = (if checkKillSwitch R now ctx w then CRITICAL else HIGH) \<and>
           re_blockReasons r \<noteq> []) \<and>
     effect_type (last (out w')) = (if re_approved r then ACTION_ALLOWED else ACTION_BLOCKED) \<and>
     effect_level (last (out w')) = Some (re_riskLevel r)"
  by (cases action)
    (auto simp: evaluate_def Let_def split_beta elevateRisk_def verdict_alert_def
      less_risk_level_def)

text \<open>C7: when the portfolio of an evaluated action lies the configured
  percentage or more below the user's watermark, every later evaluation for that user, over
  any sequence of actions, is blocked with level CRITICAL.\<close>

theorem re_loss_halts:
  assumes "redis_kv R" and "watermark R (rc_userId ctx) t0 h w" and "t0 \<le> now"
    and "currentValue (rc_portfolio ctx) \<le> h"
    and "drawdownPercent (Some h) (currentValue (rc_portfolio ctx))
           \<ge> sessionDrawdownKillSwitchPercent (eng_config e)"
    and "sorted_wrt (\<lambda>x y. fst x \<le> fst y) xs"
    and "\<forall>(t, a, c) \<in> set xs. now \<le> t \<and> rc_userId c = rc_userId ctx"
  shows "\<forall>r \<in> set (fst (evaluate_all R e xs (snd (evaluate R e now action ctx w)))).
           \<not> re_approved r \<and> re_riskLevel r = CRITICAL"
proof (rule redis_kv.evaluate_all_killed [OF assms(1)])
  show "\<forall>t\<ge>now. ks_isActive R t (KS_User (rc_userId ctx)) (snd (evaluate R e now action ctx w))"
    using redis_kv.evaluate_halts [OF assms(1-3) _ assms(4,5)] by blast
  show "sorted_wrt (\<lambda>x y. fst x \<le> fst y) xs" by (rule assms(6))
  show "\<forall>(t, a, c) \<in> set xs. now \<le> t \<and> KS_User (rc_userId ctx) \<in> set (context_scopes c)"
    using assms(7) by (auto simp: context_scopes_def)
qed

theorem re_loss_halts_witness:
  "list_all (\<lambda>r. \<not> re_approved r \<and> re_riskLevel r = CRITICAL)
     (fst (evaluate_all service demo_engine
       [(3, NoAction ''a'', demo_context (demo_value 300)), (7, NoAction ''b'', demo_context (demo_value 1))]
       (snd (evaluate service demo_engine 2 (NoAction ''r'') (demo_context (demo_value 180))
         (lm_update service (ks_trigger service) demo_config 1 (demo_value 200) ''bob'' ''s1'' mem_world)))))"
  unfolding list_all_iff
proof (rule re_loss_halts [OF mem.service.redis_kv_axioms, where ?t0.0 = 1 and h = 200])
  show "watermark service (rc_userId (demo_context (demo_value 180))) 1 200
     (lm_update service (ks_trigger service) demo_config 1 (demo_value 200) ''bob'' ''s1'' mem_world)"
    using mem_watermark by (simp add: demo_context_def)
qed (simp_all add: demo_context_def demo_engine_def demo_defs demo_value_def currentValue_def
    drawdownPercent_def)

end
