(* ===== verification/Action_Codec.thy ===== *)
theory Action_Codec
  imports Actions
begin

text \<open>
  \<open>JSON.stringify(action)\<close>, which the approval flow and the context checks write, and its
  inverse: the schemas of \<open>types/actions.ts\<close> accept exactly what it writes for valid
  actions, and give the action back. An absent optional field is \<open>undefined\<close> and is left
  out of the text.
\<close>

fun opt_field :: "string \<Rightarrow> real option \<Rightarrow> (string \<times> json) list" where
  "opt_field k None = []"
| "opt_field k (Some r) = [(k, JNum r)]"

fun action_fields :: "agent_action \<Rightarrow> (string \<times> json) list" where
  "action_fields (PlaceOrder a) =
     [(''instrument'', JStr (po_instrument a)), (''side'', JStr (side_str (po_side a))),
      (''orderType'', JStr (order_type_str (po_orderType a))),
      (''quantity'', JNum (po_quantity a))] @
     opt_field ''price'' (po_price a) @ opt_field ''stopPrice'' (po_stopPrice a) @
     [(''strategyId'', JStr (po_strategyId a)), (''clientOrderId'', JStr (po_clientOrderId a))]"
| "action_fields (CancelOrder a) =
     [(''clientOrderId'', JStr (co_clientOrderId a)), (''instrument'', JStr (co_instrument a)),
      (''strategyId'', JStr (co_strategyId a))]"
| "action_fields (ModifyOrder a) =
     [(''clientOrderId'', JStr (mo_clientOrderId a)), (''instrument'', JStr (mo_instrument a))] @
     opt_field ''newQuantity'' (mo_newQuantity a) @ opt_field ''newPrice'' (mo_newPrice a) @
     [(''strategyId'', JStr (mo_strategyId a))]"
| "action_fields (ClosePosition a) =
     [(''instrument'', JStr (cp_instrument a)), (''strategyId'', JStr (cp_strategyId a))]"
| "action_fields (RequestHumanReview a) =
     [(''reason'', JStr (hr_reason a)), (''context'', JObj (hr_context a)),
      (''strategyId'', JStr (hr_strategyId a))]"
| "action_fields (NoAction r) = [(''reason'', JStr r)]"

definition action_json :: "agent_action \<Rightarrow> json" where
  "action_json a =
     JObj ((''type'', JStr (action_type_str (type_of_action a))) # action_fields a)"

text \<open>The values that satisfy the schemas; \<open>uuid\<close> is zod's test of a client order id.\<close>

fun action_ok :: "(string \<Rightarrow> bool) \<Rightarrow> agent_action \<Rightarrow> bool" where
  "action_ok uuid (PlaceOrder a) = (place_order_ok a \<and> uuid (po_clientOrderId a))"
| "action_ok uuid (CancelOrder a) =
     (uuid (co_clientOrderId a) \<and> co_instrument a \<noteq> [] \<and> co_strategyId a \<noteq> [])"
| "action_ok uuid (ModifyOrder a) =
     (uuid (mo_clientOrderId a) \<and> mo_instrument a \<noteq> [] \<and> mo_strategyId a \<noteq> [] \<and>
      pred_option (\<lambda>q. 0 < q) (mo_newQuantity a) \<and> pred_option (\<lambda>p. 0 < p) (mo_newPrice a))"
| "action_ok uuid (ClosePosition a) = (cp_instrument a \<noteq> [] \<and> cp_strategyId a \<noteq> [])"
| "action_ok uuid (RequestHumanReview a) = (hr_reason a \<noteq> [] \<and> hr_strategyId a \<noteq> [])"
| "action_ok uuid (NoAction r) = (r \<noteq> [])"

lemma z_uuid_SomeD: "z_uuid u v = Some s \<Longrightarrow> v = Some (JStr s) \<and> u s"
  by (cases "(u, v)" rule: z_uuid.cases) (auto split: if_splits)

lemma parse_written:
  assumes "action_ok uuid a"
  shows "parse_agent_action uuid (action_json a) = Some a"
proof (cases a)
  case (PlaceOrder p)
  with assms show ?thesis
    by (cases "po_side p"; cases "po_orderType p"; cases "po_price p"; cases "po_stopPrice p")
      (simp_all add: action_json_def parse_agent_action_def parse_place_order_def place_order_ok_def)
next
  case (ModifyOrder m)
  with assms show ?thesis
    by (cases "mo_newQuantity m"; cases "mo_newPrice m")
      (simp_all add: action_json_def parse_agent_action_def parse_modify_order_def)
qed (use assms in \<open>simp_all add: action_json_def parse_agent_action_def parse_cancel_order_def
      parse_close_position_def parse_human_review_def\<close>)

lemma parsed_ok: "parse_agent_action uuid j = Some a \<Longrightarrow> action_ok uuid a"
  by (auto simp: parse_agent_action_def parse_place_order_def parse_cancel_order_def
      parse_modify_order_def parse_close_position_def parse_human_review_def place_order_ok_def
      split: option.splits json.splits if_splits
      dest!: z_string1_SomeD z_positive_SomeD z_positive_opt_SomeD z_uuid_SomeD)

subsection \<open>Properties\<close>

text \<open>the action schema accepts some text as an action exactly when the
  action's fields are in range, and then it accepts the text that \<open>JSON.stringify\<close> writes
  for it and gives the same action back.\<close>

theorem action_roundtrip:
  "(\<exists>j. parse_agent_action uuid j = Some a) = action_ok uuid a \<and>
   (parse_agent_action uuid (action_json a) = Some a) = action_ok uuid a"
  using parse_written parsed_ok by blast

end
