(* ===== verification/Confirmation.thy ===== *)
theory Confirmation
  imports Redis_Store Action_Codec
begin

text \<open>
  Human confirmation: \<open>security/confirmation/approval.flow.ts\<close> and
  \<open>confirmation.gate.ts\<close>. A challenge is stored under its id; a submission is checked
  against it and, when it passes, consumes it. HMAC-SHA256 (\<open>node:crypto\<close>) and the text
  that \<open>JSON.stringify\<close> writes are parameters. \<open>submitApproval\<close> is split at the one
  \<open>await\<close> between its last read and its first write, so that two concurrent submissions
  can be interleaved there.
\<close>

subsection \<open>The approval flow\<close>

record challenge =
  ch_challengeId :: string
  ch_userId :: string
  ch_sessionId :: string
  ch_actionPayload :: json
  ch_signature :: string
  ch_createdAt :: int
  ch_expiresAt :: int

record approved_action =
  ap_challengeId :: string
  ap_userId :: string
  ap_action :: json
  ap_approvedAt :: int

definition challenge_json :: "challenge \<Rightarrow> json" where
  "challenge_json ch = JObj [
     (''challengeId'', JStr (ch_challengeId ch)), (''userId'', JStr (ch_userId ch)),
     (''sessionId'', JStr (ch_sessionId ch)), (''actionPayload'', ch_actionPayload ch),
     (''signature'', JStr (ch_signature ch)), (''createdAt'', JDate (ch_createdAt ch)),
     (''expiresAt'', JDate (ch_expiresAt ch))]"

definition challengeKey :: "string \<Rightarrow> string" where
  "challengeKey i = ''confirmation:challenge:'' @ i"

definition consumedKey :: "string \<Rightarrow> string" where
  "consumedKey i = ''confirmation:consumed:'' @ i"

definition challenge_ttl :: int where
  "challenge_ttl = 300"

definition consumed_ttl :: int where
  "consumed_ttl = 3600"

definition computeHmac ::
  "(string \<Rightarrow> string \<Rightarrow> string) \<Rightarrow> (json \<Rightarrow> string) \<Rightarrow> config \<Rightarrow>
   string \<Rightarrow> string \<Rightarrow> string \<Rightarrow> json \<Rightarrow> string" where
  "computeHmac hmac stringify cfg i userId sessionId payload =
     hmac (hmacChainSecret cfg) (i @ '':'' @ userId @ '':'' @ sessionId @ '':'' @ stringify payload)"

definition computeApprovalSignature ::
  "(string \<Rightarrow> string \<Rightarrow> string) \<Rightarrow> config \<Rightarrow> string \<Rightarrow> string \<Rightarrow> string" where
  "computeApprovalSignature hmac cfg i userId =
     hmac (hmacChainSecret cfg) (''approve:'' @ i @ '':'' @ userId)"

text \<open>\<open>timingSafeEqual\<close> throws when the two buffers differ in length; the characters above
  127 take two bytes in UTF-8.\<close>

definition utf8_bytes :: "string \<Rightarrow> nat" where
  "utf8_bytes s = sum_list (map (\<lambda>c. if of_char c < (128 :: nat) then 1 else 2) s)"

definition safeCompare :: "string \<Rightarrow> string \<Rightarrow> js_error + bool" where
  "safeCompare a b =
     (if length a \<noteq> length b then Inr False
      else if utf8_bytes a \<noteq> utf8_bytes b
        then Inl (PlainError [S ''Input buffers must have the same byte length''])
      else Inr (a = b))"

definition createChallenge ::
  "('s, 'z) redis_scheme \<Rightarrow> (string \<Rightarrow> string \<Rightarrow> string) \<Rightarrow> (json \<Rightarrow> string) \<Rightarrow> config \<Rightarrow>
   int \<Rightarrow> string \<Rightarrow> agent_action \<Rightarrow> string \<Rightarrow> string \<Rightarrow> 's world \<Rightarrow> challenge \<times> 's world" where
  "createChallenge R hmac stringify cfg now i action userId sessionId w =
     (let payload = action_json action;
          ch = \<lparr>ch_challengeId = i, ch_userId = userId, ch_sessionId = sessionId,
                ch_actionPayload = payload,
                ch_signature = computeHmac hmac stringify cfg i userId sessionId payload,
                ch_createdAt = now, ch_expiresAt = now + challenge_ttl * 1000\<rparr>
      in (ch, with_db (rset R now (challengeKey i) (challenge_json ch) (Some challenge_ttl)) w))"

text \<open>\<open>new Date(x).getTime()\<close> of a field of the stored challenge; \<open>None\<close> is NaN, which is
  not smaller than any number.\<close>

fun date_ms :: "json option \<Rightarrow> int option" where
  "date_ms (Some (JDate t)) = Some t"
| "date_ms _ = None"

definition confirmation_error :: "error_class \<Rightarrow> error_code \<Rightarrow> string \<Rightarrow> js_error" where
  "confirmation_error k c i = new_error k c [S i]"

abbreviation expired_error :: "string \<Rightarrow> js_error" where
  "expired_error \<equiv> confirmation_error ConfirmationExpiredError ACTION_CONFIRMATION_EXPIRED"

abbreviation replay_error :: "string \<Rightarrow> js_error" where
  "replay_error \<equiv> confirmation_error ConfirmationReplayError ACTION_CONFIRMATION_REQUIRED"

abbreviation ownership_error :: "string \<Rightarrow> js_error" where
  "ownership_error \<equiv> confirmation_error ConfirmationOwnershipError AUTHZ_RESOURCE_FORBIDDEN"

abbreviation signature_error :: "string \<Rightarrow> js_error" where
  "signature_error \<equiv> confirmation_error ConfirmationSignatureError INTEGRITY_SIGNATURE_INVALID"

text \<open>Up to the signature check; the result is the parsed challenge.\<close>

definition submit_check ::
  "('s, 'z) redis_scheme \<Rightarrow> (string \<Rightarrow> string \<Rightarrow> string) \<Rightarrow> config \<Rightarrow>
   int \<Rightarrow> string \<Rightarrow> string \<Rightarrow> string \<Rightarrow> 's world \<Rightarrow> (js_error + json) \<times> 's world" where
  "submit_check R hmac cfg now i userId signed w =
     (if rget R now (db w) (consumedKey i) \<noteq> None then (Inl (replay_error i), w)
      else case rget R now (db w) (challengeKey i) of
        None \<Rightarrow> (Inl (expired_error i), w)
      | Some raw \<Rightarrow>
          (if raw = JNull then (Inl ShapeError, w)
           else if (case date_ms (jget raw ''expiresAt'') of Some e \<Rightarrow> e < now | None \<Rightarrow> False) then
             (Inl (expired_error i), with_db (rdel R now (challengeKey i)) w)
           else if jget raw ''userId'' \<noteq> Some (JStr userId) then (Inl (ownership_error i), w)
           else (case safeCompare signed (computeApprovalSignature hmac cfg i userId) of
               Inl e \<Rightarrow> (Inl e, w)
             | Inr False \<Rightarrow> (Inl (signature_error i), w)
             | Inr True \<Rightarrow> (Inr raw, w))))"

text \<open>From the deletion on. The payload is parsed after the challenge is consumed: a
  challenge without one throws here.\<close>

definition submit_commit ::
  "('s, 'z) redis_scheme \<Rightarrow> int \<Rightarrow> string \<Rightarrow> string \<Rightarrow> json \<Rightarrow> 's world \<Rightarrow>
   (js_error + approved_action) \<times> 's world" where
  "submit_commit R now i userId raw w =
     (let w' = with_db (rset R now (consumedKey i) (JStr ''consumed'') (Some consumed_ttl))
                 (with_db (rdel R now (challengeKey i)) w)
      in (case jget raw ''actionPayload'' of
            None \<Rightarrow> Inl (PlainError [S ''\"undefined\" is not valid JSON''])
          | Some JNull \<Rightarrow> Inl ShapeError
          | Some action \<Rightarrow>
              Inr \<lparr>ap_challengeId = i, ap_userId = userId, ap_action = action, ap_approvedAt = now\<rparr>,
          w'))"

definition submitApproval ::
  "('s, 'z) redis_scheme \<Rightarrow> (string \<Rightarrow> string \<Rightarrow> string) \<Rightarrow> config \<Rightarrow>
   int \<Rightarrow> string \<Rightarrow> string \<Rightarrow> string \<Rightarrow> 's world \<Rightarrow> (js_error + approved_action) \<times> 's world" where
  "submitApproval R hmac cfg now i userId signed w =
     (case submit_check R hmac cfg now i userId signed w of
        (Inl e, w') \<Rightarrow> (Inl e, w')
      | (Inr raw, w') \<Rightarrow> submit_commit R now i userId raw w')"

subsection \<open>The gate\<close>

definition estimateNotional :: "place_order \<Rightarrow> real" where
  "estimateNotional a = po_quantity a * (case po_price a of Some p \<Rightarrow> p | None \<Rightarrow> 0)"

definition gate_evaluate :: "config \<Rightarrow> agent_action \<Rightarrow> risk_level \<Rightarrow> bool" where
  "gate_evaluate cfg action level =
     (if level = HIGH \<or> level = CRITICAL then True
      else case action of
        PlaceOrder a \<Rightarrow> estimateNotional a > highValueConfirmationThreshold cfg
      | _ \<Rightarrow> False)"

text \<open>\<open>enforce\<close> evaluates with a fixed LOW risk.\<close>

definition gate_enforce ::
  "('s, 'z) redis_scheme \<Rightarrow> (string \<Rightarrow> string \<Rightarrow> string) \<Rightarrow> (json \<Rightarrow> string) \<Rightarrow> config \<Rightarrow>
   int \<Rightarrow> string \<Rightarrow> agent_action \<Rightarrow> string \<Rightarrow> string \<Rightarrow> 's world \<Rightarrow> challenge option \<times> 's world" where
  "gate_enforce R hmac stringify cfg now i action userId sessionId w =
     (if gate_evaluate cfg action LOW then
        (let (ch, w') = createChallenge R hmac stringify cfg now i action userId sessionId w
         in (Some ch, w'))
      else (None, w))"

subsection \<open>Runs of the flow\<close>

datatype (plugins only: code size) flow_op =
    Create string agent_action string string
  | Submit string string string

text \<open>The result of a submission, with its challenge id; creating has none.\<close>

fun flow_exec ::
  "('s, 'z) redis_scheme \<Rightarrow> (string \<Rightarrow> string \<Rightarrow> string) \<Rightarrow> (json \<Rightarrow> string) \<Rightarrow> config \<Rightarrow>
   int \<Rightarrow> flow_op \<Rightarrow> 's world \<Rightarrow> (string \<times> (js_error + approved_action)) list \<times> 's world" where
  "flow_exec R hmac str cfg now (Create i a u s) w =
     ([], snd (createChallenge R hmac str cfg now i a u s w))"
| "flow_exec R hmac str cfg now (Submit i u s) w =
     (let (r, w') = submitApproval R hmac cfg now i u s w in ([(i, r)], w'))"

fun flow_run ::
  "('s, 'z) redis_scheme \<Rightarrow> (string \<Rightarrow> string \<Rightarrow> string) \<Rightarrow> (json \<Rightarrow> string) \<Rightarrow> config \<Rightarrow>
   (int \<times> flow_op) list \<Rightarrow> 's world \<Rightarrow> (string \<times> (js_error + approved_action)) list \<times> 's world" where
  "flow_run R hmac str cfg [] w = ([], w)"
| "flow_run R hmac str cfg ((t, x) # xs) w =
     (let (rs, w1) = flow_exec R hmac str cfg t x w; (rs', w2) = flow_run R hmac str cfg xs w1
      in (rs @ rs', w2))"

fun creates :: "string \<Rightarrow> flow_op \<Rightarrow> bool" where
  "creates i (Create j _ _ _) = (j = i)"
| "creates i (Submit _ _ _) = False"

text \<open>How often a challenge was approved.\<close>

definition approvals :: "string \<Rightarrow> (string \<times> (js_error + approved_action)) list \<Rightarrow> nat" where
  "approvals i rs = length (filter (\<lambda>(j, r). j = i \<and> is_ok r) rs)"

lemma approvals_simps [simp]:
  "approvals i [] = 0"
  "approvals i ((j, r) # rs) = (if j = i \<and> is_ok r then Suc (approvals i rs) else approvals i rs)"
  "approvals i (rs @ rs') = approvals i rs + approvals i rs'"
  by (simp_all add: approvals_def)

lemma confirmation_keys [simp]:
  "challengeKey i \<noteq> consumedKey j" "consumedKey j \<noteq> challengeKey i"
  "challengeKey i = challengeKey j \<longleftrightarrow> i = j" "consumedKey i = consumedKey j \<longleftrightarrow> i = j"
  by (simp_all add: challengeKey_def consumedKey_def)

lemma ttls_pos [simp]: "0 < challenge_ttl" "0 < consumed_ttl"
  by (simp_all add: challenge_ttl_def consumed_ttl_def)

lemma confirmation_error_inject [simp]:
  "confirmation_error k c i = confirmation_error k' c' i' \<longleftrightarrow> k = k' \<and> c = c' \<and> i = i'"
  by (auto simp: confirmation_error_def)

lemma safeCompare_eq [simp]: "safeCompare a b = Inr True \<longleftrightarrow> a = b"
  by (auto simp: safeCompare_def)

lemma challenge_fields [simp]:
  "jget (challenge_json ch) ''expiresAt'' = Some (JDate (ch_expiresAt ch))"
  "jget (challenge_json ch) ''userId'' = Some (JStr (ch_userId ch))"
  "jget (challenge_json ch) ''actionPayload'' = Some (ch_actionPayload ch)"
  "challenge_json ch \<noteq> JNull" "action_json a \<noteq> JNull"
  by (simp_all add: challenge_json_def action_json_def)

lemma created_payload [simp]:
  "ch_actionPayload (fst (createChallenge R hmac str cfg now i a u sid w)) = action_json a"
  by (simp add: createChallenge_def Let_def)

lemma commit_result:
  "ch_actionPayload ch = action_json a \<Longrightarrow> fst (submit_commit R now i u (challenge_json ch) w) =
     Inr \<lparr>ap_challengeId = i, ap_userId = u, ap_action = action_json a, ap_approvedAt = now\<rparr>"
  by (simp add: submit_commit_def Let_def action_json_def)

text \<open>No challenge is stored under the id, now or later.\<close>

definition gone :: "('s, 'z) redis_scheme \<Rightarrow> int \<Rightarrow> string \<Rightarrow> 's world \<Rightarrow> bool" where
  "gone R t i w \<longleftrightarrow> rget R t (db w) (challengeKey i) = None"

context redis_any_ttl
begin

lemma check_state:
  "submit_check R hmac cfg now i u s w = (r, w') \<Longrightarrow>
   w' = w \<or> w' = with_db (rdel R now (challengeKey i)) w \<and> \<not> is_ok r"
  by (auto simp: submit_check_def split: if_splits option.splits sum.splits bool.splits)

lemma check_gone: "gone R now i w \<Longrightarrow> \<not> is_ok (fst (submit_check R hmac cfg now i u s w))"
  by (simp add: gone_def submit_check_def)

lemma gone_mono: "gone R t i w \<Longrightarrow> t \<le> t' \<Longrightarrow> gone R t' i w"
  by (simp add: gone_def get_None_mono)

lemma commit_gone: "gone R now i (snd (submit_commit R now i u raw w))"
  by (simp add: gone_def submit_commit_def Let_def get_set_other get_del_same)

lemma submit_keeps_gone:
  assumes "gone R now i w"
  shows "gone R now i (snd (submitApproval R hmac cfg now j u s w))"
proof -
  obtain r w' where c: "submit_check R hmac cfg now j u s w = (r, w')"
    by (cases "submit_check R hmac cfg now j u s w")
  have "gone R now i w'"
    using check_state [OF c] assms by (auto simp: gone_def get_del)
  then show ?thesis
    by (auto simp: submitApproval_def c submit_commit_def Let_def gone_def get_set_other get_del
        split: sum.split)
qed

lemma submit_success_gone:
  "is_ok (fst (submitApproval R hmac cfg now i u s w)) \<Longrightarrow>
   gone R now i (snd (submitApproval R hmac cfg now i u s w))"
  by (auto simp: submitApproval_def commit_gone split: prod.splits sum.splits)

lemma submit_gone: "gone R now i w \<Longrightarrow> \<not> is_ok (fst (submitApproval R hmac cfg now i u s w))"
  using check_gone [of now i w hmac cfg u s]
  by (auto simp: submitApproval_def split: prod.splits sum.splits)

lemma exec_keeps_gone:
  "gone R now i w \<Longrightarrow> \<not> creates i x \<Longrightarrow> gone R now i (snd (flow_exec R hmac str cfg now x w))"
  using submit_keeps_gone
  by (cases x) (simp_all add: createChallenge_def Let_def gone_def get_set_other split_beta)

lemma run_gone:
  assumes "gone R t i w" and "sorted_wrt (\<le>) (t # map fst xs)" and "\<forall>(u, x) \<in> set xs. \<not> creates i x"
  shows "approvals i (fst (flow_run R hmac str cfg xs w)) = 0"
  using assms
proof (induction xs arbitrary: t w)
  case (Cons p xs)
  obtain u x where p: "p = (u, x)" by (cases p)
  from Cons.prems p have u: "gone R u i w" by (auto intro: gone_mono)
  have "approvals i (fst (flow_exec R hmac str cfg u x w)) = 0"
    using submit_gone [OF u] by (cases x) (auto simp: split_beta)
  moreover have "gone R u i (snd (flow_exec R hmac str cfg u x w))"
    using exec_keeps_gone [OF u] Cons.prems(3) p by simp
  then have "approvals i (fst (flow_run R hmac str cfg xs (snd (flow_exec R hmac str cfg u x w)))) = 0"
    using Cons.IH Cons.prems p by auto
  ultimately show ?case using p by (simp add: split_beta Let_def)
qed simp

lemma run_once:
  assumes "sorted_wrt (\<le>) (map fst xs)" and "\<forall>(u, x) \<in> set xs. \<not> creates i x"
  shows "approvals i (fst (flow_run R hmac str cfg xs w)) \<le> 1"
  using assms
proof (induction xs arbitrary: w)
  case (Cons p xs)
  obtain u x where p: "p = (u, x)" by (cases p)
  let ?r = "flow_exec R hmac str cfg u x w"
  have split: "approvals i (fst (flow_run R hmac str cfg (p # xs) w)) =
      approvals i (fst ?r) + approvals i (fst (flow_run R hmac str cfg xs (snd ?r)))"
    using p by (simp add: split_beta Let_def)
  show ?case
  proof (cases "\<exists>c s. x = Submit i c s \<and> is_ok (fst (submitApproval R hmac cfg u i c s w))")
    case True
    then have "approvals i (fst ?r) = 1" and "gone R u i (snd ?r)"
      using submit_success_gone by (auto simp: split_beta)
    moreover from this have "approvals i (fst (flow_run R hmac str cfg xs (snd ?r))) = 0"
      using run_gone [of u i "snd ?r" xs] Cons.prems p by simp
    ultimately show ?thesis by (simp only: split)
  next
    case False
    then have "approvals i (fst ?r) = 0" by (cases x) (auto simp: split_beta)
    with Cons split show ?thesis by simp
  qed
qed simp

text \<open>A fresh challenge.\<close>

lemma fresh_challenge:
  assumes "t \<le> t'" and "t' < t + challenge_ttl * 1000"
    and "rget R t' (db w) (consumedKey i) = None"
  shows "submit_check R hmac cfg t' i u s (snd (createChallenge R hmac str cfg t i a v sid w)) =
    (if u \<noteq> v then Inl (ownership_error i)
     else case safeCompare s (computeApprovalSignature hmac cfg i u) of
         Inl e \<Rightarrow> Inl e
       | Inr ok \<Rightarrow> if ok then Inr (challenge_json (fst (createChallenge R hmac str cfg t i a v sid w)))
                 else Inl (signature_error i),
     snd (createChallenge R hmac str cfg t i a v sid w))"
  using assms by (auto simp: submit_check_def createChallenge_def Let_def get_set_live get_set_other
      split: sum.split bool.split)

lemma late_challenge:
  assumes "t + challenge_ttl * 1000 < t'"
    and "rget R t' (db w) (consumedKey i) = None"
  shows "fst (submit_check R hmac cfg t' i u s (snd (createChallenge R hmac str cfg t i a v sid w))) =
    Inl (expired_error i)"
proof -
  have "t \<le> t'" using assms(1) by (simp add: challenge_ttl_def)
  then show ?thesis
    using assms get_set_later [of challenge_ttl t t' "challengeKey i"
        "challenge_json (fst (createChallenge R hmac str cfg t i a v sid w))" "db w"]
    by (auto simp: submit_check_def createChallenge_def Let_def get_set_other)
qed

end

lemma gate_enforce_cases:
  "gate_enforce R hmac str cfg now i a u sid w =
     (if gate_evaluate cfg a LOW
      then (Some (fst (createChallenge R hmac str cfg now i a u sid w)),
            snd (createChallenge R hmac str cfg now i a u sid w))
      else (None, w))"
  by (simp add: gate_enforce_def split_beta)

subsection \<open>Properties\<close>


definition demo_hmac :: "string \<Rightarrow> string \<Rightarrow> string" where
  "demo_hmac key data = rev key @ data"

definition demo_action :: agent_action where
  "demo_action = NoAction ''wait''"

definition demo_conf :: config where
  "demo_conf = default_config ''0123456789abcdef0123456789abcdef'' ''root''"


text \<open>C12: over any sequence of challenge creations and submissions by any users, in
  which the id is not created again, a challenge is approved at most once.\<close>

theorem conf_once:
  assumes "redis_any_ttl R" and "sorted_wrt (\<le>) (map fst xs)"
    and "\<forall>(t, x) \<in> set xs. \<not> creates i x"
  shows "approvals i (fst (flow_run R hmac str cfg xs w)) \<le> 1"
  by (rule redis_any_ttl.run_once [OF assms])

theorem conf_once_witness:
  "approvals ''c1'' (fst (flow_run service demo_hmac (\<lambda>_. ''{}'') demo_conf
     [(5, Submit ''c1'' ''bob'' ''x''), (6, Create ''c2'' demo_action ''bob'' ''s''),
      (9, Submit ''c1'' ''bob'' ''y'')]
     (snd (createChallenge service demo_hmac (\<lambda>_. ''{}'') demo_conf 1 ''c1'' demo_action ''bob'' ''s''
       mem_world)))) \<le> 1"
  by (rule conf_once [OF mem.service.redis_any_ttl_axioms]) simp_all

text \<open>the replay protection is not atomic. Two submissions of the same signed
  approval that both read the store before either of them consumes the challenge are both
  approved, with the same action.\<close>

theorem conf_race:
  assumes "redis_any_ttl R" and "t \<le> t1" and "t \<le> t2" and "t1 < t + 300 * 1000"
    and "t2 < t + 300 * 1000" and "\<forall>t' \<ge> t. rget R t' (db w) (consumedKey i) = None"
  shows "let s = computeApprovalSignature hmac cfg i u;
             (ch, w0) = createChallenge R hmac str cfg t i a u sid w;
             w1 = snd (submit_check R hmac cfg t1 i u s w0);
             w2 = snd (submit_check R hmac cfg t2 i u s w1);
             raw = challenge_json ch;
             w3 = snd (submit_commit R t1 i u raw w2)
         in fst (submit_check R hmac cfg t1 i u s w0) = Inr raw \<and>
            fst (submit_check R hmac cfg t2 i u s w1) = Inr raw \<and>
            map_sum id ap_action (fst (submit_commit R t1 i u raw w2)) = Inr (action_json a) \<and>
            map_sum id ap_action (fst (submit_commit R t2 i u raw w3)) = Inr (action_json a)"
proof -
  have none: "rget R t1 (db w) (consumedKey i) = None" "rget R t2 (db w) (consumedKey i) = None"
    using assms(2,3,6) by simp_all
  have eq: "safeCompare x x = Inr True" for x by simp
  note fresh = redis_any_ttl.fresh_challenge [OF assms(1), where t = t and u = u and v = u
      and s = "computeApprovalSignature hmac cfg i u" and hmac = hmac and cfg = cfg and str = str
      and a = a and sid = sid and w = w and i = i]
  show ?thesis
    using fresh [OF assms(2) _ none(1)] fresh [OF assms(3) _ none(2)] assms(4,5)
    by (simp add: challenge_ttl_def Let_def eq split_beta commit_result)
qed

theorem conf_race_witness:
  "is_ok (fst (submit_check adapter demo_hmac demo_conf 400 ''c1'' ''bob''
     (computeApprovalSignature demo_hmac demo_conf ''c1'' ''bob'')
     (snd (createChallenge adapter demo_hmac (\<lambda>_. ''{}'') demo_conf 100 ''c1'' demo_action ''bob'' ''s''
       mem_world))))"
  using conf_race [OF mem.adapter.redis_any_ttl_axioms, where t = 100 and ?t1.0 = 400 and ?t2.0 = 450
      and w = mem_world and i = "''c1''" and u = "''bob''"
      and hmac = demo_hmac and cfg = demo_conf and str = "\<lambda>_. ''{}''" and sid = "''s''"
      and a = demo_action]
  by (simp add: Let_def split_beta)

end
