(* ===== verification/Rate_Limit.thy ===== *)
theory Rate_Limit
  imports Redis_Store
begin

text \<open>
  Rate limits: the sliding-window limiter of \<open>security/rate-limit/rate.limiter.ts\<close>, whose
  window is a sorted set of request times, and the per-exchange quota counters of
  \<open>exchange.quota.adapter.ts\<close>. The reference \<open>sliding\<close> keeps the granted times in a list;
  the limiter over Redis is shown to give the same answers.
\<close>

subsection \<open>The sliding window\<close>

record rate_result =
  rr_allowed :: bool
  rr_remaining :: int
  rr_resetAt :: int

text \<open>\<open>member\<close> is the random id of the new entry.\<close>

definition rl_check ::
  "('s, 'z) redis_z_scheme \<Rightarrow> int \<Rightarrow> string \<Rightarrow> string \<Rightarrow> int \<Rightarrow> int \<Rightarrow> 's world \<Rightarrow>
   rate_result \<times> 's world" where
  "rl_check R now member key limit windowMs w =
     (let windowStart = now - windowMs;
          resetAt = now + windowMs;
          w1 = with_db (rzremrangebyscore R now key 0 windowStart) w;
          currentCount = rzcard R now (db w1) key
      in if currentCount \<ge> limit then
           (\<lparr>rr_allowed = False, rr_remaining = 0, rr_resetAt = resetAt\<rparr>,
            emit (LogEvent RATE_LIMIT_BREACHED MEDIUM
              [(''level'', JStr ''user''), (''identifier'', JStr key),
               (''requestCount'', JNum (of_int currentCount)), (''limit'', JNum (of_int limit)),
               (''windowMs'', JNum (of_int windowMs))]) w1)
         else
           (\<lparr>rr_allowed = True, rr_remaining = limit - currentCount - 1, rr_resetAt = resetAt\<rparr>,
            with_db (rexpire R now key (ceil_seconds windowMs))
              (with_db (rzadd R now key now member) w1)))"

record rate_identifier =
  ri_key :: string
  ri_limit :: int
  ri_windowMs :: int

text \<open>Each check reads the clock and draws an id of its own.\<close>

fun rl_checkAll ::
  "('s, 'z) redis_z_scheme \<Rightarrow> (int \<times> string \<times> rate_identifier) list \<Rightarrow> 's world \<Rightarrow>
   rate_result list \<times> 's world" where
  "rl_checkAll R [] w = ([], w)"
| "rl_checkAll R ((now, m, x) # xs) w =
     (let (r, w1) = rl_check R now m (ri_key x) (ri_limit x) (ri_windowMs x) w;
          (rs, w2) = rl_checkAll R xs w1 in (r # rs, w2))"

text \<open>Requests on one key.\<close>

definition on_key ::
  "string \<Rightarrow> int \<Rightarrow> int \<Rightarrow> int \<times> string \<Rightarrow> int \<times> string \<times> rate_identifier" where
  "on_key key limit windowMs x =
     (fst x, snd x, \<lparr>ri_key = key, ri_limit = limit, ri_windowMs = windowMs\<rparr>)"

lemma checkAll_on_key:
  "fst (rl_checkAll R (on_key k limit W (t, m) # xs) w) =
     (let c = rl_check R t m k limit W w in fst c # fst (rl_checkAll R xs (snd c)))"
  by (simp add: on_key_def split_beta Let_def)

subsection \<open>The reference window\<close>

definition in_window :: "int \<Rightarrow> int \<Rightarrow> int list \<Rightarrow> int" where
  "in_window windowMs now h = int (length (filter (\<lambda>u. now - windowMs < u) h))"

fun sliding :: "int \<Rightarrow> int \<Rightarrow> int list \<Rightarrow> int list \<Rightarrow> rate_result list" where
  "sliding limit windowMs h [] = []"
| "sliding limit windowMs h (t # ts) =
     (let n = in_window windowMs t h in
      if n \<ge> limit
      then \<lparr>rr_allowed = False, rr_remaining = 0, rr_resetAt = t + windowMs\<rparr>
             # sliding limit windowMs h ts
      else \<lparr>rr_allowed = True, rr_remaining = limit - n - 1, rr_resetAt = t + windowMs\<rparr>
             # sliding limit windowMs (t # h) ts)"

text \<open>The granted request times, newest first.\<close>

fun granted :: "int \<Rightarrow> int \<Rightarrow> int list \<Rightarrow> int list \<Rightarrow> int list" where
  "granted limit windowMs h [] = h"
| "granted limit windowMs h (t # ts) =
     granted limit windowMs (if in_window windowMs t h \<ge> limit then h else t # h) ts"

text \<open>In the half-open window that ends at any time no more than the limit is granted.\<close>

lemma in_window_Cons:
  "in_window W u (t # h) = (if u - W < t then in_window W u h + 1 else in_window W u h)"
  by (simp add: in_window_def)

definition window_count :: "int \<Rightarrow> int \<Rightarrow> int list \<Rightarrow> int" where
  "window_count W u h = int (length (filter (\<lambda>x. u - W < x \<and> x \<le> u) h))"

lemma window_count_le: "window_count W u h \<le> in_window W u h"
  unfolding window_count_def in_window_def of_nat_le_iff by (rule filter_le_mono) simp

lemma granted_bound:
  assumes "\<And>u. window_count W u h \<le> limit" and "sorted_wrt (\<le>) (rev h @ ts)" and "0 < W"
  shows "window_count W u (granted limit W h ts) \<le> limit"
  using assms
proof (induction ts arbitrary: h)
  case (Cons t ts)
  show ?case
  proof (cases "in_window W t h \<ge> limit")
    case True
    with Cons show ?thesis by (simp add: sorted_wrt_append)
  next
    case False
    have old: "x \<le> t" if "x \<in> set h" for x
      using Cons.prems(2) that by (simp add: sorted_wrt_append)
    have "window_count W v (t # h) \<le> limit" for v
    proof (cases "v - W < t \<and> t \<le> v")
      case True
      then have "window_count W v h \<le> in_window W t h"
        unfolding window_count_def in_window_def of_nat_le_iff by (intro filter_le_mono) auto
      with True False show ?thesis by (simp add: window_count_def)
    next
      case False
      then have "window_count W v (t # h) = window_count W v h" by (auto simp: window_count_def)
      with Cons.prems(1) show ?thesis by simp
    qed
    with Cons False show ?thesis by simp
  qed
qed simp

subsection \<open>The sorted set represents the granted times\<close>

definition rl_rep ::
  "(int \<Rightarrow> 's \<Rightarrow> string \<Rightarrow> (string \<times> int) set) \<Rightarrow> int \<Rightarrow> string \<Rightarrow> int \<Rightarrow> (string \<times> int) list \<Rightarrow> 's \<Rightarrow> bool" where
  "rl_rep view W key now h s \<longleftrightarrow>
     distinct (map fst h) \<and> (\<forall>x \<in> set h. snd x \<le> now) \<and>
     (\<forall>t \<ge> now. (\<forall>x \<in> view t s key. 0 \<le> snd x) \<and>
        {x \<in> view t s key. t - W < snd x} = {x \<in> set h. t - W < snd x})"

lemma card_window:
  "distinct (map fst h) \<Longrightarrow> int (card {x \<in> set h. c < snd x}) = int (length (filter (\<lambda>u. c < u) (map snd h)))"
proof (induction h)
  case (Cons x h)
  have "{y \<in> set (x # h). c < snd y} =
      (if c < snd x then insert x {y \<in> set h. c < snd y} else {y \<in> set h. c < snd y})"
    by auto
  moreover have "x \<notin> set h" using Cons.prems by force
  ultimately show ?case using Cons by (cases "c < snd x") simp_all
qed simp

abbreviation pruned :: "('s, 'z) redis_z_scheme \<Rightarrow> int \<Rightarrow> string \<Rightarrow> int \<Rightarrow> 's \<Rightarrow> 's" where
  "pruned R t k W \<equiv> rzremrangebyscore R t k 0 (t - W)"

context redis_zset
begin

lemma rep_later: "rl_rep view W k now h s \<Longrightarrow> now \<le> t \<Longrightarrow> rl_rep view W k t h s"
  unfolding rl_rep_def by (meson order_trans)

lemma pruned_view:
  assumes "rl_rep view W k now h s"
  shows "view now (pruned R now k W s) k = {x \<in> set h. now - W < snd x}"
proof -
  have nonneg: "\<forall>x \<in> view now s k. 0 \<le> snd x"
    and eq: "{x \<in> view now s k. now - W < snd x} = {x \<in> set h. now - W < snd x}"
    using assms unfolding rl_rep_def by blast+
  have "view now (pruned R now k W s) k = {x \<in> view now s k. now - W < snd x}"
    using nonneg by (auto simp: view_zrem_same)
  with eq show ?thesis by simp
qed

lemma pruned_count:
  "rl_rep view W k now h s \<Longrightarrow> rzcard R now (pruned R now k W s) k = in_window W now (map snd h)"
  using card_window [of h "now - W"]
  unfolding zcard_view by (simp add: pruned_view in_window_def) (simp add: rl_rep_def)

lemma pruned_rep:
  assumes "rl_rep view W k now h s"
  shows "rl_rep view W k now h (pruned R now k W s)"
proof -
  have "{x \<in> view t (pruned R now k W s) k. t - W < snd x} = {x \<in> view t s k. t - W < snd x}"
    if "now \<le> t" for t
    using that by (auto simp: view_zrem_same)
  with assms show ?thesis by (auto simp: rl_rep_def view_zrem_same)
qed

lemma grant_rep:
  assumes "rl_rep view W k now h s" and "m \<notin> fst ` set h" and "0 \<le> now" and "0 < W"
  shows "rl_rep view W k now ((m, now) # h)
    (rexpire R now k (ceil_seconds W) (rzadd R now k now m (pruned R now k W s)))"
    (is "rl_rep view W k now _ ?s")
proof -
  have now: "view now ?s k = insert (m, now) {x \<in> set h. now - W < snd x}"
    using assms(2,4) pruned_view [OF assms(1)] ceil_seconds_ge [of W]
    by (auto simp: view_expire_live view_zadd_same rev_image_eqI)
  have old: "snd x \<le> now" if "x \<in> set h" for x using assms(1) that by (simp add: rl_rep_def)
  have nonneg: "0 \<le> snd x" if "x \<in> set h" "now - W < snd x" for x
    using assms(1) that by (auto simp: rl_rep_def)
  have "(\<forall>x \<in> view t ?s k. 0 \<le> snd x) \<and>
      {x \<in> view t ?s k. t - W < snd x} = {x \<in> set ((m, now) # h). t - W < snd x}" if "now \<le> t" for t
  proof (cases "t < now + ceil_seconds W * 1000")
    case True
    with that have "view t ?s k = view now ?s k"
      using view_expire_live [of now t "ceil_seconds W"] view_expire_live [of now now "ceil_seconds W"]
      by simp
    with now that assms(3) nonneg show ?thesis by auto
  next
    case False
    then have "now \<le> t - W" using ceil_seconds_ge [of W] by linarith
    moreover have "view t ?s k = {} \<or> view t ?s k = view now ?s k"
      using that by (rule view_mono)
    ultimately show ?thesis using now old nonneg assms(3) by fastforce
  qed
  with assms(1,2) show ?thesis by (auto simp: rl_rep_def)
qed

lemma check_refines:
  assumes "rl_rep view W k now h (db w)" and "m \<notin> fst ` set h" and "0 \<le> now" and "0 < W"
  shows "rl_rep view W k now (if in_window W now (map snd h) \<ge> limit then h else (m, now) # h)
      (db (snd (rl_check R now m k limit W w))) \<and>
    [fst (rl_check R now m k limit W w)] = sliding limit W (map snd h) [now]"
  using pruned_count [OF assms(1)] pruned_rep [OF assms(1)] grant_rep [OF assms]
  by (simp add: rl_check_def Let_def)

lemma run_refines:
  assumes "rl_rep view W k now h (db w)" and "sorted_wrt (\<le>) (now # map fst xs)" and "0 \<le> now"
    and "0 < W" and "distinct (map fst h @ map snd xs)"
  shows "fst (rl_checkAll R (map (on_key k limit W) xs) w) = sliding limit W (map snd h) (map fst xs)"
  using assms
proof (induction xs arbitrary: now h w)
  case (Cons p xs)
  obtain t m where p: "p = (t, m)" by (cases p)
  let ?c = "rl_check R t m k limit W w"
  let ?h = "if in_window W t (map snd h) \<ge> limit then h else (m, t) # h"
  have pre: "rl_rep view W k t h (db w)" "m \<notin> fst ` set h" "0 \<le> t"
    using Cons.prems p by (auto intro: rep_later)
  note c = check_refines [OF pre \<open>0 < W\<close>, of limit]
  have "fst (rl_checkAll R (map (on_key k limit W) xs) (snd ?c)) = sliding limit W (map snd ?h) (map fst xs)"
    using Cons.prems p c pre(3) by (intro Cons.IH [of t ?h]) (auto simp del: sliding.simps)
  with c p show ?case
    by (auto simp: checkAll_on_key split: if_splits)
qed simp

lemma rep_empty: "(\<And>t. view t s k = {}) \<Longrightarrow> rl_rep view W k now [] s"
  by (simp add: rl_rep_def)

end

lemma sliding_granted:
  "length (granted limit W h ts) = length (filter rr_allowed (sliding limit W h ts)) + length h"
  by (induction ts arbitrary: h) (simp_all add: Let_def)

subsection \<open>Exchange quotas\<close>

record quota_config =
  qc_ordersPerSecond :: int
  qc_ordersPerDay :: int
  qc_warningThresholdPercent :: real

record quota_result =
  qr_allowed :: bool
  qr_secondsRemaining :: int
  qr_dailyRemaining :: int
  qr_warning :: bool

definition secQuotaKey :: "string \<Rightarrow> string" where
  "secQuotaKey ex = ''exchange:quota:sec:'' @ ex"

definition dayQuotaKey :: "string \<Rightarrow> string" where
  "dayQuotaKey ex = ''exchange:quota:day:'' @ ex"

definition getQuotaConfig :: "(string \<rightharpoonup> quota_config) \<Rightarrow> string \<Rightarrow> js_error + quota_config" where
  "getQuotaConfig cfgs ex =
     (case cfgs ex of
        Some c \<Rightarrow> Inr c
      | None \<Rightarrow> Inl (PlainError [S ''No quota config found for exchange \"'', S ex, S ''\"'']))"

text \<open>\<open>z.coerce.number().int().nonnegative()\<close>.\<close>

definition parseCount :: "json \<Rightarrow> js_error + int" where
  "parseCount v =
     (case js_number v of
        Some r \<Rightarrow> if r \<in> \<int> \<and> 0 \<le> r then Inr \<lfloor>r\<rfloor> else Inl ZodError
      | None \<Rightarrow> Inl ZodError)"

text \<open>INCR, and EXPIRE when the counter was created.\<close>

definition bump :: "('s, 'z) redis_scheme \<Rightarrow> int \<Rightarrow> string \<Rightarrow> int \<Rightarrow> 's \<Rightarrow> int \<times> 's" where
  "bump R now k ttl s =
     (let (n, s') = rincr R now k s in (n, if n = 1 then rexpire R now k ttl s' else s'))"

definition recordOrderSent ::
  "('s, 'z) redis_scheme \<Rightarrow> (string \<rightharpoonup> quota_config) \<Rightarrow> int \<Rightarrow> string \<Rightarrow> 's world \<Rightarrow>
   (js_error + unit) \<times> 's world" where
  "recordOrderSent R cfgs now ex w =
     (case getQuotaConfig cfgs ex of
        Inl e \<Rightarrow> (Inl e, w)
      | Inr c \<Rightarrow>
          (let (_, s1) = bump R now (secQuotaKey ex) 1 (db w);
               (dayCount, s2) = bump R now (dayQuotaKey ex) 86400 s1;
               usedPercent = of_int dayCount / of_int (qc_ordersPerDay c) * 100;
               w' = w\<lparr>db := s2\<rparr>
           in (Inr (),
               if usedPercent \<ge> qc_warningThresholdPercent c then
                 emit (LogEvent EXCHANGE_QUOTA_WARNING MEDIUM
                   [(''exchange'', JStr ex), (''usedPercent'', JNum usedPercent),
                    (''remainingRequests'', JNum (of_int (max 0 (qc_ordersPerDay c - dayCount)))),
                    (''resetAtMs'', JNum (of_int (now + 86400 * 1000)))]) w'
               else w')))"

definition stored_count :: "json option \<Rightarrow> js_error + int" where
  "stored_count v = (case v of None \<Rightarrow> Inr 0 | Some x \<Rightarrow> parseCount x)"

definition canSendOrder ::
  "('s, 'z) redis_scheme \<Rightarrow> (string \<rightharpoonup> quota_config) \<Rightarrow> int \<Rightarrow> string \<Rightarrow> 's world \<Rightarrow>
   js_error + quota_result" where
  "canSendOrder R cfgs now ex w =
     (case getQuotaConfig cfgs ex of
        Inl e \<Rightarrow> Inl e
      | Inr c \<Rightarrow>
         (case stored_count (rget R now (db w) (secQuotaKey ex)) of
            Inl e \<Rightarrow> Inl e
          | Inr secCount \<Rightarrow>
             (case stored_count (rget R now (db w) (dayQuotaKey ex)) of
                Inl e \<Rightarrow> Inl e
              | Inr dayCount \<Rightarrow>
                  (let secondsRemaining = max 0 (qc_ordersPerSecond c - secCount);
                       dailyRemaining = max 0 (qc_ordersPerDay c - dayCount)
                   in Inr \<lparr>qr_allowed = (secondsRemaining > 0 \<and> dailyRemaining > 0),
                           qr_secondsRemaining = secondsRemaining,
                           qr_dailyRemaining = dailyRemaining,
                           qr_warning = (of_int dayCount / of_int (qc_ordersPerDay c) * 100
                              \<ge> qc_warningThresholdPercent c)\<rparr>))))"

fun orders_sent ::
  "('s, 'z) redis_scheme \<Rightarrow> (string \<rightharpoonup> quota_config) \<Rightarrow> string \<Rightarrow> int list \<Rightarrow> 's world \<Rightarrow> 's world" where
  "orders_sent R cfgs ex [] w = w"
| "orders_sent R cfgs ex (t # ts) w = orders_sent R cfgs ex ts (snd (recordOrderSent R cfgs t ex w))"

lemma quota_keys [simp]: "secQuotaKey ex \<noteq> dayQuotaKey ex'" "dayQuotaKey ex \<noteq> secQuotaKey ex'"
  by (simp_all add: secQuotaKey_def dayQuotaKey_def)

lemma parseCount_of_nat [simp]: "0 \<le> n \<Longrightarrow> parseCount (JNum (of_int n)) = Inr n"
  by (simp add: parseCount_def)

text \<open>The counter reads n until its deadline.\<close>

definition counts ::
  "('s, 'z) redis_scheme \<Rightarrow> int \<Rightarrow> int \<Rightarrow> string \<Rightarrow> int \<Rightarrow> 's \<Rightarrow> bool" where
  "counts R t dl k n s \<longleftrightarrow> (\<forall>t'. t \<le> t' \<and> t' < dl \<longrightarrow> rget R t' s k = Some (JNum (of_int n)))"

lemma counts_later: "counts R t dl k n s \<Longrightarrow> t \<le> u \<Longrightarrow> counts R u dl k n s"
  by (simp add: counts_def)

context redis_counter
begin

lemma bump_fresh:
  "rget R t s k = None \<Longrightarrow>
   fst (bump R t k ttl s) = 1 \<and> counts R t (t + ttl * 1000) k 1 (snd (bump R t k ttl s))"
  by (simp add: bump_def split_beta Let_def incr_absent counts_def get_expire_live get_incr_absent)

lemma bump_next:
  assumes "counts R t dl k n s" and "1 \<le> n" and "t < dl"
  shows "fst (bump R t k ttl s) = n + 1 \<and> counts R t dl k (n + 1) (snd (bump R t k ttl s))"
proof -
  have now: "rget R t s k = Some (JNum (of_int n))" using assms by (simp add: counts_def)
  show ?thesis
    using assms incr_present [OF now] get_incr_present [OF now]
    by (auto simp: bump_def split_beta Let_def counts_def)
qed

lemma bump_other:
  "k' \<noteq> k \<Longrightarrow> rget R t' (snd (bump R t k ttl s)) k' = rget R t' s k'"
  by (simp add: bump_def split_beta Let_def get_incr_other get_expire_other)

lemma record_db:
  "cfgs ex = Some c \<Longrightarrow> db (snd (recordOrderSent R cfgs t ex w)) =
     snd (bump R t (dayQuotaKey ex) 86400 (snd (bump R t (secQuotaKey ex) 1 (db w))))"
  by (simp add: recordOrderSent_def getQuotaConfig_def split_beta Let_def)

lemma orders_counted:
  assumes "cfgs ex = Some c" and "sorted_wrt (\<le>) (t # ts)" and "\<forall>u \<in> set ts. u < t + 1000"
    and "rget R t (db w) (secQuotaKey ex) = None" and "rget R t (db w) (dayQuotaKey ex) = None"
    and "last (t # ts) \<le> u" and "u < t + 1000"
  shows "rget R u (db (orders_sent R cfgs ex (t # ts) w)) (secQuotaKey ex)
      = Some (JNum (of_int (1 + int (length ts)))) \<and>
    rget R u (db (orders_sent R cfgs ex (t # ts) w)) (dayQuotaKey ex)
      = Some (JNum (of_int (1 + int (length ts))))"
proof -
  note rec = record_db [where cfgs = cfgs and ex = ex, OF assms(1)]
  have step: "counts R (last (v # vs)) (t + 1000) (secQuotaKey ex) (n + int (length vs))
        (db (orders_sent R cfgs ex vs w')) \<and>
      counts R (last (v # vs)) (t + 86400000) (dayQuotaKey ex) (n + int (length vs))
        (db (orders_sent R cfgs ex vs w'))"
    if "counts R v (t + 1000) (secQuotaKey ex) n (db w')"
      and "counts R v (t + 86400000) (dayQuotaKey ex) n (db w')"
      and "1 \<le> n" and "sorted_wrt (\<le>) (v # vs)" and "\<forall>u \<in> set vs. u < t + 1000"
    for v vs n w'
    using that
  proof (induction vs arbitrary: v n w')
    case (Cons x vs)
    let ?s1 = "snd (bump R x (secQuotaKey ex) 1 (db w'))"
    have sec: "counts R x (t + 1000) (secQuotaKey ex) (n + 1) ?s1"
      using bump_next [OF counts_later [OF Cons.prems(1)]] Cons.prems by simp
    have "counts R x (t + 86400000) (dayQuotaKey ex) n (db w')"
      using Cons.prems(4) by (intro counts_later [OF Cons.prems(2)]) simp
    then have "counts R x (t + 86400000) (dayQuotaKey ex) n ?s1"
      by (simp add: counts_def bump_other)
    then have day: "counts R x (t + 86400000) (dayQuotaKey ex) (n + 1)
        (db (snd (recordOrderSent R cfgs x ex w')))"
      using bump_next Cons.prems(3,5) by (simp add: rec)
    have "counts R x (t + 1000) (secQuotaKey ex) (n + 1) (db (snd (recordOrderSent R cfgs x ex w')))"
      using sec by (simp add: rec counts_def bump_other)
    from Cons.IH [OF this day] Cons.prems(3-5) show ?case
      by (simp add: algebra_simps split: if_splits)
  qed simp
  have "counts R t (t + 1000) (secQuotaKey ex) 1 (db (snd (recordOrderSent R cfgs t ex w)))"
    using bump_fresh [OF assms(4), of 1] by (simp add: rec counts_def bump_other)
  moreover have "counts R t (t + 86400000) (dayQuotaKey ex) 1 (db (snd (recordOrderSent R cfgs t ex w)))"
    using bump_fresh [of t _ "dayQuotaKey ex" 86400] assms(5)
    by (simp add: rec bump_other)
  ultimately show ?thesis
    using step [of t 1 "snd (recordOrderSent R cfgs t ex w)" ts] assms(2,3,6,7)
    by (simp add: counts_def)
qed

end

subsection \<open>Properties\<close>

text \<open>C10: on a key whose sorted set is empty, with ids that never repeat and a clock
  that does not run backwards, the limiter over Redis answers every sequence of requests as
  the reference window does: allowed exactly while fewer than \<open>limit\<close> requests were granted
  in the window before, with the remaining count and the reset time.\<close>

theorem rl_refines:
  assumes "redis_zset R view" and "\<And>t. view t (db w) key = {}" and "sorted_wrt (\<le>) (0 # map fst xs)"
    and "distinct (map snd xs)" and "0 < windowMs"
  shows "fst (rl_checkAll R (map (on_key key limit windowMs) xs) w) = sliding limit windowMs [] (map fst xs)"
  using redis_zset.run_refines [OF assms(1) redis_zset.rep_empty [OF assms(1,2)] assms(3) _ assms(5)]
    assms(4) by simp

theorem rl_refines_witness:
  "map rr_allowed (fst (rl_checkAll adapter (map (on_key ''k'' 1 1000)
     [(5, ''a''), (900, ''b''), (1005, ''c'')]) mem_world)) = [True, False, True]"
proof -
  have "fst (rl_checkAll adapter (map (on_key ''k'' 1 1000)
      [(5, ''a''), (900, ''b''), (1005, ''c'')]) mem_world) = sliding 1 1000 [] [5, 900, 1005]"
    using rl_refines [OF mem_adapter.redis_zset_axioms, of mem_world "''k''"
        "[(5, ''a''), (900, ''b''), (1005, ''c'')]" 1000 1]
    by (simp add: mem_empty_def contents_def)
  then show ?thesis by (simp add: Let_def in_window_def)
qed

text \<open>whatever the requests, in every window of \<open>windowMs\<close> milliseconds,
  wherever it ends, at most \<open>limit\<close> requests are granted.\<close>

theorem rl_window_bound:
  assumes "sorted_wrt (\<le>) ts" and "0 < W" and "0 \<le> limit"
  shows "window_count W u (granted limit W [] ts) \<le> limit \<and>
    length (granted limit W [] ts) = length (filter rr_allowed (sliding limit W [] ts))"
  using granted_bound [of W "[]" limit ts u] assms sliding_granted [of limit W "[]" ts]
  by (simp add: window_count_def)

theorem rl_window_bound_witness:
  "window_count 10 20 (granted 2 10 [] [11, 12, 13, 21]) \<le> 2"
  using rl_window_bound [of "[11, 12, 13, 21]" 10 2 20] by simp

text \<open>for an exchange without counted orders, after n orders sent within one
  second of the first, the adapter reports the configured quotas less n, never below zero,
  and allows a further order exactly when both are left.\<close>

theorem quota_exact:
  assumes "redis_counter R" and "cfgs ex = Some c" and "sorted_wrt (\<le>) (t # ts)"
    and "\<forall>u \<in> set ts. u < t + 1000"
    and "rget R t (db w) (secQuotaKey ex) = None" and "rget R t (db w) (dayQuotaKey ex) = None"
    and "last (t # ts) \<le> u" and "u < t + 1000"
  shows "let n = 1 + int (length ts) in
     canSendOrder R cfgs u ex (orders_sent R cfgs ex (t # ts) w) =
       Inr \<lparr>qr_allowed = (n < qc_ordersPerSecond c \<and> n < qc_ordersPerDay c),
            qr_secondsRemaining = max 0 (qc_ordersPerSecond c - n),
            qr_dailyRemaining = max 0 (qc_ordersPerDay c - n),
            qr_warning = (of_int n / of_int (qc_ordersPerDay c) * 100 \<ge> qc_warningThresholdPercent c)\<rparr>"
  using redis_counter.orders_counted [OF assms(1), where t = t and ts = ts and u = u and w = w
      and cfgs = cfgs and ex = ex and c = c, OF assms(2-8)] parseCount_of_nat [of "1 + int (length ts)"]
  by (simp add: canSendOrder_def getQuotaConfig_def assms(2) stored_count_def Let_def del: orders_sent.simps)
    linarith

definition demo_quota :: "string \<rightharpoonup> quota_config" where
  "demo_quota = [''x'' \<mapsto> \<lparr>qc_ordersPerSecond = 2, qc_ordersPerDay = 10, qc_warningThresholdPercent = 80\<rparr>]"

theorem quota_exact_witness:
  "canSendOrder adapter demo_quota 9 ''x'' (orders_sent adapter demo_quota ''x'' [3, 5] mem_world) =
     Inr \<lparr>qr_allowed = False, qr_secondsRemaining = 0, qr_dailyRemaining = 8, qr_warning = False\<rparr>"
  using quota_exact [OF mem.adapter.redis_counter_axioms, where cfgs = demo_quota and ex = "''x''"
      and t = 3 and ts = "[5]" and u = 9 and w = mem_world]
  by (simp add: demo_quota_def Let_def del: orders_sent.simps)

end
