(* ===== verification/Auth_Tokens.thy ===== *)
theory Auth_Tokens
  imports Redis_Store Actions
begin

text \<open>
  Tokens: \<open>security/auth/jwt.validator.ts\<close> and \<open>token.rotator.ts\<close>. Signing and
  verifying a JWT is the work of the package \<open>jose\<close> on keys read from files: both are
  parameters, over a type of tokens, whose documented behaviour is \<open>jose_ok\<close>. The claims
  are those that the two classes write and read, with the types that \<open>jose\<close> gives them; the
  claims that it does not know are JSON values.
\<close>

record claims =
  cl_sub :: "string option"
  cl_sid :: "json option"
  cl_scope :: "json option"
  cl_dfp :: "json option"
  cl_iat :: "int option"
  cl_exp :: "int option"
  cl_jti :: "string option"
  cl_fid :: "string option"

type_synonym 'tok signer = "claims \<Rightarrow> js_error + 'tok"
type_synonym 'tok verifier = "int \<Rightarrow> 'tok \<Rightarrow> js_error + claims"

text \<open>A signed token verifies as its claims until it expires; an expired one never does.
  The time is in seconds.\<close>

definition jose_ok :: "'tok signer \<Rightarrow> 'tok verifier \<Rightarrow> bool" where
  "jose_ok sign verify \<longleftrightarrow>
     (\<forall>c tok now e. sign c = Inr tok \<and> cl_exp c = Some e \<and> now < e \<longrightarrow> verify now tok = Inr c) \<and>
     (\<forall>c tok now e. verify now tok = Inr c \<and> cl_exp c = Some e \<longrightarrow> now < e) \<and>
     (\<forall>c tok now c'. sign c = Inr tok \<and> verify now tok = Inr c' \<longrightarrow> c' = c)"

subsection \<open>The validator\<close>

record validated_token =
  vt_userId :: string
  vt_sessionId :: string
  vt_scope :: "string list"
  vt_issuedAt :: int
  vt_expiresAt :: int
  vt_deviceFingerprint :: string

fun z_strings :: "json list \<Rightarrow> string list option" where
  "z_strings [] = Some []"
| "z_strings (JStr s # xs) = map_option ((#) s) (z_strings xs)"
| "z_strings _ = None"

fun z_string_array :: "json option \<Rightarrow> string list option" where
  "z_string_array (Some (JArr xs)) = z_strings xs"
| "z_string_array _ = None"

fun z_positive_int :: "int option \<Rightarrow> int option" where
  "z_positive_int (Some n) = (if 0 < n then Some n else None)"
| "z_positive_int None = None"

text \<open>\<open>ValidatedTokenSchema.parse\<close> on the claims.\<close>

definition parse_token :: "claims \<Rightarrow> js_error + validated_token" where
  "parse_token c =
     (case (z_string1 (map_option JStr (cl_sub c)), z_string1 (cl_sid c), z_string_array (cl_scope c),
            z_positive_int (cl_iat c), z_positive_int (cl_exp c), z_string1 (cl_dfp c)) of
        (Some u, Some s, Some sc, Some i, Some e, Some d) \<Rightarrow>
          Inr \<lparr>vt_userId = u, vt_sessionId = s, vt_scope = sc, vt_issuedAt = i,
               vt_expiresAt = e, vt_deviceFingerprint = d\<rparr>
      | _ \<Rightarrow> Inl ZodError)"

text \<open>The body of the \<open>try\<close> block up to the success event.\<close>

definition check_token ::
  "'tok verifier \<Rightarrow> int \<Rightarrow> 'tok \<Rightarrow> string \<Rightarrow> js_error + validated_token" where
  "check_token verify now tok requiredScope =
     (case verify (now div 1000) tok of
        Inl e \<Rightarrow> Inl e
      | Inr payload \<Rightarrow>
         (case parse_token payload of
            Inl e \<Rightarrow> Inl e
          | Inr v \<Rightarrow>
              if vt_expiresAt v \<le> now div 1000 then
                Inl (new_error AuthenticationError AUTH_TOKEN_EXPIRED [S ''Token has expired''])
              else if requiredScope \<notin> set (vt_scope v) then
                Inl (new_error AuthenticationError AUTHZ_INSUFFICIENT_PERMISSIONS
                  [S ''Missing required scope: '', S requiredScope])
              else Inr v))"

definition failure_event :: "tmpl \<Rightarrow> effect" where
  "failure_event reason = LogEvent AUTH_FAILURE HIGH
     [(''ip'', JStr ''unknown''), (''userAgent'', JStr ''unknown''), (''reason'', JText reason),
      (''attemptCount'', JNum 1)]"

definition validate ::
  "'tok verifier \<Rightarrow> int \<Rightarrow> 'tok \<Rightarrow> string \<Rightarrow> 's world \<Rightarrow> (js_error + validated_token) \<times> 's world" where
  "validate verify now tok requiredScope w =
     (case check_token verify now tok requiredScope of
        Inr v \<Rightarrow>
          (Inr v, emit (LogEvent AUTH_SUCCESS LOW
             [(''userId'', JStr (vt_userId v)), (''ip'', JStr ''unknown''),
              (''userAgent'', JStr ''unknown''), (''method'', JStr ''jwt'')]) w)
      | Inl e \<Rightarrow>
          (Inl (if thrown_class e = Some AuthenticationError then e
                else new_error AuthenticationError AUTH_TOKEN_INVALID (error_message e)),
           emit (failure_event (error_message e)) w))"

definition generateAccessToken ::
  "'tok signer \<Rightarrow> config \<Rightarrow> int \<Rightarrow> string \<Rightarrow> string \<Rightarrow> string list \<Rightarrow> string \<Rightarrow> js_error + 'tok" where
  "generateAccessToken sign cfg now userId sessionId scope dfp =
     (let t = now div 1000
      in sign \<lparr>cl_sub = Some userId, cl_sid = Some (JStr sessionId),
               cl_scope = Some (JArr (map JStr scope)), cl_dfp = Some (JStr dfp),
               cl_iat = Some t, cl_exp = Some (t + accessTokenExpirySeconds cfg),
               cl_jti = None, cl_fid = None\<rparr>)"

text \<open>The claims of a refresh token; \<open>jti\<close> is its random id.\<close>

definition refresh_claims :: "config \<Rightarrow> int \<Rightarrow> string \<Rightarrow> string \<Rightarrow> string \<Rightarrow> string \<Rightarrow> claims" where
  "refresh_claims cfg now jti userId sessionId dfp =
     (let t = now div 1000
      in \<lparr>cl_sub = Some userId, cl_sid = Some (JStr sessionId),
          cl_scope = Some (JArr [JStr ''refresh'']), cl_dfp = Some (JStr dfp),
          cl_iat = Some t, cl_exp = Some (t + refreshTokenExpirySeconds cfg),
          cl_jti = Some jti, cl_fid = None\<rparr>)"

definition generateRefreshToken ::
  "'tok signer \<Rightarrow> config \<Rightarrow> int \<Rightarrow> string \<Rightarrow> string \<Rightarrow> string \<Rightarrow> string \<Rightarrow> js_error + 'tok" where
  "generateRefreshToken sign cfg now jti userId sessionId dfp =
     sign (refresh_claims cfg now jti userId sessionId dfp)"

subsection \<open>The rotator\<close>

record 'tok token_pair =
  tp_accessToken :: 'tok
  tp_refreshToken :: 'tok

definition usedKey :: "string \<Rightarrow> string" where
  "usedKey jti = ''refresh:used:'' @ jti"

definition familyKey :: "string \<Rightarrow> string" where
  "familyKey fam = ''refresh:family:'' @ fam"

definition invalid_token :: "string \<Rightarrow> js_error" where
  "invalid_token m = new_error AuthenticationError AUTH_TOKEN_INVALID [S m]"

text \<open>\<open>jti\<close> is the id drawn for the new refresh token.\<close>

definition rotate_token ::
  "('s, 'z) redis_scheme \<Rightarrow> 'tok signer \<Rightarrow> 'tok verifier \<Rightarrow> config \<Rightarrow> int \<Rightarrow> string \<Rightarrow> 'tok \<Rightarrow>
   's world \<Rightarrow> (js_error + 'tok token_pair) \<times> 's world" where
  "rotate_token R sign verify cfg now newJti tok w =
     (case verify (now div 1000) tok of
        Inl _ \<Rightarrow> (Inl (invalid_token ''Invalid refresh token''), w)
      | Inr p \<Rightarrow>
         (case cl_jti p of
            None \<Rightarrow> (Inl (invalid_token ''Refresh token missing jti claim''), w)
          | Some [] \<Rightarrow> (Inl (invalid_token ''Refresh token missing jti claim''), w)
          | Some (x # xs) \<Rightarrow>
             (let jti = x # xs in
              if rget R now (db w) (usedKey jti) \<noteq> None then
                (Inl (invalid_token ''Refresh token replay detected''),
                 emit (LogEvent AUTH_FAILURE CRITICAL
                     [(''ip'', JStr ''unknown''), (''userAgent'', JStr ''unknown''),
                      (''reason'', JStr ''Refresh token replay detected''), (''attemptCount'', JNum 1)])
                   (with_db (rdel R now (familyKey (case cl_fid p of Some f \<Rightarrow> f | None \<Rightarrow> jti))) w))
              else
                (let w1 = with_db (rsetex R now (usedKey jti) (refreshTokenExpirySeconds cfg) (JDate now)) w
                 in (case parse_token p of
                       Inl e \<Rightarrow> (Inl e, w1)
                     | Inr v \<Rightarrow>
                        (case generateAccessToken sign cfg now (vt_userId v) (vt_sessionId v)
                                (vt_scope v) (vt_deviceFingerprint v) of
                           Inl e \<Rightarrow> (Inl e, w1)
                         | Inr access \<Rightarrow>
                            (case generateRefreshToken sign cfg now newJti (vt_userId v)
                                    (vt_sessionId v) (vt_deviceFingerprint v) of
                               Inl e \<Rightarrow> (Inl e, w1)
                             | Inr refresh \<Rightarrow>
                                 (Inr \<lparr>tp_accessToken = access, tp_refreshToken = refresh\<rparr>, w1))))))))"

text \<open>Attempts with any tokens, one after the other.\<close>

fun rotations ::
  "('s, 'z) redis_scheme \<Rightarrow> 'tok signer \<Rightarrow> 'tok verifier \<Rightarrow> config \<Rightarrow> (int \<times> string \<times> 'tok) list \<Rightarrow>
   's world \<Rightarrow> ('tok \<times> bool) list \<times> 's world" where
  "rotations R sign verify cfg [] w = ([], w)"
| "rotations R sign verify cfg ((t, j, tok) # xs) w =
     (let (r, w1) = rotate_token R sign verify cfg t j tok w;
          (rs, w2) = rotations R sign verify cfg xs w1
      in ((tok, is_ok r) # rs, w2))"

lemma token_keys [simp]:
  "usedKey j = usedKey j' \<longleftrightarrow> j = j'" "usedKey j \<noteq> familyKey f" "familyKey f \<noteq> usedKey j"
  by (simp_all add: usedKey_def familyKey_def)

lemma z_strings_map [simp]: "z_strings (map JStr xs) = Some xs"
  by (induction xs) auto

lemma parse_refresh:
  "parse_token (refresh_claims cfg now jti u s d) =
     (if u = [] \<or> s = [] \<or> d = [] \<or> now div 1000 \<le> 0 \<or> now div 1000 + refreshTokenExpirySeconds cfg \<le> 0
      then Inl ZodError
      else Inr \<lparr>vt_userId = u, vt_sessionId = s, vt_scope = [''refresh''],
                vt_issuedAt = now div 1000, vt_expiresAt = now div 1000 + refreshTokenExpirySeconds cfg,
                vt_deviceFingerprint = d\<rparr>)"
  by (auto simp: parse_token_def refresh_claims_def Let_def)

text \<open>The id is marked as used until the token has expired.\<close>

definition spent :: "('s, 'z) redis_scheme \<Rightarrow> string \<Rightarrow> int \<Rightarrow> int \<Rightarrow> 's world \<Rightarrow> bool" where
  "spent R jti expiry t w \<longleftrightarrow>
     (\<forall>t' \<ge> t. t' div 1000 < expiry \<longrightarrow> rget R t' (db w) (usedKey jti) \<noteq> None)"

lemma seconds_mono: "t \<le> t' \<Longrightarrow> t div 1000 \<le> t' div (1000 :: int)"
  by (rule zdiv_mono1) simp_all

lemma ttl_seconds: "u + n * 1000 \<le> t \<Longrightarrow> u div 1000 + n \<le> t div (1000 :: int)"
  using seconds_mono [of "u + n * 1000" t] by simp

text \<open>How often a token was rotated.\<close>

definition successes :: "'tok \<Rightarrow> ('tok \<times> bool) list \<Rightarrow> nat" where
  "successes tok rs = length (filter (\<lambda>(x, ok). x = tok \<and> ok) rs)"

lemma successes_Cons [simp]:
  "successes tok [] = 0"
  "successes tok ((x, ok) # rs) = (if x = tok \<and> ok then Suc (successes tok rs) else successes tok rs)"
  by (simp_all add: successes_def)

context redis_kv
begin

lemma mark_spent:
  assumes "expiry \<le> u div 1000 + refreshTokenExpirySeconds cfg"
  shows "spent R jti expiry u (with_db (rsetex R u (usedKey jti) (refreshTokenExpirySeconds cfg) v) w)"
  unfolding spent_def
proof (intro allI impI)
  fix t' assume t': "u \<le> t'" "t' div 1000 < expiry"
  then have "t' < u + refreshTokenExpirySeconds cfg * 1000"
    using ttl_seconds [of u "refreshTokenExpirySeconds cfg" t'] assms by linarith
  with t' show "rget R t' (db (with_db (rsetex R u (usedKey jti) (refreshTokenExpirySeconds cfg) v) w))
      (usedKey jti) \<noteq> None"
    by (simp add: get_setex_live)
qed

lemma spent_later: "spent R jti expiry t w \<Longrightarrow> t \<le> u \<Longrightarrow> spent R jti expiry u w"
  by (simp add: spent_def)

text \<open>What a rotation does to the store.\<close>

lemma rotate_db:
  "db (snd (rotate_token R sign verify cfg u j tok w)) = db w \<or>
   (\<exists>f. db (snd (rotate_token R sign verify cfg u j tok w)) = rdel R u (familyKey f) (db w)) \<or>
   (\<exists>k. db (snd (rotate_token R sign verify cfg u j tok w)) =
      rsetex R u (usedKey k) (refreshTokenExpirySeconds cfg) (JDate u) (db w))"
  by (auto simp: rotate_token_def Let_def split: sum.split option.split list.split)

lemma rotate_spent:
  assumes "spent R jti expiry u w" and "expiry \<le> u div 1000 + refreshTokenExpirySeconds cfg"
  shows "spent R jti expiry u (snd (rotate_token R sign verify cfg u j tok w))"
proof -
  have "spent R jti expiry u (with_db (rsetex R u (usedKey k) (refreshTokenExpirySeconds cfg) v) w)" for k v
    using mark_spent [OF assms(2)] assms(1)
    by (cases "k = jti") (auto simp: spent_def get_setex_other)
  then show ?thesis
    using assms(1) rotate_db [of sign verify cfg u j tok w]
    by (auto simp: spent_def get_del_other)
qed

lemma rotate_ok:
  assumes "is_ok (fst (rotate_token R sign verify cfg u j tok w))"
  obtains p k where "verify (u div 1000) tok = Inr p" and "cl_jti p = Some k" and "k \<noteq> []"
    and "rget R u (db w) (usedKey k) = None"
    and "db (snd (rotate_token R sign verify cfg u j tok w)) =
      rsetex R u (usedKey k) (refreshTokenExpirySeconds cfg) (JDate u) (db w)"
  using assms
  by (auto simp: rotate_token_def Let_def split: sum.splits option.splits list.splits if_splits)

text \<open>A token with a spent id is refused, and a success spends the id.\<close>

lemma rotate_once:
  assumes jose: "jose_ok sign verify" "sign c = Inr tok"
    and c: "cl_jti c = Some jti" "cl_exp c = Some expiry"
  shows "spent R jti expiry u w \<Longrightarrow> \<not> is_ok (fst (rotate_token R sign verify cfg u j tok w))"
    and "is_ok (fst (rotate_token R sign verify cfg u j tok w)) \<Longrightarrow>
      expiry \<le> u div 1000 + refreshTokenExpirySeconds cfg \<Longrightarrow>
      spent R jti expiry u (snd (rotate_token R sign verify cfg u j tok w))"
proof -
  have ver: "p = c \<and> u div 1000 < expiry" if "verify (u div 1000) tok = Inr p" for p
    using jose c that unfolding jose_ok_def by metis
  show "\<not> is_ok (fst (rotate_token R sign verify cfg u j tok w))" if sp: "spent R jti expiry u w"
  proof
    assume "is_ok (fst (rotate_token R sign verify cfg u j tok w))"
    then show False
      by (rule rotate_ok) (use ver sp c in \<open>force simp: spent_def\<close>)
  qed
  show "spent R jti expiry u (snd (rotate_token R sign verify cfg u j tok w))"
    if ok: "is_ok (fst (rotate_token R sign verify cfg u j tok w))"
      and le: "expiry \<le> u div 1000 + refreshTokenExpirySeconds cfg"
    using ok
  proof (rule rotate_ok)
    fix p k
    assume p: "verify (u div 1000) tok = Inr p" "cl_jti p = Some k"
      and d: "db (snd (rotate_token R sign verify cfg u j tok w)) =
        rsetex R u (usedKey k) (refreshTokenExpirySeconds cfg) (JDate u) (db w)"
    from ver [OF p(1)] p(2) c(1) have "k = jti" by simp
    with d mark_spent [OF le] show ?thesis by (simp add: spent_def)
  qed
qed

lemma rotations_spent:
  assumes "jose_ok sign verify" "sign c = Inr tok" "cl_jti c = Some jti" "cl_exp c = Some expiry"
    and "spent R jti expiry t w" and "sorted_wrt (\<le>) (t # map fst xs)"
    and "expiry \<le> t div 1000 + refreshTokenExpirySeconds cfg"
  shows "successes tok (fst (rotations R sign verify cfg xs w)) = 0"
  using assms(5-7)
proof (induction xs arbitrary: t w)
  case (Cons x xs)
  obtain u j tok' where x: "x = (u, j, tok')" by (cases x)
  with Cons.prems have u: "spent R jti expiry u w" "t \<le> u" "sorted_wrt (\<le>) (u # map fst xs)"
    by (auto intro: spent_later)
  have le: "expiry \<le> u div 1000 + refreshTokenExpirySeconds cfg"
    using Cons.prems(3) seconds_mono [OF u(2)] by linarith
  show ?case
    using Cons.IH [OF rotate_spent [OF u(1) le] u(3) le] rotate_once(1) [OF assms(1-4) u(1)] x
    by (auto simp: split_beta Let_def)
qed simp

lemma rotations_once:
  assumes "jose_ok sign verify" "sign c = Inr tok" "cl_jti c = Some jti" "cl_exp c = Some expiry"
    and "sorted_wrt (\<le>) (t # map fst xs)"
    and "expiry \<le> t div 1000 + refreshTokenExpirySeconds cfg"
  shows "successes tok (fst (rotations R sign verify cfg xs w)) \<le> 1"
  using assms(5,6)
proof (induction xs arbitrary: t w)
  case (Cons x xs)
  obtain u j tok' where x: "x = (u, j, tok')" by (cases x)
  let ?r = "rotate_token R sign verify cfg u j tok' w"
  from Cons.prems x have u: "t \<le> u" "sorted_wrt (\<le>) (u # map fst xs)" by auto
  have le: "expiry \<le> u div 1000 + refreshTokenExpirySeconds cfg"
    using Cons.prems(2) seconds_mono [OF u(1)] by linarith
  show ?case
  proof (cases "tok' = tok \<and> is_ok (fst ?r)")
    case True
    then have eq: "tok' = tok" and ok: "is_ok (fst (rotate_token R sign verify cfg u j tok w))"
      by auto
    have "spent R jti expiry u (snd ?r)"
      unfolding eq by (rule rotate_once(2) [OF assms(1-4) ok le])
    from rotations_spent [OF assms(1-4) this u(2) le] show ?thesis
      using x by (auto simp: split_beta Let_def)
  next
    case False
    then show ?thesis using Cons.IH [OF u(2) le] x by (auto simp: split_beta Let_def)
  qed
qed simp

end

subsection \<open>A rotation of a fresh refresh token\<close>

definition access_claims :: "config \<Rightarrow> int \<Rightarrow> string \<Rightarrow> string \<Rightarrow> string list \<Rightarrow> string \<Rightarrow> claims" where
  "access_claims cfg now u s sc d = \<lparr>cl_sub = Some u, cl_sid = Some (JStr s),
     cl_scope = Some (JArr (map JStr sc)), cl_dfp = Some (JStr d),
     cl_iat = Some (now div 1000), cl_exp = Some (now div 1000 + accessTokenExpirySeconds cfg),
     cl_jti = None, cl_fid = None\<rparr>"

lemma generateAccess_sign: "generateAccessToken sign cfg now u s sc d = sign (access_claims cfg now u s sc d)"
  by (simp add: generateAccessToken_def access_claims_def Let_def)

lemma parse_access:
  "u \<noteq> [] \<Longrightarrow> s \<noteq> [] \<Longrightarrow> d \<noteq> [] \<Longrightarrow> 0 < now div 1000 \<Longrightarrow> 0 < accessTokenExpirySeconds cfg \<Longrightarrow>
   parse_token (access_claims cfg now u s sc d) =
     Inr \<lparr>vt_userId = u, vt_sessionId = s, vt_scope = sc, vt_issuedAt = now div 1000,
          vt_expiresAt = now div 1000 + accessTokenExpirySeconds cfg, vt_deviceFingerprint = d\<rparr>"
  by (simp add: parse_token_def access_claims_def)

lemma refresh_claims_simps [simp]:
  "cl_jti (refresh_claims cfg now j u s d) = Some j" "cl_fid (refresh_claims cfg now j u s d) = None"
  "cl_exp (refresh_claims cfg now j u s d) = Some (now div 1000 + refreshTokenExpirySeconds cfg)"
  by (simp_all add: refresh_claims_def Let_def)

text \<open>The verified claims of a signed token.\<close>

lemma jose_verify:
  "jose_ok sign verify \<Longrightarrow> sign c = Inr tok \<Longrightarrow> cl_exp c = Some e \<Longrightarrow> now < e \<Longrightarrow> verify now tok = Inr c"
  unfolding jose_ok_def by blast

lemma rotate_fresh:
  assumes "jose_ok sign verify" "\<And>c. is_ok (sign c)"
    and "sign (refresh_claims cfg t0 (x # xs) u s d) = Inr tok"
    and "u \<noteq> []" "s \<noteq> []" "d \<noteq> []" "0 < t0 div 1000" "0 < refreshTokenExpirySeconds cfg"
    and "t div 1000 < t0 div 1000 + refreshTokenExpirySeconds cfg"
    and "rget R t (db w) (usedKey (x # xs)) = None"
  obtains access refresh
  where "sign (access_claims cfg t u s [''refresh''] d) = Inr access"
    and "sign (refresh_claims cfg t j u s d) = Inr refresh"
    and "rotate_token R sign verify cfg t j tok w =
      (Inr \<lparr>tp_accessToken = access, tp_refreshToken = refresh\<rparr>,
       with_db (rsetex R t (usedKey (x # xs)) (refreshTokenExpirySeconds cfg) (JDate t)) w)"
proof -
  obtain a r where ar: "sign (access_claims cfg t u s [''refresh''] d) = Inr a"
      "sign (refresh_claims cfg t j u s d) = Inr r"
    using assms(2) by (metis isl_def sum.exhaust)
  have "verify (t div 1000) tok = Inr (refresh_claims cfg t0 (x # xs) u s d)"
    by (rule jose_verify [OF assms(1,3) _ assms(9)]) simp
  then have "rotate_token R sign verify cfg t j tok w =
      (Inr \<lparr>tp_accessToken = a, tp_refreshToken = r\<rparr>,
       with_db (rsetex R t (usedKey (x # xs)) (refreshTokenExpirySeconds cfg) (JDate t)) w)"
    using ar assms(4-8,10)
    by (simp add: rotate_token_def parse_refresh generateAccess_sign generateRefreshToken_def Let_def)
  with ar show thesis by (rule that)
qed

context redis_kv
begin

lemma replay_family:
  assumes jose: "jose_ok sign verify" "\<And>c. is_ok (sign c)"
    and tok: "sign (refresh_claims cfg t0 (x # xs) u s d) = Inr tok"
    and ne: "u \<noteq> []" "s \<noteq> []" "d \<noteq> []" and pos: "0 < t0 div 1000" "0 < refreshTokenExpirySeconds cfg"
    and t: "t0 \<le> t1" "t1 \<le> t2" "t2 \<le> t3" "t3 div 1000 < t0 div 1000 + refreshTokenExpirySeconds cfg"
    and new: "\<And>k. rget R t1 (db w) (usedKey k) = None" and j: "y # ys \<noteq> x # xs"
  shows "let (r1, w1) = rotate_token R sign verify cfg t1 (y # ys) tok w;
             (r2, w2) = rotate_token R sign verify cfg t2 j2 tok w1
         in r2 = Inl (invalid_token ''Refresh token replay detected'') \<and>
            (\<exists>pair. r1 = Inr pair \<and>
               is_ok (fst (rotate_token R sign verify cfg t3 j3 (tp_refreshToken pair) w2)))"
proof -
  let ?n = "refreshTokenExpirySeconds cfg"
  have secs: "t0 div 1000 \<le> t1 div 1000" "t1 div 1000 \<le> t2 div 1000" "t2 div 1000 \<le> t3 div 1000"
    using t by (auto intro: seconds_mono)
  have life: "t1 div 1000 < t0 div 1000 + ?n" "t2 div 1000 < t0 div 1000 + ?n"
      "t3 div 1000 < t1 div 1000 + ?n" "0 < t1 div 1000"
    using secs t(4) pos by linarith+
  let ?w1 = "with_db (rsetex R t1 (usedKey (x # xs)) ?n (JDate t1)) w"
  obtain a r where r: "sign (refresh_claims cfg t1 (y # ys) u s d) = Inr r"
    and rot1: "rotate_token R sign verify cfg t1 (y # ys) tok w =
      (Inr \<lparr>tp_accessToken = a, tp_refreshToken = r\<rparr>, ?w1)"
    using rotate_fresh [OF jose tok ne pos life(1) new, of "y # ys"] by metis
  have ver: "verify (t2 div 1000) tok = Inr (refresh_claims cfg t0 (x # xs) u s d)"
    by (rule jose_verify [OF jose(1) tok _ life(2)]) simp
  have "t2 < t1 + ?n * 1000" using ttl_seconds [of t1 ?n t2] secs life(2) by linarith
  then have used: "rget R t2 (db ?w1) (usedKey (x # xs)) \<noteq> None" using t(2) by (simp add: get_setex_live)
  let ?c2 = "rotate_token R sign verify cfg t2 j2 tok ?w1"
  have rot2: "fst ?c2 = Inl (invalid_token ''Refresh token replay detected'')"
      "db (snd ?c2) = rdel R t2 (familyKey (x # xs)) (db ?w1)"
    using ver used by (simp_all add: rotate_token_def Let_def)
  have "rget R t3 (db (snd ?c2)) (usedKey (y # ys)) = None"
    using j get_None_mono [OF new, of t3 "y # ys"] t by (simp add: rot2 get_del_other get_setex_other)
  from rotate_fresh [OF jose r ne life(4) pos(2) life(3) this, of j3]
  have "is_ok (fst (rotate_token R sign verify cfg t3 j3 r (snd ?c2)))" by (metis fst_conv sum.disc(2))
  with rot1 rot2 show ?thesis by (simp add: split_beta)
qed

end

subsection \<open>Properties\<close>

text \<open>a token is accepted for a scope exactly when it verifies, its claims have the
  required shape, it has not expired and its scope list contains the scope; every call logs
  one event, success or failure, and throws nothing but an AuthenticationError.\<close>

theorem jv_exact:
  "(fst (validate verify now tok sc w) = Inr v) =
     (\<exists>p. verify (now div 1000) tok = Inr p \<and> parse_token p = Inr v \<and>
          now div 1000 < vt_expiresAt v \<and> sc \<in> set (vt_scope v)) \<and>
   (\<exists>e. out (snd (validate verify now tok sc w)) = out w @ [e] \<and>
     effect_type e = (if is_ok (fst (validate verify now tok sc w)) then AUTH_SUCCESS else AUTH_FAILURE)) \<and>
   (case fst (validate verify now tok sc w) of
      Inl e \<Rightarrow> thrown_class e = Some AuthenticationError | Inr _ \<Rightarrow> True)"
  by (auto simp: validate_def check_token_def failure_event_def split: sum.splits if_splits)

definition demo_tokens :: "claims signer" where
  "demo_tokens c = Inr c"

definition demo_verify :: "claims verifier" where
  "demo_verify now c =
     (case cl_exp c of
        Some e \<Rightarrow> if now < e then Inr c else Inl (PlainError [S ''\"exp\" claim timestamp check failed''])
      | None \<Rightarrow> Inr c)"

definition demo_auth :: config where
  "demo_auth = default_config ''0123456789abcdef0123456789abcdef'' ''root''"

definition demo_refresh :: claims where
  "demo_refresh = refresh_claims demo_auth 5000 ''j1'' ''bob'' ''s1'' ''dev''"

lemma demo_jose: "jose_ok demo_tokens demo_verify"
  by (auto simp: jose_ok_def demo_tokens_def demo_verify_def split: option.splits if_splits)

lemma demo_sign: "is_ok (demo_tokens c)"
  by (simp add: demo_tokens_def)

lemma demo_signed:
  "demo_tokens (refresh_claims demo_auth 5000 (CHR ''j'' # ''1'') ''bob'' ''s1'' ''dev'') = Inr demo_refresh"
  by (simp add: demo_tokens_def demo_refresh_def)

lemma demo_expiry [simp]:
  "refreshTokenExpirySeconds demo_auth = 86400" "accessTokenExpirySeconds demo_auth = 900"
  by (simp_all add: demo_auth_def default_config_def)

text \<open>C13: over any sequence of rotations of any tokens, a refresh token that the
  validator generated is rotated at most once: the used marker outlives the token.\<close>

theorem tr_once:
  assumes "redis_kv R" and "jose_ok sign verify"
    and "generateRefreshToken sign cfg t0 jti u s d = Inr tok"
    and "sorted_wrt (\<le>) (t0 # map fst xs)"
  shows "successes tok (fst (rotations R sign verify cfg xs w)) \<le> 1"
  using redis_kv.rotations_once [OF assms(1,2), of "refresh_claims cfg t0 jti u s d" tok jti
      "t0 div 1000 + refreshTokenExpirySeconds cfg" t0 xs cfg w] assms(3,4)
  by (simp add: generateRefreshToken_def)

theorem tr_once_witness:
  "successes demo_refresh (fst (rotations service demo_tokens demo_verify demo_auth
     [(6000, ''j2'', demo_refresh), (7000, ''j3'', demo_refresh)] mem_world)) \<le> 1"
  by (rule tr_once [OF mem.service.redis_kv_axioms demo_jose, where ?t0.0 = 5000])
    (simp_all add: generateRefreshToken_def demo_tokens_def demo_refresh_def)

text \<open>the access token that a rotation returns carries the scope of the
  refresh token, so while it lives it is accepted for the scope \<open>refresh\<close> and refused for
  every other scope, whatever scopes the session had.\<close>

theorem tr_scope_lost:
  assumes "jose_ok sign verify" "\<And>c. is_ok (sign c)"
    and "sign (refresh_claims cfg t0 (x # xs) u s d) = Inr tok"
    and "u \<noteq> []" "s \<noteq> []" "d \<noteq> []" "0 < t0 div 1000" "0 < refreshTokenExpirySeconds cfg"
    and "t div 1000 < t0 div 1000 + refreshTokenExpirySeconds cfg" and "t0 \<le> t"
    and "rget R t (db w) (usedKey (x # xs)) = None" and "0 < accessTokenExpirySeconds cfg"
    and "t' div 1000 < t div 1000 + accessTokenExpirySeconds cfg"
  shows "\<exists>pair. fst (rotate_token R sign verify cfg t j tok w) = Inr pair \<and>
    is_ok (fst (validate verify t' (tp_accessToken pair) sc w')) = (sc = ''refresh'')"
proof -
  have pos: "0 < t div 1000" using assms(7) seconds_mono [OF assms(10)] by linarith
  from rotate_fresh [OF assms(1-9,11), of j] obtain a r where a: "sign (access_claims cfg t u s [''refresh''] d) = Inr a"
      and rot: "fst (rotate_token R sign verify cfg t j tok w) = Inr \<lparr>tp_accessToken = a, tp_refreshToken = r\<rparr>"
    by (metis fst_conv)
  have "verify (t' div 1000) a = Inr (access_claims cfg t u s [''refresh''] d)"
    by (rule jose_verify [OF assms(1) a _ assms(13)]) (simp add: access_claims_def)
  then have "is_ok (fst (validate verify t' a sc w')) = (sc = ''refresh'')"
    using parse_access [of u s d t cfg "[''refresh'']"] assms(4-6,12,13) pos
    by (auto simp: validate_def check_token_def)
  with rot show ?thesis by auto
qed

theorem tr_scope_lost_witness:
  "\<exists>pair. fst (rotate_token service demo_tokens demo_verify demo_auth 6000 ''j2'' demo_refresh mem_world)
       = Inr pair \<and>
     \<not> is_ok (fst (validate demo_verify 7000 (tp_accessToken pair) ''trade'' mem_world))"
  using tr_scope_lost [OF demo_jose demo_sign demo_signed, where t = 6000
      and t' = 7000 and R = service and w = mem_world and sc = "''trade''"
      and j = "''j2''" and w' = mem_world]
  by simp

text \<open>a replayed refresh token is refused, but nothing reads the family
  key that the replay deletes: the refresh token that the first rotation returned, which may
  be in the attacker's hands, is rotated successfully afterwards.\<close>

theorem tr_replay_family:
  assumes "redis_kv R" and "jose_ok sign verify" "\<And>c. is_ok (sign c)"
    and "sign (refresh_claims cfg t0 (x # xs) u s d) = Inr tok"
    and "u \<noteq> []" "s \<noteq> []" "d \<noteq> []" "0 < t0 div 1000" "0 < refreshTokenExpirySeconds cfg"
    and "t0 \<le> t1" and "t1 \<le> t2" and "t2 \<le> t3"
    and "t3 div 1000 < t0 div 1000 + refreshTokenExpirySeconds cfg"
    and "\<And>k. rget R t1 (db w) (usedKey k) = None" and "y # ys \<noteq> x # xs"
  shows "let (r1, w1) = rotate_token R sign verify cfg t1 (y # ys) tok w;
             (r2, w2) = rotate_token R sign verify cfg t2 j2 tok w1
         in r2 = Inl (invalid_token ''Refresh token replay detected'') \<and>
            (\<exists>pair. r1 = Inr pair \<and>
               is_ok (fst (rotate_token R sign verify cfg t3 j3 (tp_refreshToken pair) w2)))"
  using redis_kv.replay_family [OF assms] .

theorem tr_replay_family_witness:
  "fst (rotate_token service demo_tokens demo_verify demo_auth 7000 ''j9'' demo_refresh
     (snd (rotate_token service demo_tokens demo_verify demo_auth 6000 ''j2'' demo_refresh mem_world)))
   = Inl (invalid_token ''Refresh token replay detected'')"
  using tr_replay_family [OF mem.service.redis_kv_axioms demo_jose demo_sign(1), where cfg = demo_auth
      and ?t0.0 = 5000 and ?t1.0 = 6000 and ?t2.0 = 7000 and ?t3.0 = 8000 and w = mem_world
      and u = "''bob''" and s = "''s1''" and d = "''dev''" and x = "CHR ''j''" and xs = "''1''"
      and tok = demo_refresh and y = "CHR ''j''" and ys = "''2''" and ?j2.0 = "''j9''" and ?j3.0 = "''k''"]
  by (simp add: Let_def split_beta demo_signed)

end
