(* ===== verification/Auth_Session.thy ===== *)
theory Auth_Session
  imports Auth_Tokens
begin

text \<open>
  Step-up and session checks: \<open>security/auth/device.trust.ts\<close>, \<open>mfa.gate.ts\<close> and
  \<open>session.binder.ts\<close>. HMAC-SHA256, SHA-256, the TOTP check of \<open>otplib\<close>, the secret store
  and zod's UUID test are parameters.
\<close>

subsection \<open>Device trust\<close>

definition deviceKey :: "string \<Rightarrow> string \<Rightarrow> string" where
  "deviceKey userId device = ''device:trust:'' @ userId @ '':'' @ device"

definition device_ttl :: int where
  "device_ttl = 90 * 24 * 60 * 60"

definition dt_getScore :: "('s, 'z) redis_scheme \<Rightarrow> int \<Rightarrow> string \<Rightarrow> string \<Rightarrow> 's world \<Rightarrow> real" where
  "dt_getScore R now userId device w =
     (case rget R now (db w) (deviceKey userId device) of
        None \<Rightarrow> 0
      | Some v \<Rightarrow>
         (case js_number v of
            None \<Rightarrow> 0
          | Some score \<Rightarrow> if score < 0 then 0 else min score 100))"

definition recordSuccessfulAuth ::
  "('s, 'z) redis_scheme \<Rightarrow> config \<Rightarrow> int \<Rightarrow> string \<Rightarrow> string \<Rightarrow> 's world \<Rightarrow> real \<times> 's world" where
  "recordSuccessfulAuth R cfg now userId device w =
     (let newScore = min (dt_getScore R now userId device w + deviceTrustScoreIncrement cfg) 100
      in (newScore, with_db (rsetex R now (deviceKey userId device) device_ttl (JNum newScore)) w))"

fun trust_threshold :: "action_type \<Rightarrow> real" where
  "trust_threshold T_PlaceOrder = 70"
| "trust_threshold T_ModifyOrder = 50"
| "trust_threshold T_CancelOrder = 30"
| "trust_threshold T_ClosePosition = 70"
| "trust_threshold T_RequestHumanReview = 0"
| "trust_threshold T_NoAction = 0"

definition isActionPermitted :: "config \<Rightarrow> real \<Rightarrow> agent_action \<Rightarrow> bool" where
  "isActionPermitted cfg score action =
     (let threshold = trust_threshold (type_of_action action)
      in if threshold > 0 then score \<ge> max threshold (deviceTrustScoreThreshold cfg) else True)"

definition revokeDevice :: "('s, 'z) redis_scheme \<Rightarrow> int \<Rightarrow> string \<Rightarrow> string \<Rightarrow> 's world \<Rightarrow> 's world" where
  "revokeDevice R now userId device = with_db (rdel R now (deviceKey userId device))"

fun auths ::
  "('s, 'z) redis_scheme \<Rightarrow> config \<Rightarrow> string \<Rightarrow> string \<Rightarrow> int list \<Rightarrow> 's world \<Rightarrow> 's world" where
  "auths R cfg u d [] w = w"
| "auths R cfg u d (t # ts) w = auths R cfg u d ts (snd (recordSuccessfulAuth R cfg t u d w))"

text \<open>Consecutive times less than the ninety days apart.\<close>

fun kept_alive :: "int \<Rightarrow> int list \<Rightarrow> bool" where
  "kept_alive t [] = True"
| "kept_alive t (t' # ts) = (t \<le> t' \<and> t' < t + device_ttl * 1000 \<and> kept_alive t' ts)"

lemma capped_sum: "0 \<le> i \<Longrightarrow> min (min x 100 + i) 100 = min (x + i) (100 :: real)"
  by (simp add: min_def)

context redis_kv
begin

lemma auth_score:
  assumes "t \<le> t'" and "t' < t + device_ttl * 1000" and "0 \<le> deviceTrustScoreIncrement cfg"
  shows "dt_getScore R t' u d (snd (recordSuccessfulAuth R cfg t u d w)) =
    min (dt_getScore R t u d w + deviceTrustScoreIncrement cfg) 100"
proof -
  have "0 \<le> dt_getScore R t u d w" by (auto simp: dt_getScore_def split: option.split)
  with assms(3) have "0 \<le> min (dt_getScore R t u d w + deviceTrustScoreIncrement cfg) 100" by simp
  then have "\<not> min (dt_getScore R t u d w + deviceTrustScoreIncrement cfg) 100 < 0" by linarith
  then show ?thesis
    using assms(1,2)
    by (simp only: dt_getScore_def [of R t'] recordSuccessfulAuth_def Let_def get_setex_live
        world_simps snd_conv option.case js_number.simps if_False)
qed

lemma auths_score:
  assumes "\<And>v. t \<le> v \<Longrightarrow> v < t + device_ttl * 1000 \<Longrightarrow>
      dt_getScore R v u d w = min (of_int n * deviceTrustScoreIncrement cfg) 100"
    and "kept_alive t ts" and "last (t # ts) \<le> t'" and "t' < last (t # ts) + device_ttl * 1000"
    and "0 \<le> deviceTrustScoreIncrement cfg"
  shows "dt_getScore R t' u d (auths R cfg u d ts w) =
    min (of_int (n + int (length ts)) * deviceTrustScoreIncrement cfg) 100"
  using assms(1-4)
proof (induction ts arbitrary: t n w)
  case Nil
  from Nil.prems(1) [of t'] Nil.prems(3,4) show ?case by simp
next
  case (Cons x ts)
  let ?i = "deviceTrustScoreIncrement cfg"
  let ?w1 = "snd (recordSuccessfulAuth R cfg x u d w)"
  have x: "t \<le> x" "x < t + device_ttl * 1000" "kept_alive x ts" using Cons.prems(2) by auto
  have now: "dt_getScore R x u d w = min (of_int n * ?i) 100" by (rule Cons.prems(1) [OF x(1,2)])
  have "dt_getScore R v u d ?w1 = min (of_int (n + 1) * ?i) 100"
    if "x \<le> v" "v < x + device_ttl * 1000" for v
    using auth_score [OF that assms(5), of u d w] capped_sum [OF assms(5), of "of_int n * ?i"] now
    by (simp add: distrib_right)
  from Cons.IH [OF this x(3)] Cons.prems(3,4) show ?case by (simp add: algebra_simps)
qed

end

subsection \<open>The MFA gate\<close>

definition mfa_isRequired :: "config \<Rightarrow> agent_action \<Rightarrow> risk_level \<Rightarrow> bool" where
  "mfa_isRequired cfg action level =
     (if type_of_action action = T_PlaceOrder \<or> type_of_action action = T_ClosePosition then True
      else risk_order level \<ge> risk_order (mfaStepUpThresholdRiskLevel cfg))"

record mfa_challenge =
  mc_challengeId :: string
  mc_userId :: string
  mc_action :: string
  mc_issuedAt :: int
  mc_expiresAt :: int
  mc_signature :: string

definition mfaKey :: "string \<Rightarrow> string" where
  "mfaKey i = ''mfa:challenge:'' @ i"

definition mfa_expiry :: int where
  "mfa_expiry = 90"

definition mfa_signature_data :: "string \<Rightarrow> string \<Rightarrow> string \<Rightarrow> int \<Rightarrow> int \<Rightarrow> tmpl" where
  "mfa_signature_data i u a issued expires =
     [S i, S ''|'', S u, S ''|'', S a, S ''|'', N (of_int issued), S ''|'', N (of_int expires)]"

definition mfa_json :: "mfa_challenge \<Rightarrow> json" where
  "mfa_json c = JObj [(''challengeId'', JStr (mc_challengeId c)), (''userId'', JStr (mc_userId c)),
     (''action'', JStr (mc_action c)), (''issuedAt'', JNum (of_int (mc_issuedAt c))),
     (''expiresAt'', JNum (of_int (mc_expiresAt c))), (''signature'', JStr (mc_signature c))]"

definition parse_mfa :: "(string \<Rightarrow> bool) \<Rightarrow> json \<Rightarrow> js_error + mfa_challenge" where
  "parse_mfa uuid j =
     (case (z_uuid uuid (jget j ''challengeId''), z_string1 (jget j ''userId''),
            z_string1 (jget j ''action''), z_posint (jget j ''issuedAt''),
            z_posint (jget j ''expiresAt''), z_string1 (jget j ''signature'')) of
        (Some i, Some u, Some a, Some t, Some e, Some s) \<Rightarrow>
          Inr \<lparr>mc_challengeId = i, mc_userId = u, mc_action = a, mc_issuedAt = t,
               mc_expiresAt = e, mc_signature = s\<rparr>
      | _ \<Rightarrow> Inl ZodError)"

definition generateChallenge ::
  "('s, 'z) redis_scheme \<Rightarrow> (string \<Rightarrow> tmpl \<Rightarrow> string) \<Rightarrow> config \<Rightarrow> int \<Rightarrow> string \<Rightarrow> string \<Rightarrow> string \<Rightarrow>
   's world \<Rightarrow> mfa_challenge \<times> 's world" where
  "generateChallenge R hmac cfg now i userId action w =
     (let t = now div 1000;
          e = t + mfa_expiry;
          c = \<lparr>mc_challengeId = i, mc_userId = userId, mc_action = action, mc_issuedAt = t,
               mc_expiresAt = e,
               mc_signature = hmac (hmacChainSecret cfg) (mfa_signature_data i userId action t e)\<rparr>
      in (c, emit (LogEvent MFA_REQUIRED MEDIUM
             [(''userId'', JStr userId), (''triggerAction'', JStr action), (''riskScore'', JNum 0)])
           (with_db (rsetex R now (mfaKey i) mfa_expiry (mfa_json c)) w)))"

definition mfa_failure :: "string \<Rightarrow> string \<Rightarrow> effect" where
  "mfa_failure userId reason = LogEvent MFA_FAILURE HIGH
     [(''userId'', JStr userId), (''method'', JStr ''totp''), (''attemptCount'', JNum 1),
      (''reason'', JStr reason)]"

definition mfa_error :: "error_code \<Rightarrow> string \<Rightarrow> js_error" where
  "mfa_error c m = new_error AuthenticationError c [S m]"

text \<open>\<open>secret_of\<close> is the secret store, which may throw; \<open>totp\<close> is \<open>authenticator.check\<close>.\<close>

definition verifyResponse ::
  "('s, 'z) redis_scheme \<Rightarrow> (string \<Rightarrow> tmpl \<Rightarrow> string) \<Rightarrow> (string \<Rightarrow> bool) \<Rightarrow> (string \<Rightarrow> js_error + string) \<Rightarrow>
   (int \<Rightarrow> string \<Rightarrow> string \<Rightarrow> bool) \<Rightarrow> config \<Rightarrow> int \<Rightarrow> string \<Rightarrow> string \<Rightarrow> string \<Rightarrow>
   's world \<Rightarrow> (js_error + bool) \<times> 's world" where
  "verifyResponse R hmac uuid secret_of totp cfg now i code userId w =
     (case rget R now (db w) (mfaKey i) of
        None \<Rightarrow> (Inl (mfa_error MFA_CODE_EXPIRED ''MFA challenge not found or expired''),
                 emit (mfa_failure userId ''Challenge not found or expired'') w)
      | Some stored \<Rightarrow>
         (case parse_mfa uuid stored of
            Inl e \<Rightarrow> (Inl e, w)
          | Inr c \<Rightarrow>
             (if mc_userId c \<noteq> userId then
                (Inl (mfa_error MFA_CODE_INVALID ''MFA challenge does not belong to this user''), w)
              else if now div 1000 > mc_expiresAt c then
                (Inl (mfa_error MFA_CODE_EXPIRED ''MFA challenge has expired''),
                 emit (mfa_failure userId ''Challenge expired'') (with_db (rdel R now (mfaKey i)) w))
              else if hmac (hmacChainSecret cfg) (mfa_signature_data (mc_challengeId c) (mc_userId c)
                     (mc_action c) (mc_issuedAt c) (mc_expiresAt c)) \<noteq> mc_signature c then
                (Inl (mfa_error MFA_CODE_INVALID ''MFA challenge signature tampered''), w)
              else
                (case secret_of userId of
                   Inl e \<Rightarrow> (Inl e, w)
                 | Inr secret \<Rightarrow>
                    (if \<not> totp now code secret then
                       (Inl (mfa_error MFA_CODE_INVALID ''Invalid TOTP code''),
                        emit (mfa_failure userId ''Invalid TOTP code'') w)
                     else
                       (Inr True,
                        emit (LogEvent MFA_SUCCESS LOW
                            [(''userId'', JStr userId), (''method'', JStr ''totp'')])
                          (with_db (rdel R now (mfaKey i)) w)))))))"

text \<open>Attempts at one challenge.\<close>

fun attempts ::
  "('s, 'z) redis_scheme \<Rightarrow> (string \<Rightarrow> tmpl \<Rightarrow> string) \<Rightarrow> (string \<Rightarrow> bool) \<Rightarrow> (string \<Rightarrow> js_error + string) \<Rightarrow>
   (int \<Rightarrow> string \<Rightarrow> string \<Rightarrow> bool) \<Rightarrow> config \<Rightarrow> string \<Rightarrow> (int \<times> string \<times> string) list \<Rightarrow>
   's world \<Rightarrow> (js_error + bool) list \<times> 's world" where
  "attempts R hmac uuid sec totp cfg i [] w = ([], w)"
| "attempts R hmac uuid sec totp cfg i ((t, code, u) # xs) w =
     (let (r, w1) = verifyResponse R hmac uuid sec totp cfg t i code u w;
          (rs, w2) = attempts R hmac uuid sec totp cfg i xs w1
      in (r # rs, w2))"

lemma parse_mfa_json:
  "uuid (mc_challengeId c) \<Longrightarrow> mc_userId c \<noteq> [] \<Longrightarrow> mc_action c \<noteq> [] \<Longrightarrow> 0 < mc_issuedAt c \<Longrightarrow>
   0 < mc_expiresAt c \<Longrightarrow> mc_signature c \<noteq> [] \<Longrightarrow> parse_mfa uuid (mfa_json c) = Inr c"
  by (simp add: parse_mfa_def mfa_json_def)

text \<open>A stored challenge that a response can meet.\<close>

definition live_challenge ::
  "('s, 'z) redis_scheme \<Rightarrow> (string \<Rightarrow> tmpl \<Rightarrow> string) \<Rightarrow> (string \<Rightarrow> bool) \<Rightarrow> config \<Rightarrow> int \<Rightarrow> string \<Rightarrow> string \<Rightarrow>
   's world \<Rightarrow> bool" where
  "live_challenge R hmac uuid cfg t0 i u w \<longleftrightarrow>
     (\<exists>c. parse_mfa uuid (mfa_json c) = Inr c \<and> mc_userId c = u \<and>
        mc_expiresAt c = t0 div 1000 + mfa_expiry \<and>
        mc_signature c = hmac (hmacChainSecret cfg) (mfa_signature_data (mc_challengeId c) (mc_userId c)
          (mc_action c) (mc_issuedAt c) (mc_expiresAt c)) \<and>
        (\<forall>t. t0 \<le> t \<and> t < t0 + mfa_expiry * 1000 \<longrightarrow> rget R t (db w) (mfaKey i) = Some (mfa_json c)))"

context redis_kv
begin

lemma generate_live:
  assumes "uuid i" and "u \<noteq> []" and "a \<noteq> []" and "0 < t div 1000" and "\<And>k d. hmac k d \<noteq> []"
  shows "live_challenge R hmac uuid cfg t i u (snd (generateChallenge R hmac cfg t i u a w))"
  unfolding live_challenge_def
  using assms
  by (intro exI [of _ "fst (generateChallenge R hmac cfg t i u a w)"])
    (simp add: generateChallenge_def Let_def parse_mfa_json get_setex_live mfa_expiry_def)

lemma verify_live:
  assumes "live_challenge R hmac uuid cfg t0 i u w" and "t0 \<le> t" and "t < t0 + mfa_expiry * 1000"
    and "sec u = Inr secret"
  shows "fst (verifyResponse R hmac uuid sec totp cfg t i code v w) =
      (if v \<noteq> u then Inl (mfa_error MFA_CODE_INVALID ''MFA challenge does not belong to this user'')
       else if totp t code secret then Inr True
       else Inl (mfa_error MFA_CODE_INVALID ''Invalid TOTP code''))"
    and "v \<noteq> u \<or> \<not> totp t code secret \<Longrightarrow>
      db (snd (verifyResponse R hmac uuid sec totp cfg t i code v w)) = db w"
    and "v = u \<Longrightarrow> totp t code secret \<Longrightarrow>
      db (snd (verifyResponse R hmac uuid sec totp cfg t i code v w)) = rdel R t (mfaKey i) (db w)"
proof -
  obtain c where c: "parse_mfa uuid (mfa_json c) = Inr c" "mc_userId c = u"
      "mc_expiresAt c = t0 div 1000 + mfa_expiry"
      "mc_signature c = hmac (hmacChainSecret cfg) (mfa_signature_data (mc_challengeId c) (mc_userId c)
          (mc_action c) (mc_issuedAt c) (mc_expiresAt c))"
    and st: "rget R t (db w) (mfaKey i) = Some (mfa_json c)"
    using assms(1-3) unfolding live_challenge_def by blast
  have "t div 1000 \<le> (t0 + mfa_expiry * 1000) div 1000" using assms(3) by (intro zdiv_mono1) auto
  then have "\<not> t div 1000 > mc_expiresAt c" using c(3) by simp
  with c(1,2) c(4) [symmetric] st assms(4) show
    "fst (verifyResponse R hmac uuid sec totp cfg t i code v w) =
      (if v \<noteq> u then Inl (mfa_error MFA_CODE_INVALID ''MFA challenge does not belong to this user'')
       else if totp t code secret then Inr True
       else Inl (mfa_error MFA_CODE_INVALID ''Invalid TOTP code''))"
    "v \<noteq> u \<or> \<not> totp t code secret \<Longrightarrow>
      db (snd (verifyResponse R hmac uuid sec totp cfg t i code v w)) = db w"
    "v = u \<Longrightarrow> totp t code secret \<Longrightarrow>
      db (snd (verifyResponse R hmac uuid sec totp cfg t i code v w)) = rdel R t (mfaKey i) (db w)"
    by (auto simp: verifyResponse_def)
qed

lemma live_kept: "db w' = db w \<Longrightarrow> live_challenge R hmac uuid cfg t0 i u w \<Longrightarrow>
    live_challenge R hmac uuid cfg t0 i u w'"
  by (simp add: live_challenge_def)

text \<open>Failed attempts change nothing.\<close>

lemma attempts_keep:
  assumes "live_challenge R hmac uuid cfg t0 i u w" and "sec u = Inr secret"
    and "\<forall>(t, code, v) \<in> set xs. t0 \<le> t \<and> t < t0 + mfa_expiry * 1000 \<and> (v \<noteq> u \<or> \<not> totp t code secret)"
  shows "live_challenge R hmac uuid cfg t0 i u (snd (attempts R hmac uuid sec totp cfg i xs w)) \<and>
    (\<forall>r \<in> set (fst (attempts R hmac uuid sec totp cfg i xs w)). isl r)"
  using assms(1,3)
proof (induction xs arbitrary: w)
  case (Cons x xs)
  obtain t code v where x: "x = (t, code, v)" by (cases x)
  let ?w1 = "snd (verifyResponse R hmac uuid sec totp cfg t i code v w)"
  have t: "t0 \<le> t" "t < t0 + mfa_expiry * 1000" "v \<noteq> u \<or> \<not> totp t code secret"
    using Cons.prems(2) x by auto
  note v = verify_live [OF Cons.prems(1) t(1,2), of sec secret, OF assms(2)]
  have "live_challenge R hmac uuid cfg t0 i u ?w1"
    using v(2) t(3) Cons.prems(1) by (auto intro: live_kept)
  with Cons.IH Cons.prems(2) x v(1) [of totp code v] t(3) show ?case
    by (auto simp: split_beta Let_def)
qed simp

lemma none_later: "rget R t (db w) k = None \<Longrightarrow> t \<le> t' \<Longrightarrow> rget R t' (db w) k = None"
  by (rule get_None_mono)

lemma none_after_del: "t \<le> t' \<Longrightarrow> rget R t' (rdel R t k s) k = None"
  by (rule get_del_same)

lemma live_after_setex:
  "t \<le> t' \<Longrightarrow> t' < t + n * 1000 \<Longrightarrow> rget R t' (rsetex R t k n v s) k = Some v"
  by (rule get_setex_live)

lemma verify_gone:
  "rget R t (db w) (mfaKey i) = None \<Longrightarrow>
   fst (verifyResponse R hmac uuid sec totp cfg t i code v w) =
     Inl (mfa_error MFA_CODE_EXPIRED ''MFA challenge not found or expired'')"
  by (simp add: verifyResponse_def)

end

subsection \<open>The session binder\<close>

record request =
  rq_ip :: string
  rq_userAgent :: string
  rq_tlsFingerprint :: string

record bound_session =
  bs_sessionId :: string
  bs_userId :: string
  bs_fingerprint :: string
  bs_boundAt :: int
  bs_expiresAt :: int

definition request_ok :: "request \<Rightarrow> bool" where
  "request_ok r \<longleftrightarrow> rq_ip r \<noteq> [] \<and> rq_userAgent r \<noteq> [] \<and> rq_tlsFingerprint r \<noteq> []"

definition computeFingerprint :: "(string \<Rightarrow> string) \<Rightarrow> request \<Rightarrow> string \<Rightarrow> string" where
  "computeFingerprint sha r sessionId =
     sha (rq_ip r @ ''|'' @ rq_userAgent r @ ''|'' @ rq_tlsFingerprint r @ ''|'' @ sessionId)"

definition sessionKey :: "string \<Rightarrow> string" where
  "sessionKey i = ''session:bind:'' @ i"

definition session_json :: "bound_session \<Rightarrow> json" where
  "session_json b = JObj [(''sessionId'', JStr (bs_sessionId b)), (''userId'', JStr (bs_userId b)),
     (''fingerprint'', JStr (bs_fingerprint b)), (''boundAt'', JDate (bs_boundAt b)),
     (''expiresAt'', JDate (bs_expiresAt b))]"

definition parse_session :: "json \<Rightarrow> js_error + bound_session" where
  "parse_session j =
     (case (z_string1 (jget j ''sessionId''), z_string1 (jget j ''userId''),
            z_string1 (jget j ''fingerprint''), z_datetime (jget j ''boundAt''),
            z_datetime (jget j ''expiresAt'')) of
        (Some s, Some u, Some f, Some b, Some e) \<Rightarrow>
          Inr \<lparr>bs_sessionId = s, bs_userId = u, bs_fingerprint = f, bs_boundAt = b, bs_expiresAt = e\<rparr>
      | _ \<Rightarrow> Inl ZodError)"

definition sb_ttl :: "int \<Rightarrow> validated_token \<Rightarrow> int" where
  "sb_ttl now v = max (vt_expiresAt v - now div 1000) 60"

definition sb_bind ::
  "('s, 'z) redis_scheme \<Rightarrow> (string \<Rightarrow> string) \<Rightarrow> int \<Rightarrow> validated_token \<Rightarrow> request \<Rightarrow> 's world \<Rightarrow>
   (js_error + bound_session) \<times> 's world" where
  "sb_bind R sha now v r w =
     (if \<not> request_ok r then (Inl ZodError, w)
      else
        (let session = \<lparr>bs_sessionId = vt_sessionId v, bs_userId = vt_userId v,
               bs_fingerprint = computeFingerprint sha r (vt_sessionId v),
               bs_boundAt = now, bs_expiresAt = now + sb_ttl now v * 1000\<rparr>
         in (Inr session,
             with_db (rsetex R now (sessionKey (vt_sessionId v)) (sb_ttl now v) (session_json session)) w)))"

definition sb_verify ::
  "('s, 'z) redis_scheme \<Rightarrow> (string \<Rightarrow> string) \<Rightarrow> int \<Rightarrow> string \<Rightarrow> request \<Rightarrow> 's world \<Rightarrow>
   (js_error + bound_session) \<times> 's world" where
  "sb_verify R sha now i r w =
     (if \<not> request_ok r then (Inl ZodError, w)
      else case rget R now (db w) (sessionKey i) of
        None \<Rightarrow> (Inl (new_error SessionError SESSION_NOT_FOUND [S ''Session not found'']), w)
      | Some stored \<Rightarrow>
         (case parse_session stored of
            Inl e \<Rightarrow> (Inl e, w)
          | Inr b \<Rightarrow>
             (if computeFingerprint sha r i \<noteq> bs_fingerprint b then
                (Inl (new_error SessionError SESSION_HIJACK_DETECTED
                   [S ''Session fingerprint mismatch - possible session hijack'']),
                 emit (Alert CRITICAL SESSION_MISMATCH
                     [S ''Session fingerprint mismatch for user '', S (bs_userId b), S '' on session '', S i]
                     [(''userId'', JStr (bs_userId b)), (''sessionId'', JStr i), (''ip'', JStr (rq_ip r))])
                   (emit (LogEvent SESSION_MISMATCH CRITICAL
                     [(''userId'', JStr (bs_userId b)), (''expectedSessionId'', JStr (bs_sessionId b)),
                      (''actualSessionId'', JStr i), (''ip'', JStr (rq_ip r))]) w))
              else (Inr b, w))))"

definition sb_destroy :: "('s, 'z) redis_scheme \<Rightarrow> int \<Rightarrow> string \<Rightarrow> 's world \<Rightarrow> 's world" where
  "sb_destroy R now i = with_db (rdel R now (sessionKey i))"

lemma parse_session_json:
  "bs_sessionId b \<noteq> [] \<Longrightarrow> bs_userId b \<noteq> [] \<Longrightarrow> bs_fingerprint b \<noteq> [] \<Longrightarrow>
   parse_session (session_json b) = Inr b"
  by (simp add: parse_session_def session_json_def)

text \<open>The fingerprint input is split at the separators when these do not occur in the fields.\<close>

lemma fingerprint_input:
  fixes r r' :: request
  assumes "CHR ''|'' \<notin> set (rq_ip r)" "CHR ''|'' \<notin> set (rq_ip r')"
    and "CHR ''|'' \<notin> set (rq_userAgent r)" "CHR ''|'' \<notin> set (rq_userAgent r')"
  shows "rq_ip r @ ''|'' @ rq_userAgent r @ ''|'' @ rq_tlsFingerprint r @ ''|'' @ s =
      rq_ip r' @ ''|'' @ rq_userAgent r' @ ''|'' @ rq_tlsFingerprint r' @ ''|'' @ s \<longleftrightarrow> r = r'"
  using assms append_sep_inject [of "CHR ''|''" "rq_ip r" "rq_ip r'"]
    append_sep_inject [of "CHR ''|''" "rq_userAgent r" "rq_userAgent r'"]
  by (cases r; cases r') auto

subsection \<open>Properties\<close>

text \<open>a device without a stored score, after n successful authentications each
  within ninety days of the one before, has score n times the increment, capped at 100, and
  may place orders exactly when this reaches both 70 and the configured threshold.\<close>

theorem dt_ladder:
  assumes "redis_kv R" and "rget R t (db w) (deviceKey u d) = None" and "kept_alive t ts"
    and "last (t # ts) \<le> t'" and "t' < last (t # ts) + device_ttl * 1000"
    and "0 \<le> deviceTrustScoreIncrement cfg"
  shows "let score = dt_getScore R t' u d (auths R cfg u d ts w);
             expected = min (of_int (int (length ts)) * deviceTrustScoreIncrement cfg) 100
         in score = expected \<and>
            isActionPermitted cfg score (PlaceOrder a) = (70 \<le> expected \<and> deviceTrustScoreThreshold cfg \<le> expected)"
proof -
  have "dt_getScore R v u d w = min (of_int 0 * deviceTrustScoreIncrement cfg) 100" if "t \<le> v" for v
    using redis_kv.none_later [OF assms(1), of t w "deviceKey u d" v] assms(2) that
    by (simp add: dt_getScore_def)
  from redis_kv.auths_score [OF assms(1) this assms(3-6)]
  show ?thesis by (simp add: Let_def isActionPermitted_def)
qed

theorem dt_ladder_witness:
  "dt_getScore service 9 ''bob'' ''dev'' (auths service demo_auth ''bob'' ''dev'' [1, 2, 3] mem_world) = 15"
  using dt_ladder [OF mem.service.redis_kv_axioms, where t = 0 and ts = "[1, 2, 3]" and t' = 9
      and cfg = demo_auth and u = "''bob''" and d = "''dev''" and w = mem_world]
  by (simp add: device_ttl_def demo_auth_def default_config_def Let_def del: auths.simps)

text \<open>C29: within its ninety seconds a generated challenge is met exactly by its user
  with a code that the TOTP check accepts; meeting it consumes it, so that every later
  response to it throws MFA_CODE_EXPIRED.\<close>

theorem mfa_exact:
  assumes "redis_kv R" and "uuid i" and "u \<noteq> []" and "a \<noteq> []" and "0 < t0 div 1000"
    and "\<And>k d. hmac k d \<noteq> []" and "sec u = Inr secret" and "t0 \<le> t" and "t < t0 + 90 * 1000"
  shows "let w1 = snd (generateChallenge R hmac cfg t0 i u a w);
             (r, w2) = verifyResponse R hmac uuid sec totp cfg t i code v w1
         in r = (if v \<noteq> u then Inl (mfa_error MFA_CODE_INVALID ''MFA challenge does not belong to this user'')
                 else if totp t code secret then Inr True
                 else Inl (mfa_error MFA_CODE_INVALID ''Invalid TOTP code'')) \<and>
            (is_ok r \<longrightarrow> (\<forall>t' \<ge> t. fst (verifyResponse R hmac uuid sec totp cfg t' i code' v' w2) =
               Inl (mfa_error MFA_CODE_EXPIRED ''MFA challenge not found or expired'')))"
proof -
  let ?w1 = "snd (generateChallenge R hmac cfg t0 i u a w)"
  let ?r = "verifyResponse R hmac uuid sec totp cfg t i code v ?w1"
  have live: "live_challenge R hmac uuid cfg t0 i u ?w1"
    by (rule redis_kv.generate_live [where uuid = uuid and hmac = hmac, OF assms(1-6)])
  have t: "t < t0 + mfa_expiry * 1000" using assms(9) by (simp add: mfa_expiry_def)
  note v = redis_kv.verify_live [where uuid = uuid and hmac = hmac and sec = sec and totp = totp
      and t = t and code = code and v = v, OF assms(1) live assms(8) t assms(7)]
  have "rget R t' (db (snd ?r)) (mfaKey i) = None" if "is_ok (fst ?r)" "t \<le> t'" for t'
    using v that redis_kv.none_after_del [OF assms(1)] by (auto split: if_splits)
  then show ?thesis
    using v(1) redis_kv.verify_gone [OF assms(1)] by (simp add: Let_def split_beta)
qed

definition demo_totp :: "int \<Rightarrow> string \<Rightarrow> string \<Rightarrow> bool" where
  "demo_totp t code secret = (code = secret)"

definition demo_mac :: "string \<Rightarrow> tmpl \<Rightarrow> string" where
  "demo_mac k d = ''mac''"

theorem mfa_exact_witness:
  "fst (verifyResponse service demo_mac (\<lambda>_. True) (\<lambda>_. Inr ''123456'') demo_totp demo_auth 9000 ''c''
     ''123456'' ''bob'' (snd (generateChallenge service demo_mac demo_auth 5000 ''c'' ''bob'' ''order'' mem_world)))
   = Inr True"
  using mfa_exact [OF mem.service.redis_kv_axioms, where uuid = "\<lambda>_. True" and u = "''bob''"
      and a = "''order''" and ?t0.0 = 5000 and hmac = demo_mac and sec = "\<lambda>_. Inr ''123456''"
      and t = 9000 and i = "''c''" and cfg = demo_auth and w = mem_world and totp = demo_totp
      and code = "''123456''" and v = "''bob''" and code' = "''1''" and v' = "''bob''"]
  by (simp add: demo_mac_def demo_totp_def Let_def split_beta)

text \<open>responses that fail, however many and by whomever, leave the challenge
  in place: the right code is still accepted until the challenge expires, so that the number
  of guesses is not limited.\<close>

theorem mfa_no_lockout:
  assumes "redis_kv R" and "live_challenge R hmac uuid cfg t0 i u w" and "sec u = Inr secret"
    and "\<forall>(t, code, v) \<in> set xs. t0 \<le> t \<and> t < t0 + mfa_expiry * 1000 \<and> (v \<noteq> u \<or> \<not> totp t code secret)"
    and "t0 \<le> t" and "t < t0 + mfa_expiry * 1000" and "totp t code secret"
  shows "fst (verifyResponse R hmac uuid sec totp cfg t i code u
      (snd (attempts R hmac uuid sec totp cfg i xs w))) = Inr True"
  using redis_kv.verify_live(1) [where hmac = hmac and uuid = uuid and sec = sec and totp = totp
      and cfg = cfg and code = code and v = u, OF assms(1) conjunct1 assms(5,6,3),
      OF redis_kv.attempts_keep [where hmac = hmac and uuid = uuid and sec = sec and totp = totp,
        OF assms(1-4)]] assms(7) by simp

theorem mfa_no_lockout_witness:
  "fst (verifyResponse service demo_mac (\<lambda>_. True) (\<lambda>_. Inr ''123456'') demo_totp demo_auth 9000 ''c''
     ''123456'' ''bob'' (snd (attempts service demo_mac (\<lambda>_. True) (\<lambda>_. Inr ''123456'') demo_totp demo_auth
       ''c'' [(6000, ''000000'', ''bob''), (7000, ''111111'', ''eve'')]
       (snd (generateChallenge service demo_mac demo_auth 5000 ''c'' ''bob'' ''order'' mem_world)))))
   = Inr True"
proof (rule mfa_no_lockout [OF mem.service.redis_kv_axioms
      redis_kv.generate_live [OF mem.service.redis_kv_axioms]])
qed (simp_all add: demo_mac_def demo_totp_def mfa_expiry_def)


definition demo_sha :: "string \<Rightarrow> string" where
  "demo_sha x = ''h'' @ x"

definition demo_request :: request where
  "demo_request = \<lparr>rq_ip = ''10.0.0.1'', rq_userAgent = ''ua'', rq_tlsFingerprint = ''tls''\<rparr>"

definition demo_validated :: validated_token where
  "demo_validated = \<lparr>vt_userId = ''bob'', vt_sessionId = ''s1'', vt_scope = [''trade''], vt_issuedAt = 1,
     vt_expiresAt = 900, vt_deviceFingerprint = ''dev''\<rparr>"


end
