(* ===== verification/Output_Filter.thy ===== *)
theory Output_Filter
  imports Redis_Store Action_Codec
begin

text \<open>
  The output filter of \<open>security/output\<close>: the allow-list on the raw model output, the
  sanity checks, the duplicate detector and the pipeline over them. The price feed, SHA-256
  and zod's UUID test are parameters; \<open>em\<close> says whether an event emitter was injected.
\<close>

definition emit_opt :: "bool \<Rightarrow> effect \<Rightarrow> 's world \<Rightarrow> 's world" where
  "emit_opt em e w = (if em then emit e w else w)"

lemma emit_opt_db [simp]: "db (emit_opt em e w) = db w"
  by (simp add: emit_opt_def)

definition quoted :: "string \<Rightarrow> string" where
  "quoted s = CHR 0x27 # s @ [CHR 0x27]"

subsection \<open>The allow-list\<close>

fun requiresConfirmation :: "agent_action \<Rightarrow> bool" where
  "requiresConfirmation (PlaceOrder _) = True"
| "requiresConfirmation (CancelOrder _) = False"
| "requiresConfirmation (ModifyOrder _) = True"
| "requiresConfirmation (ClosePosition _) = True"
| "requiresConfirmation (RequestHumanReview _) = False"
| "requiresConfirmation (NoAction _) = False"

definition isAllowedActionType :: "string \<Rightarrow> bool" where
  "isAllowedActionType t = (t \<in> set (map action_type_str all_action_types))"

definition blocked_error :: "tmpl \<Rightarrow> js_error" where
  "blocked_error m = new_error ActionBlockedError ACTION_SANITY_CHECK_FAILED m"

text \<open>The texts of the zod issues are not modelled.\<close>

definition al_validate ::
  "bool \<Rightarrow> (string \<Rightarrow> bool) \<Rightarrow> json \<Rightarrow> 's world \<Rightarrow> (js_error + agent_action) \<times> 's world" where
  "al_validate em uuid raw w =
     (case jget raw ''type'' of
        Some (JStr t) \<Rightarrow>
          (if \<not> isAllowedActionType t then
             (Inl (blocked_error [S ''Action type '', S (quoted t), S '' is not in the allow-list'']),
              emit_opt em (Emit ACTION_BLOCKED
                [(''actionType'', JStr t), (''strategyId'', JStr ''unknown''),
                 (''reason'', JText [S ''Action type '', S (quoted t), S '' is not in the allow-list'']),
                 (''violatedRule'', JStr ''action-allowlist'')]) w)
           else (case parse_agent_action uuid raw of
               None \<Rightarrow> (Inl (blocked_error [S ''Action validation failed: '']), w)
             | Some a \<Rightarrow> (Inr a, w)))
      | _ \<Rightarrow> (Inl (blocked_error [S ''LLM output is not a valid object with a type field'']), w))"

subsection \<open>The sanity checks\<close>

type_synonym price_feed = "string \<Rightarrow> js_error + real"

definition getPrice :: "price_feed \<Rightarrow> string \<Rightarrow> real" where
  "getPrice feed i = (case feed i of Inr p \<Rightarrow> p | Inl _ \<Rightarrow> 0)"

definition lower_bound :: "config \<Rightarrow> real \<Rightarrow> real" where
  "lower_bound cfg mid = mid * (1 - feedConsensusDivergenceThresholdPercent cfg / 100)"

definition upper_bound :: "config \<Rightarrow> real \<Rightarrow> real" where
  "upper_bound cfg mid = mid * (1 + feedConsensusDivergenceThresholdPercent cfg / 100)"

definition checkUniverse :: "config \<Rightarrow> place_order \<Rightarrow> tmpl list" where
  "checkUniverse cfg a =
     (if approvedTradingUniverse cfg \<noteq> [] \<and> po_instrument a \<notin> set (approvedTradingUniverse cfg)
      then [[S ''Instrument '', S (quoted (po_instrument a)), S '' is not in the approved trading universe'']]
      else [])"

definition checkOrderSize :: "config \<Rightarrow> place_order \<Rightarrow> tmpl list" where
  "checkOrderSize cfg a =
     (case instrument_limit cfg (po_instrument a) of
        Some l \<Rightarrow> if po_quantity a > l
          then [[S ''Order quantity '', N (po_quantity a), S '' exceeds per-instrument limit of '',
                 N l, S '' for '', S (quoted (po_instrument a))]]
          else []
      | None \<Rightarrow> [])"

definition checkPriceTolerance :: "config \<Rightarrow> price_feed \<Rightarrow> place_order \<Rightarrow> tmpl list" where
  "checkPriceTolerance cfg feed a =
     (case po_price a of
        None \<Rightarrow> []
      | Some p \<Rightarrow>
         (case feed (po_instrument a) of
            Inr mid \<Rightarrow>
              if p < lower_bound cfg mid \<or> p > upper_bound cfg mid
              then [[S ''Limit price '', N p, S '' is outside '',
                     N (feedConsensusDivergenceThresholdPercent cfg), S ''% tolerance of mid-price '',
                     N mid, S '' (bounds: '', F (lower_bound cfg mid) 2, S ''-'',
                     F (upper_bound cfg mid) 2, S '')'']]
              else []
          | Inl e \<Rightarrow> [[S ''Failed to fetch current price for '', S (quoted (po_instrument a)), S '': '']
                       @ error_message e]))"

definition orderNotional :: "price_feed \<Rightarrow> place_order \<Rightarrow> real" where
  "orderNotional feed a =
     po_quantity a * (case po_price a of Some p \<Rightarrow> p | None \<Rightarrow> getPrice feed (po_instrument a))"

definition checkNotional :: "config \<Rightarrow> price_feed \<Rightarrow> place_order \<Rightarrow> portfolio \<Rightarrow> tmpl list" where
  "checkNotional cfg feed a pf =
     (let projected = pf_totalNotional pf + orderNotional feed a in
      if projected > portfolioNotionalLimit cfg
      then [[S ''Projected portfolio notional '', F projected 2, S '' would exceed limit of '',
             N (portfolioNotionalLimit cfg)]]
      else [])"

definition checkPairFormat :: "place_order \<Rightarrow> tmpl list" where
  "checkPairFormat a =
     (if CHR ''-'' \<notin> set (po_instrument a) \<and> CHR ''/'' \<notin> set (po_instrument a)
      then [[S ''Instrument '', S (quoted (po_instrument a)),
             S '' does not match expected pair format (e.g., BTC-USDT)'']]
      else [])"

definition checkPlaceOrder :: "config \<Rightarrow> price_feed \<Rightarrow> place_order \<Rightarrow> portfolio \<Rightarrow> tmpl list" where
  "checkPlaceOrder cfg feed a pf = checkUniverse cfg a @ checkOrderSize cfg a
     @ checkPriceTolerance cfg feed a @ checkNotional cfg feed a pf @ checkPairFormat a"

definition checkOrderId :: "(string \<Rightarrow> bool) \<Rightarrow> string \<Rightarrow> tmpl list" where
  "checkOrderId uuid i =
     (if \<not> uuid i
      then [[S ''Invalid clientOrderId: '', S (quoted i), S '' is not a valid UUID'']] else [])"

fun sanity_failures ::
  "(string \<Rightarrow> bool) \<Rightarrow> config \<Rightarrow> price_feed \<Rightarrow> agent_action \<Rightarrow> portfolio \<Rightarrow> tmpl list" where
  "sanity_failures uuid cfg feed (PlaceOrder a) pf = checkPlaceOrder cfg feed a pf"
| "sanity_failures uuid cfg feed (CancelOrder a) pf = checkOrderId uuid (co_clientOrderId a)"
| "sanity_failures uuid cfg feed (ModifyOrder a) pf = checkOrderId uuid (mo_clientOrderId a)"
| "sanity_failures uuid cfg feed (ClosePosition _) pf = []"
| "sanity_failures uuid cfg feed (RequestHumanReview _) pf = []"
| "sanity_failures uuid cfg feed (NoAction _) pf = []"

definition failure_payload :: "agent_action \<Rightarrow> tmpl \<Rightarrow> effect" where
  "failure_payload action failure = Emit SANITY_CHECK_FAILED
     [(''actionType'', JStr (action_type_str (type_of_action action))),
      (''strategyId'', JStr (extractStrategyId action)),
      (''instrument'', JStr (extractInstrument action)),
      (''field'', JStr ''sanity-check''), (''value'', JNum 0), (''limit'', JNum 0),
      (''reason'', JText failure)]"

definition sanity_check ::
  "bool \<Rightarrow> (string \<Rightarrow> bool) \<Rightarrow> config \<Rightarrow> price_feed \<Rightarrow> agent_action \<Rightarrow> portfolio \<Rightarrow> 's world \<Rightarrow>
   (bool \<times> tmpl list) \<times> 's world" where
  "sanity_check em uuid cfg feed action pf w =
     (let failures = sanity_failures uuid cfg feed action pf
      in ((failures = [], failures),
          fold (\<lambda>f. emit_opt em (failure_payload action f)) failures w))"

subsection \<open>The duplicate detector\<close>

record dedup_config =
  dc_windowSeconds :: int
  dc_prefix :: string

definition default_dedup :: dedup_config where
  "default_dedup = \<lparr>dc_windowSeconds = 60, dc_prefix = ''security:dedup:''\<rparr>"

definition dedup_components :: "place_order \<Rightarrow> tmpl" where
  "dedup_components a =
     [S (po_instrument a), S ''|'', S (side_str (po_side a)), S ''|'',
      S (order_type_str (po_orderType a)), S ''|'', F (to_fixed 2 (po_quantity a)) 2, S ''|'',
      (case po_price a of Some p \<Rightarrow> F (to_fixed 2 p) 2 | None \<Rightarrow> S ''MARKET'')]"

definition dedupKey :: "(tmpl \<Rightarrow> string) \<Rightarrow> dedup_config \<Rightarrow> place_order \<Rightarrow> string" where
  "dedupKey sha dc a = dc_prefix dc @ sha (dedup_components a)"

text \<open>The result is the stored value of the earlier order, if there is one.\<close>

definition dd_check ::
  "('s, 'z) redis_scheme \<Rightarrow> bool \<Rightarrow> (tmpl \<Rightarrow> string) \<Rightarrow> dedup_config \<Rightarrow> int \<Rightarrow> agent_action \<Rightarrow> 's world \<Rightarrow>
   json option \<times> 's world" where
  "dd_check R em sha dc now action w =
     (case action of
        PlaceOrder a \<Rightarrow>
          (case rget R now (db w) (dedupKey sha dc a) of
             Some existing \<Rightarrow>
               (Some existing,
                emit_opt em (Emit DUPLICATE_ORDER_DETECTED
                  [(''clientOrderId'', JStr (po_clientOrderId a)), (''instrument'', JStr (po_instrument a)),
                   (''strategyId'', JStr (po_strategyId a)), (''existingOrderId'', existing)]) w)
           | None \<Rightarrow>
               (None, with_db (rset R now (dedupKey sha dc a) (JStr (po_clientOrderId a))
                        (Some (dc_windowSeconds dc))) w))
      | _ \<Rightarrow> (None, w))"

subsection \<open>The pipeline\<close>

record filtered_output =
  fo_action :: agent_action
  fo_allowed :: bool
  fo_confirmationRequired :: bool
  fo_blockReasons :: "tmpl list"

definition filter_event :: "agent_action \<Rightarrow> tmpl list \<Rightarrow> effect" where
  "filter_event action reasons =
     (if reasons = [] then
        Emit ACTION_ALLOWED
          [(''actionType'', JStr (action_type_str (type_of_action action))),
           (''strategyId'', JStr (extractStrategyId action)),
           (''instrument'', JStr (extractInstrument action)),
           (''checksPerformed'', JArr [JStr ''allowlist'', JStr ''sanity'', JStr ''duplicate''])]
      else
        Emit ACTION_BLOCKED
          [(''actionType'', JStr (action_type_str (type_of_action action))),
           (''strategyId'', JStr (extractStrategyId action)),
           (''instrument'', JStr (extractInstrument action)),
           (''reason'', JText (join_tmpl ''; '' reasons)), (''violatedRule'', JStr ''output-filter'')])"

definition of_process ::
  "('s, 'z) redis_scheme \<Rightarrow> bool \<Rightarrow> (string \<Rightarrow> bool) \<Rightarrow> (tmpl \<Rightarrow> string) \<Rightarrow> config \<Rightarrow> dedup_config \<Rightarrow>
   price_feed \<Rightarrow> int \<Rightarrow> json \<Rightarrow> portfolio \<Rightarrow> 's world \<Rightarrow> (js_error + filtered_output) \<times> 's world" where
  "of_process R em uuid sha cfg dc feed now raw pf w =
     (case al_validate em uuid raw w of
        (Inl e, w1) \<Rightarrow>
          (Inl e, emit_opt em (Emit ACTION_BLOCKED
             [(''actionType'', JStr ''unknown''), (''strategyId'', JStr ''unknown''),
              (''reason'', JText (error_message e)), (''violatedRule'', JStr ''action-allowlist'')]) w1)
      | (Inr action, w1) \<Rightarrow>
          (let ((passed, failures), w2) = sanity_check em uuid cfg feed action pf w1;
               (dup, w3) = dd_check R em sha dc now action w2;
               reasons = (if passed then [] else failures) @
                 (case dup of
                    Some existing \<Rightarrow>
                      [[S ''Duplicate order detected (original: ''] @ json_chunks existing @ [S '')'']]
                  | None \<Rightarrow> [])
           in (Inr \<lparr>fo_action = action, fo_allowed = (reasons = []),
                    fo_confirmationRequired = requiresConfirmation action,
                    fo_blockReasons = reasons\<rparr>,
               emit_opt em (filter_event action reasons) w3)))"

subsection \<open>What is accepted\<close>

text \<open>The orders that pass the sanity checks.\<close>

definition sane_order :: "config \<Rightarrow> price_feed \<Rightarrow> place_order \<Rightarrow> portfolio \<Rightarrow> bool" where
  "sane_order cfg feed a pf \<longleftrightarrow>
     (approvedTradingUniverse cfg = [] \<or> po_instrument a \<in> set (approvedTradingUniverse cfg)) \<and>
     pred_option (\<lambda>l. po_quantity a \<le> l) (instrument_limit cfg (po_instrument a)) \<and>
     pred_option (\<lambda>p. \<exists>mid. feed (po_instrument a) = Inr mid \<and>
       lower_bound cfg mid \<le> p \<and> p \<le> upper_bound cfg mid) (po_price a) \<and>
     pf_totalNotional pf + orderNotional feed a \<le> portfolioNotionalLimit cfg \<and>
     (CHR ''-'' \<in> set (po_instrument a) \<or> CHR ''/'' \<in> set (po_instrument a))"

lemma checkPlaceOrder_Nil: "checkPlaceOrder cfg feed a pf = [] \<longleftrightarrow> sane_order cfg feed a pf"
  by (auto simp: checkPlaceOrder_def sane_order_def checkUniverse_def checkOrderSize_def
      checkPriceTolerance_def checkNotional_def checkPairFormat_def Let_def
      split: option.splits sum.splits if_splits)

lemma al_validate_db [simp]: "db (snd (al_validate em uuid raw w)) = db w"
  by (auto simp: al_validate_def split: option.split json.split)

lemma allowed_type: "isAllowedActionType (action_type_str t)"
  by (cases t) (simp_all add: isAllowedActionType_def all_action_types_def)

lemma al_validate_ok:
  "fst (al_validate em uuid raw w) = Inr a \<longleftrightarrow> parse_agent_action uuid raw = Some a"
  using parse_agent_action_type [of uuid raw a] allowed_type
  by (auto simp: al_validate_def split: option.splits json.splits)

lemma al_validate_accepted:
  "parse_agent_action uuid raw = Some a \<Longrightarrow> al_validate em uuid raw w = (Inr a, w)"
  using parse_agent_action_type [of uuid raw a] allowed_type
  by (auto simp: al_validate_def)

lemma fold_emit_db [simp]: "db (fold (\<lambda>f. emit_opt em (g f)) xs w) = db w"
  by (induction xs arbitrary: w) auto

lemma sanity_check_simps [simp]:
  "fst (sanity_check em uuid cfg feed a pf w) =
     (sanity_failures uuid cfg feed a pf = [], sanity_failures uuid cfg feed a pf)"
  "db (snd (sanity_check em uuid cfg feed a pf w)) = db w"
  by (simp_all add: sanity_check_def Let_def)

lemma dd_check_simps:
  "fst (dd_check R em sha dc now (PlaceOrder a) w) = rget R now (db w) (dedupKey sha dc a)"
  "db (snd (dd_check R em sha dc now (PlaceOrder a) w)) =
     (case rget R now (db w) (dedupKey sha dc a) of
        Some _ \<Rightarrow> db w
      | None \<Rightarrow> rset R now (dedupKey sha dc a) (JStr (po_clientOrderId a)) (Some (dc_windowSeconds dc)) (db w))"
  by (simp_all add: dd_check_def split: option.split)

lemma dd_check_other:
  "type_of_action act \<noteq> T_PlaceOrder \<Longrightarrow> dd_check R em sha dc now act w = (None, w)"
  by (cases act) (simp_all add: dd_check_def)

text \<open>The result and the store after a parsed action.\<close>

lemma process_accepted:
  assumes "parse_agent_action uuid raw = Some a"
  shows "\<exists>reasons. fst (of_process R em uuid sha cfg dc feed now raw pf w) =
      Inr \<lparr>fo_action = a, fo_allowed = (reasons = []), fo_confirmationRequired = requiresConfirmation a,
           fo_blockReasons = reasons\<rparr> \<and>
    (reasons = [] \<longleftrightarrow> sanity_failures uuid cfg feed a pf = [] \<and>
       (\<forall>p. a = PlaceOrder p \<longrightarrow> rget R now (db w) (dedupKey sha dc p) = None))"
    and "db (snd (of_process R em uuid sha cfg dc feed now raw pf w)) = db (snd (dd_check R em sha dc now a w))"
proof -
  let ?s = "sanity_check em uuid cfg feed a pf w"
  let ?d = "dd_check R em sha dc now a (snd ?s)"
  have d: "fst ?d = None \<longleftrightarrow> (\<forall>p. a = PlaceOrder p \<longrightarrow> rget R now (db w) (dedupKey sha dc p) = None)"
    by (cases a) (simp_all add: dd_check_simps dd_check_other)
  show "\<exists>reasons. fst (of_process R em uuid sha cfg dc feed now raw pf w) =
      Inr \<lparr>fo_action = a, fo_allowed = (reasons = []), fo_confirmationRequired = requiresConfirmation a,
           fo_blockReasons = reasons\<rparr> \<and>
    (reasons = [] \<longleftrightarrow> sanity_failures uuid cfg feed a pf = [] \<and>
       (\<forall>p. a = PlaceOrder p \<longrightarrow> rget R now (db w) (dedupKey sha dc p) = None))"
    unfolding d [symmetric]
    by (auto simp: of_process_def al_validate_accepted [OF assms] Let_def split_beta split: option.split)
  show "db (snd (of_process R em uuid sha cfg dc feed now raw pf w)) = db (snd (dd_check R em sha dc now a w))"
    by (cases a)
      (simp_all add: of_process_def al_validate_accepted [OF assms] Let_def split_beta dd_check_simps
        dd_check_other split: option.split)
qed

lemma process_rejected:
  "parse_agent_action uuid raw = None \<Longrightarrow>
   \<exists>e. fst (of_process R em uuid sha cfg dc feed now raw pf w) = Inl e \<and>
     thrown_class e = Some ActionBlockedError"
  by (auto simp: of_process_def al_validate_def blocked_error_def split: option.splits json.splits prod.splits)

context redis_ttl
begin

lemma ttl_reads:
  assumes "0 < n"
  shows "t \<le> t' \<Longrightarrow> t' < t + n * 1000 \<Longrightarrow> rget R t' (rset R t k v (Some n) s) k = Some v"
    and "t + n * 1000 < t' \<Longrightarrow> rget R t' (rset R t k v (Some n) s) k = None"
  using assms by (simp_all add: set_ttl get_setex_live get_setex_dead)

end

context redis_drop
begin

lemma drop_reads: "t \<le> t' \<Longrightarrow> rget R t' (rset R t k v (Some n) s) k = Some v"
  by (simp add: set_drop get_put_same)

end

context redis_any_ttl
begin

lemma any_reads:
  "0 < n \<Longrightarrow> t \<le> t' \<Longrightarrow> t' < t + n * 1000 \<Longrightarrow> rget R t' (rset R t k v (Some n) s) k = Some v"
  by (rule get_set_live)

end

subsection \<open>Properties\<close>

text \<open>C27: the pipeline allows a raw output exactly when it parses as an action
  whose fields are in range and which, if it is an order, is inside the universe, the
  instrument limit, the price tolerance and the notional limit, names a pair, and has no
  stored twin; an output that does not parse throws an ActionBlockedError.\<close>

theorem of_allowed_exact:
  "(\<exists>r. fst (of_process R em uuid sha cfg dc feed now raw pf w) = Inr r \<and> fo_allowed r) =
     (\<exists>a. parse_agent_action uuid raw = Some a \<and> action_ok uuid a \<and>
        (case a of PlaceOrder p \<Rightarrow> sane_order cfg feed p pf \<and>
             rget R now (db w) (dedupKey sha dc p) = None | _ \<Rightarrow> True)) \<and>
   (parse_agent_action uuid raw = None) =
     (\<exists>e. fst (of_process R em uuid sha cfg dc feed now raw pf w) = Inl e \<and>
        thrown_class e = Some ActionBlockedError)"
proof (cases "parse_agent_action uuid raw")
  case None
  from process_rejected [OF this, of R em sha cfg dc feed now pf w] None show ?thesis by auto
next
  case (Some a)
  from parsed_ok [OF Some] process_accepted(1) [OF Some, of R em sha cfg dc feed now pf w] Some
  show ?thesis by (cases a) (auto simp: checkPlaceOrder_Nil checkOrderId_def)
qed

text \<open>the refinement that a LIMIT order carries a price is not part of
  the schema that the allow-list applies. Such an order, of any quantity inside the
  instrument limit, is allowed when the price feed fails: the tolerance check is skipped and
  the notional is taken to be zero.\<close>

theorem of_priceless_limit:
  assumes "place_order_ok a" and "uuid (po_clientOrderId a)" and "po_orderType a = LIMIT"
    and "po_price a = None" and "feed (po_instrument a) = Inl e" and "approvedTradingUniverse cfg = []"
    and "instrument_limit cfg (po_instrument a) = None"
    and "pf_totalNotional pf \<le> portfolioNotionalLimit cfg" and "CHR ''-'' \<in> set (po_instrument a)"
    and "rget R now (db w) (dedupKey sha dc a) = None"
  shows "\<not> refine_place_order a \<and>
    (\<exists>r. fst (of_process R em uuid sha cfg dc feed now (action_json (PlaceOrder a)) pf w) = Inr r \<and>
       fo_allowed r)"
proof -
  have "action_ok uuid (PlaceOrder a)" using assms(1,2) by simp
  from process_accepted(1) [OF parse_written [OF this], of R em sha cfg dc feed now pf w]
  show ?thesis
    using assms by (auto simp: refine_place_order_def checkPlaceOrder_Nil sane_order_def orderNotional_def getPrice_def)
qed

definition demo_limit :: place_order where
  "demo_limit = \<lparr>po_instrument = ''BTC-USDT'', po_side = BUY, po_orderType = LIMIT,
     po_quantity = 1000000, po_price = None, po_stopPrice = None, po_strategyId = ''s'',
     po_clientOrderId = ''id''\<rparr>"

definition demo_filter :: config where
  "demo_filter = default_config ''0123456789abcdef0123456789abcdef'' ''root''"

definition demo_digest :: "tmpl \<Rightarrow> string" where
  "demo_digest t = ''h''"

definition empty_portfolio :: portfolio where
  "empty_portfolio = \<lparr>pf_positions = [], pf_totalNotional = 0, pf_totalUnrealizedPnl = 0,
     pf_drawdownPercent = 0\<rparr>"

theorem of_priceless_limit_witness:
  "\<exists>r. fst (of_process adapter False (\<lambda>_. True) demo_digest demo_filter default_dedup
     (\<lambda>_. Inl ZodError) 5 (action_json (PlaceOrder demo_limit)) empty_portfolio mem_world) = Inr r \<and> fo_allowed r"
  using of_priceless_limit [of demo_limit "\<lambda>_. True" "\<lambda>_. Inl ZodError" ZodError demo_filter
      empty_portfolio adapter 5 mem_world demo_digest default_dedup False]
  by (simp add: demo_limit_def place_order_ok_def demo_filter_def default_config_def instrument_limit_def
      empty_portfolio_def)

text \<open>over an adapter that honours the time-to-live, after a fresh order every
  order with the same instrument, side, type and rounded quantity and price is a duplicate
  of it inside the window, and is not one after the window.\<close>

theorem dd_window:
  assumes "redis_ttl R" and "rget R t (db w) (dedupKey sha dc a) = None"
    and "dedup_components b = dedup_components a" and "0 < dc_windowSeconds dc"
  shows "let w1 = snd (dd_check R em sha dc t (PlaceOrder a) w) in
    fst (dd_check R em sha dc t (PlaceOrder a) w) = None \<and>
    (t \<le> t' \<longrightarrow> t' < t + dc_windowSeconds dc * 1000 \<longrightarrow>
       fst (dd_check R em sha dc t' (PlaceOrder b) w1) = Some (JStr (po_clientOrderId a))) \<and>
    (t + dc_windowSeconds dc * 1000 < t' \<longrightarrow> fst (dd_check R em sha dc t' (PlaceOrder b) w1) = None)"
  using assms redis_ttl.ttl_reads [OF assms(1,4), of t t'] by (simp add: Let_def dd_check_simps dedupKey_def)

text \<open>the adapter that the bootstrap injects drops the time-to-live: after one
  order, every later order with the same rounded fields is reported as its duplicate, at any
  time.\<close>

theorem dd_forever:
  assumes "redis_drop R" and "rget R t (db w) (dedupKey sha dc a) = None"
    and "dedup_components b = dedup_components a" and "t \<le> t'"
  shows "fst (dd_check R em sha dc t' (PlaceOrder b) (snd (dd_check R em sha dc t (PlaceOrder a) w)))
    = Some (JStr (po_clientOrderId a))"
  using assms redis_drop.drop_reads [OF assms(1,4)] by (simp add: dd_check_simps dedupKey_def)

theorem dd_forever_witness:
  "fst (dd_check adapter False demo_digest default_dedup 10000000 (PlaceOrder (demo_limit\<lparr>po_clientOrderId := ''id2''\<rparr>))
     (snd (dd_check adapter False demo_digest default_dedup 5 (PlaceOrder demo_limit) mem_world)))
   = Some (JStr ''id'')"
  using dd_forever [OF mem.adapter.redis_drop_axioms, where t = 5 and t' = 10000000 and w = mem_world
      and a = demo_limit and b = "demo_limit\<lparr>po_clientOrderId := ''id2''\<rparr>" and sha = demo_digest
      and dc = default_dedup and em = False]
  by (simp add: demo_limit_def dedup_components_def)

theorem dd_window_witness:
  "fst (dd_check service False demo_digest default_dedup 70000 (PlaceOrder demo_limit)
     (snd (dd_check service False demo_digest default_dedup 5 (PlaceOrder demo_limit) mem_world))) = None"
  using dd_window [OF mem.service.redis_ttl_axioms, where t = 5 and t' = 70000 and w = mem_world
      and a = demo_limit and b = demo_limit and sha = demo_digest and dc = default_dedup and em = False]
  by (simp add: default_dedup_def Let_def)

text \<open>the duplicate check runs, and records the order, even when a sanity
  check has already failed. An order that is blocked, for instance because the price feed
  was down, is blocked again as a duplicate of itself when it is submitted after the
  failure is over.\<close>

theorem of_retry_blocked:
  assumes "redis_any_ttl R" and "parse_agent_action uuid raw = Some (PlaceOrder a)"
    and "rget R t (db w) (dedupKey sha dc a) = None" and "\<not> sane_order cfg feed a pf"
    and "sane_order cfg feed' a pf'" and "t \<le> t'" and "t' < t + dc_windowSeconds dc * 1000"
  shows "let (r1, w1) = of_process R em uuid sha cfg dc feed t raw pf w;
             (r2, w2) = of_process R em uuid sha cfg dc feed' t' raw pf' w1
         in (\<exists>x y. r1 = Inr x \<and> \<not> fo_allowed x \<and> r2 = Inr y \<and> \<not> fo_allowed y)"
proof -
  have pos: "0 < dc_windowSeconds dc" using assms(6,7) by linarith
  let ?w1 = "snd (of_process R em uuid sha cfg dc feed t raw pf w)"
  have "rget R t' (db ?w1) (dedupKey sha dc a) = Some (JStr (po_clientOrderId a))"
    using redis_any_ttl.any_reads [OF assms(1) pos assms(6,7)] assms(3)
    by (simp add: process_accepted(2) [OF assms(2)] dd_check_simps)
  then have "\<exists>y. fst (of_process R em uuid sha cfg dc feed' t' raw pf' ?w1) = Inr y \<and> \<not> fo_allowed y"
    using process_accepted(1) [OF assms(2), of R em sha cfg dc feed' t' pf' ?w1] by auto
  moreover have "\<exists>x. fst (of_process R em uuid sha cfg dc feed t raw pf w) = Inr x \<and> \<not> fo_allowed x"
    using process_accepted(1) [OF assms(2), of R em sha cfg dc feed t pf w] assms(4)
    by (auto simp: checkPlaceOrder_Nil checkOrderId_def)
  ultimately show ?thesis by (auto simp: split_beta Let_def)
qed

theorem of_retry_blocked_witness:
  "\<not> fo_allowed (case fst (of_process service False (\<lambda>_. True) demo_digest demo_filter default_dedup
       (\<lambda>_. Inr 100) 900 (action_json (PlaceOrder (demo_limit\<lparr>po_price := Some 100, po_quantity := 1\<rparr>)))
       empty_portfolio
       (snd (of_process service False (\<lambda>_. True) demo_digest demo_filter default_dedup (\<lambda>_. Inl ZodError) 5
          (action_json (PlaceOrder (demo_limit\<lparr>po_price := Some 100, po_quantity := 1\<rparr>)))
          empty_portfolio mem_world))) of Inr y \<Rightarrow> y)"
proof -
  let ?o = "demo_limit\<lparr>po_price := Some 100, po_quantity := 1\<rparr>"
  have parse: "parse_agent_action (\<lambda>_. True) (action_json (PlaceOrder ?o)) = Some (PlaceOrder ?o)"
    by (rule parse_written) (simp add: demo_limit_def place_order_ok_def)
  from of_retry_blocked [OF mem.service.redis_any_ttl_axioms parse, where t = 5 and t' = 900 and w = mem_world
      and sha = demo_digest and dc = default_dedup and cfg = demo_filter and feed = "\<lambda>_. Inl ZodError"
      and feed' = "\<lambda>_. Inr 100" and pf = empty_portfolio and pf' = empty_portfolio and em = False]
  show ?thesis
    by (auto simp: sane_order_def demo_limit_def demo_filter_def default_config_def instrument_limit_def
        empty_portfolio_def default_dedup_def lower_bound_def upper_bound_def orderNotional_def Let_def
        split_beta)
qed

end
