(* ===== verification/Compliance.thy ===== *)
theory Compliance
  imports Rate_Limit Position_Limits
begin

text \<open>
  Trading compliance: \<open>security/compliance/wash.trade.detector.ts\<close>,
  \<open>layering.detector.ts\<close>, \<open>short.sell.control.ts\<close> and \<open>trade.reporter.ts\<close>. The file
  system and the HTTP client of the reporters, and HMAC-SHA256, are parameters.
\<close>

subsection \<open>Wash trades\<close>

definition orderListKey :: "string \<Rightarrow> string \<Rightarrow> string" where
  "orderListKey userId instrument = ''wash:orders:'' @ userId @ '':'' @ instrument"

definition stored_order_json :: "int \<Rightarrow> place_order \<Rightarrow> json" where
  "stored_order_json now a = JObj
     [(''clientOrderId'', JStr (po_clientOrderId a)), (''instrument'', JStr (po_instrument a)),
      (''side'', JStr (side_str (po_side a))), (''quantity'', JNum (po_quantity a)),
      (''timestamp'', JNum (of_int now))]"

fun oppositeSide :: "order_side \<Rightarrow> order_side" where
  "oppositeSide BUY = SELL"
| "oppositeSide SELL = BUY"

text \<open>A numeric field of a parsed entry; \<open>None\<close> is NaN.\<close>

definition stored_num :: "json \<Rightarrow> string \<Rightarrow> real option" where
  "stored_num raw k = (case jget raw k of Some v \<Rightarrow> js_number v | None \<Rightarrow> None)"

definition quantity_ratio :: "real \<Rightarrow> real \<Rightarrow> real" where
  "quantity_ratio q q' = (let avg = (q + q') / 2 in if avg > 0 then \<bar>q - q'\<bar> / avg else 0)"

text \<open>The tests of the loop body; a comparison with NaN is false.\<close>

definition wash_match :: "int \<Rightarrow> int \<Rightarrow> place_order \<Rightarrow> json \<Rightarrow> bool" where
  "wash_match windowMs now a raw \<longleftrightarrow>
     \<not> (case stored_num raw ''timestamp'' of Some ts \<Rightarrow> of_int now - ts > of_int windowMs | None \<Rightarrow> False) \<and>
     jget raw ''side'' = Some (JStr (side_str (oppositeSide (po_side a)))) \<and>
     (case stored_num raw ''quantity'' of
        Some q \<Rightarrow> quantity_ratio q (po_quantity a) \<le> 1 / 10
      | None \<Rightarrow> True)"

text \<open>\<open>stored.clientOrderId\<close> where it is printed or copied.\<close>

definition stored_id :: "json \<Rightarrow> json" where
  "stored_id raw = (case jget raw ''clientOrderId'' of Some v \<Rightarrow> v | None \<Rightarrow> JStr ''undefined'')"

definition wt_check ::
  "('s, 'z) redis_scheme \<Rightarrow> config \<Rightarrow> int \<Rightarrow> place_order \<Rightarrow> string \<Rightarrow> 's world \<Rightarrow>
   (js_error + unit) \<times> 's world" where
  "wt_check R cfg now a userId w =
     (let windowMs = washTradeDetectionWindowMs cfg;
          key = orderListKey userId (po_instrument a)
      in case List.find (wash_match windowMs now a) (rlrange R now (db w) key) of
           Some stored \<Rightarrow>
             (Inl (new_error ComplianceError COMPLIANCE_WASH_TRADE
                ([S ''Wash trade detected for '', S (po_instrument a), S '': order '',
                  S (po_clientOrderId a), S '' matches ''] @ json_chunks (stored_id stored))),
              emit (Alert CRITICAL WASH_TRADE_DETECTED
                [S ''Wash trade detected for '', S (po_instrument a)]
                [(''instrument'', JStr (po_instrument a)),
                 (''buyOrderId'', if po_side a = BUY then JStr (po_clientOrderId a) else stored_id stored),
                 (''sellOrderId'', if po_side a = SELL then JStr (po_clientOrderId a) else stored_id stored),
                 (''strategyId'', JStr (po_strategyId a)), (''windowMs'', JNum (of_int windowMs))]) w)
         | None \<Rightarrow>
             (Inr (), with_db (rexpire R now key (ceil_seconds windowMs))
                (with_db (rlpush R now key (stored_order_json now a)) w)))"

text \<open>A user's orders on one instrument and the accepted ones among them, newest first.\<close>

fun wt_run ::
  "('s, 'z) redis_scheme \<Rightarrow> config \<Rightarrow> string \<Rightarrow> (int \<times> place_order) list \<Rightarrow>
   (int \<times> place_order) list \<Rightarrow> 's world \<Rightarrow> (int \<times> place_order) list \<times> 's world" where
  "wt_run R cfg u h [] w = (h, w)"
| "wt_run R cfg u h ((t, a) # xs) w =
     (let (r, w1) = wt_check R cfg t a u w
      in wt_run R cfg u (if is_ok r then (t, a) # h else h) xs w1)"

definition opposing :: "place_order \<Rightarrow> place_order \<Rightarrow> bool" where
  "opposing a b \<longleftrightarrow> po_side b = oppositeSide (po_side a) \<and>
     quantity_ratio (po_quantity b) (po_quantity a) \<le> 1 / 10"

lemma wash_match_stored:
  "wash_match W now a (stored_order_json t b) \<longleftrightarrow> now - t \<le> W \<and> opposing a b"
  by (auto simp: wash_match_def stored_order_json_def stored_num_def opposing_def
      simp flip: of_int_diff)

text \<open>The list holds every accepted order of the window, and nothing but accepted orders.\<close>

definition wt_rep ::
  "('s, 'z) redis_scheme \<Rightarrow> int \<Rightarrow> string \<Rightarrow> int \<Rightarrow> (int \<times> place_order) list \<Rightarrow> 's \<Rightarrow> bool" where
  "wt_rep R W key now h s \<longleftrightarrow> (\<forall>x \<in> set h. fst x \<le> now) \<and>
     (\<forall>t \<ge> now. (\<forall>x \<in> set h. t - fst x < W \<longrightarrow>
           stored_order_json (fst x) (snd x) \<in> set (rlrange R t s key)) \<and>
        set (rlrange R t s key) \<subseteq> (\<lambda>x. stored_order_json (fst x) (snd x)) ` set h)"

context redis_list
begin

lemma wt_rep_later: "wt_rep R W k now h s \<Longrightarrow> now \<le> t \<Longrightarrow> wt_rep R W k t h s"
  unfolding wt_rep_def by (meson order_trans)

lemma wt_rep_accept:
  assumes "wt_rep R W k now h s" and "0 < W"
  shows "wt_rep R W k now ((now, a) # h)
    (rexpire R now k (ceil_seconds W) (rlpush R now k (stored_order_json now a) s))" (is "wt_rep R W k now _ ?s")
proof -
  have now: "rlrange R now ?s k = stored_order_json now a # rlrange R now s k"
    using assms(2) ceil_seconds_ge [of W] by (simp add: range_expire_live range_lpush_same)
  have old: "fst x \<le> now" if "x \<in> set h" for x using assms(1) that by (simp add: wt_rep_def)
  have held: "stored_order_json (fst x) (snd x) \<in> set (rlrange R now s k)"
    if "x \<in> set h" "t - fst x < W" "now \<le> t" for x t
    using assms(1) that unfolding wt_rep_def by force
  have sub: "set (rlrange R now s k) \<subseteq> (\<lambda>x. stored_order_json (fst x) (snd x)) ` set h"
    using assms(1) unfolding wt_rep_def by blast
  have "(\<forall>x \<in> set ((now, a) # h). t - fst x < W \<longrightarrow>
           stored_order_json (fst x) (snd x) \<in> set (rlrange R t ?s k)) \<and>
        set (rlrange R t ?s k) \<subseteq> (\<lambda>x. stored_order_json (fst x) (snd x)) ` set ((now, a) # h)"
    if t: "now \<le> t" for t
  proof (cases "t < now + ceil_seconds W * 1000")
    case True
    with t have "rlrange R t ?s k = rlrange R now ?s k"
      using range_expire_live [of now t "ceil_seconds W"] range_expire_live [of now now "ceil_seconds W"]
      by simp
    with now held sub t show ?thesis by auto
  next
    case False
    then have "now + W \<le> t" using ceil_seconds_ge [of W] by linarith
    then have "\<not> t - fst x < W" if "x \<in> set ((now, a) # h)" for x
      using that old [of x] by (cases "x = (now, a)") auto
    moreover have "set (rlrange R t ?s k) \<subseteq> set (rlrange R now ?s k)"
      using range_mono [OF t, of ?s k] by auto
    ultimately show ?thesis using now sub by auto
  qed
  with old show ?thesis by (auto simp: wt_rep_def)
qed

lemma wt_check_result:
  "is_ok (fst (wt_check R cfg now a u w)) \<longleftrightarrow>
     \<not> (\<exists>raw \<in> set (rlrange R now (db w) (orderListKey u (po_instrument a))).
         wash_match (washTradeDetectionWindowMs cfg) now a raw)"
  by (auto simp: wt_check_def Let_def find_None_iff find_Some_iff split: option.split)

lemma wt_check_db:
  "db (snd (wt_check R cfg now a u w)) =
     (if is_ok (fst (wt_check R cfg now a u w))
      then rexpire R now (orderListKey u (po_instrument a)) (ceil_seconds (washTradeDetectionWindowMs cfg))
        (rlpush R now (orderListKey u (po_instrument a)) (stored_order_json now a) (db w))
      else db w)"
  by (auto simp: wt_check_def Let_def split: option.split)

lemma wt_run_rep:
  assumes "wt_rep R (washTradeDetectionWindowMs cfg) (orderListKey u i) now h (db w)"
    and "0 < washTradeDetectionWindowMs cfg" and "sorted_wrt (\<le>) (now # map fst xs)"
    and "\<forall>(t, a) \<in> set xs. po_instrument a = i" and "last (now # map fst xs) \<le> t"
  shows "wt_rep R (washTradeDetectionWindowMs cfg) (orderListKey u i) t
    (fst (wt_run R cfg u h xs w)) (db (snd (wt_run R cfg u h xs w)))"
  using assms
proof (induction xs arbitrary: now h w)
  case Nil
  then show ?case by (auto intro: wt_rep_later)
next
  case (Cons x xs)
  obtain v a where x: "x = (v, a)" by (cases x)
  let ?c = "wt_check R cfg v a u w"
  let ?h = "if is_ok (fst ?c) then (v, a) # h else h"
  have a: "po_instrument a = i" and v: "now \<le> v" using Cons.prems x by auto
  have rep: "wt_rep R (washTradeDetectionWindowMs cfg) (orderListKey u i) v h (db w)"
    by (rule wt_rep_later [OF Cons.prems(1) v])
  have "wt_rep R (washTradeDetectionWindowMs cfg) (orderListKey u i) v ?h (db (snd ?c))"
    using rep wt_rep_accept [OF rep Cons.prems(2)] by (simp add: wt_check_db a)
  then have "wt_rep R (washTradeDetectionWindowMs cfg) (orderListKey u i) t
      (fst (wt_run R cfg u ?h xs (snd ?c))) (db (snd (wt_run R cfg u ?h xs (snd ?c))))"
    using Cons.prems x by (intro Cons.IH) auto
  then show ?case using x by (simp add: split_beta Let_def)
qed

lemma wt_decides:
  assumes "wt_rep R (washTradeDetectionWindowMs cfg) (orderListKey u (po_instrument a)) now h (db w)"
  shows "(\<exists>x \<in> set h. opposing a (snd x) \<and> now - fst x < washTradeDetectionWindowMs cfg) \<Longrightarrow>
      \<not> is_ok (fst (wt_check R cfg now a u w))"
    and "\<not> is_ok (fst (wt_check R cfg now a u w)) \<Longrightarrow>
      \<exists>x \<in> set h. opposing a (snd x) \<and> now - fst x \<le> washTradeDetectionWindowMs cfg"
proof -
  let ?l = "rlrange R now (db w) (orderListKey u (po_instrument a))"
  have held: "\<forall>x \<in> set h. now - fst x < washTradeDetectionWindowMs cfg \<longrightarrow>
        stored_order_json (fst x) (snd x) \<in> set ?l"
    and sub: "set ?l \<subseteq> (\<lambda>x. stored_order_json (fst x) (snd x)) ` set h"
    using assms unfolding wt_rep_def by blast+
  show "\<not> is_ok (fst (wt_check R cfg now a u w))"
    if "\<exists>x \<in> set h. opposing a (snd x) \<and> now - fst x < washTradeDetectionWindowMs cfg"
    using that held unfolding wt_check_result by (force simp: wash_match_stored)
  show "\<exists>x \<in> set h. opposing a (snd x) \<and> now - fst x \<le> washTradeDetectionWindowMs cfg"
    if "\<not> is_ok (fst (wt_check R cfg now a u w))"
    using that sub unfolding wt_check_result by (force simp: wash_match_stored)
qed

end

subsection \<open>Layering\<close>

definition orderCountKey :: "string \<Rightarrow> string \<Rightarrow> string" where
  "orderCountKey userId instrument = ''layering:orders:'' @ userId @ '':'' @ instrument"

definition cancelCountKey :: "string \<Rightarrow> string \<Rightarrow> string" where
  "cancelCountKey userId instrument = ''layering:cancels:'' @ userId @ '':'' @ instrument"

definition ld_recordOrder ::
  "('s, 'z) redis_scheme \<Rightarrow> config \<Rightarrow> int \<Rightarrow> place_order \<Rightarrow> string \<Rightarrow> 's world \<Rightarrow> 's world" where
  "ld_recordOrder R cfg now a userId w =
     with_db (\<lambda>s. snd (bump R now (orderCountKey userId (po_instrument a))
       (ceil_seconds (layeringDetectionWindowMs cfg)) s)) w"

definition ld_recordCancellation ::
  "('s, 'z) redis_scheme \<Rightarrow> config \<Rightarrow> int \<Rightarrow> string \<Rightarrow> string \<Rightarrow> 's world \<Rightarrow> 's world" where
  "ld_recordCancellation R cfg now userId instrument w =
     with_db (\<lambda>s. snd (bump R now (cancelCountKey userId instrument)
       (ceil_seconds (layeringDetectionWindowMs cfg)) s)) w"

text \<open>\<open>parseInt\<close> of a stored counter; \<open>None\<close> is NaN, and a missing counter is zero.\<close>

definition read_count :: "json option \<Rightarrow> int option" where
  "read_count v = (case v of None \<Rightarrow> Some 0 | Some x \<Rightarrow> map_option floor (js_number x))"

text \<open>The ratio, \<open>None\<close> being NaN.\<close>

definition cancel_ratio :: "int option \<Rightarrow> int option \<Rightarrow> real option" where
  "cancel_ratio orders cancels =
     (case orders of
        Some n \<Rightarrow> if n > 0 then map_option (\<lambda>c. of_int c / of_int n) cancels else Some 0
      | None \<Rightarrow> Some 0)"

definition ld_check ::
  "('s, 'z) redis_scheme \<Rightarrow> config \<Rightarrow> int \<Rightarrow> string \<Rightarrow> string \<Rightarrow> string \<Rightarrow> 's world \<Rightarrow>
   (bool \<times> real option) \<times> 's world" where
  "ld_check R cfg now userId instrument strategyId w =
     (let orders = read_count (rget R now (db w) (orderCountKey userId instrument));
          cancels = read_count (rget R now (db w) (cancelCountKey userId instrument));
          ratio = cancel_ratio orders cancels
      in case ratio of
           Some r \<Rightarrow>
             (if r > layeringCancelRatioThreshold cfg then
                ((True, Some r),
                 emit (Alert HIGH LAYERING_DETECTED
                   [S ''Layering detected for '', S instrument, S '': cancel ratio '', F r 2]
                   [(''instrument'', JStr instrument), (''strategyId'', JStr strategyId),
                    (''cancelCount'', JNum (of_int (the cancels))), (''orderCount'', JNum (of_int (the orders))),
                    (''cancelRatio'', JNum r),
                    (''windowMs'', JNum (of_int (layeringDetectionWindowMs cfg)))]) w)
              else ((False, Some r), w))
         | None \<Rightarrow> ((False, None), w))"

datatype (plugins only: code size) ld_op = Placed place_order | Cancelled

fun ld_run ::
  "('s, 'z) redis_scheme \<Rightarrow> config \<Rightarrow> string \<Rightarrow> string \<Rightarrow> (int \<times> ld_op) list \<Rightarrow> 's world \<Rightarrow> 's world" where
  "ld_run R cfg u i [] w = w"
| "ld_run R cfg u i ((t, Placed a) # xs) w = ld_run R cfg u i xs (ld_recordOrder R cfg t a u w)"
| "ld_run R cfg u i ((t, Cancelled) # xs) w = ld_run R cfg u i xs (ld_recordCancellation R cfg t u i w)"

definition placed :: "(int \<times> ld_op) list \<Rightarrow> int" where
  "placed xs = int (length (filter (\<lambda>(t, x). x \<noteq> Cancelled) xs))"

definition cancelled :: "(int \<times> ld_op) list \<Rightarrow> int" where
  "cancelled xs = int (length (filter (\<lambda>(t, x). x = Cancelled) xs))"

lemma layering_keys [simp]:
  "orderCountKey u i \<noteq> cancelCountKey u' i'" "cancelCountKey u i \<noteq> orderCountKey u' i'"
  by (simp_all add: orderCountKey_def cancelCountKey_def)

text \<open>A counter that reads n now and, once it exists, keeps its value until the deadline.\<close>

definition window_count_is ::
  "('s, 'z) redis_scheme \<Rightarrow> int \<Rightarrow> int \<Rightarrow> string \<Rightarrow> int \<Rightarrow> 's \<Rightarrow> bool" where
  "window_count_is R t dl k n s \<longleftrightarrow>
     (if n = 0 then rget R t s k = None else 0 < n \<and> (\<exists>dl' \<ge> dl. counts R t dl' k n s))"

context redis_counter
begin

lemma window_count_later:
  "window_count_is R t dl k n s \<Longrightarrow> t \<le> u \<Longrightarrow> window_count_is R u dl k n s"
  by (auto simp: window_count_is_def get_None_mono intro: counts_later split: if_splits)

lemma window_count_read:
  "window_count_is R t dl k n s \<Longrightarrow> t < dl \<Longrightarrow>
   rget R t s k = (if n = 0 then None else Some (JNum (of_int n)))"
  by (auto simp: window_count_is_def counts_def split: if_splits)

lemma window_count_bump:
  assumes "window_count_is R t dl k n s" and "t < dl" and "dl \<le> t + ttl * 1000"
  shows "window_count_is R t dl k (n + 1) (snd (bump R t k ttl s))"
proof (cases "n = 0")
  case True
  then have "counts R t (t + ttl * 1000) k 1 (snd (bump R t k ttl s))"
    using assms(1) bump_fresh [of t s k ttl] by (simp add: window_count_is_def)
  with True assms(3) show ?thesis by (auto simp: window_count_is_def)
next
  case False
  then obtain dl' where dl': "0 < n" "dl \<le> dl'" "counts R t dl' k n s"
    using assms(1) by (auto simp: window_count_is_def)
  then have "counts R t dl' k (n + 1) (snd (bump R t k ttl s))"
    using bump_next [OF dl'(3)] assms(2) by simp
  with dl' show ?thesis by (auto simp: window_count_is_def)
qed

lemma window_count_other:
  "k \<noteq> k' \<Longrightarrow> window_count_is R t dl k n s \<Longrightarrow> window_count_is R t dl k n (snd (bump R t k' ttl s))"
  by (auto simp: window_count_is_def counts_def bump_other split: if_splits)

lemma ld_run_counts:
  assumes "window_count_is R t0 dl (orderCountKey u i) n (db w)"
    and "window_count_is R t0 dl (cancelCountKey u i) c (db w)"
    and "sorted_wrt (\<le>) (t0 # map fst xs)" and "\<forall>(t, x) \<in> set xs. t < dl"
    and "\<forall>t \<ge> t0. dl \<le> t + ceil_seconds (layeringDetectionWindowMs cfg) * 1000"
    and "\<forall>(t, x) \<in> set xs. \<forall>a. x = Placed a \<longrightarrow> po_instrument a = i"
    and "last (t0 # map fst xs) \<le> t"
  shows "window_count_is R t dl (orderCountKey u i) (n + placed xs) (db (ld_run R cfg u i xs w)) \<and>
    window_count_is R t dl (cancelCountKey u i) (c + cancelled xs) (db (ld_run R cfg u i xs w))"
  using assms
proof (induction xs arbitrary: t0 n c w)
  case Nil
  then show ?case by (auto simp: placed_def cancelled_def intro: window_count_later)
next
  case (Cons p xs)
  obtain v x where p: "p = (v, x)" by (cases p)
  let ?ttl = "ceil_seconds (layeringDetectionWindowMs cfg)"
  have v: "t0 \<le> v" "v < dl" "dl \<le> v + ?ttl * 1000" using Cons.prems(3,4,5) p by auto
  have o: "window_count_is R v dl (orderCountKey u i) n (db w)"
    and k: "window_count_is R v dl (cancelCountKey u i) c (db w)"
    using Cons.prems(1,2) v(1) by (auto intro: window_count_later)
  have rest: "sorted_wrt (\<le>) (v # map fst xs)" "\<forall>(t, x) \<in> set xs. t < dl"
    "\<forall>t \<ge> v. dl \<le> t + ?ttl * 1000" "\<forall>(t, x) \<in> set xs. \<forall>a. x = Placed a \<longrightarrow> po_instrument a = i"
    "last (v # map fst xs) \<le> t"
    using Cons.prems(3-7) v(1) p by auto
  show ?case
  proof (cases x)
    case (Placed a)
    have a: "po_instrument a = i" using Cons.prems(6) p Placed by simp
    have "window_count_is R v dl (orderCountKey u i) (n + 1) (db (ld_recordOrder R cfg v a u w))"
      "window_count_is R v dl (cancelCountKey u i) c (db (ld_recordOrder R cfg v a u w))"
      using window_count_bump [OF o v(2,3)] window_count_other [OF _ k]
      by (simp_all add: ld_recordOrder_def a)
    from Cons.IH [OF this rest] show ?thesis
      using p Placed by (simp add: placed_def cancelled_def algebra_simps)
  next
    case Cancelled
    have "window_count_is R v dl (orderCountKey u i) n (db (ld_recordCancellation R cfg v u i w))"
      "window_count_is R v dl (cancelCountKey u i) (c + 1) (db (ld_recordCancellation R cfg v u i w))"
      using window_count_bump [OF k v(2,3)] window_count_other [OF _ o]
      by (simp_all add: ld_recordCancellation_def)
    from Cons.IH [OF this rest] show ?thesis
      using p Cancelled by (simp add: placed_def cancelled_def algebra_simps)
  qed
qed

lemma ld_check_counts:
  assumes "window_count_is R t dl (orderCountKey u i) n (db w)"
    and "window_count_is R t dl (cancelCountKey u i) c (db w)" and "t < dl" and "0 \<le> n" and "0 \<le> c"
    and "0 \<le> layeringCancelRatioThreshold cfg"
  shows "fst (fst (ld_check R cfg t u i st w)) \<longleftrightarrow>
    0 < n \<and> of_int c / of_int n > layeringCancelRatioThreshold cfg"
  using window_count_read [OF assms(1,3)] window_count_read [OF assms(2,3)] assms(4-6)
  by (auto simp: ld_check_def read_count_def cancel_ratio_def Let_def)

end

subsection \<open>Short sales\<close>

datatype (plugins only: code size) account_type = CASH | MARGIN | PROFESSIONAL

record short_result =
  sr_allowed :: bool
  sr_isShortSale :: bool
  sr_shortQuantity :: "real option"

definition ss_check ::
  "place_order \<Rightarrow> portfolio \<Rightarrow> account_type \<Rightarrow> 's world \<Rightarrow> (js_error + short_result) \<times> 's world" where
  "ss_check a pf acct w =
     (if po_side a \<noteq> SELL then
        (Inr \<lparr>sr_allowed = True, sr_isShortSale = False, sr_shortQuantity = None\<rparr>, w)
      else
        (let currentQuantity = getCurrentQuantity (po_instrument a) pf in
         if po_quantity a \<le> currentQuantity then
           (Inr \<lparr>sr_allowed = True, sr_isShortSale = False, sr_shortQuantity = None\<rparr>, w)
         else
           (let shortQuantity = po_quantity a - currentQuantity in
            if acct = MARGIN \<or> acct = PROFESSIONAL then
              (Inr \<lparr>sr_allowed = True, sr_isShortSale = True, sr_shortQuantity = Some shortQuantity\<rparr>, w)
            else
              (Inl (new_error ComplianceError COMPLIANCE_SHORT_SELL_BLOCKED
                 [S ''Short selling not permitted for cash account on '', S (po_instrument a)]),
               emit (Alert HIGH SHORT_SELL_BLOCKED
                 [S ''Short sell blocked for '', S (po_instrument a), S '': cash account cannot short sell'']
                 [(''instrument'', JStr (po_instrument a)), (''strategyId'', JStr (po_strategyId a)),
                  (''reason'', JStr ''SHORT_SELL_NOT_PERMITTED''), (''shortQuantity'', JNum shortQuantity),
                  (''currentQuantity'', JNum currentQuantity),
                  (''requestedQuantity'', JNum (po_quantity a))]) w))))"

subsection \<open>Trade reporting\<close>

record executed_trade =
  et_tradeId :: string
  et_userId :: string
  et_strategyId :: string
  et_instrument :: string
  et_side :: order_side
  et_quantity :: real
  et_price :: real
  et_notional :: real
  et_timestamp :: string
  et_orderId :: string
  et_settlementDate :: string

definition trade_json :: "executed_trade \<Rightarrow> json" where
  "trade_json x = JObj
     [(''tradeId'', JStr (et_tradeId x)), (''userId'', JStr (et_userId x)),
      (''strategyId'', JStr (et_strategyId x)), (''instrument'', JStr (et_instrument x)),
      (''side'', JStr (side_str (et_side x))), (''quantity'', JNum (et_quantity x)),
      (''price'', JNum (et_price x)), (''notional'', JNum (et_notional x)),
      (''timestamp'', JStr (et_timestamp x)), (''orderId'', JStr (et_orderId x)),
      (''settlementDate'', JStr (et_settlementDate x))]"

type_synonym 's reporter = "executed_trade \<Rightarrow> 's world \<Rightarrow> (js_error + unit) \<times> 's world"

text \<open>\<open>appendFile\<close> writes a line, \<open>post\<close> is the HTTP client: it throws, or answers
  with a status.\<close>

definition local_report ::
  "(string \<Rightarrow> json \<Rightarrow> 's world \<Rightarrow> (js_error + unit) \<times> 's world) \<Rightarrow> string \<Rightarrow> 's reporter" where
  "local_report appendFile path trade w = appendFile path (trade_json trade) w"

definition webhook_report ::
  "(string \<Rightarrow> (string \<times> string) list \<Rightarrow> json \<Rightarrow> 's world \<Rightarrow> (js_error + int) \<times> 's world) \<Rightarrow>
   (string \<Rightarrow> json \<Rightarrow> string) \<Rightarrow> string \<Rightarrow> string \<Rightarrow> 's reporter" where
  "webhook_report post hmac url secret trade w =
     (let body = trade_json trade
      in case post url [(''Content-Type'', ''application/json''), (''X-Signature'', hmac secret body)] body w of
           (Inl e, w1) \<Rightarrow> (Inl e, w1)
         | (Inr status, w1) \<Rightarrow>
             (if status < 200 \<or> status \<ge> 300
              then (Inl (PlainError [S ''Trade reporting webhook failed: '', N (of_int status)]), w1)
              else (Inr (), w1)))"

text \<open>The loop: every adapter is called, its error is collected.\<close>

fun run_reporters :: "'s reporter list \<Rightarrow> executed_trade \<Rightarrow> 's world \<Rightarrow> js_error list \<times> 's world" where
  "run_reporters [] trade w = ([], w)"
| "run_reporters (a # as) trade w =
     (let (r, w1) = a trade w; (errs, w2) = run_reporters as trade w1
      in ((case r of Inl e \<Rightarrow> e # errs | Inr _ \<Rightarrow> errs), w2))"

definition report_trade :: "'s reporter list \<Rightarrow> 's reporter" where
  "report_trade as trade w =
     (let (errors, w1) = run_reporters as trade w
      in if length errors = length as \<and> length as > 0 then
           (Inl (PlainError [S ''All trade reporting adapters failed for trade '', S (et_tradeId trade)]), w1)
         else
           (Inr (), emit (Alert LOW TRADE_REPORTED
              [S ''Trade '', S (et_tradeId trade), S '' reported for '', S (et_instrument trade)]
              [(''tradeId'', JStr (et_tradeId trade)), (''instrument'', JStr (et_instrument trade)),
               (''side'', JStr (side_str (et_side trade))), (''quantity'', JNum (et_quantity trade)),
               (''price'', JNum (et_price trade)), (''venue'', JStr ''default''),
               (''reportedTo'', JStr (if length as > 0 then ''configured-adapters'' else ''none''))]) w1))"

text \<open>The state in which each adapter is called, and whether it failed there.\<close>

fun reporter_outcomes :: "'s reporter list \<Rightarrow> executed_trade \<Rightarrow> 's world \<Rightarrow> bool list" where
  "reporter_outcomes [] trade w = []"
| "reporter_outcomes (a # as) trade w =
     isl (fst (a trade w)) # reporter_outcomes as trade (snd (a trade w))"

lemma run_reporters_errors:
  "length (fst (run_reporters as trade w)) = length (filter id (reporter_outcomes as trade w))"
  by (induction as arbitrary: w) (auto simp: split_beta Let_def split: sum.split)

lemma run_reporters_state:
  "snd (run_reporters as trade w) = fold (\<lambda>a w. snd (a trade w)) as w"
  by (induction as arbitrary: w) (auto simp: split_beta Let_def)

lemma outcomes_length [simp]: "length (reporter_outcomes as trade w) = length as"
  by (induction as arbitrary: w) auto

lemma filter_all: "length (filter id bs) = length bs \<longleftrightarrow> list_all id bs"
proof (induction bs)
  case (Cons b bs)
  have "length (filter id bs) \<noteq> Suc (length bs)" using length_filter_le [of id bs] by linarith
  then show ?case using Cons by (cases b) (simp_all add: id_def)
qed simp

lemma sorted_last: "sorted_wrt (\<le>) (x # xs) \<Longrightarrow> v \<in> set (x # xs) \<Longrightarrow> v \<le> last (x # xs :: int list)"
  by (induction xs arbitrary: x) auto

subsection \<open>Properties\<close>

text \<open>after any sequence of checks of a user's orders on an instrument whose list
  was empty, the next order is refused when an accepted opposite order of nearly the same
  quantity lies strictly inside the window, and is refused only when one lies inside the
  window, its end included.\<close>

theorem wt_window:
  assumes "redis_list R" and "\<And>t. rlrange R t (db w) (orderListKey u i) = []"
    and "0 < washTradeDetectionWindowMs cfg" and "sorted_wrt (\<le>) (map fst xs)"
    and "\<forall>(t, a) \<in> set xs. po_instrument a = i" and "\<forall>(t', a) \<in> set xs. t' \<le> t"
    and "po_instrument a = i"
  shows "let (h, w1) = wt_run R cfg u [] xs w; ok = is_ok (fst (wt_check R cfg t a u w1)) in
    ((\<exists>x \<in> set h. opposing a (snd x) \<and> t - fst x < washTradeDetectionWindowMs cfg) \<longrightarrow> \<not> ok) \<and>
    (\<not> ok \<longrightarrow> (\<exists>x \<in> set h. opposing a (snd x) \<and> t - fst x \<le> washTradeDetectionWindowMs cfg))"
proof -
  let ?t0 = "case xs of [] \<Rightarrow> t | x # _ \<Rightarrow> fst x"
  have empty: "wt_rep R (washTradeDetectionWindowMs cfg) (orderListKey u i) ?t0 [] (db w)"
    using assms(2) by (simp add: wt_rep_def)
  have "last (?t0 # map fst xs) \<in> set (?t0 # map fst xs)" by (rule last_in_set) simp
  then have last: "last (?t0 # map fst xs) \<le> t" using assms(6) by (cases xs) auto
  have sorted: "sorted_wrt (\<le>) (?t0 # map fst xs)" using assms(4) by (cases xs) auto
  note rep = redis_list.wt_run_rep [OF assms(1) empty assms(3) sorted assms(5) last]
  show ?thesis
    using redis_list.wt_decides [OF assms(1), of cfg u a t "fst (wt_run R cfg u [] xs w)"
        "snd (wt_run R cfg u [] xs w)"] rep assms(7)
    by (auto simp: split_beta Let_def)
qed

definition demo_trade :: "order_side \<Rightarrow> string \<Rightarrow> place_order" where
  "demo_trade side i = \<lparr>po_instrument = ''BTC-USDT'', po_side = side, po_orderType = MARKET,
     po_quantity = 10, po_price = None, po_stopPrice = None, po_strategyId = ''s'', po_clientOrderId = i\<rparr>"

definition demo_rules :: config where
  "demo_rules = default_config ''0123456789abcdef0123456789abcdef'' ''root''"

lemma demo_rules_simps [simp]:
  "washTradeDetectionWindowMs demo_rules = 1000" "layeringDetectionWindowMs demo_rules = 5000"
  "layeringCancelRatioThreshold demo_rules = 8 / 10"
  by (simp_all add: demo_rules_def default_config_def)

lemma demo_rules_ok: "config_ok demo_rules"
  unfolding demo_rules_def by (rule default_config_ok) simp_all

theorem wt_window_witness:
  "\<not> is_ok (fst (wt_check adapter demo_rules 900 (demo_trade SELL ''b'') ''bob''
     (snd (wt_run adapter demo_rules ''bob'' [] [(100, demo_trade BUY ''a'')] mem_world))))"
  using wt_window [OF mem.adapter.redis_list_axioms, where w = mem_world and u = "''bob''"
      and i = "''BTC-USDT''" and cfg = demo_rules and xs = "[(100, demo_trade BUY ''a'')]" and t = 900
      and a = "demo_trade SELL ''b''"]
  by (simp add: demo_trade_def wt_check_def opposing_def quantity_ratio_def Let_def)

text \<open>inside one window after the first order or cancellation, with n orders and c
  cancellations recorded, the pattern is reported exactly when there was an order and the
  ratio c / n is above the threshold.\<close>

theorem ld_exact:
  assumes "redis_counter R" and "config_ok cfg"
    and "rget R t0 (db w) (orderCountKey u i) = None" and "rget R t0 (db w) (cancelCountKey u i) = None"
    and "sorted_wrt (\<le>) (t0 # map fst xs)" and "last (t0 # map fst xs) \<le> t"
    and "t < t0 + layeringDetectionWindowMs cfg"
    and "\<forall>(v, x) \<in> set xs. \<forall>a. x = Placed a \<longrightarrow> po_instrument a = i"
  shows "fst (fst (ld_check R cfg t u i st (ld_run R cfg u i xs w))) =
    (0 < placed xs \<and> of_int (cancelled xs) / of_int (placed xs) > layeringCancelRatioThreshold cfg)"
proof -
  let ?dl = "t0 + layeringDetectionWindowMs cfg"
  have le: "v \<le> t" if "v \<in> set (map fst xs)" for v
    using assms(5,6) that sorted_last [of t0 "map fst xs" v] by auto
  have "window_count_is R t ?dl (orderCountKey u i) (0 + placed xs) (db (ld_run R cfg u i xs w)) \<and>
    window_count_is R t ?dl (cancelCountKey u i) (0 + cancelled xs) (db (ld_run R cfg u i xs w))"
    using assms(3-8) le ceil_seconds_ge [of "layeringDetectionWindowMs cfg"]
    by (intro redis_counter.ld_run_counts [OF assms(1), where ?t0.0 = t0])
      (fastforce simp: window_count_is_def)+
  with redis_counter.ld_check_counts [OF assms(1), of t ?dl u i "placed xs" _ "cancelled xs" cfg st]
  show ?thesis
    using assms(2,7) by (simp add: config_ok_def placed_def cancelled_def)
qed

theorem ld_exact_witness:
  "fst (fst (ld_check adapter demo_rules 400 ''bob'' ''BTC-USDT'' ''s''
     (ld_run adapter demo_rules ''bob'' ''BTC-USDT''
       [(100, Placed (demo_trade BUY ''a'')), (200, Cancelled)] mem_world)))"
  using ld_exact [OF mem.adapter.redis_counter_axioms demo_rules_ok, where w = mem_world and ?t0.0 = 100
      and u = "''bob''" and i = "''BTC-USDT''" and t = 400 and st = "''s''"
      and xs = "[(100, Placed (demo_trade BUY ''a'')), (200, Cancelled)]"]
  by (simp add: placed_def cancelled_def demo_trade_def del: ld_run.simps)

text \<open>a sale beyond the held quantity is the only short sale; it throws with one
  alert for a cash account and is permitted with its quantity for the other accounts. But
  the position limits refuse each of these sales, whatever the account.\<close>

theorem ss_exact:
  "let short = (po_side a = SELL \<and> po_quantity a > getCurrentQuantity (po_instrument a) pf);
       (r, w') = ss_check a pf acct w
   in (if short \<and> acct = CASH
       then (\<exists>e x. r = Inl e \<and> thrown_code e = Some COMPLIANCE_SHORT_SELL_BLOCKED \<and> out w' = out w @ [x])
       else r = Inr \<lparr>sr_allowed = True, sr_isShortSale = short,
              sr_shortQuantity = (if short then Some (po_quantity a - getCurrentQuantity (po_instrument a) pf)
                                  else None)\<rparr> \<and> w' = w) \<and>
      (if short then \<not> within_limits cfg a pf else True)"
  by (cases acct) (auto simp: ss_check_def within_limits_def Let_def split: order_side.splits)

text \<open>every reporting adapter is called once, in order, on the state that the
  ones before it left, failed or not; the report throws exactly when there are adapters and
  all of them failed, and otherwise announces the trade.\<close>

theorem tr_reports:
  "let failed = reporter_outcomes as trade w; (r, w') = report_trade as trade w;
       w1 = fold (\<lambda>a w. snd (a trade w)) as w
   in isl r = (as \<noteq> [] \<and> list_all id failed) \<and>
      (if isl r then w' = w1
       else db w' = db w1 \<and> map effect_type (drop (length (out w1)) (out w')) = [TRADE_REPORTED])"
  using run_reporters_errors [of as trade w] run_reporters_state [of as trade w]
    filter_all [of "reporter_outcomes as trade w"]
  by (auto simp: report_trade_def split_beta Let_def)

end
