(* ===== verification/Audit_Log.thy ===== *)
theory Audit_Log
  imports Redis_Store Actions Circuit_Breaker "HOL-Library.List_Lexorder" "HOL-Library.Char_ord"
    "HOL-Library.Sublist"
begin

text \<open>
  The audit log: \<open>security/audit/hmac.chain.ts\<close>, \<open>log.entry.schema.ts\<close>,
  \<open>audit.logger.ts\<close> and \<open>forensics.service.ts\<close>. HMAC-SHA256 is a parameter over the
  canonical JSON value. The canonical form is \<open>JSON.stringify(entry, keys)\<close>: the array of
  the entry's own keys filters the properties of every nested object as well.
\<close>

subsection \<open>Entries\<close>

datatype (plugins only: code size) result_status = SUCCESS | FAILURE | BLOCKED | WARNING

fun status_str :: "result_status \<Rightarrow> string" where
  "status_str SUCCESS = ''SUCCESS''"
| "status_str FAILURE = ''FAILURE''"
| "status_str BLOCKED = ''BLOCKED''"
| "status_str WARNING = ''WARNING''"

text \<open>A log entry without its own HMAC.\<close>

record log_body =
  le_id :: string
  le_correlationId :: string
  le_timestamp :: int
  le_userId :: "string option"
  le_sessionId :: "string option"
  le_strategyId :: "string option"
  le_eventType :: event_type
  le_actionName :: "string option"
  le_parameters :: "(string \<times> json) list"
  le_resultStatus :: result_status
  le_latencyMs :: real
  le_circuitBreakerStates :: "json list"
  le_systemPromptHash :: string
  le_previousEntryHmac :: string

record log_entry = log_body +
  le_entryHmac :: string

text \<open>The properties of the object that the logger builds; \<open>None\<close> is \<open>undefined\<close>.\<close>

definition object_fields :: "('a) log_body_scheme \<Rightarrow> (string \<times> json option) list" where
  "object_fields e =
     [(''id'', Some (JStr (le_id e))), (''correlationId'', Some (JStr (le_correlationId e))),
      (''timestamp'', Some (JDate (le_timestamp e))), (''userId'', map_option JStr (le_userId e)),
      (''sessionId'', map_option JStr (le_sessionId e)),
      (''strategyId'', map_option JStr (le_strategyId e)),
      (''eventType'', Some (JStr (event_type_str (le_eventType e)))),
      (''actionName'', map_option JStr (le_actionName e)),
      (''parameters'', Some (JObj (le_parameters e))),
      (''resultStatus'', Some (JStr (status_str (le_resultStatus e)))),
      (''latencyMs'', Some (JNum (le_latencyMs e))),
      (''circuitBreakerStates'', Some (JArr (le_circuitBreakerStates e))),
      (''systemPromptHash'', Some (JStr (le_systemPromptHash e))),
      (''previousEntryHmac'', Some (JStr (le_previousEntryHmac e)))]"

text \<open>The object that is read back from the written line has no undefined properties.\<close>

definition parsed_fields :: "('a) log_body_scheme \<Rightarrow> (string \<times> json option) list" where
  "parsed_fields e = filter (\<lambda>(k, v). v \<noteq> None) (object_fields e)"

subsection \<open>The chain\<close>

text \<open>Serialisation with a property list.\<close>

fun restrict :: "string list \<Rightarrow> json \<Rightarrow> json" where
  "restrict K (JObj fs) =
     JObj (concat (map (\<lambda>k. case map_of (map (\<lambda>(k, v). (k, restrict K v)) fs) k of
        Some v \<Rightarrow> [(k, v)] | None \<Rightarrow> []) K))"
| "restrict K (JArr xs) = JArr (map (restrict K) xs)"
| "restrict K j = j"

definition canonicalize :: "(string \<times> json option) list \<Rightarrow> json" where
  "canonicalize fs =
     (let K = sort (map fst fs)
      in JObj (concat (map (\<lambda>k. case map_of fs k of
            Some (Some v) \<Rightarrow> [(k, restrict K v)] | _ \<Rightarrow> []) K)))"

definition hc_sign :: "(json \<Rightarrow> string) \<Rightarrow> (string \<times> json option) list \<Rightarrow> string" where
  "hc_sign hmac fs = hmac (canonicalize fs)"

text \<open>\<open>view\<close> is one of the two views above. The comparison is of ASCII texts.\<close>

definition hc_verify ::
  "(json \<Rightarrow> string) \<Rightarrow> (log_entry \<Rightarrow> (string \<times> json option) list) \<Rightarrow> log_entry \<Rightarrow> bool" where
  "hc_verify hmac view e = (hc_sign hmac (view e) = le_entryHmac e)"

record chain_result =
  cr_valid :: bool
  cr_firstInvalidIndex :: "nat option"
  cr_totalEntries :: nat

text \<open>The loop from index i on, with the entry before it.\<close>

fun chain_loop ::
  "(json \<Rightarrow> string) \<Rightarrow> (log_entry \<Rightarrow> (string \<times> json option) list) \<Rightarrow> nat \<Rightarrow> log_entry option \<Rightarrow>
   log_entry list \<Rightarrow> nat option" where
  "chain_loop hmac view i prev [] = None"
| "chain_loop hmac view i prev (e # es) =
     (if \<not> hc_verify hmac view e then Some i
      else if (case prev of Some p \<Rightarrow> le_previousEntryHmac e \<noteq> le_entryHmac p | None \<Rightarrow> False) then Some i
      else chain_loop hmac view (Suc i) (Some e) es)"

definition verifyChain ::
  "(json \<Rightarrow> string) \<Rightarrow> (log_entry \<Rightarrow> (string \<times> json option) list) \<Rightarrow> log_entry list \<Rightarrow> chain_result" where
  "verifyChain hmac view es =
     (case chain_loop hmac view 0 None es of
        None \<Rightarrow> \<lparr>cr_valid = True, cr_firstInvalidIndex = None, cr_totalEntries = length es\<rparr>
      | Some i \<Rightarrow> \<lparr>cr_valid = False, cr_firstInvalidIndex = Some i, cr_totalEntries = length es\<rparr>)"

subsection \<open>The logger\<close>

definition str_includes :: "string \<Rightarrow> string \<Rightarrow> bool" where
  "str_includes s pat = list_ex (\<lambda>n. prefix pat (drop n s)) [0..<Suc (length s)]"

definition deriveResultStatus :: "event_type \<Rightarrow> result_status" where
  "deriveResultStatus ev =
     (let s = event_type_str ev in
      if str_includes s ''FAILURE'' \<or> str_includes s ''INVALID'' \<or> str_includes s ''BREACHED'' \<or>
         s = ''KILL_SWITCH_TRIGGERED'' \<or> s = ''DEAD_MANS_SWITCH_TRIGGERED'' then FAILURE
      else if str_includes s ''BLOCKED'' \<or> str_includes s ''DENIED'' \<or> str_includes s ''DETECTED'' then BLOCKED
      else if str_includes s ''WARNING'' \<or> str_includes s ''STALE'' \<or> str_includes s ''REQUIRED'' \<or>
         str_includes s ''EXPIRED'' \<or> s = ''CIRCUIT_BREAKER_HALF_OPEN'' then WARNING
      else SUCCESS)"

text \<open>\<open>extractActionName\<close>; the parameters are a copy of the payload.\<close>

definition extractActionName :: "(string \<times> json) list \<Rightarrow> string option" where
  "extractActionName payload =
     (case map_of payload ''actionType'' of
        Some (JStr s) \<Rightarrow> Some s
      | _ \<Rightarrow> (case map_of payload ''triggerAction'' of Some (JStr s) \<Rightarrow> Some s | _ \<Rightarrow> None))"

record log_context =
  lc_correlationId :: string
  lc_userId :: "string option"
  lc_sessionId :: "string option"
  lc_strategyId :: "string option"
  lc_latencyMs :: real
  lc_circuitBreakerStates :: "json list"

record log_event =
  ev_type :: event_type
  ev_payload :: "(string \<times> json) list"

text \<open>The logger's own state and the file it appends to.\<close>

record audit_state =
  as_last :: string
  as_file :: "log_entry list"

definition genesis :: string where
  "genesis = replicate 64 (CHR ''0'')"

definition entry_body :: "string \<Rightarrow> int \<Rightarrow> log_event \<Rightarrow> log_context \<Rightarrow> string \<Rightarrow> log_body" where
  "entry_body i now ev ctx prev =
     \<lparr>le_id = i, le_correlationId = lc_correlationId ctx, le_timestamp = now,
      le_userId = lc_userId ctx, le_sessionId = lc_sessionId ctx, le_strategyId = lc_strategyId ctx,
      le_eventType = ev_type ev, le_actionName = extractActionName (ev_payload ev),
      le_parameters = ev_payload ev, le_resultStatus = deriveResultStatus (ev_type ev),
      le_latencyMs = lc_latencyMs ctx, le_circuitBreakerStates = lc_circuitBreakerStates ctx,
      le_systemPromptHash = ''system-prompt-hash-placeholder'', le_previousEntryHmac = prev\<rparr>"

text \<open>Up to the \<open>await\<close> of the writer, and after it. When the writer throws, nothing is
  appended and the last HMAC is kept; the error goes to stderr.\<close>

definition log_prepare :: "(json \<Rightarrow> string) \<Rightarrow> string \<Rightarrow> int \<Rightarrow> log_event \<Rightarrow> log_context \<Rightarrow> audit_state \<Rightarrow> log_entry" where
  "log_prepare hmac i now ev ctx st =
     (let b = entry_body i now ev ctx (as_last st)
      in log_body.extend b \<lparr>le_entryHmac = hc_sign hmac (object_fields b)\<rparr>)"

definition log_finish :: "bool \<Rightarrow> log_entry \<Rightarrow> audit_state \<Rightarrow> audit_state" where
  "log_finish written e st =
     (if written then \<lparr>as_last = le_entryHmac e, as_file = as_file st @ [e]\<rparr> else st)"

definition audit_log ::
  "(json \<Rightarrow> string) \<Rightarrow> bool \<Rightarrow> string \<Rightarrow> int \<Rightarrow> log_event \<Rightarrow> log_context \<Rightarrow> audit_state \<Rightarrow> audit_state" where
  "audit_log hmac written i now ev ctx st = log_finish written (log_prepare hmac i now ev ctx st) st"

fun audit_run ::
  "(json \<Rightarrow> string) \<Rightarrow> (bool \<times> string \<times> int \<times> log_event \<times> log_context) list \<Rightarrow> audit_state \<Rightarrow> audit_state" where
  "audit_run hmac [] st = st"
| "audit_run hmac ((b, i, t, ev, ctx) # xs) st = audit_run hmac xs (audit_log hmac b i t ev ctx st)"

text \<open>A new logger on an existing file.\<close>

definition new_logger :: "log_entry list \<Rightarrow> audit_state" where
  "new_logger file = \<lparr>as_last = genesis, as_file = file\<rparr>"

subsection \<open>What the chain proves\<close>

fun linked :: "string option \<Rightarrow> log_entry list \<Rightarrow> bool" where
  "linked prev [] = True"
| "linked prev (e # es) =
     ((case prev of Some h \<Rightarrow> le_previousEntryHmac e = h | None \<Rightarrow> True) \<and> linked (Some (le_entryHmac e)) es)"

lemma chain_loop_None:
  "chain_loop hmac view i prev es = None \<longleftrightarrow>
     list_all (hc_verify hmac view) es \<and> linked (map_option le_entryHmac prev) es"
  by (induction es arbitrary: i prev) (auto split: option.splits)

lemma verifyChain_valid:
  "cr_valid (verifyChain hmac view es) \<longleftrightarrow> list_all (hc_verify hmac view) es \<and> linked None es"
  using chain_loop_None [of hmac view 0 None es]
  by (auto simp: verifyChain_def split: option.split)

lemma linked_append:
  "linked prev (xs @ ys) \<longleftrightarrow> linked prev xs \<and>
     linked (if xs = [] then prev else Some (le_entryHmac (last xs))) ys"
  by (induction xs arbitrary: prev) auto

lemma linked_weaken: "linked prev es \<Longrightarrow> linked None es"
  by (cases es) auto

text \<open>A run extends the file by entries that are valid and linked to what was last.\<close>

lemma prepare_simps [simp]:
  "le_previousEntryHmac (log_prepare hmac i t ev ctx st) = as_last st"
  "object_fields (log_prepare hmac i t ev ctx st) = object_fields (entry_body i t ev ctx (as_last st))"
  "le_entryHmac (log_prepare hmac i t ev ctx st) = hc_sign hmac (object_fields (entry_body i t ev ctx (as_last st)))"
  by (simp_all add: log_prepare_def entry_body_def Let_def object_fields_def log_body.defs)

lemma prepare_verifies: "hc_verify hmac object_fields (log_prepare hmac i t ev ctx st)"
  by (simp add: hc_verify_def)

lemma audit_run_chain:
  "\<exists>es. as_file (audit_run hmac xs st) = as_file st @ es \<and> list_all (hc_verify hmac object_fields) es \<and>
     linked (Some (as_last st)) es \<and>
     as_last (audit_run hmac xs st) = (if es = [] then as_last st else le_entryHmac (last es))"
proof (induction xs arbitrary: st)
  case (Cons x xs)
  obtain b i t ev ctx where x: "x = (b, i, t, ev, ctx)" by (cases x)
  show ?case
  proof (cases b)
    case True
    let ?e = "log_prepare hmac i t ev ctx st"
    from Cons.IH [of "log_finish True ?e st"] obtain es where
      "as_file (audit_run hmac xs (log_finish True ?e st)) = as_file st @ ?e # es"
      "list_all (hc_verify hmac object_fields) es" "linked (Some (le_entryHmac ?e)) es"
      "as_last (audit_run hmac xs (log_finish True ?e st)) =
         (if es = [] then le_entryHmac ?e else le_entryHmac (last es))"
      by (auto simp: log_finish_def)
    then show ?thesis
      using x True by (intro exI [of _ "?e # es"]) (simp add: audit_log_def prepare_verifies)
  next
    case False
    with Cons.IH [of st] x show ?thesis by (simp add: audit_log_def log_finish_def)
  qed
qed simp

lemma parsed_object:
  "le_userId e \<noteq> None \<Longrightarrow> le_sessionId e \<noteq> None \<Longrightarrow> le_strategyId e \<noteq> None \<Longrightarrow> le_actionName e \<noteq> None \<Longrightarrow>
   parsed_fields e = object_fields e"
  by (auto simp: parsed_fields_def object_fields_def)

subsection \<open>What the canonical form covers\<close>

definition optional_fields :: "(string \<Rightarrow> json option) \<Rightarrow> string list \<Rightarrow> (string \<times> json) list" where
  "optional_fields f K = concat (map (\<lambda>k. case f k of Some v \<Rightarrow> [(k, v)] | None \<Rightarrow> []) K)"

lemma map_of_optional: "map_of (optional_fields f K) k = (if k \<in> set K then f k else None)"
  by (induction K) (auto simp: optional_fields_def split: option.splits)

lemma optional_none: "(\<And>k. k \<in> set K \<Longrightarrow> f k = None) \<Longrightarrow> optional_fields f K = []"
  by (simp add: optional_fields_def)

lemma map_of_map_snd: "map_of (map (\<lambda>(k, v). (k, f v)) fs) k = map_option f (map_of fs k)"
  by (induction fs) auto

lemma restrict_object:
  "restrict K (JObj fs) = JObj (optional_fields (\<lambda>k. map_option (restrict K) (map_of fs k)) K)"
  by (simp only: restrict.simps optional_fields_def map_of_map_snd)

lemma restrict_field:
  "jget (restrict K (JObj fs)) k = (if k \<in> set K then map_option (restrict K) (map_of fs k) else None)"
  by (simp only: restrict_object jget.simps map_of_optional)

lemma restrict_disjoint:
  assumes "set K \<inter> fst ` set fs = {}"
  shows "restrict K (JObj fs) = JObj []"
proof -
  have "map_of fs k = None" if "k \<in> set K" for k
    using assms that by (auto simp: map_of_eq_None_iff)
  then show ?thesis by (simp only: restrict_object) (simp add: optional_none)
qed

definition covered_value :: "string list \<Rightarrow> json option option \<Rightarrow> json option" where
  "covered_value K v = (case v of Some (Some j) \<Rightarrow> Some (restrict K j) | _ \<Rightarrow> None)"

lemma covered_value_case:
  "(case x of Some (Some v) \<Rightarrow> [(k, restrict K v)] | _ \<Rightarrow> []) =
   (case covered_value K x of Some v \<Rightarrow> [(k, v)] | None \<Rightarrow> [])"
  by (auto simp: covered_value_def split: option.splits)

lemma canonicalize_covered:
  "canonicalize fs =
     JObj (optional_fields (\<lambda>k. covered_value (sort (map fst fs)) (map_of fs k)) (sort (map fst fs)))"
  by (simp only: canonicalize_def Let_def optional_fields_def covered_value_case)

lemma canonicalize_field:
  "jget (canonicalize fs) k = covered_value (sort (map fst fs)) (map_of fs k)"
proof -
  have "map_of fs k = None" if "k \<notin> fst ` set fs" using that by (simp add: map_of_eq_None_iff)
  then show ?thesis
    by (auto simp: canonicalize_covered map_of_optional covered_value_def)
qed

lemma canonicalize_cong:
  assumes "map fst fs = map fst fs'"
    and "\<And>k. covered_value (sort (map fst fs)) (map_of fs k) = covered_value (sort (map fst fs)) (map_of fs' k)"
  shows "canonicalize fs = canonicalize fs'"
  using assms by (simp add: canonicalize_covered)

definition entry_keys :: "string list" where
  "entry_keys = [''id'', ''correlationId'', ''timestamp'', ''userId'', ''sessionId'', ''strategyId'',
     ''eventType'', ''actionName'', ''parameters'', ''resultStatus'', ''latencyMs'',
     ''circuitBreakerStates'', ''systemPromptHash'', ''previousEntryHmac'']"

lemma object_keys [simp]: "map fst (object_fields e) = entry_keys"
  by (simp add: object_fields_def entry_keys_def)

lemma parsed_keys: "set (map fst (parsed_fields e)) \<subseteq> set (map fst (object_fields e))"
  unfolding parsed_fields_def set_map by (intro image_mono filter_is_subset)

lemma object_distinct: "distinct (map fst (object_fields e))"
  by (simp add: entry_keys_def)

lemma map_of_present:
  "distinct (map fst fs) \<Longrightarrow> map_of (filter (\<lambda>(k, v). v \<noteq> None) fs) k =
     (case map_of fs k of Some (Some v) \<Rightarrow> Some (Some v) | _ \<Rightarrow> None)"
  by (induction fs) (auto split: option.splits simp: map_of_eq_None_iff rev_image_eqI)

lemma map_of_parsed:
  "map_of (parsed_fields e) k = (case map_of (object_fields e) k of Some (Some v) \<Rightarrow> Some (Some v) | _ \<Rightarrow> None)"
  using map_of_present [OF object_distinct] by (simp add: parsed_fields_def)

text \<open>Both views.\<close>

definition entry_view :: "(log_entry \<Rightarrow> (string \<times> json option) list) \<Rightarrow> bool" where
  "entry_view v \<longleftrightarrow> v = object_fields \<or> v = parsed_fields"

lemma covered_parsed:
  "covered_value K (map_of (parsed_fields e) k) = covered_value K (map_of (object_fields e) k)"
  by (auto simp: map_of_parsed covered_value_def split: option.splits)

lemma view_field:
  "entry_view v \<Longrightarrow> covered_value K (map_of (v e) k) = covered_value K (map_of (object_fields e) k)"
  using covered_parsed [of K e k] by (auto simp: entry_view_def)

lemma view_keys: "entry_view v \<Longrightarrow> set (map fst (v e)) \<subseteq> set entry_keys"
  using parsed_keys [of e] by (auto simp: entry_view_def simp del: set_map)

lemma with_parameters:
  "covered_value K (map_of (object_fields (e\<lparr>le_parameters := ps\<rparr>)) k) =
     (if k = ''parameters'' then Some (restrict K (JObj ps)) else covered_value K (map_of (object_fields e) k))"
  by (simp add: object_fields_def covered_value_def)

lemma view_parameters_keys:
  "entry_view v \<Longrightarrow> map fst (v (e\<lparr>le_parameters := ps\<rparr>)) = map fst (v e)"
  by (auto simp: entry_view_def parsed_fields_def object_fields_def)

lemma parameters_same:
  assumes "entry_view v"
    and "restrict (sort (map fst (v e))) (JObj ps) = restrict (sort (map fst (v e))) (JObj (le_parameters e))"
  shows "canonicalize (v (e\<lparr>le_parameters := ps\<rparr>)) = canonicalize (v e)"
proof -
  let ?K = "sort (map fst (v e))"
  have "covered_value ?K (map_of (v (e\<lparr>le_parameters := ps\<rparr>)) k) = covered_value ?K (map_of (v e) k)" for k
  proof (cases "k = ''parameters''")
    case True
    have "covered_value ?K (map_of (v e) k) = Some (restrict ?K (JObj (le_parameters e)))"
      using True by (simp only: view_field [OF assms(1)]) (simp add: covered_value_def object_fields_def)
    moreover have "covered_value ?K (map_of (v (e\<lparr>le_parameters := ps\<rparr>)) k) = Some (restrict ?K (JObj ps))"
      using True by (simp only: view_field [OF assms(1)] with_parameters if_True refl)
    ultimately show ?thesis using assms(2) by (simp only:)
  next
    case False
    then show ?thesis by (simp only: view_field [OF assms(1)] with_parameters if_False)
  qed
  then show ?thesis
    using view_parameters_keys [OF assms(1)] by (intro canonicalize_cong) (simp_all only:)
qed

lemma parameters_uncovered:
  assumes "entry_view v" and "set entry_keys \<inter> fst ` set (le_parameters e) = {}"
    and "set entry_keys \<inter> fst ` set ps = {}"
  shows "hc_verify hmac v (e\<lparr>le_parameters := ps\<rparr>) = hc_verify hmac v e"
proof -
  let ?K = "sort (map fst (v e))"
  have "set ?K \<subseteq> set entry_keys" using view_keys [OF assms(1), of e] by simp
  then have "set ?K \<inter> fst ` set (le_parameters e) = {}" "set ?K \<inter> fst ` set ps = {}"
    using assms(2,3) by blast+
  then have "canonicalize (v (e\<lparr>le_parameters := ps\<rparr>)) = canonicalize (v e)"
    by (intro parameters_same [OF assms(1)]) (simp only: restrict_disjoint)
  then show ?thesis by (simp add: hc_verify_def hc_sign_def)
qed

lemma covered_scalar:
  "(\<And>K. restrict K j = j) \<Longrightarrow> covered_value K (Some (Some j)) = Some j"
  by (simp add: covered_value_def)

text \<open>Entries with the same canonical form agree on every field that is not an object.\<close>

definition scalar_fields :: "('a) log_body_scheme \<Rightarrow> (string \<times> json option) list" where
  "scalar_fields e = filter (\<lambda>(k, v). k \<noteq> ''parameters'' \<and> k \<noteq> ''circuitBreakerStates'') (object_fields e)"

lemma scalar_covered:
  "covered_value K (map_of (scalar_fields e) k) = (case map_of (scalar_fields e) k of Some v \<Rightarrow> v | None \<Rightarrow> None)"
  by (simp add: scalar_fields_def object_fields_def covered_value_def split: option.split)

lemma scalar_object:
  "k \<noteq> ''parameters'' \<Longrightarrow> k \<noteq> ''circuitBreakerStates'' \<Longrightarrow>
   map_of (scalar_fields e) k = map_of (object_fields e) k"
  by (simp add: scalar_fields_def object_fields_def)

lemma same_form_scalars:
  assumes "entry_view v" and "canonicalize (v e) = canonicalize (v e')"
  shows "scalar_fields e = scalar_fields e'"
proof -
  have same: "covered_value (sort (map fst (v e))) (map_of (object_fields e) k) =
      covered_value (sort (map fst (v e'))) (map_of (object_fields e') k)" for k
    using assms(2) canonicalize_field [of "v e" k] canonicalize_field [of "v e'" k] view_field [OF assms(1)]
    by metis
  have "(case map_of (scalar_fields e) k of Some v \<Rightarrow> v | None \<Rightarrow> None) =
      (case map_of (scalar_fields e') k of Some v \<Rightarrow> v | None \<Rightarrow> None)"
    if "k \<noteq> ''parameters''" "k \<noteq> ''circuitBreakerStates''" for k
    using same [of k] scalar_object [OF that] scalar_covered by metis
  from this [of "''id''"] this [of "''correlationId''"] this [of "''timestamp''"] this [of "''userId''"]
    this [of "''sessionId''"] this [of "''strategyId''"] this [of "''eventType''"] this [of "''actionName''"]
    this [of "''resultStatus''"] this [of "''latencyMs''"] this [of "''systemPromptHash''"]
    this [of "''previousEntryHmac''"]
  show ?thesis by (simp add: scalar_fields_def object_fields_def)
qed

text \<open>Changing one entry.\<close>

lemma chain_loop_cong:
  "list_all2 (\<lambda>e e'. hc_verify hmac v e = hc_verify hmac v e' \<and> le_entryHmac e = le_entryHmac e' \<and>
     le_previousEntryHmac e = le_previousEntryHmac e') es es' \<Longrightarrow>
   map_option le_entryHmac prev = map_option le_entryHmac prev' \<Longrightarrow>
   chain_loop hmac v i prev es = chain_loop hmac v i prev' es'"
proof (induction es es' arbitrary: i prev prev' rule: list_all2_induct)
  case (Cons e es e' es')
  then have "chain_loop hmac v (Suc i) (Some e) es = chain_loop hmac v (Suc i) (Some e') es'" by simp
  moreover have "(case prev of Some p \<Rightarrow> le_previousEntryHmac e \<noteq> le_entryHmac p | None \<Rightarrow> False) =
      (case prev' of Some p \<Rightarrow> le_previousEntryHmac e' \<noteq> le_entryHmac p | None \<Rightarrow> False)"
    using Cons.hyps(1) Cons.prems by (cases prev; cases prev') auto
  ultimately show ?case using Cons.hyps(1) by simp
qed simp

lemma list_update_rel:
  "n < length es \<Longrightarrow> R (es ! n) x \<Longrightarrow> (\<And>e. R e e) \<Longrightarrow> list_all2 R es (es[n := x])"
  by (simp add: list_all2_conv_all_nth nth_list_update)

subsection \<open>Properties\<close>

text \<open>The four fields that the schema makes optional.\<close>

fun complete_log :: "bool \<times> string \<times> int \<times> log_event \<times> log_context \<Rightarrow> bool" where
  "complete_log (b, i, t, ev, ctx) =
     (lc_userId ctx \<noteq> None \<and> lc_sessionId ctx \<noteq> None \<and> lc_strategyId ctx \<noteq> None \<and>
      extractActionName (ev_payload ev) \<noteq> None)"

definition complete_entry :: "log_entry \<Rightarrow> bool" where
  "complete_entry e =
     (le_userId e \<noteq> None \<and> le_sessionId e \<noteq> None \<and> le_strategyId e \<noteq> None \<and> le_actionName e \<noteq> None)"

lemma complete_prepare:
  "complete_log (b, i, t, ev, ctx) \<Longrightarrow> complete_entry (log_prepare hmac i t ev ctx st)"
  by (simp add: complete_entry_def log_prepare_def entry_body_def Let_def log_body.defs)

lemma audit_run_complete:
  "list_all complete_log xs \<Longrightarrow> list_all complete_entry (as_file st) \<Longrightarrow>
   list_all complete_entry (as_file (audit_run hmac xs st))"
proof (induction xs arbitrary: st)
  case (Cons x xs)
  obtain b i t ev ctx where x: "x = (b, i, t, ev, ctx)" by (cases x)
  show ?case
    using Cons.prems Cons.IH [of "audit_log hmac b i t ev ctx st"] complete_prepare [of b i t ev ctx hmac st]
    by (auto simp: x audit_log_def log_finish_def simp del: complete_log.simps)
qed simp

lemma complete_verify: "complete_entry e \<Longrightarrow> hc_verify hmac parsed_fields e = hc_verify hmac object_fields e"
  by (simp add: hc_verify_def complete_entry_def parsed_object)

lemma all_cong: "list_all P xs \<Longrightarrow> (\<And>x. P x \<Longrightarrow> Q x = R x) \<Longrightarrow> list_all Q xs = list_all R xs"
  by (induction xs) auto


definition demo_ctx :: log_context where
  "demo_ctx = \<lparr>lc_correlationId = ''c'', lc_userId = Some ''u'', lc_sessionId = Some ''s'',
     lc_strategyId = Some ''x'', lc_latencyMs = 3, lc_circuitBreakerStates = []\<rparr>"

definition demo_event :: log_event where
  "demo_event = \<lparr>ev_type = ACTION_ALLOWED, ev_payload = [(''actionType'', JStr ''PLACE_ORDER'')]\<rparr>"


lemma form_parameters:
  "jget (the (jget (canonicalize fs) ''parameters'')) k =
     (if k \<in> fst ` set fs then map_option (restrict (sort (map fst fs))) (map_of ps k) else None)"
  if "map_of fs ''parameters'' = Some (Some (JObj ps))"
proof -
  have "jget (canonicalize fs) ''parameters'' = Some (restrict (sort (map fst fs)) (JObj ps))"
    using that by (simp only: canonicalize_field covered_value_def option.case)
  then show ?thesis by (simp only: option.sel restrict_field set_sort set_map)
qed

lemma forms_differ:
  assumes "map_of (object_fields e) k = Some None" and "k \<in> fst ` set (le_parameters e)"
  shows "jget (the (jget (canonicalize (object_fields e)) ''parameters'')) k \<noteq> None"
    and "jget (the (jget (canonicalize (parsed_fields e)) ''parameters'')) k = None"
proof -
  have o: "map_of (object_fields e) ''parameters'' = Some (Some (JObj (le_parameters e)))"
    by (simp add: object_fields_def)
  then have p: "map_of (parsed_fields e) ''parameters'' = Some (Some (JObj (le_parameters e)))"
    by (simp add: map_of_parsed)
  have "map_of (parsed_fields e) k = None" using assms(1) by (simp add: map_of_parsed)
  then have "k \<notin> fst ` set (parsed_fields e)" by (simp add: map_of_eq_None_iff)
  then show "jget (the (jget (canonicalize (parsed_fields e)) ''parameters'')) k = None"
    using form_parameters [OF p] by simp
  have "k \<in> fst ` set (object_fields e)" "map_of (le_parameters e) k \<noteq> None"
    using assms map_of_SomeD [of "object_fields e" k None] by (auto simp: map_of_eq_None_iff rev_image_eqI)
  then show "jget (the (jget (canonicalize (object_fields e)) ''parameters'')) k \<noteq> None"
    using form_parameters [OF o] by simp
qed

text \<open>An entry logged without one of the optional fields (user, session,
  strategy or action name), whose parameters have a member of that name, does not verify once it
  is read back from the file: the signed text covers that member, since the absent field is a key
  of the signed object, and the re-computed text does not.\<close>

theorem audit_false_alarm:
  assumes "e = log_prepare hmac i t ev ctx st"
    and "map_of (object_fields e) k = Some None" and "k \<in> fst ` set (le_parameters e)"
    and "inj_on hmac {canonicalize (object_fields e), canonicalize (parsed_fields e)}"
  shows "hc_verify hmac object_fields e \<and> \<not> hc_verify hmac parsed_fields e"
proof -
  have "hc_verify hmac object_fields e" using assms(1) prepare_verifies by simp
  moreover have "canonicalize (object_fields e) \<noteq> canonicalize (parsed_fields e)"
    using forms_differ [OF assms(2,3)] by metis
  ultimately show ?thesis
    using assms(4) by (auto simp: hc_verify_def hc_sign_def inj_on_def)
qed

lemma inj_on_pair: "f a \<noteq> f b \<Longrightarrow> inj_on f {a, b}"
  by (auto simp: inj_on_def)

definition demo_hmac :: "json \<Rightarrow> string" where
  "demo_hmac j = (if jget (the (jget j ''parameters'')) ''userId'' = None then ''a'' else ''b'')"

definition alarm_entry :: log_entry where
  "alarm_entry = log_prepare demo_hmac ''1'' 10
     \<lparr>ev_type = AUTH_FAILURE, ev_payload = [(''userId'', JStr ''mallory'')]\<rparr> (demo_ctx\<lparr>lc_userId := None\<rparr>) (new_logger [])"

lemma audit_false_alarm_witness:
  "\<not> hc_verify demo_hmac parsed_fields alarm_entry"
proof -
  have k: "map_of (object_fields alarm_entry) ''userId'' = Some None"
      "''userId'' \<in> fst ` set (le_parameters alarm_entry)"
    by (simp_all add: alarm_entry_def demo_ctx_def entry_body_def object_fields_def log_prepare_def Let_def log_body.defs)
  have "demo_hmac (canonicalize (object_fields alarm_entry)) \<noteq> demo_hmac (canonicalize (parsed_fields alarm_entry))"
    using forms_differ [OF k] by (simp add: demo_hmac_def)
  then show ?thesis
    using audit_false_alarm [OF alarm_entry_def k] inj_on_pair by blast
qed

text \<open>The parameters of any entry in the file can be replaced by any
  others without any check noticing, as long as no member, old or new, has the name of a field of
  the log entry: the canonical text of the parameters is then the empty object.\<close>

theorem audit_params_unprotected:
  assumes "entry_view v" and "n < length es"
    and "set entry_keys \<inter> fst ` set (le_parameters (es ! n)) = {}"
    and "set entry_keys \<inter> fst ` set ps = {}"
  shows "verifyChain hmac v (es[n := (es ! n)\<lparr>le_parameters := ps\<rparr>]) = verifyChain hmac v es"
proof -
  have "chain_loop hmac v 0 None es = chain_loop hmac v 0 None (es[n := (es ! n)\<lparr>le_parameters := ps\<rparr>])"
    using parameters_uncovered [OF assms(1,3,4)]
    by (intro chain_loop_cong list_update_rel) (simp_all add: assms(2))
  then show ?thesis unfolding verifyChain_def by (simp only: length_list_update)
qed

lemma audit_params_unprotected_witness:
  "cr_valid (verifyChain (\<lambda>j. ''h'') parsed_fields
     [(log_prepare (\<lambda>j. ''h'') ''1'' 10 demo_event demo_ctx (new_logger []))\<lparr>le_parameters := [(''quantity'', JNum 7)]\<rparr>])"
proof -
  let ?e = "log_prepare (\<lambda>j. ''h'') ''1'' 10 demo_event demo_ctx (new_logger [])"
  have p: "le_parameters ?e = [(''actionType'', JStr ''PLACE_ORDER'')]"
    by (simp add: log_prepare_def entry_body_def demo_event_def Let_def log_body.defs)
  have "complete_entry ?e"
    by (intro complete_prepare) (simp add: demo_ctx_def demo_event_def extractActionName_def)
  then have "cr_valid (verifyChain (\<lambda>j. ''h'') parsed_fields [?e])"
    by (simp add: verifyChain_valid complete_verify prepare_verifies)
  then show ?thesis
    using audit_params_unprotected [of parsed_fields 0 "[?e]" "[(''quantity'', JNum 7)]" "\<lambda>j. ''h''"]
    by (simp add: p entry_view_def entry_keys_def)
qed

text \<open>Replacing an entry of a valid chain by one with the same HMAC that
  differs in any field other than the parameters and the breaker snapshots is detected, unless
  the two canonical texts collide.\<close>

theorem chain_tamper:
  assumes "entry_view v" and "cr_valid (verifyChain hmac v es)" and "n < length es"
    and "le_entryHmac e = le_entryHmac (es ! n)" and "scalar_fields e \<noteq> scalar_fields (es ! n)"
    and "inj_on hmac {canonicalize (v e), canonicalize (v (es ! n))}"
  shows "\<not> cr_valid (verifyChain hmac v (es[n := e]))"
proof
  assume "cr_valid (verifyChain hmac v (es[n := e]))"
  then have "hc_verify hmac v e"
    using assms(3) by (auto simp: verifyChain_valid list_all_length)
  moreover have "hc_verify hmac v (es ! n)"
    using assms(2,3) by (simp add: verifyChain_valid list_all_length)
  ultimately have "hmac (canonicalize (v e)) = hmac (canonicalize (v (es ! n)))"
    using assms(4) by (simp only: hc_verify_def hc_sign_def)
  then have "canonicalize (v e) = canonicalize (v (es ! n))"
    using inj_onD [OF assms(6)] by blast
  then show False using same_form_scalars [OF assms(1)] assms(5) by blast
qed

definition demo_log :: "(json \<Rightarrow> string) \<Rightarrow> int \<Rightarrow> log_entry" where
  "demo_log hmac t = log_prepare hmac ''1'' t demo_event demo_ctx (new_logger [])"

definition time_hmac :: "json \<Rightarrow> string" where
  "time_hmac j = (if jget j ''timestamp'' = Some (JDate 10) then ''a'' else ''b'')"

lemma form_timestamp: "time_hmac (canonicalize (object_fields e)) = (if le_timestamp e = 10 then ''a'' else ''b'')"
proof -
  have "covered_value K (map_of (object_fields e) ''timestamp'') = Some (JDate (le_timestamp e))" for K
    by (simp add: object_fields_def covered_value_def)
  then show ?thesis by (simp only: time_hmac_def canonicalize_field option.inject json.inject)
qed

lemma demo_log_fields: "le_timestamp (demo_log h t) = t"
  by (simp add: demo_log_def log_prepare_def entry_body_def Let_def log_body.defs)

lemma chain_tamper_witness:
  "\<not> cr_valid (verifyChain time_hmac object_fields [(demo_log time_hmac 10)\<lparr>le_timestamp := 20\<rparr>])"
proof -
  let ?e = "demo_log time_hmac 10"
  have "inj_on time_hmac {canonicalize (object_fields (?e\<lparr>le_timestamp := 20\<rparr>)), canonicalize (object_fields ([?e] ! 0))}"
    by (intro inj_on_pair) (simp add: form_timestamp demo_log_fields)
  moreover have "scalar_fields (?e\<lparr>le_timestamp := 20\<rparr>) \<noteq> scalar_fields ([?e] ! 0)"
    by (simp add: scalar_fields_def object_fields_def demo_log_fields)
  moreover have "cr_valid (verifyChain time_hmac object_fields [?e])"
    by (simp add: verifyChain_valid demo_log_def prepare_verifies)
  ultimately show ?thesis
    using chain_tamper [of object_fields time_hmac "[?e]" 0 "?e\<lparr>le_timestamp := 20\<rparr>"] by (simp add: entry_view_def)
qed

text \<open>In a valid chain, cutting entries out of the middle is detected unless the
  last one cut has the HMAC of the last one kept; cutting entries off either end is never
  detected, since neither the first link nor the length is anchored.\<close>

theorem chain_cuts:
  assumes "cr_valid (verifyChain hmac v (xs @ ys @ zs))" and "xs \<noteq> []" and "ys \<noteq> []" and "zs \<noteq> []"
  shows "cr_valid (verifyChain hmac v (xs @ zs)) = (le_entryHmac (last xs) = le_entryHmac (last ys)) \<and>
    cr_valid (verifyChain hmac v (xs @ ys)) \<and> cr_valid (verifyChain hmac v (ys @ zs))"
proof -
  obtain z zs' where zs: "zs = z # zs'" using assms(4) by (cases zs) auto
  from assms have "list_all (hc_verify hmac v) xs" "list_all (hc_verify hmac v) ys" "list_all (hc_verify hmac v) zs"
      "linked None xs" "linked (Some (le_entryHmac (last xs))) ys" "linked (Some (le_entryHmac (last ys))) zs"
    by (simp_all add: verifyChain_valid linked_append)
  then show ?thesis
    using assms(2,3) linked_weaken by (auto simp: verifyChain_valid linked_append zs)
qed

definition three_logs :: "log_entry list" where
  "three_logs = as_file (audit_run time_hmac [(True, ''1'', 10, demo_event, demo_ctx), (True, ''2'', 20, demo_event, demo_ctx),
     (True, ''3'', 10, demo_event, demo_ctx)] (new_logger []))"

lemma three_logs_parts:
  "\<exists>a b c. three_logs = [a] @ [b] @ [c] \<and> le_entryHmac a = ''a'' \<and> le_entryHmac b = ''b''"
proof -
  have "le_timestamp (entry_body i t demo_event demo_ctx p) = t" for i t p
    by (simp add: entry_body_def)
  then show ?thesis
    by (simp add: three_logs_def audit_log_def log_finish_def new_logger_def hc_sign_def form_timestamp)
qed

lemma chain_cuts_witness:
  "\<not> cr_valid (verifyChain time_hmac object_fields [hd three_logs, last three_logs])"
proof -
  obtain a b c where p: "three_logs = [a] @ [b] @ [c]" "le_entryHmac a = ''a''" "le_entryHmac b = ''b''"
    using three_logs_parts by blast
  have "cr_valid (verifyChain time_hmac object_fields three_logs)"
    using audit_run_chain [of time_hmac "[(True, ''1'', 10, demo_event, demo_ctx), (True, ''2'', 20, demo_event, demo_ctx),
     (True, ''3'', 10, demo_event, demo_ctx)]" "new_logger []"] linked_weaken
    by (auto simp: three_logs_def verifyChain_valid new_logger_def)
  then have "\<not> cr_valid (verifyChain time_hmac object_fields [a, c])"
    using chain_cuts [of time_hmac object_fields "[a]" "[b]" "[c]"] p by simp
  then show ?thesis by (simp add: p(1))
qed

text \<open>Two entries chained to the same predecessor break the chain: two \<open>log\<close>
  calls of which the second starts before the first has been written, and a logger that is
  started anew on a file that already holds entries.\<close>

theorem al_fork:
  assumes "e1 = log_prepare hmac i1 t1 ev1 ctx1 st" and "e2 = log_prepare hmac i2 t2 ev2 ctx2 st"
    and "le_entryHmac e1 \<noteq> as_last st" and "file \<noteq> []" and "le_entryHmac (last file) \<noteq> genesis"
  shows "\<not> cr_valid (verifyChain hmac v (as_file (log_finish True e2 (log_finish True e1 st)))) \<and>
    \<not> cr_valid (verifyChain hmac v (as_file (audit_log hmac True i t ev ctx (new_logger file))))"
  using assms by (auto simp: verifyChain_valid log_finish_def linked_append audit_log_def new_logger_def)

lemma al_fork_witness:
  "\<not> cr_valid (verifyChain (\<lambda>j. ''h'') object_fields
     (as_file (audit_log (\<lambda>j. ''h'') True ''2'' 20 demo_event demo_ctx (new_logger [demo_log (\<lambda>j. ''h'') 10]))))"
proof -
  have h: "le_entryHmac (demo_log (\<lambda>j. ''h'') 10) = ''h''" by (simp add: demo_log_def hc_sign_def)
  have g: "genesis \<noteq> ''h''" by (simp add: genesis_def numeral_eq_Suc)
  show ?thesis
    using al_fork [of "demo_log (\<lambda>j. ''h'') 10" "\<lambda>j. ''h''" "''1''" 10 demo_event demo_ctx "new_logger []"
        "demo_log (\<lambda>j. ''h'') 10" "''1''" 10 demo_event demo_ctx "[demo_log (\<lambda>j. ''h'') 10]"] h g
    by (simp add: demo_log_def new_logger_def)
qed
end
