(* ===== verification/Forensics.thy ===== *)
theory Forensics
  imports Audit_Log "HOL-Library.Monad_Syntax" "HOL-Library.Multiset"
begin

text \<open>
  The stored form of log entries (\<open>LogEntrySchema\<close>, \<open>CircuitBreakerSnapshotSchema\<close>) and
  \<open>security/audit/forensics.service.ts\<close>. The file is the list of its non-blank lines, each the
  value that \<open>JSON.parse\<close> gives or \<open>None\<close> when it throws. \<open>localeCompare\<close> on ISO
  instants is the order of time; \<open>Array.sort\<close> is stable.
\<close>

subsection \<open>The schemas\<close>

fun z_snapshot :: "json option \<Rightarrow> json option" where
  "z_snapshot (Some j) = do {
     n \<leftarrow> z_string1 (jget j ''name'');
     s \<leftarrow> z_string (jget j ''state'');
     th \<leftarrow> z_posint (jget j ''threshold'');
     c \<leftarrow> z_nonnegint (jget j ''currentCount'');
     t \<leftarrow> z_datetime (jget j ''lastStateChange'');
     if s \<in> set [''CLOSED'', ''OPEN'', ''HALF_OPEN''] then
       Some (JObj [(''name'', JStr n), (''state'', JStr s), (''threshold'', JNum (of_int th)),
         (''currentCount'', JNum (of_int c)), (''lastStateChange'', JDate t)])
     else None }"
| "z_snapshot None = None"

definition parse_status :: "string \<Rightarrow> result_status option" where
  "parse_status s = find (\<lambda>t. status_str t = s) [SUCCESS, FAILURE, BLOCKED, WARNING]"

definition parse_entry :: "(string \<Rightarrow> bool) \<Rightarrow> json \<Rightarrow> log_entry option" where
  "parse_entry is_uuid j = do {
     i \<leftarrow> z_uuid is_uuid (jget j ''id'');
     c \<leftarrow> z_string (jget j ''correlationId'');
     t \<leftarrow> z_datetime (jget j ''timestamp'');
     u \<leftarrow> z_string_opt (jget j ''userId'');
     s \<leftarrow> z_string_opt (jget j ''sessionId'');
     x \<leftarrow> z_string_opt (jget j ''strategyId'');
     ty \<leftarrow> Option.bind (z_string (jget j ''eventType'')) parse_event_type;
     a \<leftarrow> z_string_opt (jget j ''actionName'');
     ps \<leftarrow> z_record (jget j ''parameters'');
     r \<leftarrow> Option.bind (z_string (jget j ''resultStatus'')) parse_status;
     l \<leftarrow> z_number (jget j ''latencyMs'');
     cb \<leftarrow> z_array z_snapshot (jget j ''circuitBreakerStates'');
     h \<leftarrow> z_string (jget j ''systemPromptHash'');
     p \<leftarrow> z_string (jget j ''previousEntryHmac'');
     m \<leftarrow> z_string (jget j ''entryHmac'');
     Some \<lparr>le_id = i, le_correlationId = c, le_timestamp = t, le_userId = u, le_sessionId = s,
       le_strategyId = x, le_eventType = ty, le_actionName = a, le_parameters = ps, le_resultStatus = r,
       le_latencyMs = l, le_circuitBreakerStates = cb, le_systemPromptHash = h,
       le_previousEntryHmac = p, le_entryHmac = m\<rparr> }"

text \<open>The line that the log writer appends, \<open>JSON.stringify(entry)\<close>: undefined properties
  are left out.\<close>

definition present :: "(string \<times> json option) list \<Rightarrow> (string \<times> json) list" where
  "present fs = concat (map (\<lambda>(k, v). case v of Some j \<Rightarrow> [(k, j)] | None \<Rightarrow> []) fs)"

definition entry_json :: "log_entry \<Rightarrow> json" where
  "entry_json e =
     JObj (present (object_fields e) @ [(''entryHmac'', JStr (le_entryHmac e))])"

subsection \<open>The service\<close>

definition readEntriesForSession :: "(string \<Rightarrow> bool) \<Rightarrow> json option list \<Rightarrow> string \<Rightarrow> log_entry list" where
  "readEntriesForSession is_uuid lines sid =
     sort_key le_timestamp
       (filter (\<lambda>e. le_sessionId e = Some sid)
          (List.map_filter (\<lambda>l. Option.bind l (parse_entry is_uuid)) lines))"

fun session_loop :: "(json \<Rightarrow> string) \<Rightarrow> nat \<Rightarrow> log_entry list \<Rightarrow> nat option" where
  "session_loop hmac i [] = None"
| "session_loop hmac i (e # es) =
     (if hc_verify hmac parsed_fields e then session_loop hmac (Suc i) es else Some i)"

definition verifySessionChain :: "(json \<Rightarrow> string) \<Rightarrow> log_entry list \<Rightarrow> chain_result" where
  "verifySessionChain hmac es =
     (case session_loop hmac 0 es of
        None \<Rightarrow> \<lparr>cr_valid = True, cr_firstInvalidIndex = None, cr_totalEntries = length es\<rparr>
      | Some i \<Rightarrow> \<lparr>cr_valid = False, cr_firstInvalidIndex = Some i, cr_totalEntries = length es\<rparr>)"

record replay_summary =
  rs_counts :: "event_type \<Rightarrow> nat option"
  rs_first :: "int option"
  rs_last :: "int option"
  rs_totalActions :: nat
  rs_blockedActions :: nat
  rs_anomaliesDetected :: nat

definition is_anomaly :: "event_type \<Rightarrow> bool" where
  "is_anomaly t = (t \<in> {ANOMALY_DETECTED, FEED_ANOMALY_DETECTED, STRATEGY_DRIFT_DETECTED})"

fun summary_loop :: "log_entry list \<Rightarrow> replay_summary \<Rightarrow> replay_summary" where
  "summary_loop [] s = s"
| "summary_loop (e # es) s =
     summary_loop es
       (s\<lparr>rs_counts := (rs_counts s)(le_eventType e \<mapsto> (case rs_counts s (le_eventType e) of Some n \<Rightarrow> n | None \<Rightarrow> 0) + 1),
          rs_totalActions := rs_totalActions s + 1,
          rs_blockedActions := rs_blockedActions s + (if le_resultStatus e = BLOCKED then 1 else 0),
          rs_anomaliesDetected := rs_anomaliesDetected s + (if is_anomaly (le_eventType e) then 1 else 0)\<rparr>)"

definition buildSummary :: "log_entry list \<Rightarrow> replay_summary" where
  "buildSummary es =
     (summary_loop es \<lparr>rs_counts = (\<lambda>_. None), rs_first = None, rs_last = None, rs_totalActions = 0,
        rs_blockedActions = 0, rs_anomaliesDetected = 0\<rparr>)
     \<lparr>rs_first := (if es = [] then None else Some (le_timestamp (hd es))),
      rs_last := (if es = [] then None else Some (le_timestamp (last es)))\<rparr>"

record session_replay =
  sr_entries :: "log_entry list"
  sr_chainValid :: bool
  sr_summary :: replay_summary

definition replay :: "(string \<Rightarrow> bool) \<Rightarrow> (json \<Rightarrow> string) \<Rightarrow> json option list \<Rightarrow> string \<Rightarrow> session_replay" where
  "replay is_uuid hmac lines sid =
     (let es = readEntriesForSession is_uuid lines sid
      in \<lparr>sr_entries = es, sr_chainValid = cr_valid (verifySessionChain hmac es), sr_summary = buildSummary es\<rparr>)"

subsection \<open>Reading back what was written\<close>

lemma parse_status_str [simp]: "parse_status (status_str t) = Some t"
  by (cases t) (simp_all add: parse_status_def)

lemma z_list_fixed: "list_all (\<lambda>x. p (Some x) = Some x) xs \<Longrightarrow> z_list p xs = Some xs"
  by (induction xs) auto

definition entry_ok :: "(string \<Rightarrow> bool) \<Rightarrow> log_entry \<Rightarrow> bool" where
  "entry_ok is_uuid e \<longleftrightarrow> is_uuid (le_id e) \<and>
     list_all (\<lambda>j. z_snapshot (Some j) = Some j) (le_circuitBreakerStates e)"

lemma map_of_absent: "k \<notin> fst ` set fs \<Longrightarrow> map_of (present fs) k = None"
  by (induction fs) (auto simp: present_def map_add_def split: option.splits)

lemma map_of_written:
  "distinct (map fst fs) \<Longrightarrow> map_of (present fs) k = (case map_of fs k of Some v \<Rightarrow> v | None \<Rightarrow> None)"
proof (induction fs)
  case (Cons x fs)
  obtain k' v where x: "x = (k', v)" by (cases x)
  then have "map_of (present fs) k' = None" using Cons.prems by (intro map_of_absent) simp
  then show ?case
    using Cons x by (auto simp: present_def map_add_def split: option.splits)
qed (simp add: present_def)

lemma entry_json_get:
  "jget (entry_json e) k = (if k = ''entryHmac'' then Some (JStr (le_entryHmac e))
     else case map_of (object_fields e) k of Some v \<Rightarrow> v | None \<Rightarrow> None)"
proof -
  have "map_of (present (object_fields e)) ''entryHmac'' = None"
    by (intro map_of_absent) (simp flip: set_map add: entry_keys_def)
  moreover have "map_of (present (object_fields e)) k = (case map_of (object_fields e) k of Some v \<Rightarrow> v | None \<Rightarrow> None)"
    by (rule map_of_written [OF object_distinct])
  ultimately show ?thesis
    by (cases "k = ''entryHmac''") (simp_all add: entry_json_def map_add_def split: option.splits)
qed

lemma z_string_opt_map [simp]: "z_string_opt (map_option JStr v) = Some v"
  by (cases v) simp_all

lemma parse_entry_written: "entry_ok is_uuid e \<Longrightarrow> parse_entry is_uuid (entry_json e) = Some e"
  by (simp add: parse_entry_def entry_json_get)
    (simp add: object_fields_def entry_ok_def z_list_fixed)

subsection \<open>Replay\<close>

lemma session_loop_None: "session_loop hmac i es = None \<longleftrightarrow> list_all (hc_verify hmac parsed_fields) es"
  by (induction es arbitrary: i) auto

lemma session_valid: "cr_valid (verifySessionChain hmac es) = list_all (hc_verify hmac parsed_fields) es"
  using session_loop_None [of hmac 0 es] by (auto simp: verifySessionChain_def split: option.split)

definition counted :: "nat \<Rightarrow> nat option" where
  "counted n = (if n = 0 then None else Some n)"

lemma counted_step [simp]: "(case counted n of Some n \<Rightarrow> n | None \<Rightarrow> 0) = n"
  by (simp add: counted_def)

lemma summary_counts:
  "rs_counts s = (\<lambda>t. counted (f t)) \<Longrightarrow>
   rs_counts (summary_loop es s) = (\<lambda>t. counted (f t + length (filter (\<lambda>e. le_eventType e = t) es)))"
proof (induction es arbitrary: s f)
  case (Cons e es)
  let ?f = "\<lambda>t. f t + (if t = le_eventType e then 1 else 0)"
  have "(rs_counts s)(le_eventType e \<mapsto> (case rs_counts s (le_eventType e) of Some n \<Rightarrow> n | None \<Rightarrow> 0) + 1) =
      (\<lambda>t. counted (?f t))"
    using Cons.prems by (auto simp: fun_eq_iff) (simp add: counted_def)
  with Cons.IH [where f = ?f] show ?case by (simp add: fun_eq_iff)
qed simp

lemma summary_numbers:
  "rs_totalActions (summary_loop es s) = rs_totalActions s + length es"
  "rs_blockedActions (summary_loop es s) =
     rs_blockedActions s + length (filter (\<lambda>e. le_resultStatus e = BLOCKED) es)"
  "rs_anomaliesDetected (summary_loop es s) =
     rs_anomaliesDetected s + length (filter (\<lambda>e. is_anomaly (le_eventType e)) es)"
  by (induction es arbitrary: s) auto

text \<open>The well-formed lines of a session.\<close>

definition session_lines :: "(string \<Rightarrow> bool) \<Rightarrow> json option list \<Rightarrow> string \<Rightarrow> log_entry list" where
  "session_lines is_uuid lines sid =
     [e. Some j \<leftarrow> lines, Some e \<leftarrow> [parse_entry is_uuid j], le_sessionId e = Some sid]"

lemma session_lines_filter:
  "filter (\<lambda>e. le_sessionId e = Some sid) (List.map_filter (\<lambda>l. Option.bind l (parse_entry is_uuid)) lines) =
   session_lines is_uuid lines sid"
  by (induction lines) (auto simp: session_lines_def map_filter_simps split: option.splits)

text \<open>A replay lists exactly the well-formed entries of the session, in order of
  time and, within one instant, in the order of the file; it is reported valid exactly when the
  HMAC of every one of them is right; and its summary counts what it lists.\<close>

theorem fr_replay:
  "(let r = replay is_uuid hmac lines sid; es = sr_entries r; s = sr_summary r
    in mset es = mset (session_lines is_uuid lines sid) \<and> sorted (map le_timestamp es) \<and>
       filter (\<lambda>e. le_timestamp e = t) es = filter (\<lambda>e. le_timestamp e = t) (session_lines is_uuid lines sid) \<and>
       sr_chainValid r = list_all (hc_verify hmac parsed_fields) es \<and>
       rs_counts s ty = counted (length (filter (\<lambda>e. le_eventType e = ty) es)) \<and>
       rs_totalActions s = length es \<and>
       rs_blockedActions s = length (filter (\<lambda>e. le_resultStatus e = BLOCKED) es) \<and>
       rs_anomaliesDetected s = length (filter (\<lambda>e. is_anomaly (le_eventType e)) es))"
  using summary_counts [where f = "\<lambda>_. 0"]
  by (simp add: replay_def readEntriesForSession_def session_lines_filter Let_def session_valid buildSummary_def
      summary_numbers sort_key_stable counted_def)

lemma session_lines_written:
  "list_all (entry_ok is_uuid) es \<Longrightarrow>
   session_lines is_uuid (map (Some \<circ> entry_json) es) sid = filter (\<lambda>e. le_sessionId e = Some sid) es"
  by (induction es) (simp_all add: session_lines_def parse_entry_written)

lemma run_parsed:
  "list_all complete_log xs \<Longrightarrow> list_all (hc_verify hmac parsed_fields) (as_file (audit_run hmac xs (new_logger [])))"
  using audit_run_chain [of hmac xs "new_logger []"] audit_run_complete [of xs "new_logger []" hmac]
    all_cong [of complete_entry "as_file (audit_run hmac xs (new_logger []))", OF _ complete_verify]
  by (auto simp: new_logger_def)

lemma three_logs_ok: "list_all (entry_ok (\<lambda>s. True)) three_logs"
  by (simp add: three_logs_def audit_log_def log_finish_def new_logger_def entry_ok_def log_prepare_def entry_body_def
      demo_ctx_def Let_def log_body.defs)

text \<open>What the log writer wrote is read back: the replay of a file of written
  entries, with damaged lines anywhere between them, lists exactly the entries of the session; when
  the logger produced them with all four optional fields the replay is valid.\<close>

theorem fr_written:
  assumes "list_all (entry_ok is_uuid) es" and "es = as_file (audit_run hmac xs (new_logger []))"
    and "list_all complete_log xs" and "filter (\<lambda>l. l \<noteq> None) lines = map (Some \<circ> entry_json) es"
  shows "mset (sr_entries (replay is_uuid hmac lines sid)) = mset (filter (\<lambda>e. le_sessionId e = Some sid) es) \<and>
    sr_chainValid (replay is_uuid hmac lines sid)"
proof -
  have "session_lines is_uuid lines sid = session_lines is_uuid (filter (\<lambda>l. l \<noteq> None) lines) sid"
    by (induction lines) (auto simp: session_lines_def)
  then have l: "session_lines is_uuid lines sid = filter (\<lambda>e. le_sessionId e = Some sid) es"
    using session_lines_written [OF assms(1)] assms(4) by simp
  have "list_all (hc_verify hmac parsed_fields) es"
    using run_parsed [OF assms(3)] by (simp add: assms(2))
  then show ?thesis
    using l by (simp add: replay_def readEntriesForSession_def session_lines_filter Let_def session_valid list_all_iff)
qed

lemma fr_written_witness:
  "sr_chainValid (replay (\<lambda>s. True) time_hmac (None # map (Some \<circ> entry_json) three_logs) ''s'')"
proof -
  have c: "list_all complete_log [(True, ''1'', 10, demo_event, demo_ctx), (True, ''2'', 20, demo_event, demo_ctx),
     (True, ''3'', 10, demo_event, demo_ctx)]"
    by (simp add: demo_event_def demo_ctx_def extractActionName_def)
  show ?thesis
    using fr_written [OF three_logs_ok three_logs_def c, of "None # map (Some \<circ> entry_json) three_logs" "''s''"]
    by (simp add: filter_id_conv)
qed

text \<open>A replay does not look at the links between entries: deleting any
  lines from the file, or moving lines, leaves a valid replay valid.\<close>

theorem fr_deletion_unseen:
  assumes "sr_chainValid (replay is_uuid hmac lines sid)" and "set lines' \<subseteq> set lines"
  shows "sr_chainValid (replay is_uuid hmac lines' sid)"
proof -
  have "set (session_lines is_uuid lines' sid) \<subseteq> set (session_lines is_uuid lines sid)"
    using assms(2) by (fastforce simp: session_lines_def split: option.splits)
  then show ?thesis
    using assms(1) by (auto simp: replay_def readEntriesForSession_def session_lines_filter Let_def session_valid list_all_iff)
qed

lemma fr_deletion_unseen_witness:
  "sr_chainValid (replay (\<lambda>s. True) time_hmac [Some (entry_json (last three_logs)), Some (entry_json (hd three_logs))] ''s'')"
proof -
  obtain a b c where p: "three_logs = [a] @ [b] @ [c]" using three_logs_parts by blast
  have "list_all complete_log [(True, ''1'', 10, demo_event, demo_ctx), (True, ''2'', 20, demo_event, demo_ctx),
     (True, ''3'', 10, demo_event, demo_ctx)]"
    by (simp add: demo_event_def demo_ctx_def extractActionName_def)
  then have "list_all (hc_verify time_hmac parsed_fields) three_logs"
    unfolding three_logs_def by (rule run_parsed)
  then have "sr_chainValid (replay (\<lambda>s. True) time_hmac (map (Some \<circ> entry_json) three_logs) ''s'')"
    by (simp add: replay_def readEntriesForSession_def session_lines_filter session_lines_written [OF three_logs_ok]
        Let_def session_valid list_all_iff)
  then show ?thesis by (rule fr_deletion_unseen) (simp add: p)
qed

end
