(* ===== verification/Market_Data.thy ===== *)
theory Market_Data
  imports Redis_Store
begin

text \<open>
  Validation of market data: \<open>security/market-data/feed.consensus.ts\<close>, \<open>anomaly.filter.ts\<close>,
  \<open>feed.signature.verifier.ts\<close> and \<open>market.data.guard.ts\<close>. The Ed25519 verification, where a
  key that cannot be read counts as a failure, and zod's test of a timestamp are parameters. The
  sources of an instrument are listed in the order of HGETALL.
\<close>

subsection \<open>What the feed components rely on\<close>

text \<open>Lists and hashes that are created without a deadline stay, and writing one kind of key
  leaves the others alone.\<close>

locale redis_feed = redis_kv R + redis_list R + redis_hash R for R :: "('s, 'z) redis_scheme" +
  assumes range_create: "rlrange R t s k = [] \<Longrightarrow> t \<le> t' \<Longrightarrow> rlrange R t' (rlpush R t k v s) k = [v]"
    and range_push_later: "rlrange R t s k \<noteq> [] \<Longrightarrow> t \<le> t' \<Longrightarrow> rlrange R t' s k \<noteq> [] \<Longrightarrow>
      rlrange R t' (rlpush R t k v s) k = v # rlrange R t' s k"
    and range_trim_later: "0 \<le> m \<Longrightarrow> t \<le> t' \<Longrightarrow>
      rlrange R t' (rltrim R t k 0 m s) k = take (nat (m + 1)) (rlrange R t' s k)"
    and all_create: "rhgetall R t s k = [] \<Longrightarrow> t \<le> t' \<Longrightarrow> rhgetall R t' (rhset R t k f v s) k = [(f, v)]"
    and all_later: "rhgetall R t s k \<noteq> [] \<Longrightarrow> t \<le> t' \<Longrightarrow> rhgetall R t' s k \<noteq> [] \<Longrightarrow>
      map_of (rhgetall R t' (rhset R t k f v s) k) = (map_of (rhgetall R t' s k))(f \<mapsto> v)"
    and get_hset: "rget R t' (rhset R t k f v s) k' = rget R t' s k'"
    and get_hdel: "rget R t' (rhdel R t k f s) k' = rget R t' s k'"
    and range_setex: "k' \<noteq> k \<Longrightarrow> rlrange R t' (rsetex R t k n v s) k' = rlrange R t' s k'"
    and range_hset: "k' \<noteq> k \<Longrightarrow> rlrange R t' (rhset R t k f v s) k' = rlrange R t' s k'"
    and range_hdel: "k' \<noteq> k \<Longrightarrow> rlrange R t' (rhdel R t k f s) k' = rlrange R t' s k'"
    and all_setex: "k' \<noteq> k \<Longrightarrow> rhgetall R t' (rsetex R t k n v s) k' = rhgetall R t' s k'"

lemma contents_later:
  "contents t e = [] \<Longrightarrow> t \<le> t' \<Longrightarrow> contents t' e = []"
  "contents t' (Some (xs, kept_coll t e)) = (if contents t e = [] \<or> contents t' e \<noteq> [] \<or> t' < t then xs else [])"
  if "t \<le> t'"
  using that by (auto simp: contents_def alive_def kept_def kept_coll_def split: option.splits)

lemma clearjunk_Nil [simp]: "AList.clearjunk xs = [] \<longleftrightarrow> xs = []"
  by (cases xs) auto

lemma contents_same: "t \<le> t' \<Longrightarrow> contents t' e \<noteq> [] \<Longrightarrow> contents t e = contents t' e"
  using contents_mono [of t t' e] by auto

interpretation mem_feed: redis_feed adapter
proof (unfold_locales, goal_cases)
  case (2 t s k t' v)
  then show ?case
    using contents_same [of t t' "m_ls s k"] by (simp add: RedisAdapter_def mem_client_def contents_later)
next
  case (3 m t t' k s)
  then show ?case
    using contents_mono [of t t' "m_ls s k"]
    by (auto simp: RedisAdapter_def mem_client_def contents_later)
next
  case (5 t s k t' f v)
  then show ?case
    using contents_same [of t t' "m_hs s k"]
    by (simp add: RedisAdapter_def mem_client_def contents_later map_of_clearjunk update_conv')
qed (simp_all add: RedisAdapter_def mem_client_def mem_put_def contents_later)

subsection \<open>Feed consensus\<close>

definition sourceKey :: "string \<Rightarrow> string \<Rightarrow> string" where
  "sourceKey instrument source = ''feed:consensus:'' @ instrument @ '':'' @ source"

definition sourcesKey :: "string \<Rightarrow> string" where
  "sourcesKey instrument = ''feed:consensus:sources:'' @ instrument"

definition priceTtlSeconds :: int where
  "priceTtlSeconds = 30"

text \<open>A price that is not a number is \<open>None\<close>.\<close>

record consensus_result =
  cs_consensus :: bool
  cs_sources :: "(string \<times> real option) list"
  cs_divergence :: "real option"

fun collect_live ::
  "('s, 'z) redis_scheme \<Rightarrow> int \<Rightarrow> string \<Rightarrow> string list \<Rightarrow> 's world \<Rightarrow>
   (string \<times> real option) list \<times> 's world" where
  "collect_live R now i [] w = ([], w)"
| "collect_live R now i (src # srcs) w =
     (case rget R now (db w) (sourceKey i src) of
        Some raw \<Rightarrow> (let (ls, w') = collect_live R now i srcs w in ((src, js_number raw) # ls, w'))
      | None \<Rightarrow> collect_live R now i srcs (with_db (rhdel R now (sourcesKey i) src) w))"

text \<open>\<open>Math.max\<close> and \<open>Math.min\<close> are NaN when an argument is.\<close>

fun all_numbers :: "real option list \<Rightarrow> real list option" where
  "all_numbers [] = Some []"
| "all_numbers (x # xs) = (case (x, all_numbers xs) of (Some r, Some rs) \<Rightarrow> Some (r # rs) | _ \<Rightarrow> None)"

definition divergencePercent :: "real list \<Rightarrow> real" where
  "divergencePercent ps =
     (let highest = Max (set ps); lowest = Min (set ps)
      in if lowest = 0 then 100 else (highest - lowest) / lowest * 100)"

definition price_json :: "real option \<Rightarrow> json" where
  "price_json p = (case p of Some r \<Rightarrow> JNum r | None \<Rightarrow> JNull)"

definition fc_check ::
  "('s, 'z) redis_scheme \<Rightarrow> config \<Rightarrow> int \<Rightarrow> string \<Rightarrow> real \<Rightarrow> string \<Rightarrow> 's world \<Rightarrow>
   consensus_result \<times> 's world" where
  "fc_check R cfg now i price src w =
     (let w1 = with_db (rsetex R now (sourceKey i src) priceTtlSeconds (JNum price)) w;
          w2 = with_db (rhset R now (sourcesKey i) src (JStr ''1'')) w1;
          (live, w3) = collect_live R now i (map fst (rhgetall R now (db w2) (sourcesKey i))) w2
      in if length live < 2 then (\<lparr>cs_consensus = True, cs_sources = live, cs_divergence = Some 0\<rparr>, w3)
         else (case all_numbers (map snd live) of
             None \<Rightarrow> (\<lparr>cs_consensus = True, cs_sources = live, cs_divergence = None\<rparr>, w3)
           | Some ps \<Rightarrow>
              (let d = divergencePercent ps; threshold = feedConsensusDivergenceThresholdPercent cfg
               in if d > threshold then
                    (\<lparr>cs_consensus = False, cs_sources = live, cs_divergence = Some d\<rparr>,
                     emit (LogEvent FEED_CONSENSUS_FAILURE HIGH
                       [(''instrument'', JStr i),
                        (''feedPrices'', JObj (map (\<lambda>(n, p). (n, price_json p)) live)),
                        (''divergencePercent'', JNum d), (''threshold'', JNum threshold)]) w3)
                  else (\<lparr>cs_consensus = True, cs_sources = live, cs_divergence = Some d\<rparr>, w3))))"

subsection \<open>The anomaly filter\<close>

record anomaly_result =
  an_anomalous :: bool
  an_mean :: "real option"
  an_stdDev :: "real option"
  an_deviations :: "real option"

definition anomalyKey :: "string \<Rightarrow> string" where
  "anomalyKey instrument = ''feed:anomaly:'' @ instrument"

definition mean_of :: "real list \<Rightarrow> real" where
  "mean_of xs = foldl (+) 0 xs / real (length xs)"

definition stdDev_of :: "real list \<Rightarrow> real" where
  "stdDev_of xs = (let m = mean_of xs in sqrt (foldl (\<lambda>s v. s + (v - m)\<^sup>2) 0 xs / real (length xs)))"

definition deviations_of :: "real list \<Rightarrow> real \<Rightarrow> real" where
  "deviations_of xs price = (let sd = stdDev_of xs in if sd = 0 then 0 else \<bar>price - mean_of xs\<bar> / sd)"

definition feed_anomaly_event :: "config \<Rightarrow> string \<Rightarrow> real list \<Rightarrow> real \<Rightarrow> effect" where
  "feed_anomaly_event cfg i xs price =
     (let m = mean_of xs; sd = stdDev_of xs; k = anomalyStdDevMultiplier cfg
      in LogEvent FEED_ANOMALY_DETECTED HIGH
        [(''feedId'', JStr i), (''instrument'', JStr i), (''currentValue'', JNum price),
         (''expectedRange'', JObj [(''low'', JNum (m - k * sd)), (''high'', JNum (m + k * sd))]),
         (''stdDevsAway'', JNum (deviations_of xs price))])"

text \<open>The verdict on a price, with the event when there is one, from the window that was read.\<close>

definition anomaly_verdict :: "config \<Rightarrow> string \<Rightarrow> real option list \<Rightarrow> real \<Rightarrow> anomaly_result \<times> effect list" where
  "anomaly_verdict cfg i window price =
     (if length window < 2 then
        (\<lparr>an_anomalous = False, an_mean = (if length window = 1 then hd window else Some price),
          an_stdDev = Some 0, an_deviations = Some 0\<rparr>, [])
      else (case all_numbers window of
          None \<Rightarrow> (\<lparr>an_anomalous = False, an_mean = None, an_stdDev = None, an_deviations = None\<rparr>, [])
        | Some xs \<Rightarrow>
           (let d = deviations_of xs price; anomalous = d > anomalyStdDevMultiplier cfg
            in (\<lparr>an_anomalous = anomalous, an_mean = Some (mean_of xs), an_stdDev = Some (stdDev_of xs),
                 an_deviations = Some d\<rparr>, if anomalous then [feed_anomaly_event cfg i xs price] else []))))"

definition af_check ::
  "('s, 'z) redis_scheme \<Rightarrow> config \<Rightarrow> int \<Rightarrow> string \<Rightarrow> real \<Rightarrow> 's world \<Rightarrow> anomaly_result \<times> 's world" where
  "af_check R cfg now i price w =
     (let window = map js_number (rlrange R now (db w) (anomalyKey i));
          (r, es) = anomaly_verdict cfg i window price;
          w1 = fold emit es w;
          w2 = with_db (rlpush R now (anomalyKey i) (JNum price)) w1
      in (r, with_db (rltrim R now (anomalyKey i) 0 (anomalyWindowSize cfg - 1)) w2))"

subsection \<open>Signatures\<close>

record data_point =
  dp_instrument :: string
  dp_price :: real
  dp_volume :: real
  dp_timestamp :: string
  dp_source :: string
  dp_signature :: "string option"

definition data_point_ok :: "(string \<Rightarrow> bool) \<Rightarrow> data_point \<Rightarrow> bool" where
  "data_point_ok is_datetime d \<longleftrightarrow>
     dp_instrument d \<noteq> [] \<and> 0 < dp_price d \<and> 0 \<le> dp_volume d \<and> is_datetime (dp_timestamp d) \<and> dp_source d \<noteq> []"

text \<open>All fields but the signature, in the order of their names.\<close>

definition buildCanonicalPayload :: "data_point \<Rightarrow> json" where
  "buildCanonicalPayload d =
     JObj [(''instrument'', JStr (dp_instrument d)), (''price'', JNum (dp_price d)),
       (''source'', JStr (dp_source d)), (''timestamp'', JStr (dp_timestamp d)), (''volume'', JNum (dp_volume d))]"

definition signature_event :: "data_point \<Rightarrow> string \<Rightarrow> effect" where
  "signature_event d reason = LogEvent FEED_SIGNATURE_INVALID HIGH
     [(''feedId'', JStr (dp_source d)), (''provider'', JStr (dp_source d)), (''reason'', JStr reason)]"

definition feed_error :: "error_code \<Rightarrow> tmpl \<Rightarrow> js_error" where
  "feed_error c m = new_error FeedError c m"

text \<open>\<open>ed25519 pem text signature\<close>; the signature is base64 text.\<close>

definition fs_verify ::
  "(string \<Rightarrow> json \<Rightarrow> string \<Rightarrow> bool) \<Rightarrow> config \<Rightarrow> data_point \<Rightarrow> 's world \<Rightarrow> (js_error + unit) \<times> 's world" where
  "fs_verify ed25519 cfg d w =
     (case map_of (feedSignaturePublicKeys cfg) (dp_source d) of
        None \<Rightarrow> (Inr (), w)
      | Some pem \<Rightarrow>
         (case dp_signature d of
            Some sig \<Rightarrow>
              if sig = [] then
                (Inl (feed_error FEED_SIGNATURE_INVALID_CODE
                   [S ''Signature missing for source \"'', S (dp_source d), S ''\"'']),
                 emit (signature_event d ''Signature missing for registered source'') w)
              else if ed25519 pem (buildCanonicalPayload d) sig then (Inr (), w)
              else
                (Inl (feed_error FEED_SIGNATURE_INVALID_CODE
                   [S ''Signature verification failed for source \"'', S (dp_source d), S ''\"'']),
                 emit (signature_event d ''Ed25519 signature verification failed'') w)
          | None \<Rightarrow>
              (Inl (feed_error FEED_SIGNATURE_INVALID_CODE
                 [S ''Signature missing for source \"'', S (dp_source d), S ''\"'']),
               emit (signature_event d ''Signature missing for registered source'') w)))"

subsection \<open>The guard\<close>

definition quarantine_key :: string where
  "quarantine_key = ''feed:quarantine''"

definition quarantine_max :: int where
  "quarantine_max = 1000"

definition data_point_json :: "data_point \<Rightarrow> json" where
  "data_point_json d =
     JObj ([(''instrument'', JStr (dp_instrument d)), (''price'', JNum (dp_price d)),
       (''volume'', JNum (dp_volume d)), (''timestamp'', JStr (dp_timestamp d)), (''source'', JStr (dp_source d))] @
       (case dp_signature d of Some sig \<Rightarrow> [(''signature'', JStr sig)] | None \<Rightarrow> []))"

definition quarantine ::
  "('s, 'z) redis_scheme \<Rightarrow> int \<Rightarrow> data_point \<Rightarrow> string \<Rightarrow> 's world \<Rightarrow> 's world" where
  "quarantine R now d reason w =
     (let entry = JObj [(''dataPoint'', data_point_json d), (''reason'', JStr reason), (''quarantinedAt'', JDate now)];
          w1 = with_db (rlpush R now quarantine_key entry) w;
          w2 = with_db (rltrim R now quarantine_key 0 (quarantine_max - 1)) w1
      in emit (LogEvent FEED_ANOMALY_DETECTED HIGH
           [(''feedId'', JStr (dp_source d)), (''instrument'', JStr (dp_instrument d)),
            (''currentValue'', JNum (dp_price d)),
            (''expectedRange'', JObj [(''low'', JNum 0), (''high'', JNum 0)]),
            (''stdDevsAway'', JNum 0), (''reason'', JStr reason)]) w2)"

record validated_point =
  vp_instrument :: string
  vp_price :: real
  vp_volume :: real
  vp_timestamp :: string
  vp_source :: string
  vp_validatedAt :: int

definition fixed2 :: "real option \<Rightarrow> chunk" where
  "fixed2 r = (case r of Some x \<Rightarrow> F x 2 | None \<Rightarrow> S ''NaN'')"

definition md_validate ::
  "('s, 'z) redis_scheme \<Rightarrow> (string \<Rightarrow> bool) \<Rightarrow> (string \<Rightarrow> json \<Rightarrow> string \<Rightarrow> bool) \<Rightarrow> config \<Rightarrow> int \<Rightarrow> data_point \<Rightarrow>
   's world \<Rightarrow> (js_error + validated_point) \<times> 's world" where
  "md_validate R is_datetime ed25519 cfg now d w =
     (if \<not> data_point_ok is_datetime d then
        (Inl (feed_error FEED_ANOMALY_DETECTED_CODE (S ''Schema validation failed: '' # error_message ZodError)),
         quarantine R now d ''Schema validation failed'' w)
      else (case fs_verify ed25519 cfg d w of
          (Inl e, w1) \<Rightarrow> (Inl e, quarantine R now d ''Signature verification failed'' w1)
        | (Inr _, w1) \<Rightarrow>
           (let (c, w2) = fc_check R cfg now (dp_instrument d) (dp_price d) (dp_source d) w1
            in if \<not> cs_consensus c then
                 (Inl (feed_error FEED_CONSENSUS_DIVERGED
                    [S ''Feed consensus failure for '', S (dp_instrument d), S '': '', fixed2 (cs_divergence c),
                     S ''% divergence'']),
                  quarantine R now d ''Feed consensus failure'' w2)
               else
                 (let (a, w3) = af_check R cfg now (dp_instrument d) (dp_price d) w2
                  in if an_anomalous a then
                       (Inl (feed_error FEED_ANOMALY_DETECTED_CODE
                          [S ''Anomaly detected for '', S (dp_instrument d), S '': '', fixed2 (an_deviations a),
                           S '' std devs away'']),
                        quarantine R now d ''Anomaly detected'' w3)
                     else
                       (Inr \<lparr>vp_instrument = dp_instrument d, vp_price = dp_price d, vp_volume = dp_volume d,
                          vp_timestamp = dp_timestamp d, vp_source = dp_source d, vp_validatedAt = now\<rparr>, w3)))))"

subsection \<open>The window of the anomaly filter\<close>

fun af_run ::
  "('s, 'z) redis_scheme \<Rightarrow> config \<Rightarrow> string \<Rightarrow> (int \<times> real) list \<Rightarrow> 's world \<Rightarrow> anomaly_result list" where
  "af_run R cfg i [] w = []"
| "af_run R cfg i ((t, p) # xs) w =
     (let (r, w') = af_check R cfg t i p w in r # af_run R cfg i xs w')"

definition stays :: "('s, 'z) redis_scheme \<Rightarrow> int \<Rightarrow> string \<Rightarrow> json list \<Rightarrow> 's \<Rightarrow> bool" where
  "stays R t k xs s \<longleftrightarrow> (\<forall>t'. t \<le> t' \<longrightarrow> rlrange R t' s k = xs)"

lemma stays_read: "stays R t k xs s \<Longrightarrow> t \<le> t' \<Longrightarrow> rlrange R t' s k = xs"
  by (simp add: stays_def)

lemma stays_later: "stays R t k xs s \<Longrightarrow> t \<le> t' \<Longrightarrow> stays R t' k xs s"
  by (simp add: stays_def)

lemma db_fold_emit [simp]: "db (fold emit es w) = db w"
  by (induction es arbitrary: w) auto

lemma out_fold_emit [simp]: "out (fold emit es w) = out w @ es"
  by (induction es arbitrary: w) auto

text \<open>The verdict of a window: the squared distance from the mean against the variance.\<close>

definition variance :: "real list \<Rightarrow> real" where
  "variance xs = (\<Sum>v\<leftarrow>xs. (v - sum_list xs / real (length xs))\<^sup>2) / real (length xs)"

definition outlier :: "real \<Rightarrow> real list \<Rightarrow> real \<Rightarrow> bool" where
  "outlier K xs p \<longleftrightarrow> 2 \<le> length xs \<and> 0 < variance xs \<and>
     K\<^sup>2 * variance xs < (p - sum_list xs / real (length xs))\<^sup>2"

lemma mean_of_sum: "mean_of xs = sum_list xs / real (length xs)"
  using foldl_sum [of "\<lambda>v. v" 0 xs] by (simp add: mean_of_def)

lemma stdDev_variance: "stdDev_of xs = sqrt (variance xs)"
  by (simp add: stdDev_of_def mean_of_sum variance_def Let_def foldl_sum)

lemma variance_nonneg: "0 \<le> variance xs"
  by (auto simp: variance_def intro!: divide_nonneg_nonneg sum_list_nonneg)

lemma deviations_exceed:
  assumes "0 < K"
  shows "deviations_of xs p > K \<longleftrightarrow> 0 < variance xs \<and> K\<^sup>2 * variance xs < (p - sum_list xs / real (length xs))\<^sup>2"
proof (cases "variance xs = 0")
  case True
  then show ?thesis using assms by (simp add: deviations_of_def stdDev_variance)
next
  case False
  then have v: "0 < variance xs" using variance_nonneg [of xs] by simp
  let ?d = "\<bar>p - sum_list xs / real (length xs)\<bar>"
  have "deviations_of xs p > K \<longleftrightarrow> K * sqrt (variance xs) < ?d"
    using v by (simp add: deviations_of_def stdDev_variance mean_of_sum Let_def pos_less_divide_eq)
  also have "\<dots> \<longleftrightarrow> (K * sqrt (variance xs))\<^sup>2 < ?d\<^sup>2"
    using assms v by (smt (verit) abs_ge_zero mult_nonneg_nonneg power2_less_imp_less power_strict_mono
        real_sqrt_ge_zero zero_less_numeral)
  finally show ?thesis using v by (simp add: power_mult_distrib)
qed

lemma all_numbers_Some [simp]: "all_numbers (map Some xs) = Some xs"
  by (induction xs) auto

lemma verdict_outlier:
  "0 < anomalyStdDevMultiplier cfg \<Longrightarrow>
   an_anomalous (fst (anomaly_verdict cfg i (map Some xs) p)) = outlier (anomalyStdDevMultiplier cfg) xs p"
  by (auto simp: anomaly_verdict_def outlier_def Let_def deviations_exceed)

lemma af_check_state:
  "fst (af_check R cfg t i p w) =
     fst (anomaly_verdict cfg i (map js_number (rlrange R t (db w) (anomalyKey i))) p)"
  "db (snd (af_check R cfg t i p w)) =
     rltrim R t (anomalyKey i) 0 (anomalyWindowSize cfg - 1) (rlpush R t (anomalyKey i) (JNum p) (db w))"
  by (simp_all add: af_check_def Let_def split_beta)

context redis_feed
begin

lemma stays_push: "stays R t k xs s \<Longrightarrow> stays R t k (v # xs) (rlpush R t k v s)"
  by (cases xs) (auto simp: stays_def range_create range_push_later)

lemma stays_trim: "0 \<le> m \<Longrightarrow> stays R t k xs s \<Longrightarrow> stays R t k (take (nat (m + 1)) xs) (rltrim R t k 0 m s)"
  by (simp add: stays_def range_trim_later)

lemma af_step:
  assumes "stays R t k (map JNum xs) (db w)" and "k = anomalyKey i" and "0 < anomalyWindowSize cfg" and "t \<le> t'"
  shows "stays R t' k (map JNum (take (nat (anomalyWindowSize cfg)) (p # xs))) (db (snd (af_check R cfg t' i p w)))"
proof -
  have "stays R t' k (JNum p # map JNum xs) (rlpush R t' k (JNum p) (db w))"
    using assms(1,4) by (intro stays_push) (rule stays_later)
  from stays_trim [OF _ this, of "anomalyWindowSize cfg - 1"] assms(3)
  show ?thesis by (simp add: af_check_state assms(2) take_map flip: list.map)
qed

lemma af_run_outlier:
  assumes "stays R t (anomalyKey i) (map JNum (take (nat (anomalyWindowSize cfg)) h)) (db w)"
    and "0 < anomalyWindowSize cfg" and "0 < anomalyStdDevMultiplier cfg" and "sorted_wrt (\<le>) (t # map fst xs)"
    and "k < length xs"
  shows "an_anomalous (af_run R cfg i xs w ! k) =
    outlier (anomalyStdDevMultiplier cfg) (take (nat (anomalyWindowSize cfg)) (rev (map snd (take k xs)) @ h)) (snd (xs ! k))"
  using assms
proof (induction xs arbitrary: t h w k)
  case (Cons x xs)
  obtain t' p where x: "x = (t', p)" by (cases x)
  have le: "t \<le> t'" using Cons.prems(4) x by simp
  show ?case
  proof (cases k)
    case 0
    have "map js_number (rlrange R t' (db w) (anomalyKey i)) = map Some (take (nat (anomalyWindowSize cfg)) h)"
      using stays_read [OF Cons.prems(1) le] by simp
    then show ?thesis
      using 0 x by (simp add: split_beta Let_def af_check_state verdict_outlier [OF Cons.prems(3)])
  next
    case (Suc j)
    have "take (nat (anomalyWindowSize cfg)) (p # take (nat (anomalyWindowSize cfg)) h) =
        take (nat (anomalyWindowSize cfg)) (p # h)"
      by (cases "nat (anomalyWindowSize cfg)") (auto simp: min_def)
    then have "stays R t' (anomalyKey i) (map JNum (take (nat (anomalyWindowSize cfg)) (p # h)))
        (db (snd (af_check R cfg t' i p w)))"
      using af_step [OF Cons.prems(1) refl Cons.prems(2) le, of p] by simp
    from Cons.IH [OF this Cons.prems(2,3)] show ?thesis
      using Suc x Cons.prems(4,5) by (simp add: split_beta Let_def)
  qed
qed simp

end

subsection \<open>The live sources\<close>

text \<open>The prices that count at the moment of a check.\<close>

definition live_price ::
  "('s, 'z) redis_scheme \<Rightarrow> int \<Rightarrow> string \<Rightarrow> string \<Rightarrow> real \<Rightarrow> 's \<Rightarrow> string \<Rightarrow> real option" where
  "live_price R now i src price s n =
     (if n = src then Some price
      else if map_of (rhgetall R now s (sourcesKey i)) n = None then None
      else Option.bind (rget R now s (sourceKey i n)) js_number)"

definition agree :: "real \<Rightarrow> real set \<Rightarrow> bool" where
  "agree threshold P \<longleftrightarrow> (\<forall>p \<in> P. \<forall>q \<in> P. (p - q) / q * 100 \<le> threshold)"

lemma ratio_mono: "0 < a \<Longrightarrow> a \<le> q \<Longrightarrow> p \<le> b \<Longrightarrow> 0 < p \<Longrightarrow> (p - q) / q * 100 \<le> (b - a) / a * (100 :: real)"
proof -
  assume a: "0 < a" "a \<le> q" "p \<le> b" "0 < p"
  then have "p / q \<le> b / a" by (intro frac_le) auto
  moreover have "(p - q) / q = p / q - 1" "(b - a) / a = b / a - 1"
    using a by (simp_all add: diff_divide_distrib)
  ultimately show ?thesis by simp
qed

lemma divergence_agree:
  assumes "ps \<noteq> []" and "\<And>p. p \<in> set ps \<Longrightarrow> 0 < p"
  shows "divergencePercent ps \<le> threshold \<longleftrightarrow> agree threshold (set ps)"
proof -
  let ?a = "Min (set ps)" and ?b = "Max (set ps)"
  have in_ps: "?a \<in> set ps" "?b \<in> set ps" using assms(1) by auto
  then have a: "0 < ?a" using assms(2) by blast
  then have "divergencePercent ps = (?b - ?a) / ?a * 100" by (simp add: divergencePercent_def Let_def)
  moreover have "(p - q) / q * 100 \<le> (?b - ?a) / ?a * 100" if "p \<in> set ps" "q \<in> set ps" for p q
    using ratio_mono [OF a, of q p ?b] that assms(2) by simp
  ultimately show ?thesis using in_ps unfolding agree_def by (metis order_trans)
qed

lemma agree_single: "0 \<le> threshold \<Longrightarrow> (\<And>p q. p \<in> P \<Longrightarrow> q \<in> P \<Longrightarrow> p = q) \<Longrightarrow> agree threshold P"
  unfolding agree_def by (metis diff_self div_0 mult_zero_left)

lemma all_numbers_map: "(\<And>x. x \<in> set xs \<Longrightarrow> f x = Some (g x)) \<Longrightarrow> all_numbers (map f xs) = Some (map g xs)"
  by (induction xs) auto

lemma sourceKey_inject [simp]: "sourceKey i a = sourceKey i b \<longleftrightarrow> a = b"
  by (simp add: sourceKey_def)

context redis_feed
begin

lemma collect_live_frame:
  "rget R t (db (snd (collect_live R now i srcs w))) k = rget R t (db w) k"
  "k \<noteq> sourcesKey i \<Longrightarrow> rlrange R t (db (snd (collect_live R now i srcs w))) k = rlrange R t (db w) k"
  "out (snd (collect_live R now i srcs w)) = out w"
  by (induction srcs arbitrary: w) (auto split: option.split simp: split_beta Let_def get_hdel range_hdel)

lemma collect_live_list:
  "fst (collect_live R now i srcs w) =
     List.map_filter (\<lambda>n. map_option (\<lambda>raw. (n, js_number raw)) (rget R now (db w) (sourceKey i n))) srcs"
  by (induction srcs arbitrary: w) (auto split: option.split simp: split_beta Let_def get_hdel map_filter_simps)

lemma collect_live_prices:
  assumes "sourcesKey i \<noteq> sourceKey i src"
    and "\<And>n v. rget R now (db w) (sourceKey i n) = Some v \<Longrightarrow> \<exists>q. v = JNum q"
    and "w2 = with_db (rhset R now (sourcesKey i) src (JStr ''1''))
      (with_db (rsetex R now (sourceKey i src) priceTtlSeconds (JNum price)) w)"
    and "ls = fst (collect_live R now i (map fst (rhgetall R now (db w2) (sourcesKey i))) w2)"
  shows "distinct (map fst ls)"
    and "(n, p) \<in> set ls \<longleftrightarrow> (\<exists>q. p = Some q \<and> live_price R now i src price (db w) n = Some q)"
proof -
  let ?names = "map fst (rhgetall R now (db w2) (sourcesKey i))"
  have read: "rget R now (db w2) (sourceKey i n) = (if n = src then Some (JNum price) else rget R now (db w) (sourceKey i n))" for n
    by (auto simp: assms(3) get_hset get_setex_live get_setex_other priceTtlSeconds_def)
  have names: "n \<in> set ?names \<longleftrightarrow> n = src \<or> map_of (rhgetall R now (db w) (sourcesKey i)) n \<noteq> None" for n
  proof -
    have "n \<in> set ?names \<longleftrightarrow> map_of (rhgetall R now (db w2) (sourcesKey i)) n \<noteq> None"
      by (simp add: map_of_eq_None_iff)
    then show ?thesis using assms(1) by (simp add: assms(3) all_hset all_setex)
  qed
  have ls: "ls = List.map_filter (\<lambda>n. map_option (\<lambda>raw. (n, js_number raw)) (rget R now (db w2) (sourceKey i n))) ?names"
    using assms(4) by (simp only: collect_live_list)
  have mem: "(n, p) \<in> set ls \<longleftrightarrow> n \<in> set ?names \<and> (\<exists>raw. rget R now (db w2) (sourceKey i n) = Some raw \<and> p = js_number raw)" for n p
    unfolding ls in_map_filter by auto
  show "(n, p) \<in> set ls \<longleftrightarrow> (\<exists>q. p = Some q \<and> live_price R now i src price (db w) n = Some q)"
    unfolding mem names read live_price_def
    using assms(2) [of n] by (cases "rget R now (db w) (sourceKey i n)") auto
  show "distinct (map fst ls)"
    unfolding ls by (intro distinct_keyed_filter all_distinct)
qed

end

lemma fc_check_split:
  assumes "w2 = with_db (rhset R now (sourcesKey i) src (JStr ''1''))
      (with_db (rsetex R now (sourceKey i src) priceTtlSeconds (JNum price)) w)"
    and "c = collect_live R now i (map fst (rhgetall R now (db w2) (sourcesKey i))) w2"
  shows "cs_sources (fst (fc_check R cfg now i price src w)) = fst c"
    and "db (snd (fc_check R cfg now i price src w)) = db (snd c)"
    and "cs_consensus (fst (fc_check R cfg now i price src w)) \<longleftrightarrow> length (fst c) < 2 \<or>
      (case all_numbers (map snd (fst c)) of None \<Rightarrow> True
       | Some ps \<Rightarrow> divergencePercent ps \<le> feedConsensusDivergenceThresholdPercent cfg)"
  unfolding fc_check_def Let_def assms(1) [symmetric] assms(2) [symmetric]
  by (auto simp: split_beta split: option.split)

lemma numbered_list:
  fixes ls :: "(string \<times> real option) list" and f :: "string \<Rightarrow> real option"
  assumes "\<And>n p. (n, p) \<in> set ls \<longleftrightarrow> (\<exists>q. p = Some q \<and> f n = Some q)"
  shows "\<exists>ps. all_numbers (map snd ls) = Some ps \<and> set ps = ran f \<and> length ps = length ls"
proof (intro exI conjI)
  show "all_numbers (map snd ls) = Some (map (the \<circ> snd) ls)"
    by (intro all_numbers_map) (auto simp: assms)
  show "set (map (the \<circ> snd) ls) = ran f"
  proof
    show "set (map (the \<circ> snd) ls) \<subseteq> ran f"
    proof
      fix q assume "q \<in> set (map (the \<circ> snd) ls)"
      then obtain n x where "(n, x) \<in> set ls" and q: "q = the x" by auto
      then have "f n = Some q" by (auto simp: assms)
      then show "q \<in> ran f" by (rule ranI)
    qed
    show "ran f \<subseteq> set (map (the \<circ> snd) ls)"
    proof
      fix q assume "q \<in> ran f"
      then obtain n where "f n = Some q" by (auto simp: ran_def)
      then have "(n, Some q) \<in> set ls" by (simp add: assms)
      then have "the (snd (n, Some q)) \<in> (\<lambda>y. the (snd y)) ` set ls" by (rule imageI)
      then show "q \<in> set (map (the \<circ> snd) ls)" by (simp add: o_def)
    qed
  qed
qed simp

lemma fc_result:
  assumes "redis_feed R" and "config_ok cfg" and "sourcesKey i \<noteq> sourceKey i src" and "0 < price"
    and "\<And>n v. rget R now (db w) (sourceKey i n) = Some v \<Longrightarrow> \<exists>q > 0. v = JNum q"
  shows "map_of (cs_sources (fst (fc_check R cfg now i price src w))) =
      (\<lambda>n. map_option Some (live_price R now i src price (db w) n)) \<and>
    cs_consensus (fst (fc_check R cfg now i price src w)) =
      agree (feedConsensusDivergenceThresholdPercent cfg) (ran (live_price R now i src price (db w)))"
proof -
  let ?live = "live_price R now i src price (db w)" and ?th = "feedConsensusDivergenceThresholdPercent cfg"
  obtain w2 c where w2: "w2 = with_db (rhset R now (sourcesKey i) src (JStr ''1''))
      (with_db (rsetex R now (sourceKey i src) priceTtlSeconds (JNum price)) w)"
    and c: "c = collect_live R now i (map fst (rhgetall R now (db w2) (sourcesKey i))) w2" by blast
  note split = fc_check_split [OF w2 c, of cfg]
  have num: "\<And>n v. rget R now (db w) (sourceKey i n) = Some v \<Longrightarrow> \<exists>q. v = JNum q" using assms(5) by blast
  have c': "fst c = fst (collect_live R now i (map fst (rhgetall R now (db w2) (sourcesKey i))) w2)" by (simp add: c)
  note prices = redis_feed.collect_live_prices [OF assms(1,3) num w2 c']
  have in_c: "(n, p) \<in> set (fst c) \<longleftrightarrow> (\<exists>q. p = Some q \<and> ?live n = Some q)" for n p
    by (rule prices(2))
  have m: "map_of (fst c) n = map_option Some (?live n)" for n
  proof (cases "?live n")
    case None
    then have "(n, x) \<notin> set (fst c)" for x by (simp add: in_c)
    then have "n \<notin> fst ` set (fst c)" by auto
    then show ?thesis using None by (simp add: map_of_eq_None_iff)
  next
    case (Some q)
    then have "(n, Some q) \<in> set (fst c)" by (simp add: in_c)
    then show ?thesis using Some map_of_eq_Some_iff [OF prices(1)] by simp
  qed
  obtain ps where nums: "all_numbers (map snd (fst c)) = Some ps" and set_ps: "set ps = ran ?live"
      and len: "length ps = length (fst c)"
    using numbered_list [OF in_c] by blast
  have pos: "0 < p" if "p \<in> set ps" for p
  proof -
    from that obtain n where n: "?live n = Some p" by (auto simp: set_ps ran_def)
    show ?thesis
    proof (cases "n = src")
      case True
      then show ?thesis using n assms(4) by (simp add: live_price_def)
    next
      case False
      then obtain v where "rget R now (db w) (sourceKey i n) = Some v" "js_number v = Some p"
        using n by (auto simp: live_price_def bind_eq_Some_conv split: if_splits)
      then show ?thesis using assms(5) by fastforce
    qed
  qed
  have "cs_consensus (fst (fc_check R cfg now i price src w)) \<longleftrightarrow> agree ?th (set ps)"
  proof (cases "length ps < 2")
    case True
    then have "p = q" if "p \<in> set ps" "q \<in> set ps" for p q using that by (cases ps; cases "tl ps") auto
    then have "agree ?th (set ps)" using assms(2) by (intro agree_single) (auto simp: config_ok_def)
    then show ?thesis using True len split(3) by simp
  next
    case False
    then have "ps \<noteq> []" by auto
    then show ?thesis using divergence_agree [OF _ pos, of ps] False len nums split(3) by simp
  qed
  then show ?thesis using m set_ps split(1) by auto
qed

text \<open>The first check of an instrument leaves its source and price.\<close>

context redis_feed
begin

lemma setex_read:
  "0 < n \<Longrightarrow> t \<le> t' \<Longrightarrow> t' \<noteq> t + n * 1000 \<Longrightarrow>
   rget R t' (rsetex R t k n v s) k' =
     (if k' = k then if t' < t + n * 1000 then Some v else None else rget R t' s k')"
  by (auto simp: get_setex_live get_setex_dead get_setex_other)

lemma fc_first:
  assumes "\<And>t. rhgetall R t (db w) (sourcesKey i) = []" and "\<And>c. sourcesKey i \<noteq> sourceKey i c" and "t \<le> t'"
  shows "rget R t' (db (snd (fc_check R cfg t i p a w))) (sourceKey i n) =
      rget R t' (rsetex R t (sourceKey i a) priceTtlSeconds (JNum p) (db w)) (sourceKey i n)"
    and "rhgetall R t' (db (snd (fc_check R cfg t i p a w))) (sourcesKey i) = [(a, JStr ''1'')]"
proof -
  let ?s = "rsetex R t (sourceKey i a) priceTtlSeconds (JNum p) (db w)"
  have none: "rhgetall R u ?s (sourcesKey i) = []" for u
    using assms(1,2) by (simp add: all_setex)
  have live: "rget R t ?s (sourceKey i a) = Some (JNum p)"
    by (simp add: get_setex_live priceTtlSeconds_def)
  have "rhgetall R u (rhset R t (sourcesKey i) a (JStr ''1'') ?s) (sourcesKey i) = [(a, JStr ''1'')]" if "t \<le> u" for u
    using none that by (simp add: all_create)
  then show "rget R t' (db (snd (fc_check R cfg t i p a w))) (sourceKey i n) = rget R t' ?s (sourceKey i n)"
    "rhgetall R t' (db (snd (fc_check R cfg t i p a w))) (sourcesKey i) = [(a, JStr ''1'')]"
    using assms(3) live by (simp_all add: fc_check_split(2) [OF refl refl] get_hset)
qed

end

text \<open>When the stored prices are positive numbers, a check lists each source that
  has reported the instrument and whose price is still alive, the reporting one with the new
  price, and reports consensus exactly when no two of these prices are further apart than the
  threshold, in per cent of the lower one.\<close>

theorem fc_exact:
  assumes "redis_feed R" and "config_ok cfg" and "sourcesKey i \<noteq> sourceKey i src" and "0 < price"
    and "\<And>n v. rget R now (db w) (sourceKey i n) = Some v \<Longrightarrow> \<exists>q > 0. v = JNum q"
  shows "map_of (cs_sources (fst (fc_check R cfg now i price src w))) =
      (\<lambda>n. map_option Some (live_price R now i src price (db w) n)) \<and>
    cs_consensus (fst (fc_check R cfg now i price src w)) =
      agree (feedConsensusDivergenceThresholdPercent cfg) (ran (live_price R now i src price (db w)))"
  using fc_result [OF assms(1-4)] assms(5) by blast

definition demo_feed :: config where
  "demo_feed = (default_config (replicate 32 (CHR ''k'')) ''admin'')\<lparr>anomalyWindowSize := 3\<rparr>"

lemma demo_feed_ok: "config_ok demo_feed"
  using default_config_ok [of "replicate 32 (CHR ''k'')" "''admin''"] by (simp add: demo_feed_def config_ok_def)

lemma fc_exact_witness:
  "cs_consensus (fst (fc_check adapter demo_feed 0 ''BTC'' 100 ''a'' mem_world))"
proof -
  have none: "rget adapter 0 (db mem_world) (sourceKey ''BTC'' n) = None" for n by simp
  have "ran (live_price adapter 0 ''BTC'' ''a'' 100 (db mem_world)) = {100}"
    unfolding ran_def live_price_def none by (auto simp: mem_eval)
  then show ?thesis
    using fc_exact [OF mem_feed.redis_feed_axioms demo_feed_ok, of "''BTC''" "''a''" 100 0 mem_world] none
    by (simp add: agree_def demo_feed_def default_config_def sourcesKey_def sourceKey_def)
qed

text \<open>Of two sources that report a fresh instrument one after the other, the
  second report is checked against the first one exactly while less than thirty seconds have
  passed; later it stands alone and is accepted whatever it is.\<close>

theorem fc_window:
  assumes "redis_feed R" and "config_ok cfg" and "\<And>t. rhgetall R t (db w) (sourcesKey i) = []"
    and "\<And>t c. rget R t (db w) (sourceKey i c) = None" and "\<And>c. sourcesKey i \<noteq> sourceKey i c"
    and "a \<noteq> b" and "0 < p" and "0 < q" and "t \<le> t'" and "t' \<noteq> t + 30000"
  shows "cs_consensus (fst (fc_check R cfg t' i q b (snd (fc_check R cfg t i p a w)))) =
    agree (feedConsensusDivergenceThresholdPercent cfg) (if t' < t + 30000 then {p, q} else {q})"
proof -
  let ?w = "snd (fc_check R cfg t i p a w)"
  note first = redis_feed.fc_first [OF assms(1,3,5,9)]
  have get: "rget R t' (db ?w) (sourceKey i n) = (if n = a \<and> t' < t + 30000 then Some (JNum p) else None)" for n
    using redis_feed.setex_read [OF assms(1) _ assms(9), where n = 30] assms(4,10)
    by (simp add: first(1) priceTtlSeconds_def)
  have "live_price R t' i b q (db ?w) =
      (\<lambda>n. if n = b then Some q else if n = a \<and> t' < t + 30000 then Some p else None)"
    by (auto simp: fun_eq_iff live_price_def first(2) get)
  then have "ran (live_price R t' i b q (db ?w)) = (if t' < t + 30000 then {p, q} else {q})"
    using assms(6) by (auto simp: ran_def)
  moreover have "\<exists>x > 0. v = JNum x" if "rget R t' (db ?w) (sourceKey i n) = Some v" for n v
    using that assms(7) by (auto simp: get split: if_splits)
  ultimately show ?thesis
    using fc_result [OF assms(1,2) assms(5) [of b] assms(8), of t' ?w] by simp
qed

lemma fc_window_witness:
  "cs_consensus (fst (fc_check adapter demo_feed 40000 ''BTC'' 500 ''b''
     (snd (fc_check adapter demo_feed 0 ''BTC'' 100 ''a'' mem_world))))"
proof -
  have none: "rhgetall adapter t (db mem_world) (sourcesKey ''BTC'') = []"
      "rget adapter t (db mem_world) (sourceKey ''BTC'' c) = None" "sourcesKey ''BTC'' \<noteq> sourceKey ''BTC'' c" for t c
    by (simp_all add: mem_eval sourcesKey_def sourceKey_def)
  have "0 \<le> feedConsensusDivergenceThresholdPercent demo_feed" using demo_feed_ok by (simp add: config_ok_def)
  then show ?thesis
    using fc_window [OF mem_feed.redis_feed_axioms demo_feed_ok none, of "''a''" "''b''" 100 500 0 40000]
    by (simp add: agree_def)
qed

lemma feed_config: "config_ok cfg \<Longrightarrow> 0 < anomalyWindowSize cfg \<and> 0 < anomalyStdDevMultiplier cfg"
  by (simp add: config_ok_def)

text \<open>On a fresh instrument, over any sequence of checks, a price is reported as
  anomalous exactly when, among at least two of the last \<open>anomalyWindowSize\<close> prices, rejected
  ones included, the variance is positive and the price is more than
  \<open>anomalyStdDevMultiplier\<close> standard deviations from their mean.\<close>

theorem af_exact:
  assumes "redis_feed R" and "config_ok cfg" and "\<And>t. rlrange R t (db w) (anomalyKey i) = []"
    and "sorted_wrt (\<le>) (map fst xs)" and "k < length xs"
  shows "an_anomalous (af_run R cfg i xs w ! k) =
    outlier (anomalyStdDevMultiplier cfg) (take (nat (anomalyWindowSize cfg)) (rev (map snd (take k xs)))) (snd (xs ! k))"
proof -
  have "stays R t (anomalyKey i) (map JNum (take (nat (anomalyWindowSize cfg)) [])) (db w)" for t
    using assms(3) by (simp add: stays_def)
  moreover have "sorted_wrt (\<le>) (fst (hd xs) # map fst xs)" using assms(4,5) by (cases xs) auto
  ultimately show ?thesis
    using redis_feed.af_run_outlier [OF assms(1) _ _ _ _ assms(5), of "fst (hd xs)" i cfg "[]" w] feed_config [OF assms(2)]
    by simp
qed

lemma af_exact_witness:
  "an_anomalous (af_run adapter demo_feed ''BTC'' [(0, 100), (1, 102), (2, 900), (3, 101)] mem_world ! 2)"
proof -
  have none: "rlrange adapter t (db mem_world) (anomalyKey ''BTC'') = []" for t by simp
  show ?thesis
    using af_exact [OF mem_feed.redis_feed_axioms demo_feed_ok none, of "[(0, 100), (1, 102), (2, 900), (3, 101)]" 2]
    by (simp add: outlier_def variance_def demo_feed_def default_config_def power2_eq_square)
qed

text \<open>After a window of equal prices every price is accepted: equal prices, submitted
  often enough to fill the window and whether accepted themselves or not, switch the filter off
  for the next price.\<close>

theorem af_flat:
  assumes "redis_feed R" and "config_ok cfg" and "stays R t (anomalyKey i) (map JNum h) (db w)"
    and "sorted_wrt (\<le>) (t # map fst (xs @ [(t', p)]))" and "list_all (\<lambda>x. snd x = q) xs"
    and "anomalyWindowSize cfg \<le> int (length xs)" and "length h \<le> nat (anomalyWindowSize cfg)"
  shows "\<not> an_anomalous (af_run R cfg i (xs @ [(t', p)]) w ! length xs)"
proof -
  let ?N = "nat (anomalyWindowSize cfg)"
  have "map snd xs = replicate (length xs) q" using assms(5) by (induction xs) auto
  moreover have "?N \<le> length xs" using assms(6) by simp
  ultimately have "take ?N (rev (map snd xs) @ h) = replicate ?N q" by simp
  moreover have "\<not> outlier K (replicate n q) p" for K n
    by (simp add: outlier_def variance_def sum_list_replicate)
  moreover have "stays R t (anomalyKey i) (map JNum (take ?N h)) (db w)" using assms(3,7) by simp
  ultimately show ?thesis
    using redis_feed.af_run_outlier [OF assms(1), of t i cfg h w "xs @ [(t', p)]" "length xs"] assms(4) feed_config [OF assms(2)]
    by simp
qed

lemma af_flat_witness:
  "\<not> an_anomalous (af_run adapter demo_feed ''BTC'' [(0, 900), (1, 900), (2, 900), (3, 1000000)] mem_world ! 3)"
  using af_flat [OF mem_feed.redis_feed_axioms demo_feed_ok, of 0 "''BTC''" "[]" mem_world "[(0, 900), (1, 900), (2, 900)]" 3 1000000 900]
  by (simp add: stays_def demo_feed_def default_config_def numeral_3_eq_3)

subsection \<open>The guard\<close>

definition signed_ok :: "(string \<Rightarrow> json \<Rightarrow> string \<Rightarrow> bool) \<Rightarrow> config \<Rightarrow> data_point \<Rightarrow> bool" where
  "signed_ok ed25519 cfg d =
     (case map_of (feedSignaturePublicKeys cfg) (dp_source d) of
        None \<Rightarrow> True
      | Some pem \<Rightarrow> (case dp_signature d of
            Some sig \<Rightarrow> sig \<noteq> [] \<and> ed25519 pem (buildCanonicalPayload d) sig
          | None \<Rightarrow> False))"

lemma fs_verify_cases:
  "is_ok (fst (fs_verify ed25519 cfg d w)) = signed_ok ed25519 cfg d"
  "signed_ok ed25519 cfg d \<Longrightarrow> fs_verify ed25519 cfg d w = (Inr (), w)"
  "db (snd (fs_verify ed25519 cfg d w)) = db w"
  by (auto simp: fs_verify_def signed_ok_def split: option.split)

definition checked :: "('s, 'z) redis_scheme \<Rightarrow> config \<Rightarrow> int \<Rightarrow> data_point \<Rightarrow> 's world \<Rightarrow> bool" where
  "checked R cfg now d w =
     (let (c, w') = fc_check R cfg now (dp_instrument d) (dp_price d) (dp_source d) w
      in cs_consensus c \<and> \<not> an_anomalous (fst (af_check R cfg now (dp_instrument d) (dp_price d) w')))"

definition quarantined :: "int \<Rightarrow> data_point \<Rightarrow> json list \<Rightarrow> json list \<Rightarrow> bool" where
  "quarantined now d old new \<longleftrightarrow> (\<exists>reason. new = take (nat quarantine_max)
     (JObj [(''dataPoint'', data_point_json d), (''reason'', JStr reason), (''quarantinedAt'', JDate now)] # old))"

lemma feed_keys:
  "quarantine_key \<noteq> sourceKey i src" "quarantine_key \<noteq> sourcesKey i" "quarantine_key \<noteq> anomalyKey i"
  by (simp_all add: quarantine_key_def sourceKey_def sourcesKey_def anomalyKey_def)

lemma validate_ok:
  "is_ok (fst (md_validate R is_datetime ed25519 cfg now d w)) \<longleftrightarrow>
     data_point_ok is_datetime d \<and> signed_ok ed25519 cfg d \<and> checked R cfg now d w"
proof (cases "data_point_ok is_datetime d \<and> signed_ok ed25519 cfg d")
  case True
  then show ?thesis by (simp add: md_validate_def checked_def fs_verify_cases(2) split_beta Let_def)
next
  case False
  then show ?thesis
    using fs_verify_cases(1) [of ed25519 cfg d w]
    by (cases "fs_verify ed25519 cfg d w") (auto simp: md_validate_def split: sum.split)
qed

context redis_feed
begin

lemma fc_check_range:
  "k \<noteq> sourcesKey i \<Longrightarrow> k \<noteq> sourceKey i src \<Longrightarrow>
   rlrange R t (db (snd (fc_check R cfg now i price src w))) k = rlrange R t (db w) k"
  by (simp add: fc_check_split(2) [OF refl refl] collect_live_frame(2) range_setex range_hset)

lemma af_check_range:
  "k \<noteq> anomalyKey i \<Longrightarrow> rlrange R t (db (snd (af_check R cfg now i price w))) k = rlrange R t (db w) k"
  by (simp add: af_check_state range_lpush_other range_ltrim_other)

lemma quarantine_range:
  "quarantined now d (rlrange R now (db w) quarantine_key) (rlrange R now (db (quarantine R now d reason w)) quarantine_key)"
  by (auto simp: quarantined_def quarantine_def Let_def range_ltrim_same range_lpush_same quarantine_max_def)

lemma validate_quarantine:
  "(if is_ok (fst (md_validate R is_datetime ed25519 cfg now d w))
    then rlrange R now (db (snd (md_validate R is_datetime ed25519 cfg now d w))) quarantine_key =
      rlrange R now (db w) quarantine_key
    else quarantined now d (rlrange R now (db w) quarantine_key)
      (rlrange R now (db (snd (md_validate R is_datetime ed25519 cfg now d w))) quarantine_key))"
proof -
  have step: "quarantined now d (rlrange R now (db w) quarantine_key)
      (rlrange R now (db (quarantine R now d reason w')) quarantine_key)"
    if "rlrange R now (db w') quarantine_key = rlrange R now (db w) quarantine_key" for reason w'
    using quarantine_range [of now d w' reason] that by simp
  show ?thesis
    by (auto simp: md_validate_def split_beta Let_def fc_check_range af_check_range feed_keys fs_verify_cases(3)
        split: sum.split prod.split intro!: step)
qed

end

text \<open>A data point is validated exactly when its shape is right, its source is
  unregistered or the signature over its other fields verifies, and both the consensus check and
  then the anomaly check accept it. Every other point, and no validated one, is put at the head of
  the quarantine list, which is cut to a thousand entries.\<close>

theorem md_exact:
  assumes "redis_feed R" and "r = md_validate R is_datetime ed25519 cfg now d w"
  shows "(is_ok (fst r) \<longleftrightarrow> data_point_ok is_datetime d \<and> signed_ok ed25519 cfg d \<and> checked R cfg now d w) \<and>
    (if is_ok (fst r) then rlrange R now (db (snd r)) quarantine_key = rlrange R now (db w) quarantine_key
     else quarantined now d (rlrange R now (db w) quarantine_key) (rlrange R now (db (snd r)) quarantine_key))"
  using validate_ok redis_feed.validate_quarantine [OF assms(1)] unfolding assms(2) by blast

definition demo_point :: data_point where
  "demo_point = \<lparr>dp_instrument = ''BTC'', dp_price = 100, dp_volume = 1, dp_timestamp = ''t'', dp_source = ''a'',
     dp_signature = None\<rparr>"

lemma md_exact_witness:
  "\<not> is_ok (fst (md_validate adapter (\<lambda>s. True) (\<lambda>k j g. False) (demo_feed\<lparr>feedSignaturePublicKeys := [(''a'', ''pem'')]\<rparr>) 0
     demo_point mem_world))"
  using md_exact [OF mem_feed.redis_feed_axioms refl, of "\<lambda>s. True" "\<lambda>k j g. False"
      "demo_feed\<lparr>feedSignaturePublicKeys := [(''a'', ''pem'')]\<rparr>" 0 demo_point mem_world]
  by (simp add: signed_ok_def demo_point_def)

text \<open>The guard does not look at the age of a data point: with any other
  well-formed timestamp an unsigned point gets the same verdict.\<close>

theorem md_no_staleness:
  assumes "is_datetime (dp_timestamp d)" and "is_datetime ts"
    and "map_of (feedSignaturePublicKeys cfg) (dp_source d) = None"
  shows "fst (md_validate R is_datetime ed25519 cfg now (d\<lparr>dp_timestamp := ts\<rparr>) w) =
    map_sum id (\<lambda>v. v\<lparr>vp_timestamp := ts\<rparr>) (fst (md_validate R is_datetime ed25519 cfg now d w))"
  using assms by (simp add: md_validate_def data_point_ok_def fs_verify_def split_beta Let_def)

lemma md_no_staleness_witness:
  "map_sum id vp_timestamp (fst (md_validate adapter (\<lambda>s. True) (\<lambda>k j g. False) demo_feed 1000000
     (demo_point\<lparr>dp_timestamp := ''1999''\<rparr>) mem_world)) = Inr ''1999''"
proof -
  have "is_ok (fst (md_validate adapter (\<lambda>s. True) (\<lambda>k j g. False) demo_feed 1000000 demo_point mem_world))"
    by (simp add: validate_ok checked_def demo_point_def data_point_ok_def signed_ok_def demo_feed_def default_config_def
        fc_check_def af_check_def anomaly_verdict_def split_beta mem_eval priceTtlSeconds_def sourceKey_def sourcesKey_def
        anomalyKey_def)
  then obtain v where "fst (md_validate adapter (\<lambda>s. True) (\<lambda>k j g. False) demo_feed 1000000 demo_point mem_world) = Inr v"
    by (metis isl_def sum.exhaust)
  then show ?thesis
    using md_no_staleness [of "\<lambda>s. True" demo_point "''1999''" demo_feed adapter "\<lambda>k j g. False" 1000000 mem_world]
    by (simp add: demo_feed_def default_config_def)
qed

end
