(* ===== verification/Drift.thy ===== *)
theory Drift
  imports Compliance
begin

text \<open>
  Strategy drift: \<open>security/anomaly/strategy.drift.detector.ts\<close>. A
  \<open>Record<string, number>\<close> is an association list without repeated keys; the instant of a
  timestamp text is a parameter, \<open>time_of\<close>.
\<close>

subsection \<open>Distributions\<close>

type_synonym dist = "(string \<times> real) list"

definition weight :: "dist \<Rightarrow> string \<Rightarrow> real" where
  "weight d k = (case map_of d k of Some v \<Rightarrow> v | None \<Rightarrow> 0)"

definition chiSquaredDistance :: "dist \<Rightarrow> dist \<Rightarrow> real" where
  "chiSquaredDistance baseline current =
     foldl (\<lambda>chiSq k.
         let b = weight baseline k; c = weight current k; denominator = b + c
         in if denominator > 0 then chiSq + (b - c)\<^sup>2 / denominator else chiSq)
       0 (remdups (map fst baseline @ map fst current))"

definition normalizeDistribution :: "dist \<Rightarrow> dist" where
  "normalizeDistribution d =
     (let total = foldl (+) 0 (map snd d)
      in if total = 0 then d else map (\<lambda>(k, v). (k, v / total)) d)"

subsection \<open>Profiles\<close>

record trade_profile =
  tp_instrumentDistribution :: dist
  tp_totalTrades :: int
  tp_averageOrderSize :: real
  tp_averageHoldTimeMinutes :: real

text \<open>The first loop: counts per instrument and the total size.\<close>

definition count_instrument :: "dist \<Rightarrow> string \<Rightarrow> dist" where
  "count_instrument d i = AList.update i (weight d i + 1) d"

text \<open>The second loop, over the trades in the order of time: the sum and number of the gaps
  between consecutive trades of one instrument.\<close>

fun hold_loop ::
  "(string \<Rightarrow> int) \<Rightarrow> executed_trade list \<Rightarrow> (string \<rightharpoonup> executed_trade) \<Rightarrow> real \<times> nat \<Rightarrow> real \<times> nat" where
  "hold_loop time_of [] prev (h, n) = (h, n)"
| "hold_loop time_of (x # xs) prev (h, n) =
     hold_loop time_of xs (prev(et_instrument x \<mapsto> x))
       (case prev (et_instrument x) of
          Some p \<Rightarrow> (h + of_int (time_of (et_timestamp x) - time_of (et_timestamp p)) / 60000, n + 1)
        | None \<Rightarrow> (h, n))"

definition computeProfile :: "(string \<Rightarrow> int) \<Rightarrow> executed_trade list \<Rightarrow> trade_profile" where
  "computeProfile time_of trades =
     (if trades = [] then
        \<lparr>tp_instrumentDistribution = [], tp_totalTrades = 0, tp_averageOrderSize = 0, tp_averageHoldTimeMinutes = 0\<rparr>
      else
        (let counts = foldl count_instrument [] (map et_instrument trades);
             totalSize = foldl (\<lambda>s x. s + et_quantity x * et_price x) 0 trades;
             sorted = sort_key (\<lambda>x. time_of (et_timestamp x)) trades;
             (holdTimeSum, holdTimeCount) = hold_loop time_of sorted (\<lambda>_. None) (0, 0)
         in \<lparr>tp_instrumentDistribution = counts, tp_totalTrades = int (length trades),
             tp_averageOrderSize = totalSize / real (length trades),
             tp_averageHoldTimeMinutes = (if holdTimeCount > 0 then holdTimeSum / real holdTimeCount else 0)\<rparr>))"

subsection \<open>Stored trades and profiles\<close>

definition read_side :: "json option \<Rightarrow> order_side option" where
  "read_side v = z_side v"

text \<open>What the detector wrote, read back; any other value is used in the wrong shape.\<close>

definition read_trade :: "json \<Rightarrow> executed_trade option" where
  "read_trade j =
     (case (map (\<lambda>k. z_string (jget j k)) [''tradeId'', ''userId'', ''strategyId'', ''instrument'', ''timestamp'',
              ''orderId'', ''settlementDate''],
            read_side (jget j ''side''),
            map (\<lambda>k. z_number (jget j k)) [''quantity'', ''price'', ''notional'']) of
        ([Some t, Some u, Some s, Some i, Some ts, Some ord, Some sd], Some side, [Some q, Some p, Some n]) \<Rightarrow>
          Some \<lparr>et_tradeId = t, et_userId = u, et_strategyId = s, et_instrument = i, et_side = side,
                et_quantity = q, et_price = p, et_notional = n, et_timestamp = ts, et_orderId = ord,
                et_settlementDate = sd\<rparr>
      | _ \<Rightarrow> None)"

definition read_trades :: "json \<Rightarrow> js_error + executed_trade list" where
  "read_trades j = (case z_array (\<lambda>v. Option.bind v read_trade) (Some j) of Some ts \<Rightarrow> Inr ts | None \<Rightarrow> Inl ShapeError)"

definition profile_json :: "trade_profile \<Rightarrow> json" where
  "profile_json p = JObj
     [(''instrumentDistribution'', JObj (map (\<lambda>(k, v). (k, JNum v)) (tp_instrumentDistribution p))),
      (''totalTrades'', JNum (of_int (tp_totalTrades p))),
      (''averageOrderSize'', JNum (tp_averageOrderSize p)),
      (''averageHoldTimeMinutes'', JNum (tp_averageHoldTimeMinutes p))]"

fun read_dist :: "(string \<times> json) list \<Rightarrow> dist option" where
  "read_dist [] = Some []"
| "read_dist ((k, v) # fs) = (case (v, read_dist fs) of (JNum r, Some d) \<Rightarrow> Some ((k, r) # d) | _ \<Rightarrow> None)"

definition read_profile :: "json \<Rightarrow> js_error + trade_profile" where
  "read_profile j =
     (case (Option.bind (z_record (jget j ''instrumentDistribution'')) read_dist, z_nonnegint (jget j ''totalTrades''),
            z_number (jget j ''averageOrderSize''), z_number (jget j ''averageHoldTimeMinutes'')) of
        (Some d, Some n, Some s, Some h) \<Rightarrow>
          Inr \<lparr>tp_instrumentDistribution = d, tp_totalTrades = n, tp_averageOrderSize = s, tp_averageHoldTimeMinutes = h\<rparr>
      | _ \<Rightarrow> Inl ShapeError)"

subsection \<open>The detector\<close>

record drift_config =
  driftThreshold :: real
  profileTtlSeconds :: int

definition tradesKey :: "string \<Rightarrow> string" where
  "tradesKey s = ''security:drift:profile:'' @ s @ '':trades''"

definition profileKey :: "string \<Rightarrow> string" where
  "profileKey s = ''security:drift:profile:'' @ s @ '':profile''"

definition thirty_days :: int where
  "thirty_days = 30 * 24 * 60 * 60 * 1000"

definition drift_ttl :: "drift_config \<Rightarrow> int" where
  "drift_ttl cfg = (if profileTtlSeconds cfg > 0 then profileTtlSeconds cfg else 30 * 24 * 60 * 60)"

definition recordTrade ::
  "('s, 'z) redis_scheme \<Rightarrow> (string \<Rightarrow> int) \<Rightarrow> drift_config \<Rightarrow> int \<Rightarrow> executed_trade \<Rightarrow> 's world \<Rightarrow>
   (js_error + unit) \<times> 's world" where
  "recordTrade R time_of cfg now trade w =
     (case (case rget R now (db w) (tradesKey (et_strategyId trade)) of
              Some existing \<Rightarrow> read_trades existing | None \<Rightarrow> Inr []) of
        Inl e \<Rightarrow> (Inl e, w)
      | Inr trades \<Rightarrow>
         (let filtered = filter (\<lambda>x. time_of (et_timestamp x) \<ge> now - thirty_days) (trades @ [trade]);
              w1 = with_db (rset R now (tradesKey (et_strategyId trade)) (JArr (map trade_json filtered)) (Some (drift_ttl cfg))) w
          in (Inr (), with_db (rset R now (profileKey (et_strategyId trade))
                (profile_json (computeProfile time_of filtered)) (Some (drift_ttl cfg))) w1)))"

record drift_result =
  dr_detected :: bool
  dr_score :: real
  dr_reasons :: "tmpl list"

text \<open>The relative deviation from the baseline; \<open>None\<close> when one of the two is not positive.\<close>

definition deviation :: "real \<Rightarrow> real \<Rightarrow> real option" where
  "deviation base cur = (if base > 0 \<and> cur > 0 then Some (\<bar>cur - base\<bar> / base) else None)"

definition deviation_score :: "real option \<Rightarrow> real" where
  "deviation_score d = (case d of Some x \<Rightarrow> min x 1 | None \<Rightarrow> 0)"

definition deviation_reason :: "string \<Rightarrow> real option \<Rightarrow> tmpl list" where
  "deviation_reason what d =
     (case d of Some x \<Rightarrow> if x > 1 / 2 then [[S what, F (x * 100) 1, S ''% from baseline'']] else [] | None \<Rightarrow> [])"

definition compositeScore :: "trade_profile \<Rightarrow> trade_profile \<Rightarrow> real" where
  "compositeScore baseline current =
     (let chiSq = chiSquaredDistance (normalizeDistribution (tp_instrumentDistribution baseline))
            (normalizeDistribution (tp_instrumentDistribution current));
          size = deviation (tp_averageOrderSize baseline) (tp_averageOrderSize current);
          hold = deviation (tp_averageHoldTimeMinutes baseline) (tp_averageHoldTimeMinutes current)
      in min (chiSq / 2) 1 * (4 / 10) + deviation_score size * (35 / 100) + deviation_score hold * (25 / 100))"

definition drift_reasons :: "trade_profile \<Rightarrow> trade_profile \<Rightarrow> tmpl list" where
  "drift_reasons baseline current =
     (let chiSq = chiSquaredDistance (normalizeDistribution (tp_instrumentDistribution baseline))
            (normalizeDistribution (tp_instrumentDistribution current))
      in (if min (chiSq / 2) 1 > 3 / 10
          then [[S ''Instrument distribution drift: chi-squared distance '', F chiSq 4]] else []) @
         deviation_reason ''Order size deviation: ''
           (deviation (tp_averageOrderSize baseline) (tp_averageOrderSize current)) @
         deviation_reason ''Hold time deviation: ''
           (deviation (tp_averageHoldTimeMinutes baseline) (tp_averageHoldTimeMinutes current)))"

definition no_drift :: drift_result where
  "no_drift = \<lparr>dr_detected = False, dr_score = 0, dr_reasons = []\<rparr>"

definition drift_verdict :: "drift_config \<Rightarrow> trade_profile \<Rightarrow> trade_profile \<Rightarrow> drift_result" where
  "drift_verdict cfg baseline current =
     (if tp_totalTrades baseline = 0 then no_drift
      else
        (let score = min (max (compositeScore baseline current) 0) 1
         in \<lparr>dr_detected = score \<ge> driftThreshold cfg, dr_score = score, dr_reasons = drift_reasons baseline current\<rparr>))"

definition drift_check ::
  "('s, 'z) redis_scheme \<Rightarrow> (string \<Rightarrow> int) \<Rightarrow> drift_config \<Rightarrow> int \<Rightarrow> string \<Rightarrow> executed_trade list \<Rightarrow> 's world \<Rightarrow>
   js_error + drift_result" where
  "drift_check R time_of cfg now strategyId recent w =
     (case rget R now (db w) (profileKey strategyId) of
        None \<Rightarrow> Inr no_drift
      | Some raw \<Rightarrow>
         (case read_profile raw of
            Inl e \<Rightarrow> Inl e
          | Inr baseline \<Rightarrow> Inr (drift_verdict cfg baseline (computeProfile time_of recent))))"

subsection \<open>The distance of two distributions\<close>

definition chi_term :: "real \<Rightarrow> real \<Rightarrow> real" where
  "chi_term b c = (if b + c > 0 then (b - c)\<^sup>2 / (b + c) else 0)"

lemma chi_foldl:
  "foldl (\<lambda>acc k. let b = weight d k; c = weight e k; m = b + c in if m > 0 then acc + (b - c)\<^sup>2 / m else acc) a ks =
     a + (\<Sum>k\<leftarrow>ks. chi_term (weight d k) (weight e k))"
  by (induction ks arbitrary: a) (auto simp: chi_term_def Let_def)

lemma chi_sum:
  "chiSquaredDistance d e = (\<Sum>k \<in> set (map fst d) \<union> set (map fst e). chi_term (weight d k) (weight e k))"
  unfolding chiSquaredDistance_def chi_foldl by (simp add: sum_list_distinct_conv_sum_set)

lemma chi_term_bounds: "0 \<le> b \<Longrightarrow> 0 \<le> c \<Longrightarrow> 0 \<le> chi_term b c \<and> chi_term b c \<le> b + c"
proof -
  assume a: "0 \<le> b" "0 \<le> c"
  have "(b - c)\<^sup>2 \<le> (b + c)\<^sup>2" using a by (intro power2_le_iff_abs_le [THEN iffD2]) auto
  then show ?thesis using a by (auto simp: chi_term_def pos_divide_le_eq power2_eq_square)
qed

lemma chi_term_top: "0 \<le> b \<Longrightarrow> 0 \<le> c \<Longrightarrow> b + c - chi_term b c = 0 \<longleftrightarrow> b = 0 \<or> c = 0"
proof (cases "b + c > 0")
  case True
  have "(b + c)\<^sup>2 - (b - c)\<^sup>2 = 4 * b * c" by (simp add: power2_eq_square algebra_simps)
  then have "b + c - chi_term b c = 4 * b * c / (b + c)"
    using True by (simp add: chi_term_def field_simps power2_eq_square)
  then show ?thesis using True by auto
qed (auto simp: chi_term_def)

lemma chi_term_sym: "chi_term b c = chi_term c b"
  by (simp add: chi_term_def add.commute power2_commute)

lemma chi_term_zero: "0 \<le> b \<Longrightarrow> 0 \<le> c \<Longrightarrow> chi_term b c = 0 \<longleftrightarrow> b = c"
  by (auto simp: chi_term_def)

text \<open>Weights that are not negative and add up to one.\<close>

definition distribution :: "dist \<Rightarrow> bool" where
  "distribution d \<longleftrightarrow> distinct (map fst d) \<and> list_all (\<lambda>(k, v). 0 \<le> v) d \<and> sum_list (map snd d) = 1"

lemma weight_nonneg: "list_all (\<lambda>(k, v). 0 \<le> v) d \<Longrightarrow> 0 \<le> weight d k"
  by (auto simp: weight_def list_all_iff split: option.split dest!: map_of_SomeD)

lemma weight_absent: "k \<notin> set (map fst d) \<Longrightarrow> weight d k = 0"
  by (simp add: weight_def map_of_eq_None_iff [THEN iffD2])

lemma weight_sum:
  assumes "distinct (map fst d)" and "finite K" and "set (map fst d) \<subseteq> K"
  shows "(\<Sum>k \<in> K. weight d k) = sum_list (map snd d)"
proof -
  have "(\<Sum>k \<in> K. weight d k) = (\<Sum>k \<in> set (map fst d). weight d k)"
    using assms(2,3) by (intro sum.mono_neutral_right) (auto intro: weight_absent)
  also have "\<dots> = (\<Sum>k\<leftarrow>map fst d. weight d k)"
    using sum_list_distinct_conv_sum_set [OF assms(1), of "weight d"] by (simp only:)
  also have "map (weight d) (map fst d) = map snd d"
    using assms(1) by (auto simp: weight_def map_of_is_SomeI)
  finally show ?thesis by simp
qed

lemma chi_range:
  assumes "distribution d" and "distribution e"
  shows "0 \<le> chiSquaredDistance d e" and "chiSquaredDistance d e \<le> 2"
proof -
  let ?K = "set (map fst d) \<union> set (map fst e)"
  have nn: "0 \<le> weight d k" "0 \<le> weight e k" for k
    using assms by (auto simp: distribution_def intro: weight_nonneg)
  have "(\<Sum>k \<in> ?K. weight d k + weight e k) = 2"
    using assms by (simp add: sum.distrib weight_sum distribution_def del: set_map)
  moreover have "0 \<le> chi_term (weight d k) (weight e k)" "chi_term (weight d k) (weight e k) \<le> weight d k + weight e k" for k
    using chi_term_bounds [OF nn] by blast+
  ultimately show "0 \<le> chiSquaredDistance d e" "chiSquaredDistance d e \<le> 2"
    unfolding chi_sum
    using sum_mono [of ?K "\<lambda>k. chi_term (weight d k) (weight e k)" "\<lambda>k. weight d k + weight e k"]
    by (auto intro: sum_nonneg)
qed

text \<open>The chi-squared distance of two distributions lies between 0 and 2, is symmetric,
  is 0 exactly for equal distributions and 2 exactly for distributions on disjoint instruments.\<close>

theorem dr_chi:
  assumes "distribution d" and "distribution e"
  shows "0 \<le> chiSquaredDistance d e \<and> chiSquaredDistance d e \<le> 2 \<and>
    chiSquaredDistance d e = chiSquaredDistance e d \<and>
    (chiSquaredDistance d e = 0) = (weight d = weight e) \<and>
    (chiSquaredDistance d e = 2) = (\<forall>k. weight d k = 0 \<or> weight e k = 0)"
proof -
  let ?K = "set (map fst d) \<union> set (map fst e)"
  let ?t = "\<lambda>k. chi_term (weight d k) (weight e k)" and ?s = "\<lambda>k. weight d k + weight e k"
  have nn: "0 \<le> weight d k" "0 \<le> weight e k" for k
    using assms by (auto simp: distribution_def intro: weight_nonneg)
  then have t: "0 \<le> ?t k" "?t k \<le> ?s k" for k using chi_term_bounds by blast+
  have s: "sum ?s ?K = 2"
    using assms by (simp add: sum.distrib weight_sum distribution_def del: set_map)
  have outside: "weight d k = 0 \<and> weight e k = 0" if "k \<notin> ?K" for k
    using that weight_absent [of k d] weight_absent [of k e] by simp
  have "sum ?t ?K = 0 \<longleftrightarrow> (\<forall>k \<in> ?K. weight d k = weight e k)"
    using t nn by (subst sum_nonneg_eq_0_iff) (auto simp: chi_term_zero)
  also have "\<dots> \<longleftrightarrow> weight d = weight e"
    unfolding fun_eq_iff using outside by metis
  finally have zero: "sum ?t ?K = 0 \<longleftrightarrow> weight d = weight e" .
  have "(\<Sum>k \<in> ?K. ?s k - ?t k) = 2 - sum ?t ?K" using s by (simp only: sum_subtractf)
  then have "sum ?t ?K = 2 \<longleftrightarrow> (\<Sum>k \<in> ?K. ?s k - ?t k) = 0" by linarith
  also have "\<dots> \<longleftrightarrow> (\<forall>k \<in> ?K. ?s k - ?t k = 0)" using t by (intro sum_nonneg_eq_0_iff) auto
  also have "\<dots> \<longleftrightarrow> (\<forall>k. weight d k = 0 \<or> weight e k = 0)"
    using outside chi_term_top [OF nn] by blast
  finally have two: "sum ?t ?K = 2 \<longleftrightarrow> (\<forall>k. weight d k = 0 \<or> weight e k = 0)" .
  have sym: "chiSquaredDistance d e = chiSquaredDistance e d"
    unfolding chi_sum by (rule sum.cong [OF Un_commute chi_term_sym])
  show ?thesis
    using zero two sym chi_range [OF assms] unfolding chi_sum by (intro conjI) blast+
qed

lemma dr_chi_witness:
  "chiSquaredDistance [(''BTC'', 1)] [(''ETH'', 1)] = 2"
proof -
  have d: "distribution [(''BTC'', 1)]" "distribution [(''ETH'', 1)]" by (simp_all add: distribution_def)
  have "weight [(''BTC'', 1)] k = 0 \<or> weight [(''ETH'', 1)] k = 0" for k by (simp add: weight_def)
  then show ?thesis using dr_chi [OF d] by blast
qed

subsection \<open>Profiles are distributions\<close>

lemma weight_update: "weight (AList.update i v d) k = (if k = i then v else weight d k)"
  by (simp add: weight_def update_conv')

lemma counts_weight:
  "weight (foldl count_instrument d is) k = weight d k + real (count_list is k)"
  by (induction "is" arbitrary: d) (auto simp: count_instrument_def weight_update)

lemma counts_distinct: "distinct (map fst d) \<Longrightarrow> distinct (map fst (foldl count_instrument d is))"
  by (induction "is" arbitrary: d) (auto simp: count_instrument_def distinct_update)

lemma counts_nonneg:
  assumes "distinct (map fst d)" and "list_all (\<lambda>(k, v). 0 \<le> v) d"
  shows "list_all (\<lambda>(k, v). 0 \<le> v) (foldl count_instrument d is)"
proof -
  have "0 \<le> v" if "(k, v) \<in> set (foldl count_instrument d is)" for k v
  proof -
    have "weight (foldl count_instrument d is) k = v"
      using that map_of_is_SomeI [OF counts_distinct [OF assms(1)]] by (simp add: weight_def)
    then show ?thesis using weight_nonneg [OF assms(2), of k] by (simp add: counts_weight)
  qed
  then show ?thesis by (auto simp: list_all_iff)
qed

lemma counts_keys: "fst ` set (foldl count_instrument d is) = fst ` set d \<union> set is"
  by (induction "is" arbitrary: d) (auto simp: count_instrument_def dom_update)

lemma counts_total:
  "distinct (map fst d) \<Longrightarrow>
   sum_list (map snd (foldl count_instrument d is)) = sum_list (map snd d) + real (length is)"
proof -
  assume d: "distinct (map fst d)"
  let ?e = "foldl count_instrument d is" and ?K = "set (map fst d) \<union> set is"
  have "sum_list (map snd ?e) = (\<Sum>k \<in> ?K. weight ?e k)"
    by (intro weight_sum [symmetric] counts_distinct d) (simp_all add: counts_keys)
  also have "\<dots> = (\<Sum>k \<in> ?K. weight d k) + real (\<Sum>k \<in> ?K. count_list is k)"
    by (simp add: counts_weight sum.distrib del: set_map)
  also have "(\<Sum>k \<in> ?K. count_list is k) = length is"
    by (rule sum_count_set) auto
  finally show ?thesis using weight_sum [OF d, of ?K] by auto
qed

lemma scaled_sum: "sum_list (map (\<lambda>v. v / t) vs) = sum_list vs / (t :: real)"
  by (induction vs) (auto simp: add_divide_distrib)

lemma weight_scaled: "weight (map (\<lambda>(k, v). (k, v / t)) d) k = weight d k / t"
  by (induction d) (auto simp: weight_def)

lemma normalized:
  assumes "distinct (map fst d)" and "list_all (\<lambda>(k, v). 0 \<le> v) d" and "0 < sum_list (map snd d)"
  shows "distribution (normalizeDistribution d)"
    and "weight (normalizeDistribution d) k = weight d k / sum_list (map snd d)"
proof -
  let ?t = "sum_list (map snd d)"
  have t: "foldl (+) 0 (map snd d) = ?t"
    using foldl_sum [of "\<lambda>v. v" 0 "map snd d"] by simp
  have n: "normalizeDistribution d = map (\<lambda>(k, v). (k, v / ?t)) d"
    using assms(3) by (simp add: normalizeDistribution_def t)
  have keys: "map fst (map (\<lambda>(k, v). (k, v / ?t)) d) = map fst d"
    by (simp add: split_beta o_def)
  have "map snd (map (\<lambda>(k, v). (k, v / ?t)) d) = map (\<lambda>v. v / ?t) (map snd d)"
    by (simp add: split_beta o_def)
  then have "sum_list (map snd (map (\<lambda>(k, v). (k, v / ?t)) d)) = 1"
    using assms(3) by (simp only: scaled_sum) simp
  moreover have "list_all (\<lambda>(k, v). 0 \<le> v) (map (\<lambda>(k, v). (k, v / ?t)) d)"
    using assms(2,3) by (auto simp: list_all_iff)
  ultimately show "distribution (normalizeDistribution d)"
    using assms(1) unfolding n distribution_def keys by (intro conjI)
  show "weight (normalizeDistribution d) k = weight d k / ?t"
    unfolding n by (rule weight_scaled)
qed

subsection \<open>The score\<close>

lemma profile_counts:
  assumes "trades \<noteq> []"
  shows "distribution (normalizeDistribution (tp_instrumentDistribution (computeProfile time_of trades)))"
proof -
  let ?d = "foldl count_instrument [] (map et_instrument trades)"
  have "distinct (map fst ?d)" "list_all (\<lambda>(k, v). 0 \<le> v) ?d" "0 < sum_list (map snd ?d)"
    using counts_distinct [of "[]"] counts_nonneg [of "[]"] counts_total [of "[]"] assms by simp_all
  then show ?thesis using assms normalized(1) by (simp add: computeProfile_def Let_def split_beta)
qed

lemma deviation_score_bounds: "0 \<le> deviation_score (deviation b c) \<and> deviation_score (deviation b c) \<le> 1"
  by (auto simp: deviation_score_def deviation_def)

lemma composite_bounds:
  assumes "distribution (normalizeDistribution (tp_instrumentDistribution b))"
    and "distribution (normalizeDistribution (tp_instrumentDistribution c))"
  shows "0 \<le> compositeScore b c \<and>
    compositeScore b c \<le> 75 / 100 + 25 / 100 * deviation_score (deviation (tp_averageHoldTimeMinutes b) (tp_averageHoldTimeMinutes c))"
proof -
  let ?chi = "chiSquaredDistance (normalizeDistribution (tp_instrumentDistribution b))
    (normalizeDistribution (tp_instrumentDistribution c))"
  have "0 \<le> min (?chi / 2) 1" "min (?chi / 2) 1 \<le> 1" using chi_range [OF assms] by simp_all
  moreover have "0 \<le> deviation_score (deviation (tp_averageOrderSize b) (tp_averageOrderSize c))"
    "deviation_score (deviation (tp_averageOrderSize b) (tp_averageOrderSize c)) \<le> 1"
    "0 \<le> deviation_score (deviation (tp_averageHoldTimeMinutes b) (tp_averageHoldTimeMinutes c))"
    using deviation_score_bounds by blast+
  ultimately show ?thesis unfolding compositeScore_def Let_def by linarith
qed

lemma hold_single: "tp_averageHoldTimeMinutes (computeProfile time_of [x]) = 0"
  by (simp add: computeProfile_def)

subsection \<open>What is stored\<close>

lemma read_trade_json [simp]: "read_trade (trade_json x) = Some x"
  by (cases "et_side x") (simp_all add: read_trade_def trade_json_def read_side_def)

lemma read_trades_json [simp]: "read_trades (JArr (map trade_json xs)) = Inr xs"
proof -
  have "z_list (\<lambda>v. Option.bind v read_trade) (map trade_json xs) = Some xs" by (induction xs) auto
  then show ?thesis by (simp add: read_trades_def)
qed

lemma read_dist_json: "read_dist (map (\<lambda>(k, v). (k, JNum v)) d) = Some d"
  by (induction d) auto

lemma read_profile_json: "0 \<le> tp_totalTrades p \<Longrightarrow> read_profile (profile_json p) = Inr p"
  by (simp add: read_profile_def profile_json_def read_dist_json)

lemma profile_total: "tp_totalTrades (computeProfile time_of xs) = int (length xs)"
  by (simp add: computeProfile_def Let_def split_beta)

lemma drift_keys [simp]: "tradesKey s \<noteq> profileKey s'"
  by (simp add: tradesKey_def profileKey_def)

fun records ::
  "('s, 'z) redis_scheme \<Rightarrow> (string \<Rightarrow> int) \<Rightarrow> drift_config \<Rightarrow> (int \<times> executed_trade) list \<Rightarrow> 's world \<Rightarrow> 's world" where
  "records R time_of cfg [] w = w"
| "records R time_of cfg ((t, x) # xs) w = records R time_of cfg xs (snd (recordTrade R time_of cfg t x w))"

definition recent_at :: "(string \<Rightarrow> int) \<Rightarrow> int \<Rightarrow> executed_trade list \<Rightarrow> executed_trade list" where
  "recent_at time_of t xs = filter (\<lambda>x. time_of (et_timestamp x) \<ge> t - thirty_days) xs"

lemma recent_twice: "t \<le> t' \<Longrightarrow> recent_at time_of t' (recent_at time_of t xs @ [x]) = recent_at time_of t' (xs @ [x])"
  by (auto simp: recent_at_def intro!: filter_cong)

text \<open>Until when the keys are readable.\<close>

definition stored_profile ::
  "('s, 'z) redis_scheme \<Rightarrow> (string \<Rightarrow> int) \<Rightarrow> drift_config \<Rightarrow> string \<Rightarrow> int \<Rightarrow> executed_trade list \<Rightarrow> 's \<Rightarrow> bool" where
  "stored_profile R time_of cfg s t xs d \<longleftrightarrow> (\<forall>t'. t \<le> t' \<longrightarrow> t' < t + drift_ttl cfg * 1000 \<longrightarrow>
     rget R t' d (tradesKey s) = Some (JArr (map trade_json (recent_at time_of t xs))) \<and>
     rget R t' d (profileKey s) = Some (profile_json (computeProfile time_of (recent_at time_of t xs))))"

lemma drift_ttl_pos: "0 < drift_ttl cfg"
  by (simp add: drift_ttl_def)

context redis_any_ttl
begin

lemma record_stored:
  assumes "(case rget R t (db w) (tradesKey (et_strategyId x)) of Some v \<Rightarrow> read_trades v | None \<Rightarrow> Inr []) = Inr xs"
  shows "stored_profile R time_of cfg (et_strategyId x) t (xs @ [x]) (db (snd (recordTrade R time_of cfg t x w)))"
  using drift_ttl_pos [of cfg] not_sym [OF drift_keys]
  by (auto simp: stored_profile_def recordTrade_def assms Let_def get_set_live get_set_other recent_at_def)

lemma records_stored:
  assumes "stored_profile R time_of cfg s t h (db w)" and "list_all (\<lambda>(t, x). et_strategyId x = s) xs"
    and "successively (\<lambda>a b. a \<le> b \<and> b < a + drift_ttl cfg * 1000) (t # map fst xs)"
  shows "stored_profile R time_of cfg s (last (t # map fst xs)) (h @ map snd xs) (db (records R time_of cfg xs w))"
  using assms
proof (induction xs arbitrary: t h w)
  case (Cons y xs)
  obtain u x where y: "y = (u, x)" by (cases y)
  have le: "t \<le> u" "u < t + drift_ttl cfg * 1000" and s: "et_strategyId x = s" using Cons.prems y by auto
  have "stored_profile R time_of cfg s u (recent_at time_of t h @ [x]) (db (snd (recordTrade R time_of cfg u x w)))"
    using Cons.prems(1) le s record_stored [of u w x "recent_at time_of t h" time_of cfg]
    by (simp add: stored_profile_def)
  then have "stored_profile R time_of cfg s u (h @ [x]) (db (snd (recordTrade R time_of cfg u x w)))"
    using recent_twice [OF le(1), of time_of h x] by (simp add: stored_profile_def)
  from Cons.IH [OF this] Cons.prems(2,3) y show ?case by simp
qed simp

end

text \<open>While the trades of a strategy are recorded without a gap longer than the
  time-to-live, a check compares the given trades with the profile of exactly the recorded trades
  that were at most thirty days old at the last recording.\<close>

theorem dr_baseline:
  assumes "redis_any_ttl R" and "rget R t (db w) (tradesKey s) = None" and "et_strategyId x = s"
    and "list_all (\<lambda>(t, x). et_strategyId x = s) xs"
    and "successively (\<lambda>a b. a \<le> b \<and> b < a + drift_ttl cfg * 1000) (t # map fst xs @ [now])"
  shows "drift_check R time_of cfg now s recent (records R time_of cfg ((t, x) # xs) w) =
    Inr (drift_verdict cfg (computeProfile time_of (recent_at time_of (last (t # map fst xs)) (x # map snd xs)))
      (computeProfile time_of recent))"
proof -
  let ?w = "records R time_of cfg ((t, x) # xs) w" and ?t = "last (t # map fst xs)"
  have "successively (\<lambda>a b. a \<le> b \<and> b < a + drift_ttl cfg * 1000) ((t # map fst xs) @ [now])"
    using assms(5) by simp
  then have alive: "successively (\<lambda>a b. a \<le> b \<and> b < a + drift_ttl cfg * 1000) (t # map fst xs)"
      "?t \<le> now" "now < ?t + drift_ttl cfg * 1000"
    unfolding successively_append_iff by auto
  have "stored_profile R time_of cfg s t [x] (db (snd (recordTrade R time_of cfg t x w)))"
    using redis_any_ttl.record_stored [OF assms(1), of t w x "[]" time_of cfg] assms(2,3) by simp
  from redis_any_ttl.records_stored [OF assms(1) this assms(4) alive(1)]
  have "stored_profile R time_of cfg s ?t (x # map snd xs) (db ?w)" by simp
  then have "rget R now (db ?w) (profileKey s) =
      Some (profile_json (computeProfile time_of (recent_at time_of ?t (x # map snd xs))))"
    using alive(2,3) unfolding stored_profile_def by blast
  then show ?thesis by (simp add: drift_check_def read_profile_json profile_total)
qed

definition demo_drift :: drift_config where
  "demo_drift = \<lparr>driftThreshold = 1 / 2, profileTtlSeconds = 2592000\<rparr>"

definition drift_trade :: "string \<Rightarrow> real \<Rightarrow> executed_trade" where
  "drift_trade i q = \<lparr>et_tradeId = ''t'', et_userId = ''u'', et_strategyId = ''s'', et_instrument = i, et_side = BUY,
     et_quantity = q, et_price = 100, et_notional = 100 * q, et_timestamp = ''now'', et_orderId = ''o'', et_settlementDate = ''d''\<rparr>"

lemma drift_demo_score:
  "compositeScore (computeProfile (\<lambda>_. 0) [drift_trade ''BTC'' 1]) (computeProfile (\<lambda>_. 0) [drift_trade ''ETH'' 9]) = 3 / 4"
  by (simp add: compositeScore_def computeProfile_def drift_trade_def normalizeDistribution_def count_instrument_def
      weight_def chiSquaredDistance_def deviation_def deviation_score_def Let_def)

lemma dr_baseline_witness:
  "map_sum id dr_score (drift_check adapter (\<lambda>_. 0) demo_drift 2 ''s'' [drift_trade ''ETH'' 9]
     (records adapter (\<lambda>_. 0) demo_drift [(1, drift_trade ''BTC'' 1)] mem_world)) = Inr (3 / 4)"
proof -
  have "recent_at (\<lambda>_. 0) 1 [drift_trade ''BTC'' 1] = [drift_trade ''BTC'' 1]"
    by (simp add: recent_at_def thirty_days_def)
  moreover have "dr_score (drift_verdict demo_drift (computeProfile (\<lambda>_. 0) [drift_trade ''BTC'' 1])
      (computeProfile (\<lambda>_. 0) [drift_trade ''ETH'' 9])) = 3 / 4"
    by (simp add: drift_verdict_def profile_total drift_demo_score)
  moreover have "et_strategyId (drift_trade ''BTC'' 1) = ''s''" by (simp add: drift_trade_def)
  ultimately show ?thesis
    using dr_baseline [OF mem.adapter.redis_any_ttl_axioms, of 1 mem_world "''s''" "drift_trade ''BTC'' 1" "[]" demo_drift 2
        "\<lambda>_. 0" "[drift_trade ''ETH'' 9]"]
    by (simp add: drift_ttl_def)
qed

text \<open>The score of a single trade, which is what the anomaly detector passes,
  is between 0 and 3/4: one trade has no hold time, so a threshold above 3/4 is never met.\<close>

theorem dr_single_bound:
  assumes "trades \<noteq> []"
  shows "0 \<le> dr_score (drift_verdict cfg (computeProfile time_of trades) (computeProfile time_of [x])) \<and>
    dr_score (drift_verdict cfg (computeProfile time_of trades) (computeProfile time_of [x])) \<le> 3 / 4"
proof -
  let ?b = "computeProfile time_of trades" and ?c = "computeProfile time_of [x]"
  have "deviation_score (deviation (tp_averageHoldTimeMinutes ?b) (tp_averageHoldTimeMinutes ?c)) = 0"
    by (simp add: hold_single deviation_def deviation_score_def)
  then have "0 \<le> compositeScore ?b ?c" "compositeScore ?b ?c \<le> 3 / 4"
    using composite_bounds [OF profile_counts [OF assms, of time_of] profile_counts [of "[x]" time_of]] by simp_all
  then show ?thesis using assms by (simp add: drift_verdict_def profile_total Let_def no_drift_def)
qed

lemma dr_single_bound_witness:
  "dr_score (drift_verdict demo_drift (computeProfile (\<lambda>_. 0) [drift_trade ''BTC'' 1])
     (computeProfile (\<lambda>_. 0) [drift_trade ''ETH'' 9])) \<le> 3 / 4"
  using dr_single_bound [of "[drift_trade ''BTC'' 1]"] by blast

end
