(* ===== verification/Anomaly_Detector.thy ===== *)
theory Anomaly_Detector
  imports Drift Market_Data
begin

text \<open>
  \<open>security/anomaly/anomaly.detector.ts\<close> and \<open>alert.bus.ts\<close>. The geolocation service is a
  parameter that may throw or know no place. The five checks of an evaluation run concurrently in
  the source; they touch different keys, so the model runs them one after the other. HTTP, mail
  and HMAC-SHA256 are parameters.
\<close>

subsection \<open>Distances\<close>

definition EARTH_RADIUS_KM :: real where
  "EARTH_RADIUS_KM = 6371"

definition toRad :: "real \<Rightarrow> real" where
  "toRad deg = deg * pi / 180"

text \<open>\<open>Math.atan2\<close> on arguments that are not negative, as here.\<close>

definition atan2 :: "real \<Rightarrow> real \<Rightarrow> real" where
  "atan2 y x = (if x > 0 then arctan (y / x) else if y > 0 then pi / 2 else 0)"

definition haversine_a :: "real \<Rightarrow> real \<Rightarrow> real \<Rightarrow> real \<Rightarrow> real" where
  "haversine_a lat1 lon1 lat2 lon2 =
     (let dLat = toRad (lat2 - lat1); dLon = toRad (lon2 - lon1)
      in (sin (dLat / 2))\<^sup>2 + cos (toRad lat1) * cos (toRad lat2) * (sin (dLon / 2))\<^sup>2)"

definition haversineDistanceKm :: "real \<Rightarrow> real \<Rightarrow> real \<Rightarrow> real \<Rightarrow> real" where
  "haversineDistanceKm lat1 lon1 lat2 lon2 =
     (let a = haversine_a lat1 lon1 lat2 lon2
      in EARTH_RADIUS_KM * (2 * atan2 (sqrt a) (sqrt (1 - a))))"

subsection \<open>Events, results and configuration\<close>

record ad_config =
  velocityMaxTradesPerMinute :: real
  highValueSpikeMultiplier :: real
  geoImpossibilityMaxKm :: real
  geoImpossibilityWindowMinutes :: real

record trade_event =
  te_trade :: executed_trade
  te_userId :: string
  te_sessionId :: string
  te_ipAddress :: string
  te_userAgent :: string
  te_deviceFingerprint :: string

datatype (plugins only: code size) detector_name =
    VELOCITY | HIGH_VALUE_SPIKE | GEO_IMPOSSIBILITY | DEVICE_FINGERPRINT_MISMATCH | STRATEGY_DRIFT

fun detector_str :: "detector_name \<Rightarrow> string" where
  "detector_str VELOCITY = ''VELOCITY''"
| "detector_str HIGH_VALUE_SPIKE = ''HIGH_VALUE_SPIKE''"
| "detector_str GEO_IMPOSSIBILITY = ''GEO_IMPOSSIBILITY''"
| "detector_str DEVICE_FINGERPRINT_MISMATCH = ''DEVICE_FINGERPRINT_MISMATCH''"
| "detector_str STRATEGY_DRIFT = ''STRATEGY_DRIFT''"

record detector_result =
  dt_detector :: detector_name
  dt_triggered :: bool
  dt_details :: tmpl
  dt_severity :: risk_level

datatype (plugins only: code size) recommended_action = ALLOW | WARN | BLOCK | KILL_SESSION

fun action_str :: "recommended_action \<Rightarrow> string" where
  "action_str ALLOW = ''ALLOW''"
| "action_str WARN = ''WARN''"
| "action_str BLOCK = ''BLOCK''"
| "action_str KILL_SESSION = ''KILL_SESSION''"

definition anomalyPrefix :: "string \<Rightarrow> string \<Rightarrow> string" where
  "anomalyPrefix kind i = ''security:anomaly:'' @ kind @ '':'' @ i"

subsection \<open>The checks\<close>

definition velocity_json :: "int \<Rightarrow> string \<Rightarrow> json" where
  "velocity_json now tradeId = JObj [(''timestamp'', JNum (of_int now)), (''tradeId'', JStr tradeId)]"

definition since :: "int \<Rightarrow> json \<Rightarrow> bool" where
  "since t raw = (case stored_num raw ''timestamp'' of Some ts \<Rightarrow> ts \<ge> of_int t | None \<Rightarrow> False)"

definition checkVelocity ::
  "('s, 'z) redis_scheme \<Rightarrow> ad_config \<Rightarrow> int \<Rightarrow> trade_event \<Rightarrow> 's world \<Rightarrow> detector_result \<times> 's world" where
  "checkVelocity R cfg now ev w =
     (let key = anomalyPrefix ''velocity'' (te_userId ev);
          w1 = with_db (rlpush R now key (velocity_json now (et_tradeId (te_trade ev)))) w;
          w2 = with_db (rltrim R now key 0 199) w1;
          recentCount = length (filter (since (now - 60000)) (rlrange R now (db w2) key));
          limit = velocityMaxTradesPerMinute cfg;
          triggered = real recentCount > limit
      in (\<lparr>dt_detector = VELOCITY, dt_triggered = triggered,
           dt_details = (if triggered
             then [S ''Velocity exceeded: '', N (real recentCount), S '' trades/minute (limit: '', N limit, S '')'']
             else [S ''Velocity normal: '', N (real recentCount), S '' trades/minute'']),
           dt_severity = (if triggered then HIGH else LOW)\<rparr>, w2))"

definition notional_json :: "int \<Rightarrow> real \<Rightarrow> json" where
  "notional_json now n = JObj [(''notional'', JNum n), (''timestamp'', JNum (of_int now))]"

text \<open>A notional that is not a number makes the average NaN, and then no comparison holds.\<close>

definition checkHighValueSpike ::
  "('s, 'z) redis_scheme \<Rightarrow> ad_config \<Rightarrow> int \<Rightarrow> trade_event \<Rightarrow> 's world \<Rightarrow> detector_result \<times> 's world" where
  "checkHighValueSpike R cfg now ev w =
     (let key = anomalyPrefix ''notionals'' (te_userId ev);
          notional = et_notional (te_trade ev);
          w1 = with_db (rlpush R now key (notional_json now notional)) w;
          w2 = with_db (rltrim R now key 0 999) w1;
          entries = filter (since (now - thirty_days)) (rlrange R now (db w2) key);
          count = length entries
      in if count \<le> 1 then
           (\<lparr>dt_detector = HIGH_VALUE_SPIKE, dt_triggered = False,
             dt_details = [S ''Insufficient history for high value comparison''], dt_severity = LOW\<rparr>, w2)
         else
           (case all_numbers (map (\<lambda>raw. stored_num raw ''notional'') entries) of
              None \<Rightarrow>
                (\<lparr>dt_detector = HIGH_VALUE_SPIKE, dt_triggered = False,
                  dt_details = [S ''Notional '', N notional, S '' within normal range (avg: NaN)''],
                  dt_severity = LOW\<rparr>, w2)
            | Some ns \<Rightarrow>
                (let avgNotional = (foldl (+) 0 ns - notional) / real (count - 1);
                     triggered = notional > avgNotional * highValueSpikeMultiplier cfg \<and> avgNotional > 0
                 in (\<lparr>dt_detector = HIGH_VALUE_SPIKE, dt_triggered = triggered,
                      dt_details = (if triggered
                        then [S ''High value spike: notional '', N notional, S '' exceeds '',
                              N (highValueSpikeMultiplier cfg), S ''x avg ('', F avgNotional 2, S '')'']
                        else [S ''Notional '', N notional, S '' within normal range (avg: '', F avgNotional 2, S '')'']),
                      dt_severity = (if triggered then HIGH else LOW)\<rparr>, w2))))"

record ip_event =
  ip_ip :: string
  ip_time :: int
  ip_lat :: real
  ip_lon :: real

definition ip_json :: "ip_event \<Rightarrow> json" where
  "ip_json e = JObj [(''ip'', JStr (ip_ip e)), (''timestamp'', JDate (ip_time e)),
     (''latitude'', JNum (ip_lat e)), (''longitude'', JNum (ip_lon e))]"

fun read_ip :: "json option \<Rightarrow> ip_event option" where
  "read_ip (Some j) =
     (case (z_string (jget j ''ip''), z_datetime (jget j ''timestamp''), z_number (jget j ''latitude''),
            z_number (jget j ''longitude'')) of
        (Some i, Some t, Some la, Some lo) \<Rightarrow> Some \<lparr>ip_ip = i, ip_time = t, ip_lat = la, ip_lon = lo\<rparr>
      | _ \<Rightarrow> None)"
| "read_ip None = None"

definition geo_hit :: "ad_config \<Rightarrow> int \<Rightarrow> ip_event \<Rightarrow> ip_event \<Rightarrow> bool" where
  "geo_hit cfg now cur prev \<longleftrightarrow>
     real_of_int (ip_time prev) \<ge> real_of_int now - geoImpossibilityWindowMinutes cfg * 60000 \<and> ip_ip prev \<noteq> ip_ip cur \<and>
     haversineDistanceKm (ip_lat prev) (ip_lon prev) (ip_lat cur) (ip_lon cur) > geoImpossibilityMaxKm cfg"

definition geo_details :: "ad_config \<Rightarrow> ip_event \<Rightarrow> ip_event \<Rightarrow> tmpl" where
  "geo_details cfg cur prev =
     [S ''Geographic impossibility: '', F (haversineDistanceKm (ip_lat prev) (ip_lon prev) (ip_lat cur) (ip_lon cur)) 0,
      S ''km between IPs '', S (ip_ip prev), S '' and '', S (ip_ip cur), S '' in '',
      N (geoImpossibilityWindowMinutes cfg), S '' minutes'']"

definition last_n :: "nat \<Rightarrow> 'a list \<Rightarrow> 'a list" where
  "last_n n xs = drop (length xs - n) xs"

definition checkGeoImpossibility ::
  "('s, 'z) redis_scheme \<Rightarrow> (string \<Rightarrow> js_error + (real \<times> real) option) \<Rightarrow> ad_config \<Rightarrow> int \<Rightarrow> trade_event \<Rightarrow>
   's world \<Rightarrow> (js_error + detector_result) \<times> 's world" where
  "checkGeoImpossibility R lookup cfg now ev w =
     (case lookup (te_ipAddress ev) of
        Inl e \<Rightarrow> (Inl e, w)
      | Inr None \<Rightarrow>
          (Inr \<lparr>dt_detector = GEO_IMPOSSIBILITY, dt_triggered = False,
             dt_details = [S ''Unable to resolve IP geolocation''], dt_severity = LOW\<rparr>, w)
      | Inr (Some (lat, lon)) \<Rightarrow>
          (let key = anomalyPrefix ''geoip'' (te_userId ev);
               cur = \<lparr>ip_ip = te_ipAddress ev, ip_time = now, ip_lat = lat, ip_lon = lon\<rparr>
           in case (case rget R now (db w) key of None \<Rightarrow> Some [] | Some raw \<Rightarrow> z_array read_ip (Some raw)) of
                None \<Rightarrow> (Inl ShapeError, w)
              | Some prevs \<Rightarrow>
                 (let hits = filter (geo_hit cfg now cur) prevs; triggered = hits \<noteq> []
                  in (Inr \<lparr>dt_detector = GEO_IMPOSSIBILITY, dt_triggered = triggered,
                        dt_details = (if triggered then geo_details cfg cur (last hits)
                          else [S ''No geographic impossibility detected'']),
                        dt_severity = (if triggered then CRITICAL else LOW)\<rparr>,
                      with_db (rset R now key (JArr (map ip_json (last_n 20 (prevs @ [cur])))) (Some 86400)) w))))"

definition session_info_json :: "trade_event \<Rightarrow> json" where
  "session_info_json ev =
     JObj [(''userAgent'', JStr (te_userAgent ev)), (''deviceFingerprint'', JStr (te_deviceFingerprint ev))]"

definition printed :: "json option \<Rightarrow> tmpl" where
  "printed v = (case v of Some j \<Rightarrow> json_chunks j | None \<Rightarrow> [S ''undefined''])"

definition changed_reason :: "string \<Rightarrow> json option \<Rightarrow> string \<Rightarrow> tmpl list" where
  "changed_reason field old new =
     (if old \<noteq> Some (JStr new)
      then [[S field, S '' changed from \"''] @ printed old @ [S ''\" to \"'', S new, S ''\"'']] else [])"

definition checkDeviceFingerprint ::
  "('s, 'z) redis_scheme \<Rightarrow> int \<Rightarrow> trade_event \<Rightarrow> 's world \<Rightarrow> detector_result \<times> 's world" where
  "checkDeviceFingerprint R now ev w =
     (let key = anomalyPrefix ''session'' (te_sessionId ev)
      in case rget R now (db w) key of
           None \<Rightarrow>
             (\<lparr>dt_detector = DEVICE_FINGERPRINT_MISMATCH, dt_triggered = False,
               dt_details = [S ''First trade in session, baseline recorded''], dt_severity = LOW\<rparr>,
              with_db (rset R now key (session_info_json ev) (Some 86400)) w)
         | Some baseline \<Rightarrow>
             (let reasons = changed_reason ''userAgent'' (jget baseline ''userAgent'') (te_userAgent ev) @
                    changed_reason ''deviceFingerprint'' (jget baseline ''deviceFingerprint'') (te_deviceFingerprint ev);
                  triggered = reasons \<noteq> []
              in (\<lparr>dt_detector = DEVICE_FINGERPRINT_MISMATCH, dt_triggered = triggered,
                   dt_details = (if triggered then S ''Device mismatch mid-session: '' # join_tmpl ''; '' reasons
                     else [S ''Device fingerprint consistent with session baseline'']),
                   dt_severity = (if triggered then HIGH else LOW)\<rparr>, w)))"

definition checkStrategyDrift ::
  "('s, 'z) redis_scheme \<Rightarrow> (string \<Rightarrow> int) \<Rightarrow> drift_config \<Rightarrow> int \<Rightarrow> trade_event \<Rightarrow> 's world \<Rightarrow>
   js_error + detector_result" where
  "checkStrategyDrift R time_of dcfg now ev w =
     (case drift_check R time_of dcfg now (et_strategyId (te_trade ev)) [te_trade ev] w of
        Inl e \<Rightarrow> Inl e
      | Inr d \<Rightarrow> Inr \<lparr>dt_detector = STRATEGY_DRIFT, dt_triggered = dr_detected d,
          dt_details = (if dr_detected d
            then [S ''Strategy drift detected (score: '', F (dr_score d) 3, S ''): ''] @ join_tmpl ''; '' (dr_reasons d)
            else [S ''No strategy drift (score: '', F (dr_score d) 3, S '')'']),
          dt_severity = (if dr_detected d then MEDIUM else LOW)\<rparr>)"

definition determineAction :: "detector_result list \<Rightarrow> recommended_action" where
  "determineAction triggered =
     (if triggered = [] then ALLOW
      else if list_ex (\<lambda>r. dt_severity r = CRITICAL) triggered then KILL_SESSION
      else if length (filter (\<lambda>r. dt_severity r = HIGH) triggered) \<ge> 2 then BLOCK
      else WARN)"

record anomaly_evaluation =
  ae_anomaliesDetected :: bool
  ae_results :: "detector_result list"
  ae_action :: recommended_action

definition anomaly_alert :: "trade_event \<Rightarrow> recommended_action \<Rightarrow> detector_result \<Rightarrow> effect" where
  "anomaly_alert ev action r = Alert (dt_severity r) ANOMALY_DETECTED (dt_details r)
     [(''userId'', JStr (te_userId ev)), (''strategyId'', JStr (et_strategyId (te_trade ev))),
      (''detector'', JStr (detector_str (dt_detector r))), (''tradeId'', JStr (et_tradeId (te_trade ev))),
      (''recommendedAction'', JStr (action_str action))]"

text \<open>When the geolocation or the drift check throws, the other checks have still done their
  writes.\<close>

definition ad_evaluate ::
  "('s, 'z) redis_scheme \<Rightarrow> (string \<Rightarrow> js_error + (real \<times> real) option) \<Rightarrow> (string \<Rightarrow> int) \<Rightarrow> ad_config \<Rightarrow>
   drift_config \<Rightarrow> int \<Rightarrow> trade_event \<Rightarrow> 's world \<Rightarrow> (js_error + anomaly_evaluation) \<times> 's world" where
  "ad_evaluate R lookup time_of cfg dcfg now ev w =
     (let (velocity, w1) = checkVelocity R cfg now ev w;
          (highValue, w2) = checkHighValueSpike R cfg now ev w1;
          (geo, w3) = checkGeoImpossibility R lookup cfg now ev w2;
          (device, w4) = checkDeviceFingerprint R now ev w3;
          drift = checkStrategyDrift R time_of dcfg now ev w4
      in case (geo, drift) of
           (Inr g, Inr d) \<Rightarrow>
             (let results = [velocity, highValue, g, device, d];
                  triggered = filter dt_triggered results;
                  action = determineAction triggered
              in (Inr \<lparr>ae_anomaliesDetected = (length triggered > 0), ae_results = results, ae_action = action\<rparr>,
                  fold emit (map (anomaly_alert ev action) triggered) w4))
         | (Inl e, _) \<Rightarrow> (Inl e, w4)
         | (_, Inl e) \<Rightarrow> (Inl e, w4))"

subsection \<open>The alert bus\<close>

record anomaly_event =
  av_eventType :: string
  av_riskLevel :: risk_level
  av_userId :: "string option"
  av_strategyId :: "string option"
  av_description :: tmpl
  av_payload :: "(string \<times> json) list"
  av_timestamp :: int

type_synonym 's consumer = "anomaly_event \<Rightarrow> 's world \<Rightarrow> (js_error + unit) \<times> 's world"

definition opt_str :: "string \<Rightarrow> string option \<Rightarrow> (string \<times> json) list" where
  "opt_str k v = (case v of Some s \<Rightarrow> [(k, JStr s)] | None \<Rightarrow> [])"

definition anomaly_event_json :: "anomaly_event \<Rightarrow> json" where
  "anomaly_event_json e = JObj
     ([(''eventType'', JStr (av_eventType e)), (''riskLevel'', JStr (risk_level_str (av_riskLevel e)))] @
      opt_str ''userId'' (av_userId e) @ opt_str ''strategyId'' (av_strategyId e) @
      [(''description'', JText (av_description e)), (''payload'', JObj (av_payload e)),
       (''timestamp'', JDate (av_timestamp e))])"

text \<open>\<open>Promise.allSettled\<close> over the consumers: the failures with the indices of those that
  failed, which go to the log.\<close>

fun ab_settle :: "nat \<Rightarrow> 's consumer list \<Rightarrow> anomaly_event \<Rightarrow> 's world \<Rightarrow> (nat \<times> js_error) list \<times> 's world" where
  "ab_settle i [] e w = ([], w)"
| "ab_settle i (c # cs) e w =
     (let (r, w1) = c e w; (fs, w2) = ab_settle (Suc i) cs e w1
      in ((case r of Inl err \<Rightarrow> (i, err) # fs | Inr _ \<Rightarrow> fs), w2))"

definition ab_emit :: "'s consumer list \<Rightarrow> anomaly_event \<Rightarrow> 's world \<Rightarrow> (nat \<times> js_error) list \<times> 's world" where
  "ab_emit cs e w = ab_settle 0 cs e w"

type_synonym 's http_post =
  "string \<Rightarrow> json \<Rightarrow> (string \<times> string) list \<Rightarrow> 's world \<Rightarrow> (js_error + int) \<times> 's world"

definition webhook_consume :: "'s http_post \<Rightarrow> (string \<Rightarrow> json \<Rightarrow> string) \<Rightarrow> string \<Rightarrow> string \<Rightarrow> 's consumer" where
  "webhook_consume post hmac url secret e w =
     (let body = anomaly_event_json e
      in apfst (map_sum id (\<lambda>_. ()))
           (post url body [(''Content-Type'', ''application/json''), (''X-Signature-SHA256'', hmac secret body)] w))"

definition slack_text :: "anomaly_event \<Rightarrow> tmpl" where
  "slack_text e = [S ''['', S (risk_level_str (av_riskLevel e)), S ''] '', S (av_eventType e), S '': ''] @ av_description e"

definition slack_consume :: "'s http_post \<Rightarrow> string \<Rightarrow> 's consumer" where
  "slack_consume post url e w =
     apfst (map_sum id (\<lambda>_. ()))
       (post url (JObj [(''text'', JText (slack_text e))]) [(''Content-Type'', ''application/json'')] w)"

definition email_consume ::
  "(string \<Rightarrow> tmpl \<Rightarrow> json \<Rightarrow> 's world \<Rightarrow> (js_error + unit) \<times> 's world) \<Rightarrow> string \<Rightarrow> 's consumer" where
  "email_consume send recipient e w =
     send recipient [S ''['', S (risk_level_str (av_riskLevel e)), S ''] Security Alert: '', S (av_eventType e)]
       (anomaly_event_json e) w"

definition log_consume ::
  "(tmpl \<Rightarrow> (string \<times> json) list \<Rightarrow> 's world \<Rightarrow> (js_error + unit) \<times> 's world) \<Rightarrow> 's consumer" where
  "log_consume audit e w =
     audit [S ''Alert: '', S (av_eventType e)]
       ([(''riskLevel'', JStr (risk_level_str (av_riskLevel e)))] @ opt_str ''userId'' (av_userId e) @
        opt_str ''strategyId'' (av_strategyId e) @
        [(''description'', JText (av_description e)), (''payload'', JObj (av_payload e)),
         (''timestamp'', JDate (av_timestamp e))]) w"

subsection \<open>The distance\<close>

lemma toRad_diff: "toRad (a - b) = toRad a - toRad b"
  by (simp add: toRad_def algebra_simps diff_divide_distrib)

lemma cos_lat: "\<bar>lat\<bar> \<le> 90 \<Longrightarrow> 0 \<le> cos (toRad lat)"
proof -
  assume a: "\<bar>lat\<bar> \<le> 90"
  have "\<bar>toRad lat\<bar> = \<bar>lat\<bar> * (pi / 180)" by (simp add: toRad_def abs_mult)
  also have "\<dots> \<le> 90 * (pi / 180)" using a by (intro mult_right_mono) auto
  finally have "- (pi / 2) \<le> toRad lat" "toRad lat \<le> pi / 2" by auto
  then show ?thesis by (rule cos_ge_zero)
qed

lemma cos_product_le: "cos x * cos y \<le> (cos ((x - y) / 2))\<^sup>2" for x y :: real
proof -
  have "cos (x - y) = 2 * (cos ((x - y) / 2))\<^sup>2 - 1"
    using cos_double_cos [of "(x - y) / 2"] by (simp only: nonzero_mult_div_cancel_left times_divide_eq_right)
  moreover have "2 * (cos x * cos y) = cos (x - y) + cos (x + y)"
    by (simp add: cos_add cos_diff)
  ultimately show ?thesis using cos_le_one [of "x + y"] by linarith
qed

lemma haversine_a_range:
  assumes "\<bar>lat1\<bar> \<le> 90" and "\<bar>lat2\<bar> \<le> 90"
  shows "0 \<le> haversine_a lat1 lon1 lat2 lon2 \<and> haversine_a lat1 lon1 lat2 lon2 \<le> 1"
proof -
  let ?p = "cos (toRad lat1) * cos (toRad lat2)" and ?s = "(sin (toRad (lon2 - lon1) / 2))\<^sup>2"
  have p: "0 \<le> ?p" using cos_lat [OF assms(1)] cos_lat [OF assms(2)] by simp
  have s: "0 \<le> ?s" "?s \<le> 1" by (simp_all add: abs_square_le_1)
  have "?p * ?s \<le> ?p" using p s mult_left_mono [of ?s 1 ?p] by simp
  also have "\<dots> \<le> (cos (toRad (lat2 - lat1) / 2))\<^sup>2"
    using cos_product_le [of "toRad lat2" "toRad lat1"] by (simp add: toRad_diff mult.commute)
  finally have "?p * ?s \<le> 1 - (sin (toRad (lat2 - lat1) / 2))\<^sup>2" by (simp add: cos_squared_eq)
  moreover have "0 \<le> ?p * ?s" using p s by simp
  ultimately show ?thesis by (simp add: haversine_a_def Let_def)
qed

lemma atan2_range: "0 \<le> y \<Longrightarrow> 0 \<le> x \<Longrightarrow> 0 \<le> atan2 y x \<and> atan2 y x \<le> pi / 2"
  using arctan_ubound [of "y / x"] by (auto simp: atan2_def zero_le_arctan_iff)

lemma haversine_a_sym: "haversine_a lat1 lon1 lat2 lon2 = haversine_a lat2 lon2 lat1 lon1"
proof -
  have "(sin (toRad (b - a) / 2))\<^sup>2 = (sin (toRad (a - b) / 2))\<^sup>2" for a b
  proof -
    have "toRad (b - a) / 2 = - (toRad (a - b) / 2)" by (simp add: toRad_diff diff_divide_distrib)
    then show ?thesis by (simp only: sin_minus power2_minus)
  qed
  then show ?thesis by (simp add: haversine_a_def Let_def mult.commute)
qed

text \<open>For latitudes within 90 degrees the distance is between 0 and half the
  circumference of the earth, symmetric, and 0 from a place to itself: a configured maximum of
  6371 pi kilometres or more can never be exceeded.\<close>

theorem hv_bounds:
  assumes "\<bar>lat1\<bar> \<le> 90" and "\<bar>lat2\<bar> \<le> 90"
  shows "0 \<le> haversineDistanceKm lat1 lon1 lat2 lon2 \<and>
    haversineDistanceKm lat1 lon1 lat2 lon2 \<le> EARTH_RADIUS_KM * pi \<and>
    haversineDistanceKm lat1 lon1 lat2 lon2 = haversineDistanceKm lat2 lon2 lat1 lon1 \<and>
    haversineDistanceKm lat1 lon1 lat1 lon1 = 0"
proof -
  let ?a = "haversine_a lat1 lon1 lat2 lon2"
  have "0 \<le> atan2 (sqrt ?a) (sqrt (1 - ?a))" "atan2 (sqrt ?a) (sqrt (1 - ?a)) \<le> pi / 2"
    using atan2_range [of "sqrt ?a" "sqrt (1 - ?a)"] haversine_a_range [OF assms, of lon1 lon2] by simp_all
  moreover have "haversineDistanceKm lat1 lon1 lat1 lon1 = 0"
    by (simp add: haversineDistanceKm_def haversine_a_def toRad_def atan2_def)
  ultimately show ?thesis
    using haversine_a_sym [of lat1 lon1 lat2 lon2] by (simp add: haversineDistanceKm_def EARTH_RADIUS_KM_def Let_def)
qed

lemma hv_bounds_witness: "haversineDistanceKm 48 2 40 (-74) \<le> EARTH_RADIUS_KM * pi"
  using hv_bounds [of 48 40 2 "-74"] by simp

subsection \<open>The recommended action\<close>

definition fired :: "anomaly_evaluation \<Rightarrow> detector_name \<Rightarrow> bool" where
  "fired e d = list_ex (\<lambda>r. dt_detector r = d \<and> dt_triggered r) (ae_results e)"

definition shaped :: "detector_name \<Rightarrow> risk_level \<Rightarrow> detector_result \<Rightarrow> bool" where
  "shaped d l r \<longleftrightarrow> dt_detector r = d \<and> dt_severity r = (if dt_triggered r then l else LOW)"

lemma checks_shaped:
  "shaped VELOCITY HIGH (fst (checkVelocity R cfg now ev w))"
  "shaped HIGH_VALUE_SPIKE HIGH (fst (checkHighValueSpike R cfg now ev w))"
  "fst (checkGeoImpossibility R lookup cfg now ev w) = Inr r \<Longrightarrow> shaped GEO_IMPOSSIBILITY CRITICAL r"
  "shaped DEVICE_FINGERPRINT_MISMATCH HIGH (fst (checkDeviceFingerprint R now ev w))"
  "checkStrategyDrift R time_of dcfg now ev w = Inr r \<Longrightarrow> shaped STRATEGY_DRIFT MEDIUM r"
  by (auto simp: shaped_def checkVelocity_def checkHighValueSpike_def checkGeoImpossibility_def
      checkDeviceFingerprint_def checkStrategyDrift_def Let_def split: option.splits sum.splits prod.splits)

lemma ad_evaluate_ok:
  assumes "ad_evaluate R lookup time_of cfg dcfg now ev w = (Inr e, w')"
  obtains v h g d s where "ae_results e = [v, h, g, d, s]" and "shaped VELOCITY HIGH v" and "shaped HIGH_VALUE_SPIKE HIGH h"
    and "shaped GEO_IMPOSSIBILITY CRITICAL g" and "shaped DEVICE_FINGERPRINT_MISMATCH HIGH d" and "shaped STRATEGY_DRIFT MEDIUM s"
    and "ae_action e = determineAction (filter dt_triggered (ae_results e))"
    and "ae_anomaliesDetected e = (filter dt_triggered (ae_results e) \<noteq> [])"
proof -
  let ?v = "checkVelocity R cfg now ev w"
  let ?h = "checkHighValueSpike R cfg now ev (snd ?v)"
  let ?g = "checkGeoImpossibility R lookup cfg now ev (snd ?h)"
  let ?d = "checkDeviceFingerprint R now ev (snd ?g)"
  let ?s = "checkStrategyDrift R time_of dcfg now ev (snd ?d)"
  obtain g s where g: "fst ?g = Inr g" and s: "?s = Inr s"
    and e: "e = \<lparr>ae_anomaliesDetected = (length (filter dt_triggered [fst ?v, fst ?h, g, fst ?d, s]) > 0),
        ae_results = [fst ?v, fst ?h, g, fst ?d, s],
        ae_action = determineAction (filter dt_triggered [fst ?v, fst ?h, g, fst ?d, s])\<rparr>"
    using assms unfolding ad_evaluate_def Let_def split_beta
    by (cases "fst ?g"; cases "?s") (simp_all del: filter.simps)
  show ?thesis
    using that [of "fst ?v" "fst ?h" g "fst ?d" s] checks_shaped(5) [OF s] checks_shaped(3) [OF g]
    unfolding e by (simp add: checks_shaped(1,2,4))
qed

text \<open>An evaluation that does not throw recommends to kill the session exactly when
  the geographic check fired, to block when it did not and at least two of the velocity, spike and
  device checks fired, to allow when nothing fired, and to warn otherwise.\<close>

theorem ad_actions:
  assumes "ad_evaluate R lookup time_of cfg dcfg now ev w = (Inr e, w')"
  shows "ae_action e =
    (if fired e GEO_IMPOSSIBILITY then KILL_SESSION
     else if length (filter (fired e) [VELOCITY, HIGH_VALUE_SPIKE, DEVICE_FINGERPRINT_MISMATCH]) \<ge> 2 then BLOCK
     else if ae_anomaliesDetected e then WARN else ALLOW) \<and>
    ae_anomaliesDetected e = list_ex (fired e)
      [VELOCITY, HIGH_VALUE_SPIKE, GEO_IMPOSSIBILITY, DEVICE_FINGERPRINT_MISMATCH, STRATEGY_DRIFT]"
proof -
  obtain v h g d s where e: "ae_results e = [v, h, g, d, s]" and f: "shaped VELOCITY HIGH v" "shaped HIGH_VALUE_SPIKE HIGH h"
      "shaped GEO_IMPOSSIBILITY CRITICAL g" "shaped DEVICE_FINGERPRINT_MISMATCH HIGH d" "shaped STRATEGY_DRIFT MEDIUM s"
    and a: "ae_action e = determineAction (filter dt_triggered (ae_results e))"
    and n: "ae_anomaliesDetected e = (filter dt_triggered (ae_results e) \<noteq> [])"
    by (rule ad_evaluate_ok [OF assms])
  have "fired e VELOCITY = dt_triggered v" "fired e HIGH_VALUE_SPIKE = dt_triggered h"
      "fired e GEO_IMPOSSIBILITY = dt_triggered g" "fired e DEVICE_FINGERPRINT_MISMATCH = dt_triggered d"
      "fired e STRATEGY_DRIFT = dt_triggered s"
    using f by (simp_all add: fired_def e shaped_def)
  then show ?thesis
    using f by (simp add: a n e determineAction_def shaped_def)
qed

definition demo_ad :: ad_config where
  "demo_ad = \<lparr>velocityMaxTradesPerMinute = 1, highValueSpikeMultiplier = 5, geoImpossibilityMaxKm = 500,
     geoImpossibilityWindowMinutes = 60\<rparr>"

definition demo_te :: "string \<Rightarrow> trade_event" where
  "demo_te ip = \<lparr>te_trade = drift_trade ''BTC'' 1, te_userId = ''u'', te_sessionId = ''s'', te_ipAddress = ip,
     te_userAgent = ''ua'', te_deviceFingerprint = ''fp''\<rparr>"

lemma ad_actions_witness:
  "map_sum id ae_action (fst (ad_evaluate adapter (\<lambda>ip. Inr None) (\<lambda>_. 0) demo_ad demo_drift 0 (demo_te ''1'') mem_world)) = Inr ALLOW"
proof -
  obtain e w' where e: "ad_evaluate adapter (\<lambda>ip. Inr None) (\<lambda>_. 0) demo_ad demo_drift 0 (demo_te ''1'') mem_world = (Inr e, w')"
    and r: "filter dt_triggered (ae_results e) = []"
    by (simp add: ad_evaluate_def checkVelocity_def checkHighValueSpike_def checkGeoImpossibility_def demo_ad_def demo_te_def
        checkDeviceFingerprint_def checkStrategyDrift_def drift_check_def mem_eval no_drift_def velocity_json_def
        notional_json_def since_def stored_num_def drift_trade_def anomalyPrefix_def profileKey_def thirty_days_def)
  then have "\<not> fired e d" for d by (auto simp: fired_def list_ex_iff filter_empty_conv)
  then show ?thesis using ad_actions [OF e] e by simp
qed

subsection \<open>Histories\<close>

text \<open>Prepending and trimming, over any sequence of times.\<close>

context redis_feed
begin

lemma push_trim:
  assumes "stays R t k (map f (take m h)) s" and "t \<le> t'" and "0 < m"
  shows "stays R t' k (map f (take m (x # h))) (rltrim R t' k 0 (int m - 1) (rlpush R t' k (f x) s))"
proof -
  have "stays R t' k (f x # map f (take m h)) (rlpush R t' k (f x) s)"
    using assms(1,2) by (intro stays_push) (rule stays_later)
  then have "stays R t' k (take (nat (int m - 1 + 1)) (f x # map f (take m h))) (rltrim R t' k 0 (int m - 1) (rlpush R t' k (f x) s))"
    using assms(3) by (intro stays_trim) auto
  moreover have "take m (f x # map f (take m h)) = map f (take m (x # h))"
    using assms(3) by (cases m) (auto simp: take_map min_def)
  ultimately show ?thesis by simp
qed

end

fun vel_run ::
  "('s, 'z) redis_scheme \<Rightarrow> ad_config \<Rightarrow> (int \<times> trade_event) list \<Rightarrow> 's world \<Rightarrow> detector_result list" where
  "vel_run R cfg [] w = []"
| "vel_run R cfg ((t, ev) # xs) w =
     (let (r, w') = checkVelocity R cfg t ev w in r # vel_run R cfg xs w')"

fun spike_run ::
  "('s, 'z) redis_scheme \<Rightarrow> ad_config \<Rightarrow> (int \<times> trade_event) list \<Rightarrow> 's world \<Rightarrow> detector_result list" where
  "spike_run R cfg [] w = []"
| "spike_run R cfg ((t, ev) # xs) w =
     (let (r, w') = checkHighValueSpike R cfg t ev w in r # spike_run R cfg xs w')"

definition velocity_entry :: "int \<times> trade_event \<Rightarrow> json" where
  "velocity_entry x = velocity_json (fst x) (et_tradeId (te_trade (snd x)))"

definition notional_entry :: "int \<times> trade_event \<Rightarrow> json" where
  "notional_entry x = notional_json (fst x) (et_notional (te_trade (snd x)))"

lemma since_entry [simp]: "since t (velocity_entry x) = (t \<le> fst x)" "since t (notional_entry x) = (t \<le> fst x)"
  by (simp_all add: since_def velocity_entry_def velocity_json_def notional_entry_def notional_json_def stored_num_def)

lemma filter_map_list: "filter P (map f xs) = map f (filter (\<lambda>x. P (f x)) xs)"
  by (induction xs) auto

text \<open>On times that do not run backwards, the recent entries are at the end.\<close>

lemma recent_take:
  fixes xs :: "(int \<times> 'a) list"
  assumes "sorted_wrt (\<ge>) (map fst xs)"
  shows "filter (\<lambda>x. c \<le> fst x) (take m xs) = take m (filter (\<lambda>x. c \<le> fst x) xs)"
  using assms
proof (induction xs arbitrary: m)
  case (Cons x xs)
  show ?case
  proof (cases "c \<le> fst x")
    case True
    then show ?thesis using Cons by (cases m) auto
  next
    case False
    then have "filter (\<lambda>y. c \<le> fst y) (x # xs) = []" using Cons.prems by (auto simp: filter_empty_conv)
    then show ?thesis by (metis filter_empty_conv in_set_takeD take_Nil)
  qed
qed simp

definition notional_of :: "int \<times> trade_event \<Rightarrow> real" where
  "notional_of x = et_notional (te_trade (snd x))"

text \<open>The notional against the mean of the earlier ones of the last thirty days.\<close>

definition spikes :: "ad_config \<Rightarrow> int \<Rightarrow> real \<Rightarrow> (int \<times> trade_event) list \<Rightarrow> bool" where
  "spikes cfg now n h \<longleftrightarrow>
     (let ns = map notional_of (filter (\<lambda>x. now - thirty_days \<le> fst x) h); avg = sum_list ns / real (length ns)
      in ns \<noteq> [] \<and> 0 < avg \<and> avg * highValueSpikeMultiplier cfg < n)"

lemma notional_entry_get: "stored_num (notional_entry x) ''notional'' = Some (notional_of x)"
  by (simp add: notional_entry_def notional_json_def stored_num_def notional_of_def)

lemma entries_numbers:
  "all_numbers (map (\<lambda>raw. stored_num raw ''notional'') (map notional_entry xs)) = Some (map notional_of xs)"
  by (induction xs) (simp_all add: notional_entry_get)

lemma spike_verdict:
  assumes "rlrange R t' (db (snd (checkHighValueSpike R cfg t' ev w))) (anomalyPrefix ''notionals'' (te_userId ev)) =
      map notional_entry ((t', ev) # h)"
  shows "dt_triggered (fst (checkHighValueSpike R cfg t' ev w)) \<longleftrightarrow> spikes cfg t' (et_notional (te_trade ev)) h"
proof -
  let ?r = "filter (\<lambda>x. t' - thirty_days \<le> fst x) h"
  let ?key = "anomalyPrefix ''notionals'' (te_userId ev)"
  let ?s = "rltrim R t' ?key 0 999 (rlpush R t' ?key (notional_json t' (et_notional (te_trade ev))) (db w))"
  have "db (snd (checkHighValueSpike R cfg t' ev w)) = ?s"
    by (simp add: checkHighValueSpike_def Let_def split: option.split)
  then have l: "filter (since (t' - thirty_days)) (rlrange R t' ?s ?key) = map notional_entry ((t', ev) # ?r)"
    using assms by (simp add: filter_map_list thirty_days_def)
  have n: "all_numbers (map (\<lambda>raw. stored_num raw ''notional'') (map notional_entry ((t', ev) # ?r))) =
      Some (et_notional (te_trade ev) # map notional_of ?r)"
    using entries_numbers [of "(t', ev) # ?r"] by (simp add: notional_of_def)
  have f: "foldl (+) a ns = a + sum_list ns" for a :: real and ns
    using foldl_sum [of "\<lambda>v. v" a ns] by simp
  show ?thesis
    unfolding checkHighValueSpike_def Let_def spikes_def
    by (simp add: l n f conj_commute del: list.map(2) map_map)
qed

context redis_feed
begin

lemma vel_run_nth:
  assumes "stays R t (anomalyPrefix ''velocity'' u) (map velocity_entry (take 200 h)) (db w)"
    and "sorted_wrt (\<le>) (t # map fst xs)" and "list_all (\<lambda>x. te_userId (snd x) = u) xs" and "k < length xs"
  shows "dt_triggered (vel_run R cfg xs w ! k) \<longleftrightarrow> velocityMaxTradesPerMinute cfg <
    real (length (filter (\<lambda>x. fst (xs ! k) - 60000 \<le> fst x) (take 200 (rev (take (Suc k) xs) @ h))))"
  using assms
proof (induction xs arbitrary: t h w k)
  case (Cons x xs)
  obtain t' ev where x: "x = (t', ev)" by (cases x)
  have le: "t \<le> t'" and u: "te_userId ev = u" using Cons.prems(2,3) x by auto
  let ?w = "snd (checkVelocity R cfg t' ev w)"
  have db: "db ?w = rltrim R t' (anomalyPrefix ''velocity'' u) 0 (int 200 - 1)
      (rlpush R t' (anomalyPrefix ''velocity'' u) (velocity_entry x) (db w))"
    by (simp add: checkVelocity_def Let_def u x velocity_entry_def)
  have st: "stays R t' (anomalyPrefix ''velocity'' u) (map velocity_entry (take 200 (x # h))) (db ?w)"
    unfolding db by (rule push_trim [OF Cons.prems(1) le]) simp
  show ?case
  proof (cases k)
    case 0
    have "dt_triggered (fst (checkVelocity R cfg t' ev w)) \<longleftrightarrow> velocityMaxTradesPerMinute cfg <
        real (length (filter (since (t' - 60000)) (rlrange R t' (db ?w) (anomalyPrefix ''velocity'' u))))"
      by (simp add: checkVelocity_def Let_def u)
    then show ?thesis
      using 0 x stays_read [OF st order_refl] by (simp add: split_beta Let_def filter_map_list)
  next
    case (Suc j)
    from Cons.IH [OF st] Cons.prems(2-4) Suc x show ?thesis by (simp add: split_beta Let_def)
  qed
qed simp

lemma spike_run_nth:
  assumes "stays R t (anomalyPrefix ''notionals'' u) (map notional_entry (take 1000 h)) (db w)"
    and "sorted_wrt (\<le>) (t # map fst xs)" and "list_all (\<lambda>x. te_userId (snd x) = u) xs" and "k < length xs"
  shows "dt_triggered (spike_run R cfg xs w ! k) \<longleftrightarrow>
    spikes cfg (fst (xs ! k)) (notional_of (xs ! k)) (take 999 (rev (take k xs) @ h))"
  using assms
proof (induction xs arbitrary: t h w k)
  case (Cons x xs)
  obtain t' ev where x: "x = (t', ev)" by (cases x)
  have le: "t \<le> t'" and u: "te_userId ev = u" using Cons.prems(2,3) x by auto
  let ?c = "checkHighValueSpike R cfg t' ev w"
  have db: "db (snd ?c) = rltrim R t' (anomalyPrefix ''notionals'' u) 0 (int 1000 - 1)
      (rlpush R t' (anomalyPrefix ''notionals'' u) (notional_entry x) (db w))"
    by (simp add: checkHighValueSpike_def Let_def u x notional_entry_def split: option.split)
  have st: "stays R t' (anomalyPrefix ''notionals'' u) (map notional_entry (take 1000 (x # h))) (db (snd ?c))"
    unfolding db by (rule push_trim [OF Cons.prems(1) le]) simp
  show ?case
  proof (cases k)
    case 0
    have "rlrange R t' (db (snd ?c)) (anomalyPrefix ''notionals'' u) = map notional_entry (x # take 999 h)"
      using stays_read [OF st order_refl] by (simp add: take_Cons')
    then have "dt_triggered (fst ?c) \<longleftrightarrow> spikes cfg t' (et_notional (te_trade ev)) (take 999 h)"
      by (intro spike_verdict) (simp add: u x)
    then show ?thesis using 0 x by (simp add: split_beta Let_def notional_of_def)
  next
    case (Suc j)
    from Cons.IH [OF st] Cons.prems(2-4) Suc x show ?thesis by (simp add: split_beta Let_def)
  qed
qed simp

end

text \<open>The rest of a session: baseline of the first trade.\<close>

fun device_run ::
  "('s, 'z) redis_scheme \<Rightarrow> (int \<times> trade_event) list \<Rightarrow> 's world \<Rightarrow> detector_result list" where
  "device_run R [] w = []"
| "device_run R ((t, ev) # xs) w =
     (let (r, w') = checkDeviceFingerprint R t ev w in r # device_run R xs w')"

definition same_device :: "trade_event \<Rightarrow> trade_event \<Rightarrow> bool" where
  "same_device a b \<longleftrightarrow> te_userAgent a = te_userAgent b \<and> te_deviceFingerprint a = te_deviceFingerprint b"

lemma changed_reason_Nil [simp]: "changed_reason f old new = [] \<longleftrightarrow> old = Some (JStr new)"
  by (simp add: changed_reason_def)

lemma device_baseline:
  "rget R t (db w) (anomalyPrefix ''session'' (te_sessionId ev)) = Some (session_info_json a) \<Longrightarrow>
   dt_triggered (fst (checkDeviceFingerprint R t ev w)) = (\<not> same_device a ev) \<and>
   snd (checkDeviceFingerprint R t ev w) = w"
  by (auto simp: checkDeviceFingerprint_def Let_def session_info_json_def same_device_def)

lemma device_run_baseline:
  assumes "\<And>u. t \<le> u \<Longrightarrow> u < e \<Longrightarrow> rget R u (db w) (anomalyPrefix ''session'' i) = Some (session_info_json a)"
    and "list_all (\<lambda>(u, ev). te_sessionId ev = i \<and> t \<le> u \<and> u < e) xs"
  shows "map dt_triggered (device_run R xs w) = map (\<lambda>(u, ev). \<not> same_device a ev) xs"
  using assms(2)
proof (induction xs)
  case (Cons x xs)
  obtain u ev where x: "x = (u, ev)" by (cases x)
  have "rget R u (db w) (anomalyPrefix ''session'' (te_sessionId ev)) = Some (session_info_json a)"
    using assms(1) [of u] Cons.prems x by simp
  from device_baseline [OF this] show ?case using Cons x by (simp add: split_beta Let_def)
qed simp

lemma device_first:
  "redis_any_ttl R \<Longrightarrow> rget R t (db w) (anomalyPrefix ''session'' (te_sessionId a)) = None \<Longrightarrow>
   \<not> dt_triggered (fst (checkDeviceFingerprint R t a w)) \<and>
   (t \<le> u \<longrightarrow> u < t + 86400000 \<longrightarrow> rget R u (db (snd (checkDeviceFingerprint R t a w)))
      (anomalyPrefix ''session'' (te_sessionId a)) = Some (session_info_json a))"
  using redis_any_ttl.get_set_live [of R 86400 t u] by (simp add: checkDeviceFingerprint_def Let_def)

text \<open>In a session without a baseline the first trade is accepted and sets it; for a
  day after it exactly the trades with another user agent or fingerprint than that first trade are
  reported, whatever came in between.\<close>

theorem ad_device:
  assumes "redis_any_ttl R" and "rget R t (db w) (anomalyPrefix ''session'' (te_sessionId a)) = None"
    and "list_all (\<lambda>(u, ev). te_sessionId ev = te_sessionId a \<and> t \<le> u \<and> u < t + 86400000) xs"
  shows "map dt_triggered (device_run R ((t, a) # xs) w) = map (\<lambda>(u, ev). \<not> same_device a ev) ((t, a) # xs)"
proof -
  let ?w = "snd (checkDeviceFingerprint R t a w)"
  have "map dt_triggered (device_run R xs ?w) = map (\<lambda>(u, ev). \<not> same_device a ev) xs"
    using device_first [OF assms(1,2)] by (intro device_run_baseline [OF _ assms(3)]) blast
  then show ?thesis
    using device_first [OF assms(1,2)] by (simp add: split_beta Let_def same_device_def)
qed

lemma ad_device_witness:
  "map dt_triggered (device_run adapter [(0, demo_te ''1''), (5, (demo_te ''1'')\<lparr>te_userAgent := ''x''\<rparr>), (9, demo_te ''1'')] mem_world) =
     [False, True, False]"
  using ad_device [OF mem.adapter.redis_any_ttl_axioms, of 0 mem_world "demo_te ''1''"
      "[(5, (demo_te ''1'')\<lparr>te_userAgent := ''x''\<rparr>), (9, demo_te ''1'')]"]
  by (simp add: same_device_def demo_te_def)

subsection \<open>Velocity and spikes on a fresh user\<close>

text \<open>Over any sequence of a user's trades from an empty list, a trade is reported
  exactly when more trades than the limit, it included, were made within the last minute, where at
  most 200 are counted: a limit of 200 or more is never exceeded.\<close>

theorem ad_velocity:
  assumes "redis_feed R" and "\<And>t. rlrange R t (db w) (anomalyPrefix ''velocity'' u) = []"
    and "sorted_wrt (\<le>) (map fst xs)" and "list_all (\<lambda>x. te_userId (snd x) = u) xs" and "k < length xs"
  shows "dt_triggered (vel_run R cfg xs w ! k) \<longleftrightarrow> velocityMaxTradesPerMinute cfg <
    real (min 200 (length (filter (\<lambda>x. fst (xs ! k) - 60000 \<le> fst x) (take (Suc k) xs))))"
proof -
  let ?r = "rev (take (Suc k) xs)" and ?c = "fst (xs ! k) - 60000"
  have st: "stays R t (anomalyPrefix ''velocity'' u) (map velocity_entry (take 200 [])) (db w)" for t
    using assms(2) by (simp add: stays_def)
  have so: "sorted_wrt (\<le>) (fst (hd xs) # map fst xs)" using assms(3,5) by (cases xs) auto
  have "sorted_wrt (\<ge>) (map fst ?r)"
    using assms(3) sorted_wrt_take [of "(\<le>)" "map fst xs" "Suc k"] by (simp add: sorted_wrt_rev take_map flip: rev_map)
  then have "length (filter (\<lambda>x. ?c \<le> fst x) (take 200 ?r)) = min 200 (length (filter (\<lambda>x. ?c \<le> fst x) (take (Suc k) xs)))"
    by (simp add: recent_take rev_filter [symmetric] min.commute)
  then show ?thesis
    using redis_feed.vel_run_nth [OF assms(1) st so assms(4,5), of cfg] by simp
qed

lemma ad_velocity_witness:
  "dt_triggered (vel_run adapter demo_ad [(0, demo_te ''1''), (5, demo_te ''1'')] mem_world ! 1)"
proof -
  have none: "rlrange adapter t (db mem_world) (anomalyPrefix ''velocity'' ''u'') = []" for t by simp
  show ?thesis
    using ad_velocity [OF mem_feed.redis_feed_axioms none, of "[(0, demo_te ''1''), (5, demo_te ''1'')]" 1 demo_ad]
    by (simp add: demo_ad_def demo_te_def)
qed

text \<open>Over any sequence of a user's trades from an empty list, a trade is reported
  exactly when its notional exceeds the multiple of the positive mean of the earlier notionals of
  the last thirty days, of which the last 999 are kept.\<close>

theorem ad_spike:
  assumes "redis_feed R" and "\<And>t. rlrange R t (db w) (anomalyPrefix ''notionals'' u) = []"
    and "sorted_wrt (\<le>) (map fst xs)" and "list_all (\<lambda>x. te_userId (snd x) = u) xs" and "k < length xs"
  shows "dt_triggered (spike_run R cfg xs w ! k) \<longleftrightarrow>
    spikes cfg (fst (xs ! k)) (notional_of (xs ! k)) (take 999 (rev (take k xs)))"
proof -
  have st: "stays R t (anomalyPrefix ''notionals'' u) (map notional_entry (take 1000 [])) (db w)" for t
    using assms(2) by (simp add: stays_def)
  have so: "sorted_wrt (\<le>) (fst (hd xs) # map fst xs)" using assms(3,5) by (cases xs) auto
  show ?thesis using redis_feed.spike_run_nth [OF assms(1) st so assms(4,5), of cfg] by simp
qed

lemma ad_spike_witness:
  "dt_triggered (spike_run adapter demo_ad
     [(0, demo_te ''1''), (5, (demo_te ''1'')\<lparr>te_trade := drift_trade ''BTC'' 9\<rparr>)] mem_world ! 1)"
proof -
  have none: "rlrange adapter t (db mem_world) (anomalyPrefix ''notionals'' ''u'') = []" for t by simp
  show ?thesis
    using ad_spike [OF mem_feed.redis_feed_axioms none,
        of "[(0, demo_te ''1''), (5, (demo_te ''1'')\<lparr>te_trade := drift_trade ''BTC'' 9\<rparr>)]" 1 demo_ad]
    by (simp add: demo_ad_def demo_te_def spikes_def notional_of_def drift_trade_def thirty_days_def)
qed

subsection \<open>Places of a user\<close>

fun geo_run ::
  "('s, 'z) redis_scheme \<Rightarrow> (string \<Rightarrow> js_error + (real \<times> real) option) \<Rightarrow> ad_config \<Rightarrow> (int \<times> trade_event) list \<Rightarrow>
   's world \<Rightarrow> (js_error + detector_result) list" where
  "geo_run R lookup cfg [] w = []"
| "geo_run R lookup cfg ((t, ev) # xs) w =
     (let (r, w') = checkGeoImpossibility R lookup cfg t ev w in r # geo_run R lookup cfg xs w')"

fun placed_at :: "(string \<Rightarrow> js_error + (real \<times> real) option) \<Rightarrow> string \<Rightarrow> (real \<times> real) option" where
  "placed_at lookup i = (case lookup i of Inr c \<Rightarrow> c | Inl e \<Rightarrow> None)"

definition ip_of :: "(string \<Rightarrow> js_error + (real \<times> real) option) \<Rightarrow> int \<times> trade_event \<Rightarrow> ip_event" where
  "ip_of lookup x =
     (let c = the (placed_at lookup (te_ipAddress (snd x)))
      in \<lparr>ip_ip = te_ipAddress (snd x), ip_time = fst x, ip_lat = fst c, ip_lon = snd c\<rparr>)"

lemma read_ip_json: "z_list read_ip (map ip_json es) = Some es"
  by (induction es) (auto simp: ip_json_def)

lemma last_n_snoc: "last_n n (last_n n xs @ [x]) = last_n n (xs @ [x])"
proof (cases "length xs \<le> n")
  case False
  then have "length xs - (length xs - n) + 1 - n = 1" "length xs + 1 - n = Suc (length xs - n)" by auto
  then show ?thesis using False by (simp add: last_n_def drop_Suc)
qed (simp add: last_n_def)

definition geo_rep :: "('s, 'z) redis_scheme \<Rightarrow> string \<Rightarrow> int \<Rightarrow> ip_event list \<Rightarrow> 's \<Rightarrow> bool" where
  "geo_rep R u t es s \<longleftrightarrow> (\<forall>t'. t \<le> t' \<longrightarrow> t' < t + 86400000 \<longrightarrow>
     (case rget R t' s (anomalyPrefix ''geoip'' u) of None \<Rightarrow> Some [] | Some raw \<Rightarrow> z_array read_ip (Some raw)) =
       Some (last_n 20 es))"

lemma geo_step:
  assumes "redis_any_ttl R" and "geo_rep R u t es (db w)" and "t \<le> t'" and "t' < t + 86400000" and "te_userId ev = u"
    and "placed_at lookup (te_ipAddress ev) \<noteq> None"
  shows "\<exists>r. fst (checkGeoImpossibility R lookup cfg t' ev w) = Inr r \<and>
      dt_triggered r = list_ex (geo_hit cfg t' (ip_of lookup (t', ev))) (last_n 20 es)"
    and "geo_rep R u t' (es @ [ip_of lookup (t', ev)]) (db (snd (checkGeoImpossibility R lookup cfg t' ev w)))"
proof -
  let ?k = "anomalyPrefix ''geoip'' u" and ?cur = "ip_of lookup (t', ev)"
  obtain la lo where l: "lookup (te_ipAddress ev) = Inr (Some (la, lo))"
    using assms(6) by (cases "lookup (te_ipAddress ev)") auto
  have cur: "?cur = \<lparr>ip_ip = te_ipAddress ev, ip_time = t', ip_lat = la, ip_lon = lo\<rparr>" by (simp add: ip_of_def l Let_def)
  have read: "(case rget R t' (db w) ?k of None \<Rightarrow> Some [] | Some raw \<Rightarrow> z_array read_ip (Some raw)) = Some (last_n 20 es)"
    using assms(2-4) unfolding geo_rep_def by blast
  have hits: "filter P ys \<noteq> [] \<longleftrightarrow> list_ex P ys" for P :: "ip_event \<Rightarrow> bool" and ys
    by (auto simp: filter_empty_conv list_ex_iff)
  show "\<exists>r. fst (checkGeoImpossibility R lookup cfg t' ev w) = Inr r \<and>
      dt_triggered r = list_ex (geo_hit cfg t' ?cur) (last_n 20 es)"
    unfolding checkGeoImpossibility_def l cur assms(5) by (simp add: read hits Let_def)
  have "db (snd (checkGeoImpossibility R lookup cfg t' ev w)) =
      rset R t' ?k (JArr (map ip_json (last_n 20 (es @ [?cur])))) (Some 86400) (db w)"
    unfolding checkGeoImpossibility_def l cur assms(5) by (simp add: read Let_def last_n_snoc)
  then show "geo_rep R u t' (es @ [?cur]) (db (snd (checkGeoImpossibility R lookup cfg t' ev w)))"
    using redis_any_ttl.get_set_live [OF assms(1), of 86400 t'] by (simp add: geo_rep_def read_ip_json)
qed

lemma geo_run_nth:
  assumes "redis_any_ttl R" and "geo_rep R u t es (db w)"
    and "successively (\<lambda>a b. a \<le> b \<and> b < a + 86400000) (t # map fst xs)"
    and "list_all (\<lambda>(t, ev). te_userId ev = u \<and> placed_at lookup (te_ipAddress ev) \<noteq> None) xs" and "k < length xs"
  shows "\<exists>r. geo_run R lookup cfg xs w ! k = Inr r \<and> dt_triggered r =
    list_ex (geo_hit cfg (fst (xs ! k)) (ip_of lookup (xs ! k))) (last_n 20 (es @ map (ip_of lookup) (take k xs)))"
  using assms(2-)
proof (induction xs arbitrary: t es w k)
  case (Cons x xs)
  obtain t' ev where x: "x = (t', ev)" by (cases x)
  have h: "t \<le> t'" "t' < t + 86400000" "te_userId ev = u" "placed_at lookup (te_ipAddress ev) \<noteq> None"
    using Cons.prems x by auto
  note step = geo_step [OF assms(1) Cons.prems(1) h, of cfg]
  show ?case
  proof (cases k)
    case 0
    then show ?thesis using step(1) x by (simp add: split_beta Let_def)
  next
    case (Suc j)
    with Cons.IH [OF step(2), of j] Cons.prems(2-4) x show ?thesis by (simp add: split_beta Let_def)
  qed
qed simp

text \<open>Over any sequence of a user's trades with known places, less than a day apart, a
  trade is reported exactly when one of the twenty trades before it lies in the time window, came
  from another address and was further away than the configured distance.\<close>

theorem ad_geo:
  assumes "redis_any_ttl R" and "\<And>t. rget R t (db w) (anomalyPrefix ''geoip'' u) = None"
    and "successively (\<lambda>a b. a \<le> b \<and> b < a + 86400000) (map fst xs)"
    and "list_all (\<lambda>(t, ev). te_userId ev = u \<and> placed_at lookup (te_ipAddress ev) \<noteq> None) xs" and "k < length xs"
  shows "map_sum id dt_triggered (geo_run R lookup cfg xs w ! k) =
    Inr (list_ex (geo_hit cfg (fst (xs ! k)) (ip_of lookup (xs ! k))) (last_n 20 (map (ip_of lookup) (take k xs))))"
proof -
  have "geo_rep R u (fst (hd xs)) [] (db w)" using assms(2) by (simp add: geo_rep_def last_n_def)
  moreover have "successively (\<lambda>a b. a \<le> b \<and> b < a + 86400000) (fst (hd xs) # map fst xs)"
    using assms(3,5) by (cases xs) auto
  ultimately obtain r where "geo_run R lookup cfg xs w ! k = Inr r" "dt_triggered r =
      list_ex (geo_hit cfg (fst (xs ! k)) (ip_of lookup (xs ! k))) (last_n 20 (map (ip_of lookup) (take k xs)))"
    using geo_run_nth [OF assms(1) _ _ assms(4,5), of "fst (hd xs)" "[]" w cfg] by auto
  then show ?thesis by simp
qed

lemma ad_geo_witness:
  "map_sum id dt_triggered (geo_run adapter (\<lambda>ip. Inr (Some (48, 2))) demo_ad [(0, demo_te ''1''), (5, demo_te ''2'')] mem_world ! 1) =
     Inr False"
proof -
  have none: "rget adapter t (db mem_world) (anomalyPrefix ''geoip'' ''u'') = None" for t by simp
  have "haversineDistanceKm 48 2 48 2 = 0"
    by (simp add: haversineDistanceKm_def haversine_a_def toRad_def atan2_def)
  then show ?thesis
    using ad_geo [OF mem.adapter.redis_any_ttl_axioms none, of "[(0, demo_te ''1''), (5, demo_te ''2'')]"
        "\<lambda>ip. Inr (Some (48, 2))" 1 demo_ad]
    by (simp add: demo_te_def geo_hit_def ip_of_def last_n_def demo_ad_def)
qed

subsection \<open>The bus\<close>

fun consumed :: "'s consumer list \<Rightarrow> anomaly_event \<Rightarrow> 's world \<Rightarrow> (js_error + unit) list" where
  "consumed [] e w = []"
| "consumed (c # cs) e w = fst (c e w) # consumed cs e (snd (c e w))"

text \<open>A failing consumer stops none of the others, and exactly the failures are logged.\<close>

lemma ab_settle_all:
  "snd (ab_settle i cs e w) = fold (\<lambda>c w. snd (c e w)) cs w \<and>
   (\<forall>j err. (j, err) \<in> set (fst (ab_settle i cs e w)) \<longleftrightarrow>
      i \<le> j \<and> j < i + length cs \<and> consumed cs e w ! (j - i) = Inl err)"
proof (induction cs arbitrary: i w)
  case (Cons c cs)
  let ?w = "snd (c e w)"
  have tail: "(j, err) \<in> set (fst (ab_settle (Suc i) cs e ?w)) \<longleftrightarrow>
      i < j \<and> j < i + length (c # cs) \<and> consumed (c # cs) e w ! (j - i) = Inl err" for j err
  proof (cases "i < j")
    case True
    then show ?thesis
      using Cons.IH [of "Suc i" ?w] by (auto simp: Suc_diff_Suc [OF True, symmetric])
  next
    case False
    then show ?thesis using Cons.IH [of "Suc i" ?w] by auto
  qed
  show ?case
  proof (intro conjI allI)
    show "snd (ab_settle i (c # cs) e w) = fold (\<lambda>c w. snd (c e w)) (c # cs) w"
      using Cons.IH [of "Suc i" ?w] by (simp add: split_beta Let_def)
    fix j err
    have "(j, err) \<in> set (fst (ab_settle i (c # cs) e w)) \<longleftrightarrow>
        (j = i \<and> fst (c e w) = Inl err) \<or> (j, err) \<in> set (fst (ab_settle (Suc i) cs e ?w))"
      by (auto simp: split_beta Let_def split: sum.split)
    then show "(j, err) \<in> set (fst (ab_settle i (c # cs) e w)) \<longleftrightarrow>
        i \<le> j \<and> j < i + length (c # cs) \<and> consumed (c # cs) e w ! (j - i) = Inl err"
      unfolding tail by (cases "j = i") auto
  qed
qed auto

theorem ab_isolated:
  "snd (ab_emit cs e w) = fold (\<lambda>c w. snd (c e w)) cs w \<and>
   (\<forall>j err. (j, err) \<in> set (fst (ab_emit cs e w)) \<longleftrightarrow> j < length cs \<and> consumed cs e w ! j = Inl err)"
  using ab_settle_all [of 0 cs e w] by (simp add: ab_emit_def)

end
