(* ===== verification/Regex.thy ===== *)
theory Regex
  imports Prelude
begin

text \<open>
  The part of JavaScript's regular expressions that \<open>security/input\<close> uses: character classes,
  groups, alternatives, greedy counted and unbounded repetition, \<open>\b\<close> and \<open>^\<close>, with the
  methods \<open>test\<close> and (with the flag \<open>g\<close>) \<open>replace\<close>. A position in the subject is the
  character before it, if any, with the text after it.

  \<open>ms\<close> is the backtracking matcher of the ECMAScript specification as a list of successes in
  the order in which backtracking finds them, with its rule that an optional iteration may not be
  empty. \<open>reach\<close> is the relational meaning without order, empty check or bound on iterations;
  \<open>ms_reach\<close> shows that they agree, and \<open>reach_lang\<close> relates expressions without
  assertions to regular languages. Characters are the 256 codes of Latin-1.
\<close>

subsection \<open>Syntax and matcher\<close>

datatype (plugins only: code size) rx =
    Eps
  | Cls string             \<comment> \<open>one character of the list\<close>
  | Seq rx rx
  | Alt rx rx
  | Rep nat nat rx         \<comment> \<open>\<open>r{n,n+k}\<close>\<close>
  | More nat rx            \<comment> \<open>\<open>r{n,}\<close>\<close>
  | Bound                  \<comment> \<open>word boundary\<close>
  | Start                  \<comment> \<open>start of the subject\<close>

type_synonym pos = "char option \<times> string"

definition word_chars :: string where
  "word_chars = ''ABCDEFGHIJKLMNOPQRSTUVWXYZabcdefghijklmnopqrstuvwxyz0123456789_''"

fun is_word :: "char option \<Rightarrow> bool" where
  "is_word None = False"
| "is_word (Some c) = (c \<in> set word_chars)"

fun next_char :: "string \<Rightarrow> char option" where
  "next_char [] = None"
| "next_char (c # s) = Some c"

fun boundary :: "pos \<Rightarrow> bool" where
  "boundary (p, s) = (is_word p \<noteq> is_word (next_char s))"

fun eat :: "string \<Rightarrow> pos \<Rightarrow> pos list" where
  "eat cs (p, []) = []"
| "eat cs (p, c # s) = (if c \<in> set cs then [(Some c, s)] else [])"

fun times_ms :: "(pos \<Rightarrow> pos list) \<Rightarrow> nat \<Rightarrow> pos \<Rightarrow> pos list" where
  "times_ms f 0 u = [u]"
| "times_ms f (Suc n) u = concat (map (times_ms f n) (f u))"

fun opt_ms :: "(pos \<Rightarrow> pos list) \<Rightarrow> nat \<Rightarrow> pos \<Rightarrow> pos list" where
  "opt_ms f 0 u = [u]"
| "opt_ms f (Suc k) u = concat (map (opt_ms f k) (filter (\<lambda>v. snd v \<noteq> snd u) (f u))) @ [u]"

primrec ms :: "rx \<Rightarrow> pos \<Rightarrow> pos list" where
  "ms Eps = (\<lambda>u. [u])"
| "ms (Cls cs) = eat cs"
| "ms (Seq a b) = (\<lambda>u. concat (map (ms b) (ms a u)))"
| "ms (Alt a b) = (\<lambda>u. ms a u @ ms b u)"
| "ms (Rep n k r) = (\<lambda>u. concat (map (opt_ms (ms r) k) (times_ms (ms r) n u)))"
| "ms (More n r) = (\<lambda>u. concat (map (\<lambda>v. opt_ms (ms r) (length (snd v)) v) (times_ms (ms r) n u)))"
| "ms Bound = (\<lambda>u. if boundary u then [u] else [])"
| "ms Start = (\<lambda>u. if fst u = None then [u] else [])"

text \<open>\<open>regex.test(text)\<close>: a match at some position.\<close>

fun test_from :: "rx \<Rightarrow> char option \<Rightarrow> string \<Rightarrow> bool" where
  "test_from r p [] = (ms r (p, []) \<noteq> [])"
| "test_from r p (c # s) = (ms r (p, c # s) \<noteq> [] \<or> test_from r (Some c) s)"

definition rx_test :: "rx \<Rightarrow> string \<Rightarrow> bool" where
  "rx_test r t = test_from r None t"

text \<open>The leftmost matches from left to right, as \<open>replace\<close> with a global expression finds
  them: \<open>Inl\<close> a character that is kept, \<open>Inr\<close> a matched text. After an empty match the
  search goes on one character later.\<close>

function (sequential) segs :: "rx \<Rightarrow> char option \<Rightarrow> string \<Rightarrow> (char + string) list" where
  "segs r p s = (case ms r (p, s) of
     [] \<Rightarrow> (case s of [] \<Rightarrow> [] | c # s' \<Rightarrow> Inl c # segs r (Some c) s')
   | (q, u) # _ \<Rightarrow> Inr (take (length s - length u) s) #
       (if length u < length s then segs r q u
        else (case s of [] \<Rightarrow> [] | c # s' \<Rightarrow> Inl c # segs r (Some c) s')))"
  by pat_completeness auto
termination by (relation "measure (\<lambda>(r, p, s). length s)") auto

declare segs.simps [simp del]

fun render :: "(string \<Rightarrow> string) \<Rightarrow> (char + string) list \<Rightarrow> string" where
  "render f [] = []"
| "render f (Inl c # xs) = c # render f xs"
| "render f (Inr m # xs) = f m @ render f xs"

definition replace_all :: "rx \<Rightarrow> (string \<Rightarrow> string) \<Rightarrow> string \<Rightarrow> string" where
  "replace_all r f t = render f (segs r None t)"

subsection \<open>Meaning\<close>

definition eats :: "string \<Rightarrow> (pos \<times> pos) set" where
  "eats cs = {((p, c # s), (Some c, s)) | p c s. c \<in> set cs}"

primrec reach :: "rx \<Rightarrow> (pos \<times> pos) set" where
  "reach Eps = Id"
| "reach (Cls cs) = eats cs"
| "reach (Seq a b) = reach a O reach b"
| "reach (Alt a b) = reach a \<union> reach b"
| "reach (Rep n k r) = reach r ^^ n O (\<Union>i \<le> k. reach r ^^ i)"
| "reach (More n r) = reach r ^^ n O (reach r)\<^sup>*"
| "reach Bound = Id_on {u. boundary u}"
| "reach Start = Id_on {u. fst u = None}"

text \<open>A match ends where it began or further on.\<close>

definition ahead :: "(pos \<times> pos) set" where
  "ahead = {(u, v). v = u \<or> length (snd v) < length (snd u)}"

lemma ahead_trans: "(u, v) \<in> ahead \<Longrightarrow> (v, w) \<in> ahead \<Longrightarrow> (u, w) \<in> ahead"
  by (auto simp: ahead_def)

lemma ahead_relpow: "R \<subseteq> ahead \<Longrightarrow> R ^^ n \<subseteq> ahead"
proof (induction n)
  case (Suc n)
  then show ?case by (auto intro: ahead_trans)
qed (auto simp: ahead_def)

lemma ahead_comp: "R \<subseteq> ahead \<Longrightarrow> T \<subseteq> ahead \<Longrightarrow> R O T \<subseteq> ahead"
  by (auto intro: ahead_trans)

lemma reach_ahead: "reach r \<subseteq> ahead"
proof (induction r)
  case (More n r)
  have "(reach r)\<^sup>* \<subseteq> ahead" using ahead_relpow [OF More.IH] by (auto simp: rtrancl_is_UN_relpow)
  then show ?case using ahead_comp ahead_relpow [OF More.IH] by simp
next
  case (Rep n k r)
  have "(\<Union>i \<le> k. reach r ^^ i) \<subseteq> ahead" using ahead_relpow [OF Rep.IH] by blast
  then show ?case using ahead_comp ahead_relpow [OF Rep.IH] by simp
next
  case (Seq a b)
  then show ?case using ahead_comp by simp
qed (auto simp: ahead_def eats_def)

lemma eat_eats: "set (eat cs u) = eats cs `` {u}"
  by (cases "(cs, u)" rule: eat.cases) (auto simp: eats_def)

lemma relpow_front: "(u, v) \<in> R ^^ Suc n \<longleftrightarrow> (\<exists>w. (u, w) \<in> R \<and> (w, v) \<in> R ^^ n)"
  using relpow_Suc_D2 relpow_Suc_I2 by metis

lemma set_times_ms:
  assumes "\<And>u. set (f u) = R `` {u}"
  shows "set (times_ms f n u) = (R ^^ n) `` {u}"
proof (induction n arbitrary: u)
  case (Suc n)
  have "v \<in> set (times_ms f (Suc n) u) \<longleftrightarrow> (u, v) \<in> R ^^ Suc n" for v
    unfolding relpow_front by (simp add: assms Suc.IH Bex_def)
  then show ?case by blast
qed simp

text \<open>An iteration that consumes nothing can be left out.\<close>

lemma relpow_moves:
  "(u, v) \<in> R ^^ i \<Longrightarrow> v = u \<or> (\<exists>w j. j < i \<and> (u, w) \<in> R \<and> w \<noteq> u \<and> (w, v) \<in> R ^^ j)"
proof (induction i)
  case (Suc i)
  obtain w where w: "(u, w) \<in> R" "(w, v) \<in> R ^^ i" using Suc.prems unfolding relpow_front by blast
  show ?case
  proof (cases "w = u")
    case True
    then show ?thesis using Suc.IH w(2) less_SucI by blast
  next
    case False
    then show ?thesis using w by blast
  qed
qed simp

lemma set_opt_ms:
  assumes "\<And>u. set (f u) = R `` {u}" and "R \<subseteq> ahead"
  shows "set (opt_ms f k u) = (\<Union>i \<le> k. R ^^ i) `` {u}"
proof (induction k arbitrary: u)
  case (Suc k)
  have moved: "snd w \<noteq> snd u \<longleftrightarrow> w \<noteq> u" if "(u, w) \<in> R" for w
    using that assms(2) unfolding ahead_def by auto
  have "v \<in> set (opt_ms f (Suc k) u) \<longleftrightarrow>
      v = u \<or> (\<exists>w. (u, w) \<in> R \<and> w \<noteq> u \<and> (\<exists>i \<le> k. (w, v) \<in> R ^^ i))" (is "_ \<longleftrightarrow> ?r v") for v
  proof -
    have "v \<in> set (opt_ms f (Suc k) u) \<longleftrightarrow>
        v = u \<or> (\<exists>w. (u, w) \<in> R \<and> snd w \<noteq> snd u \<and> (\<exists>i \<le> k. (w, v) \<in> R ^^ i))"
      by (simp add: assms(1) Suc.IH Bex_def conj_ac del: split_paired_Ex) blast
    then show ?thesis using moved by blast
  qed
  moreover have "(\<exists>i \<le> Suc k. (u, v) \<in> R ^^ i) \<longleftrightarrow> ?r v" for v
  proof
    assume "\<exists>i \<le> Suc k. (u, v) \<in> R ^^ i"
    then obtain i where "i \<le> Suc k" and "(u, v) \<in> R ^^ i" by blast
    moreover have "j \<le> k" if "j < i" for j using that \<open>i \<le> Suc k\<close> by linarith
    ultimately show "?r v" using relpow_moves [of u v i R] by blast
  next
    assume "?r v"
    then show "\<exists>i \<le> Suc k. (u, v) \<in> R ^^ i"
      by (metis Suc_le_mono le0 relpow_0_I relpow_front)
  qed
  ultimately show ?case by blast
qed auto

text \<open>Every optional iteration shortens the rest, so the length of the rest is enough fuel.\<close>

lemma relpow_fuel:
  assumes "R \<subseteq> ahead"
  shows "(u, v) \<in> R ^^ i \<Longrightarrow> \<exists>j \<le> length (snd u). (u, v) \<in> R ^^ j"
proof (induction i arbitrary: u rule: less_induct)
  case (less i)
  consider "v = u" | w j where "j < i" "(u, w) \<in> R" "w \<noteq> u" "(w, v) \<in> R ^^ j"
    using relpow_moves [OF less.prems] by blast
  then show ?case
  proof cases
    case 2
    obtain l where l: "l \<le> length (snd w)" "(w, v) \<in> R ^^ l" using less.IH [OF 2(1,4)] by blast
    have "length (snd w) < length (snd u)" using assms 2(2,3) unfolding ahead_def by auto
    moreover have "(u, v) \<in> R ^^ Suc l" unfolding relpow_front using 2(2) l(2) by blast
    ultimately show ?thesis using l(1) by (intro exI [of _ "Suc l"]) auto
  qed (auto intro: exI [of _ 0])
qed

lemma rtrancl_fuel:
  assumes "R \<subseteq> ahead"
  shows "(\<Union>i \<le> length (snd u). R ^^ i) `` {u} = R\<^sup>* `` {u}"
proof -
  have "(\<exists>j \<le> length (snd u). (u, v) \<in> R ^^ j) \<longleftrightarrow> (\<exists>i. (u, v) \<in> R ^^ i)" for v
    using relpow_fuel [OF assms] by blast
  then show ?thesis by (simp add: rtrancl_is_UN_relpow set_eq_iff Bex_def)
qed

lemma ms_set: "set (ms r u) = reach r `` {u}"
proof (induction r arbitrary: u)
  case (Rep n k r)
  have "set (ms (Rep n k r) u) = (\<Union>v \<in> set (times_ms (ms r) n u). set (opt_ms (ms r) k v))"
    by simp
  also have "\<dots> = (\<Union>v \<in> (reach r ^^ n) `` {u}. (\<Union>i \<le> k. reach r ^^ i) `` {v})"
    by (simp only: set_times_ms [OF Rep.IH] set_opt_ms [OF Rep.IH reach_ahead])
  finally show ?case by (auto simp del: ms.simps)
next
  case (More n r)
  have "set (ms (More n r) u) =
      (\<Union>v \<in> set (times_ms (ms r) n u). set (opt_ms (ms r) (length (snd v)) v))"
    by simp
  also have "\<dots> = (\<Union>v \<in> (reach r ^^ n) `` {u}. (reach r)\<^sup>* `` {v})"
    by (simp only: set_times_ms [OF More.IH] set_opt_ms [OF More.IH reach_ahead] rtrancl_fuel [OF reach_ahead])
  finally show ?case by (auto simp del: ms.simps)
qed (auto simp: eat_eats)

lemma ms_empty: "ms r u = [] \<longleftrightarrow> reach r `` {u} = {}"
  by (metis ms_set set_empty)

lemma ms_ahead: "v \<in> set (ms r u) \<Longrightarrow> v = u \<or> length (snd v) < length (snd u)"
  using reach_ahead [of r] unfolding ms_set ahead_def by auto

subsection \<open>Search\<close>

text \<open>\<open>last_of p m\<close> is the character before the position after reading \<open>m\<close> from a position
  after \<open>p\<close>.\<close>

fun last_of :: "char option \<Rightarrow> string \<Rightarrow> char option" where
  "last_of p [] = p"
| "last_of p (c # s) = last_of (Some c) s"

lemma last_of_append [simp]: "last_of p (m @ m') = last_of (last_of p m) m'"
  by (induction m arbitrary: p) auto

lemma last_of_nonempty: "m \<noteq> [] \<Longrightarrow> last_of p m = Some (last m)"
  by (induction m arbitrary: p) auto

lemma test_from_iff:
  "test_from r p s \<longleftrightarrow> (\<exists>a b. s = a @ b \<and> reach r `` {(last_of p a, b)} \<noteq> {})"
proof (induction s arbitrary: p)
  case (Cons c s)
  have split: "(\<exists>a b. c # s = a @ b \<and> Q a b) \<longleftrightarrow> Q [] (c # s) \<or> (\<exists>a b. s = a @ b \<and> Q (c # a) b)" for Q
    by (auto simp: Cons_eq_append_conv)
  show ?case unfolding split test_from.simps Cons.IH ms_empty by simp
qed (simp add: ms_empty)

subsection \<open>Languages\<close>

text \<open>The positions that reading a word of a language leads to.\<close>

definition along :: "string set \<Rightarrow> (pos \<times> pos) set" where
  "along L = {(u, v). \<exists>m \<in> L. snd u = m @ snd v \<and> fst v = last_of (fst u) m}"

definition conc :: "string set \<Rightarrow> string set \<Rightarrow> string set" where
  "conc A B = {a @ b | a b. a \<in> A \<and> b \<in> B}"

lemma concI: "a \<in> A \<Longrightarrow> b \<in> B \<Longrightarrow> a @ b \<in> conc A B"
  unfolding conc_def by blast

lemma concE:
  assumes "x \<in> conc A B"
  obtains a b where "x = a @ b" "a \<in> A" "b \<in> B"
  using assms unfolding conc_def by blast

lemma conc_assoc: "conc (conc A B) C = conc A (conc B C)"
  unfolding conc_def by (blast intro: append_assoc append_assoc [symmetric])

lemma conc_singletons: "conc ((\<lambda>c. [c]) ` A) B = {c # s | c s. c \<in> A \<and> s \<in> B}"
proof (intro set_eqI iffI)
  fix x
  assume "x \<in> {c # s | c s. c \<in> A \<and> s \<in> B}"
  then obtain c s where x: "x = [c] @ s" and "[c] \<in> (\<lambda>c. [c]) ` A" and "s \<in> B" by force
  then show "x \<in> conc ((\<lambda>c. [c]) ` A) B" unfolding x by (intro concI)
qed (auto elim!: concE)

lemma conc_Nil [simp]: "conc A {[]} = A" "conc {[]} A = A"
  unfolding conc_def by auto

primrec lpow :: "string set \<Rightarrow> nat \<Rightarrow> string set" where
  "lpow L 0 = {[]}"
| "lpow L (Suc n) = conc (lpow L n) L"

primrec lang :: "rx \<Rightarrow> string set" where
  "lang Eps = {[]}"
| "lang (Cls cs) = (\<lambda>c. [c]) ` set cs"
| "lang (Seq a b) = conc (lang a) (lang b)"
| "lang (Alt a b) = lang a \<union> lang b"
| "lang (Rep n k r) = conc (lpow (lang r) n) (\<Union>i \<le> k. lpow (lang r) i)"
| "lang (More n r) = conc (lpow (lang r) n) (\<Union>i. lpow (lang r) i)"
| "lang Bound = {[]}"
| "lang Start = {[]}"

lemma lpow_add: "conc (lpow L n) (lpow L i) = lpow L (n + i)"
  by (induction i) (simp_all flip: conc_assoc)

lemma lpow_set:
  assumes "\<And>m. m \<in> L \<Longrightarrow> set m \<subseteq> A"
  shows "x \<in> lpow L n \<Longrightarrow> set x \<subseteq> A"
proof (induction n arbitrary: x)
  case (Suc n)
  then obtain a b where "x = a @ b" "a \<in> lpow L n" "b \<in> L" by (auto elim: concE)
  then show ?case using Suc.IH assms by auto
qed simp

lemma lpow_hd:
  assumes "\<And>m. m \<in> L \<Longrightarrow> m \<noteq> [] \<and> P (hd m)"
  shows "x \<in> lpow L n \<Longrightarrow> x = [] \<or> P (hd x)"
proof (induction n arbitrary: x)
  case (Suc n)
  then obtain a b where "x = a @ b" "a \<in> lpow L n" "b \<in> L" by (auto elim: concE)
  then show ?case using Suc.IH assms by (cases "a = []") auto
qed simp

lemma lang_Rep: "lang (Rep n k r) = (\<Union>i \<le> k. lpow (lang r) (n + i))"
  unfolding lang.simps lpow_add [symmetric] conc_def by blast

text \<open>Expressions without assertions, and expressions without a word boundary.\<close>

primrec plain :: "rx \<Rightarrow> bool" where
  "plain Eps = True"
| "plain (Cls cs) = True"
| "plain (Seq a b) = (plain a \<and> plain b)"
| "plain (Alt a b) = (plain a \<and> plain b)"
| "plain (Rep n k r) = plain r"
| "plain (More n r) = plain r"
| "plain Bound = False"
| "plain Start = False"

lemma along_mono: "L \<subseteq> L' \<Longrightarrow> along L \<subseteq> along L'"
  unfolding along_def by blast

lemma along_conc: "along (conc A B) = along A O along B"
proof (rule set_eqI, rule iffI)
  fix x
  assume "x \<in> along (conc A B)"
  then obtain p s q t a b where x: "x = ((p, s), (q, t))" and ab: "a \<in> A" "b \<in> B"
    and st: "s = (a @ b) @ t" "q = last_of p (a @ b)" unfolding along_def conc_def by force
  have "((p, s), (last_of p a, b @ t)) \<in> along A" and "((last_of p a, b @ t), (q, t)) \<in> along B"
    using ab st unfolding along_def by auto
  then show "x \<in> along A O along B" unfolding x by (rule relcompI)
next
  fix x
  assume "x \<in> along A O along B"
  then obtain u v w where x: "x = (u, w)" and "(u, v) \<in> along A" and "(v, w) \<in> along B"
    by (rule relcompE)
  then obtain a b where ab: "a \<in> A" "b \<in> B" and "snd u = a @ snd v" "fst v = last_of (fst u) a"
    "snd v = b @ snd w" "fst w = last_of (fst v) b" unfolding along_def by blast
  then have "snd u = (a @ b) @ snd w \<and> fst w = last_of (fst u) (a @ b)" by simp
  moreover have "a @ b \<in> conc A B" using ab unfolding conc_def by blast
  ultimately show "x \<in> along (conc A B)" unfolding along_def x by blast
qed

lemma along_Nil: "along {[]} = Id"
  unfolding along_def by (auto simp: prod_eq_iff)

lemma along_UN: "along (\<Union>i \<in> I. L i) = (\<Union>i \<in> I. along (L i))"
  unfolding along_def by blast

lemma along_lpow: "along (lpow L n) = along L ^^ n"
  by (induction n) (simp_all add: along_Nil along_conc)

lemma along_singletons: "along ((\<lambda>c. [c]) ` set cs) = eats cs"
  unfolding along_def eats_def by (force simp: prod_eq_iff)

text \<open>An expression without assertions matches exactly the words of its language.\<close>

theorem reach_lang: "plain r \<Longrightarrow> reach r = along (lang r)"
proof (induction r)
  case (Alt a b)
  have "along (lang a \<union> lang b) = along (lang a) \<union> along (lang b)" unfolding along_def by blast
  then show ?case using Alt by simp
next
  case (More n r)
  then show ?case by (simp add: along_conc along_lpow along_UN rtrancl_is_UN_relpow)
qed (simp_all add: along_Nil along_singletons along_conc along_lpow along_UN)

text \<open>A match of any expression consumes the text between its ends.\<close>

lemma reach_along: "reach r \<subseteq> along UNIV"
proof -
  have comp: "A O B \<subseteq> along UNIV" if "A \<subseteq> along UNIV" and "B \<subseteq> along UNIV" for A B
    using relcomp_mono [OF that] along_mono [of "conc UNIV UNIV" UNIV] unfolding along_conc by blast
  have refl: "Id \<subseteq> along UNIV" using along_mono [of "{[]}" UNIV] unfolding along_Nil by simp
  have pow: "A ^^ n \<subseteq> along UNIV" if "A \<subseteq> along UNIV" for A n
    by (induction n) (use that refl comp in auto)
  show ?thesis
  proof (induction r)
    case (Cls cs)
    then show ?case using along_mono [of "(\<lambda>c. [c]) ` set cs" UNIV] by (simp add: along_singletons)
  next
    case (Seq a b)
    then show ?case using comp by simp
  next
    case (Rep n k r)
    then show ?case using comp pow by (simp add: UN_subset_iff)
  next
    case (More n r)
    have "(reach r)\<^sup>* \<subseteq> along UNIV" using pow [OF More.IH] by (auto simp: rtrancl_is_UN_relpow)
    then show ?case using comp pow [OF More.IH] by simp
  qed (use refl in auto)
qed

lemma reach_consumes: "(u, v) \<in> reach r \<Longrightarrow> \<exists>m. snd u = m @ snd v \<and> fst v = last_of (fst u) m"
  using reach_along unfolding along_def by blast

subsection \<open>Appending text\<close>

primrec unbounded :: "rx \<Rightarrow> bool" where
  "unbounded Eps = True"
| "unbounded (Cls cs) = True"
| "unbounded (Seq a b) = (unbounded a \<and> unbounded b)"
| "unbounded (Alt a b) = (unbounded a \<and> unbounded b)"
| "unbounded (Rep n k r) = unbounded r"
| "unbounded (More n r) = unbounded r"
| "unbounded Bound = False"
| "unbounded Start = True"

text \<open>A relation on positions that holds in a longer text as well.\<close>

definition lengthen :: "string \<Rightarrow> pos \<Rightarrow> pos" where
  "lengthen z u = (fst u, snd u @ z)"

definition extends :: "(pos \<times> pos) set \<Rightarrow> bool" where
  "extends R \<longleftrightarrow> (\<forall>u v z. (u, v) \<in> R \<longrightarrow> (lengthen z u, lengthen z v) \<in> R)"

lemma extends_comp: "extends A \<Longrightarrow> extends B \<Longrightarrow> extends (A O B)"
  unfolding extends_def by (blast elim: relcompE intro: relcompI)

lemma extends_UN:
  assumes "\<And>i. i \<in> I \<Longrightarrow> extends (A i)"
  shows "extends (\<Union>i \<in> I. A i)"
  using assms unfolding extends_def UN_iff by blast

lemma extends_Id: "extends Id"
  unfolding extends_def by simp

lemma extends_pow: "extends A \<Longrightarrow> extends (A ^^ n)"
  by (induction n) (auto intro: extends_comp simp: extends_Id)

lemma reach_extends: "unbounded r \<Longrightarrow> extends (reach r)"
proof (induction r)
  case (Cls cs)
  show ?case unfolding extends_def lengthen_def by (auto simp: eats_def)
next
  case (Alt a b)
  then show ?case unfolding extends_def by simp
next
  case Start
  show ?case unfolding extends_def lengthen_def by (auto simp: Id_on_def)
next
  case (More n r)
  then have "extends ((reach r)\<^sup>*)"
    unfolding rtrancl_is_UN_relpow by (intro extends_UN extends_pow) simp
  then show ?case using More extends_comp extends_pow by simp
next
  case (Rep n k r)
  then have "extends (\<Union>i \<le> k. reach r ^^ i)" by (intro extends_UN extends_pow) simp
  then show ?case using Rep extends_comp extends_pow by simp
qed (simp_all add: extends_comp extends_Id)

lemma test_append:
  assumes "unbounded r" and "rx_test r s"
  shows "rx_test r (s @ z)"
proof -
  obtain a b v where ab: "s = a @ b" and v: "((last_of None a, b), v) \<in> reach r"
    using assms(2) unfolding rx_test_def test_from_iff by blast
  have "((last_of None a, b @ z), (fst v, snd v @ z)) \<in> reach r"
    using reach_extends [OF assms(1)] v unfolding extends_def lengthen_def by fastforce
  then have "reach r `` {(last_of None a, b @ z)} \<noteq> {}" by blast
  moreover have "s @ z = a @ (b @ z)" using ab by simp
  ultimately show ?thesis unfolding rx_test_def test_from_iff by blast
qed

subsection \<open>The segments of a search\<close>

lemma segs_Nil: "ms r (p, []) = [] \<Longrightarrow> segs r p [] = []"
  by (subst segs.simps) simp

lemma segs_keep: "ms r (p, c # s) = [] \<Longrightarrow> segs r p (c # s) = Inl c # segs r (Some c) s"
  by (subst segs.simps) simp

text \<open>A first success that consumes a text is a matched segment.\<close>

lemma segs_match:
  assumes "ms r (p, m @ s) = v # vs" and "snd v = s" and "m \<noteq> []"
  shows "segs r p (m @ s) = Inr m # segs r (last_of p m) s"
proof -
  have "((p, m @ s), v) \<in> reach r"
    using assms(1) ms_set [of r "(p, m @ s)"] by (metis Image_singleton_iff list.set_intros(1))
  then obtain m' where "m @ s = m' @ s" and "fst v = last_of p m'"
    using reach_consumes assms(2) by fastforce
  then have "v = (last_of p m, s)" using assms(2) by (cases v) auto
  then show ?thesis by (subst segs.simps) (use assms(1,3) in simp)
qed

lemma segs_empty_match:
  "ms r (p, s) = (q, s) # vs \<Longrightarrow>
   segs r p s = Inr [] # (case s of [] \<Rightarrow> [] | c # s' \<Rightarrow> Inl c # segs r (Some c) s')"
  by (subst segs.simps) simp

text \<open>The segments spell the subject.\<close>

lemma segs_text: "concat (map (case_sum (\<lambda>c. [c]) id) (segs r p s)) = s"
proof (induction r p s rule: segs.induct)
  case (1 r p s)
  show ?case
  proof (cases "ms r (p, s)")
    case Nil
    then show ?thesis using 1(1) by (cases s) (simp_all add: segs_Nil segs_keep)
  next
    case (Cons v vs)
    obtain q u where v: "v = (q, u)" by (cases v)
    have "((p, s), (q, u)) \<in> reach r"
      using Cons ms_set [of r "(p, s)"] unfolding v by (metis Image_singleton_iff list.set_intros(1))
    then obtain m where m: "s = m @ u" "q = last_of p m" using reach_consumes by fastforce
    show ?thesis
    proof (cases "length u < length s")
      case True
      then show ?thesis using 1(2) [OF Cons v [symmetric] True] segs_match [of r p m u v vs] Cons m v by auto
    next
      case False
      then have "m = []" and "u = s" using m by auto
      then show ?thesis using 1(3) [OF Cons v [symmetric] False] segs_empty_match [of r p s q vs] Cons v
        by (cases s) auto
    qed
  qed
qed

subsection \<open>Replacing words leaves none\<close>

text \<open>\<open>\b body \b\<close>, as most expressions of the program are.\<close>

definition whole :: "rx \<Rightarrow> rx" where
  "whole body = Seq Bound (Seq body Bound)"

text \<open>The words of the expression: nonempty texts over the characters \<open>A\<close> that begin and end
  with a word character.\<close>

definition wordy :: "rx \<Rightarrow> char set \<Rightarrow> bool" where
  "wordy body A \<longleftrightarrow> plain body \<and>
     (\<forall>m \<in> lang body. m \<noteq> [] \<and> set m \<subseteq> A \<and> is_word (Some (hd m)) \<and> is_word (Some (last m)))"

lemma whole_match:
  assumes "wordy body A"
  shows "(\<exists>v. ((p, s), v) \<in> reach (whole body) \<and> snd v = u) \<longleftrightarrow>
    \<not> is_word p \<and> \<not> is_word (next_char u) \<and> (\<exists>m \<in> lang body. s = m @ u)"
proof -
  have body: "reach body = along (lang body)" using assms reach_lang unfolding wordy_def by blast
  have "(\<exists>v. ((p, s), v) \<in> reach (whole body) \<and> snd v = u) \<longleftrightarrow>
      boundary (p, s) \<and> (\<exists>m \<in> lang body. s = m @ u \<and> boundary (last_of p m, u))"
    unfolding whole_def reach.simps body by (force simp: along_def Id_on_def)
  also have "\<dots> \<longleftrightarrow> (\<exists>m \<in> lang body. s = m @ u \<and> boundary (p, s) \<and> boundary (last_of p m, u))"
    by blast
  also have "\<dots> \<longleftrightarrow> (\<exists>m \<in> lang body. s = m @ u \<and> \<not> is_word p \<and> \<not> is_word (next_char u))"
  proof (intro bex_cong [OF refl] conj_cong [OF refl])
    fix m
    assume "m \<in> lang body" and s: "s = m @ u"
    then have m: "m \<noteq> []" "is_word (Some (hd m))" "is_word (Some (last m))"
      using assms unfolding wordy_def by blast+
    moreover have "next_char s = Some (hd m)" using m(1) s by (cases m) auto
    ultimately show "(boundary (p, s) \<and> boundary (last_of p m, u)) = (\<not> is_word p \<and> \<not> is_word (next_char u))"
      by (auto simp: last_of_nonempty simp del: is_word.simps)
  qed
  finally show ?thesis by blast
qed

lemma whole_none:
  "wordy body A \<Longrightarrow> ms (whole body) (p, s) = [] \<longleftrightarrow>
   \<not> (\<not> is_word p \<and> (\<exists>m \<in> lang body. \<exists>u. s = m @ u \<and> \<not> is_word (next_char u)))"
  using whole_match [of body A p s] unfolding ms_empty by blast

lemma whole_cases:
  assumes "wordy body A"
  obtains (none) "ms (whole body) (p, s) = []"
  | (some) m u where "s = m @ u" "m \<in> lang body" "\<not> is_word p" "\<not> is_word (next_char u)"
      "segs (whole body) p s = Inr m # segs (whole body) (Some (last m)) u" "m \<noteq> []"
proof (cases "ms (whole body) (p, s)")
  case (Cons v vs)
  then have "((p, s), v) \<in> reach (whole body)" using ms_set [of "whole body" "(p, s)"] by auto
  then obtain m where m: "m \<in> lang body" "s = m @ snd v" "\<not> is_word p" "\<not> is_word (next_char (snd v))"
    using whole_match [OF assms, of p s "snd v"] by blast
  moreover have "m \<noteq> []" using m(1) assms unfolding wordy_def by blast
  ultimately show thesis
    using some [of m "snd v"] segs_match [of "whole body" p m "snd v" v vs] Cons
    by (simp add: last_of_nonempty)
qed (rule none)

text \<open>What a pass keeps in front of a text over \<open>A\<close> was there before.\<close>

lemma kept_prefix:
  assumes "wordy body A" and "ph \<noteq> []" and "hd ph \<notin> A"
  shows "render (\<lambda>_. ph) (segs (whole body) p s) = m @ z \<Longrightarrow> set m \<subseteq> A \<Longrightarrow>
    \<exists>u. s = m @ u \<and> render (\<lambda>_. ph) (segs (whole body) (last_of p m) u) = z"
proof (induction m arbitrary: p s)
  case (Cons c m)
  show ?case
  proof (rule whole_cases [OF assms(1), of p s])
    assume none: "ms (whole body) (p, s) = []"
    then obtain s' where s: "s = c # s'" and "render (\<lambda>_. ph) (segs (whole body) (Some c) s') = m @ z"
      using Cons.prems(1) by (cases s) (auto simp: segs_Nil segs_keep)
    then show ?thesis using Cons.IH [of "Some c" s'] Cons.prems(2) by auto
  next
    fix k u
    assume "segs (whole body) p s = Inr k # segs (whole body) (Some (last k)) u"
    then have "hd ph = c" using Cons.prems(1) assms(2) by (cases ph) auto
    then show ?thesis using assms(3) Cons.prems(2) by simp
  qed
qed simp

lemma test_skip:
  assumes "wordy body A" and "set ph \<inter> A = {}"
  shows "test_from (whole body) p (ph @ s) \<longleftrightarrow> test_from (whole body) (last_of p ph) s"
  using assms(2)
proof (induction ph arbitrary: p)
  case (Cons c ph)
  have "ms (whole body) (p, c # ph @ s) = []"
  proof -
    have "\<not> (\<exists>m \<in> lang body. \<exists>u. c # ph @ s = m @ u)"
      using assms(1) Cons.prems unfolding wordy_def by (fastforce simp: Cons_eq_append_conv)
    then show ?thesis unfolding whole_none [OF assms(1)] by blast
  qed
  then show ?case using Cons by simp
qed simp

lemma replaced_clear:
  assumes w: "wordy body A" and ph: "set ph \<inter> A = {}" "ph \<noteq> []" "\<not> is_word (Some (last ph))"
  shows "is_word p' = is_word p \<or> \<not> is_word (next_char s) \<Longrightarrow>
    \<not> test_from (whole body) p' (render (\<lambda>_. ph) (segs (whole body) p s))"
proof (induction "length s" arbitrary: p p' s rule: less_induct)
  case less
  have hd: "hd ph \<notin> A" using ph by (cases ph) auto
  have words: "m \<noteq> [] \<and> set m \<subseteq> A \<and> is_word (Some (hd m)) \<and> is_word (Some (last m))" if "m \<in> lang body" for m
    using w that unfolding wordy_def by blast
  show ?case
  proof (rule whole_cases [OF w, of p s])
    assume none: "ms (whole body) (p, s) = []"
    have "ms (whole body) (p', render (\<lambda>_. ph) (segs (whole body) p s)) = []"
    proof (rule ccontr)
      assume "ms (whole body) (p', render (\<lambda>_. ph) (segs (whole body) p s)) \<noteq> []"
      then obtain m z where m: "m \<in> lang body" "render (\<lambda>_. ph) (segs (whole body) p s) = m @ z"
        and nw: "\<not> is_word p'" "\<not> is_word (next_char z)"
        unfolding whole_none [OF w] by blast
      obtain u where u: "s = m @ u" "render (\<lambda>_. ph) (segs (whole body) (last_of p m) u) = z"
        using kept_prefix [OF w ph(2) hd m(2)] words [OF m(1)] by blast
      have "next_char s = Some (hd m)" using u(1) words [OF m(1)] by (cases m) auto
      then have "\<not> is_word p" using less.prems nw(1) words [OF m(1)] by auto
      then have "is_word (next_char u)" using none m(1) u(1) unfolding whole_none [OF w] by blast
      moreover have "ms (whole body) (last_of p m, u) = []"
        using words [OF m(1)] by (simp add: whole_none [OF w] last_of_nonempty del: is_word.simps)
      ultimately show False using nw(2) u(2) by (cases u) (auto simp: segs_keep)
    qed
    moreover have "\<not> test_from (whole body) (Some c) (render (\<lambda>_. ph) (segs (whole body) (Some c) s'))"
      if "s = c # s'" for c s' using less.hyps [of s' "Some c" "Some c"] that by simp
    ultimately show ?thesis using none by (cases s) (auto simp: segs_Nil segs_keep)
  next
    fix m u
    assume m: "s = m @ u" "m \<in> lang body" "\<not> is_word (next_char u)" "m \<noteq> []"
      "segs (whole body) p s = Inr m # segs (whole body) (Some (last m)) u"
    then show ?thesis
      using less.hyps [of u "Some (last ph)" "Some (last m)"] ph(2)
      by (simp add: test_skip [OF w ph(1)] last_of_nonempty)
  qed
qed

theorem replace_clears:
  assumes "wordy body A" and "set ph \<inter> A = {}" and "ph \<noteq> []" and "\<not> is_word (Some (last ph))"
  shows "\<not> rx_test (whole body) (replace_all (whole body) (\<lambda>_. ph) t)"
  unfolding rx_test_def replace_all_def using replaced_clear [OF assms] by blast

subsection \<open>Characters that a match needs\<close>

text \<open>Every match of the expression consumes one of the characters.\<close>

primrec needs :: "char set \<Rightarrow> rx \<Rightarrow> bool" where
  "needs B Eps = False"
| "needs B (Cls cs) = (set cs \<subseteq> B)"
| "needs B (Seq a b) = (needs B a \<or> needs B b)"
| "needs B (Alt a b) = (needs B a \<and> needs B b)"
| "needs B (Rep n k r) = (0 < n \<and> needs B r)"
| "needs B (More n r) = (0 < n \<and> needs B r)"
| "needs B Bound = False"
| "needs B Start = False"

lemma reach_free: "(u, v) \<in> reach r \<Longrightarrow> set (snd u) \<inter> B = {} \<Longrightarrow> set (snd v) \<inter> B = {}"
  using reach_consumes [of u v r] by auto

lemma relpow_free:
  fixes R :: "(pos \<times> pos) set"
  assumes "\<And>u v :: pos. (u, v) \<in> R \<Longrightarrow> set (snd u) \<inter> B \<noteq> {}"
  shows "(u, v) \<in> R ^^ n \<Longrightarrow> 0 < n \<Longrightarrow> set (snd u) \<inter> B \<noteq> {}"
  using assms relpow_front [of u v "n - 1" R] by (cases n) auto

lemma needs_match: "needs B r \<Longrightarrow> (u, v) \<in> reach r \<Longrightarrow> set (snd u) \<inter> B \<noteq> {}"
proof (induction r arbitrary: u v)
  case (Seq a b)
  then obtain w where w: "(u, w) \<in> reach a" "(w, v) \<in> reach b" by auto
  then show ?case using Seq reach_free by (metis needs.simps(3))
next
  case (Rep n k r)
  obtain w where "(u, w) \<in> reach r ^^ n" using Rep.prems(2) by auto
  then show ?case using relpow_free [of "reach r" B u w n] Rep by auto
next
  case (More n r)
  obtain w where "(u, w) \<in> reach r ^^ n" using More.prems(2) by auto
  then show ?case using relpow_free [of "reach r" B u w n] More by auto
qed (auto simp: eats_def)

lemma needs_segs: "needs B r \<Longrightarrow> set s \<inter> B = {} \<Longrightarrow> segs r p s = map Inl s"
proof (induction s arbitrary: p)
  case Nil
  then have "ms r (p, []) = []" using needs_match [of B r "(p, [])"] unfolding ms_empty by auto
  then show ?case by (simp add: segs_Nil)
next
  case (Cons c s)
  then have "ms r (p, c # s) = []" using needs_match [of B r "(p, c # s)"] unfolding ms_empty by auto
  then show ?case using Cons by (simp add: segs_keep)
qed

end
