(* ===== verification/Pii_Scrubber.thy ===== *)
theory Pii_Scrubber
  imports Regex
begin

text \<open>
  \<open>security/input/pii.scrubber.ts\<close>: the eight patterns with their validators, the Luhn check
  and \<open>scrub\<close>, which applies the patterns one after the other. A pattern is translated
  construct by construct; capturing and plain groups do not differ, since no group is read.
\<close>

subsection \<open>Characters\<close>

definition digits :: string where
  "digits = ''0123456789''"

definition uppers :: string where
  "uppers = ''ABCDEFGHIJKLMNOPQRSTUVWXYZ''"

definition lowers :: string where
  "lowers = ''abcdefghijklmnopqrstuvwxyz''"

definition spaces :: string where
  "spaces = [CHR 0x09, CHR 0x0A, CHR 0x0B, CHR 0x0C, CHR 0x0D, CHR 0x20, CHR 0xA0]"

definition digit :: rx where
  "digit = Cls digits"

abbreviation opt :: "rx \<Rightarrow> rx" where
  "opt r \<equiv> Rep 0 1 r"

fun seqs :: "rx list \<Rightarrow> rx" where
  "seqs [] = Eps"
| "seqs [r] = r"
| "seqs (r # rs) = Seq r (seqs rs)"

text \<open>A literal text, and one matched with the flag \<open>i\<close>.\<close>

definition lit :: "string \<Rightarrow> rx" where
  "lit s = seqs (map (\<lambda>c. Cls [c]) s)"

definition both_cases :: "char \<Rightarrow> string" where
  "both_cases c = (if c \<in> set uppers then [c, char_of ((of_char c :: nat) + 32)]
     else if c \<in> set lowers then [c, char_of ((of_char c :: nat) - 32)] else [c])"

definition ilit :: "string \<Rightarrow> rx" where
  "ilit s = seqs (map (\<lambda>c. Cls (both_cases c)) s)"

subsection \<open>The Luhn check\<close>

definition digit_val :: "char \<Rightarrow> nat" where
  "digit_val c = of_char c - 48"

fun luhn_loop :: "nat list \<Rightarrow> bool \<Rightarrow> nat \<Rightarrow> nat" where
  "luhn_loop [] alternate s = s"
| "luhn_loop (n # ns) alternate s = luhn_loop ns (\<not> alternate)
     (s + (if alternate then (if 2 * n > 9 then 2 * n - 9 else 2 * n) else n))"

definition passesLuhn :: "string \<Rightarrow> bool" where
  "passesLuhn ds = (luhn_loop (rev (map digit_val ds)) False 0 mod 10 = 0)"

subsection \<open>The patterns\<close>

datatype (plugins only: code size) pii_type =
    CARD_NUMBER | CVV | EXPIRY_DATE | PHONE_NUMBER | EMAIL_ADDRESS | NATIONAL_ID | IBAN | SWIFT_CODE

fun pii_str :: "pii_type \<Rightarrow> string" where
  "pii_str CARD_NUMBER = ''CARD_NUMBER''"
| "pii_str CVV = ''CVV''"
| "pii_str EXPIRY_DATE = ''EXPIRY_DATE''"
| "pii_str PHONE_NUMBER = ''PHONE_NUMBER''"
| "pii_str EMAIL_ADDRESS = ''EMAIL_ADDRESS''"
| "pii_str NATIONAL_ID = ''NATIONAL_ID''"
| "pii_str IBAN = ''IBAN''"
| "pii_str SWIFT_CODE = ''SWIFT_CODE''"

text \<open>Every placeholder is made from the name of its type.\<close>

definition placeholder :: "pii_type \<Rightarrow> string" where
  "placeholder k = ''['' @ pii_str k @ ''_REDACTED]''"

definition card_body :: rx where
  "card_body = Seq (Rep 12 6 (Seq digit (opt (Cls '' -'')))) digit"

definition expiry_body :: rx where
  "expiry_body = seqs [Alt (Seq (Cls ''0'') (Cls ''123456789'')) (Seq (Cls ''1'') (Cls ''012'')),
     Cls ''/'', Alt (Rep 2 0 digit) (Rep 4 0 digit)]"

definition ssn_body :: rx where
  "ssn_body = seqs [Rep 3 0 digit, Cls ''-'', Rep 2 0 digit, Cls ''-'', Rep 4 0 digit]"

definition cvv_rx :: rx where
  "cvv_rx = seqs [Bound, ilit ''CVV'', More 0 (Cls (CHR '':'' # spaces)), Rep 3 1 digit, Bound]"

definition iban_rx :: rx where
  "iban_rx = (let alnum = Cls (digits @ uppers); sp = opt (Cls spaces) in
     seqs [Bound, Rep 2 0 (Cls uppers), Rep 2 0 digit, sp, Rep 4 0 alnum, sp,
       Rep 1 6 (Seq (Rep 4 0 alnum) sp), Rep 1 3 alnum, Bound])"

definition swift_rx :: rx where
  "swift_rx = (let alnum = Cls (uppers @ digits) in
     seqs [Bound, Rep 6 0 (Cls uppers), Rep 2 0 alnum, opt (Rep 3 0 alnum), Bound])"

definition email_rx :: rx where
  "email_rx = seqs [Bound, More 1 (Cls (uppers @ lowers @ digits @ ''._%+-'')), Cls ''@'',
     More 1 (Cls (uppers @ lowers @ digits @ ''.-'')), Cls ''.'', More 2 (Cls (uppers @ lowers)), Bound]"

definition phone_rx :: rx where
  "phone_rx = (let sep = opt (Cls (''-.'' @ spaces)) in
     seqs [opt (seqs [opt (Cls ''+''), Cls ''1'', sep]),
       opt (seqs [opt (Cls ''(''), Rep 3 0 digit, opt (Cls '')''), sep]),
       Rep 3 0 digit, sep, Rep 4 0 digit, Bound])"

definition only_digits :: "string \<Rightarrow> string" where
  "only_digits m = filter (\<lambda>c. c \<in> set digits) m"

record pii_entry =
  pe_type :: pii_type
  pe_pattern :: rx
  pe_validate :: "(string \<Rightarrow> bool) option"

definition card_entry :: pii_entry where
  "card_entry = \<lparr>pe_type = CARD_NUMBER, pe_pattern = whole card_body,
     pe_validate = Some (\<lambda>m. let ds = only_digits m in 13 \<le> length ds \<and> length ds \<le> 19 \<and> passesLuhn ds)\<rparr>"

definition expiry_entry :: pii_entry where
  "expiry_entry = \<lparr>pe_type = EXPIRY_DATE, pe_pattern = whole expiry_body, pe_validate = None\<rparr>"

definition ssn_entry :: pii_entry where
  "ssn_entry = \<lparr>pe_type = NATIONAL_ID, pe_pattern = whole ssn_body, pe_validate = None\<rparr>"

definition PATTERNS :: "pii_entry list" where
  "PATTERNS = [
     card_entry,
     \<lparr>pe_type = CVV, pe_pattern = cvv_rx, pe_validate = None\<rparr>,
     expiry_entry,
     \<lparr>pe_type = IBAN, pe_pattern = iban_rx,
      pe_validate = Some (\<lambda>m. let n = length (filter (\<lambda>c. c \<notin> set spaces) m) in 15 \<le> n \<and> n \<le> 34)\<rparr>,
     \<lparr>pe_type = SWIFT_CODE, pe_pattern = swift_rx, pe_validate = None\<rparr>,
     \<lparr>pe_type = EMAIL_ADDRESS, pe_pattern = email_rx, pe_validate = None\<rparr>,
     ssn_entry,
     \<lparr>pe_type = PHONE_NUMBER, pe_pattern = phone_rx,
      pe_validate = Some (\<lambda>m. let n = length (only_digits m) in 10 \<le> n \<and> n \<le> 15)\<rparr>]"

subsection \<open>\<open>scrub\<close>\<close>

definition accepted :: "pii_entry \<Rightarrow> string \<Rightarrow> bool" where
  "accepted e m = (case pe_validate e of None \<Rightarrow> True | Some v \<Rightarrow> v m)"

definition substitute :: "pii_entry \<Rightarrow> string \<Rightarrow> string" where
  "substitute e m = (if accepted e m then placeholder (pe_type e) else m)"

fun found :: "pii_entry \<Rightarrow> (char + string) list \<Rightarrow> pii_type list" where
  "found e [] = []"
| "found e (Inl c # xs) = found e xs"
| "found e (Inr m # xs) = (if accepted e m then pe_type e # found e xs else found e xs)"

definition scrub_entry :: "string \<times> pii_type list \<Rightarrow> pii_entry \<Rightarrow> string \<times> pii_type list" where
  "scrub_entry r e = (let xs = segs (pe_pattern e) None (fst r) in
     (render (substitute e) xs, snd r @ found e xs))"

definition scrub :: "string \<Rightarrow> string \<times> pii_type list" where
  "scrub text = foldl scrub_entry (text, []) PATTERNS"

subsection \<open>Facts about the Luhn check\<close>

definition luhn_term :: "bool \<Rightarrow> nat \<Rightarrow> nat" where
  "luhn_term alternate n = (if alternate then (if 2 * n > 9 then 2 * n - 9 else 2 * n) else n)"

fun luhn_sum :: "bool \<Rightarrow> nat list \<Rightarrow> nat" where
  "luhn_sum alternate [] = 0"
| "luhn_sum alternate (n # ns) = luhn_term alternate n + luhn_sum (\<not> alternate) ns"

lemma luhn_loop_sum: "luhn_loop ns alternate s = s + luhn_sum alternate ns"
  by (induction ns alternate s rule: luhn_loop.induct) (simp_all add: luhn_term_def)

lemma luhn_sum_append:
  "luhn_sum alternate (xs @ ys) = luhn_sum alternate xs + luhn_sum (alternate \<noteq> odd (length xs)) ys"
  by (induction alternate xs rule: luhn_sum.induct) auto

lemma digit_cases:
  assumes "c \<in> set digits"
  shows "digit_val c < 10 \<and> c = char_of (digit_val c + 48)"
proof -
  have "list_all (\<lambda>c. digit_val c < 10 \<and> c = char_of (digit_val c + 48)) digits" by code_simp
  then show ?thesis using assms by (simp add: list_all_iff)
qed

lemma digit_of: "c \<in> set digits \<Longrightarrow> digit_val c = n \<Longrightarrow> c = char_of (n + 48)"
  using digit_cases by blast

lemma char_nine: "char_of (57::nat) = CHR ''9''"
  by code_simp

lemma char_zero: "char_of (48::nat) = CHR ''0''"
  by code_simp

lemma digit_val_inject: "c \<in> set digits \<Longrightarrow> d \<in> set digits \<Longrightarrow> digit_val c = digit_val d \<longleftrightarrow> c = d"
  using digit_cases by metis

lemma mod_near:
  assumes "(a::nat) mod 10 = b mod 10" and "a < b + 10" and "b < a + 10"
  shows "a = b"
proof -
  have "a = b" if "a mod 10 = b mod 10" and "b \<le> a" and "a < b + 10" for a b :: nat
  proof -
    have "10 dvd a - b" using that(1) mod_eq_dvd_iff_nat [OF that(2)] by simp
    moreover have "a - b < 10" using that(2,3) by linarith
    ultimately have "a - b = 0" using nat_dvd_not_less by blast
    then show ?thesis using that(2) by simp
  qed
  then show ?thesis using assms by (metis nat_le_linear)
qed

lemma luhn_term_mod:
  assumes "m < 10" and "n < 10" and "luhn_term b m mod 10 = luhn_term b n mod 10"
  shows "m = n"
proof -
  have "luhn_term b k < 10" if "k < 10" for k
    using that unfolding luhn_term_def by auto
  then have "luhn_term b m = luhn_term b n" using assms by simp
  then show ?thesis using assms(1,2) unfolding luhn_term_def by (auto split: if_splits) presburger+
qed

lemma luhn_swap_mod:
  assumes "m < 10" and "n < 10"
    and "(luhn_term b m + luhn_term (\<not> b) n) mod 10 = (luhn_term b n + luhn_term (\<not> b) m) mod 10"
  shows "m = n \<or> {m, n} = {0, 9}"
proof -
  have near: "luhn_term b m + luhn_term (\<not> b) n < luhn_term b n + luhn_term (\<not> b) m + 10"
    "luhn_term b n + luhn_term (\<not> b) m < luhn_term b m + luhn_term (\<not> b) n + 10"
    using assms(1,2) unfolding luhn_term_def by auto
  have "luhn_term b m + luhn_term (\<not> b) n = luhn_term b n + luhn_term (\<not> b) m"
    by (rule mod_near [OF assms(3) near])
  then have "m = n \<or> m = 0 \<and> n = 9 \<or> m = 9 \<and> n = 0"
    using assms(1,2) unfolding luhn_term_def by (auto split: if_splits)
  then show ?thesis by auto
qed

lemma mod_add_cancel_zero:
  assumes "(n + k) mod 10 = (0::nat)" and "(n + l) mod 10 = 0"
  shows "k mod 10 = l mod 10"
proof -
  have "10 dvd n + k" and "10 dvd n + l" using assms by auto
  then have "10 dvd (n + k) - (n + l)" and "10 dvd (n + l) - (n + k)" by (simp_all only: dvd_diff_nat)
  then have "10 dvd k - l" and "10 dvd l - k" by simp_all
  then show ?thesis by (metis mod_eq_dvd_iff_nat nat_le_linear)
qed

text \<open>The Luhn check of the scrubber detects every change of one digit and every swap of two
  neighbouring digits other than 0 and 9.\<close>

theorem ps_luhn:
  assumes "c \<in> set digits" and "d \<in> set digits" and "c \<noteq> d"
  shows "\<not> (passesLuhn (a @ c # b) \<and> passesLuhn (a @ d # b)) \<and>
    (passesLuhn (a @ c # d # b) \<and> passesLuhn (a @ d # c # b) \<longrightarrow> {c, d} = {CHR ''0'', CHR ''9''})"
proof -
  let ?B = "map digit_val b" and ?A = "map digit_val a"
  let ?o = "odd (length b)"
  define x where "x = luhn_sum False (rev ?B)"
  define y where "y = luhn_sum (\<not> ?o) (rev ?A)"
  define z where "z = luhn_sum ?o (rev ?A)"
  have one: "passesLuhn (a @ e # b) \<longleftrightarrow> (x + y + luhn_term ?o (digit_val e)) mod 10 = 0" for e
    by (simp add: passesLuhn_def luhn_loop_sum luhn_sum_append x_def y_def ac_simps)
  have two: "passesLuhn (a @ e # f # b) \<longleftrightarrow>
      (x + z + (luhn_term ?o (digit_val f) + luhn_term (\<not> ?o) (digit_val e))) mod 10 = 0" for e f
    by (simp add: passesLuhn_def luhn_loop_sum luhn_sum_append x_def z_def ac_simps)
  have lt: "digit_val c < 10" "digit_val d < 10" using digit_cases assms(1,2) by blast+
  have ne: "digit_val c \<noteq> digit_val d" using digit_val_inject assms by blast
  show ?thesis
  proof (intro conjI impI notI)
    assume "passesLuhn (a @ c # b) \<and> passesLuhn (a @ d # b)"
    then have "luhn_term ?o (digit_val c) mod 10 = luhn_term ?o (digit_val d) mod 10"
      unfolding one by (elim conjE) (rule mod_add_cancel_zero)
    then show False using luhn_term_mod [OF lt] ne by blast
  next
    assume "passesLuhn (a @ c # d # b) \<and> passesLuhn (a @ d # c # b)"
    then have "(luhn_term ?o (digit_val d) + luhn_term (\<not> ?o) (digit_val c)) mod 10 =
        (luhn_term ?o (digit_val c) + luhn_term (\<not> ?o) (digit_val d)) mod 10"
      unfolding two by (elim conjE) (rule mod_add_cancel_zero)
    then have "digit_val d = digit_val c \<or> {digit_val d, digit_val c} = {0, 9}"
      by (rule luhn_swap_mod [OF lt(2,1)])
    then have "digit_val c = 9 \<and> digit_val d = 0 \<or> digit_val c = 0 \<and> digit_val d = 9"
      using ne unfolding doubleton_eq_iff by argo
    then consider "digit_val c = 9" "digit_val d = 0" | "digit_val c = 0" "digit_val d = 9"
      by argo
    then show "{c, d} = {CHR ''0'', CHR ''9''}"
    proof cases
      case 1
      have "c = CHR ''9''" using digit_of [OF assms(1) 1(1)] by (simp add: char_nine)
      moreover have "d = CHR ''0''" using digit_of [OF assms(2) 1(2)] by (simp add: char_zero)
      ultimately show ?thesis by (simp only: insert_commute)
    next
      case 2
      have "c = CHR ''0''" using digit_of [OF assms(1) 2(1)] by (simp add: char_zero)
      moreover have "d = CHR ''9''" using digit_of [OF assms(2) 2(2)] by (simp add: char_nine)
      ultimately show ?thesis by (simp only:)
    qed
  qed
qed

lemma ps_luhn_witness:
  "passesLuhn ''79927398713'' \<and> \<not> passesLuhn ''79927398113'' \<and> \<not> passesLuhn ''97927398713''"
proof -
  have p: "passesLuhn ''79927398713''" by (simp add: passesLuhn_def digit_val_def)
  have "\<not> (passesLuhn (''79927398'' @ CHR ''7'' # ''13'') \<and> passesLuhn (''79927398'' @ CHR ''1'' # ''13''))"
    using ps_luhn [of "CHR ''7''" "CHR ''1''" "''79927398''" "''13''"] by (simp add: digits_def)
  moreover have "\<not> passesLuhn ''97927398713''" by (simp add: passesLuhn_def digit_val_def)
  ultimately show ?thesis using p by simp
qed

subsection \<open>Words of the patterns\<close>

lemma digit_word: "c \<in> set digits \<Longrightarrow> is_word (Some c)"
  unfolding digits_def word_chars_def is_word.simps by auto

definition card_chars :: "char set" where
  "card_chars = set digits \<union> {CHR '' '', CHR ''-''}"

lemma lang_opt: "lang (opt r) = insert [] (lang r)"
proof -
  have "{..1::nat} = {0, 1}" by auto
  then show ?thesis unfolding lang_Rep by simp
qed

definition group_words :: "string set" where
  "group_words = {c # s | c s. c \<in> set digits \<and> s \<in> {[], '' '', ''-''}}"

lemma lang_group: "lang (Seq digit (opt (Cls '' -''))) = group_words"
proof -
  have "lang (opt (Cls '' -'')) = {[], '' '', ''-''}" unfolding lang_opt by simp
  then show ?thesis
    unfolding lang.simps(3) digit_def lang.simps(2) group_words_def by (simp only: conc_singletons)
qed

lemma group_word: "w \<in> group_words \<Longrightarrow> w \<noteq> [] \<and> hd w \<in> set digits"
  "w \<in> group_words \<Longrightarrow> set w \<subseteq> card_chars"
  unfolding group_words_def card_chars_def by auto

lemma card_words: "lang card_body = {x @ [d] | x d i. x \<in> lpow group_words (12 + i) \<and> i \<le> 6 \<and> d \<in> set digits}"
proof -
  have "lang card_body = conc (\<Union>i \<le> 6. lpow group_words (12 + i)) ((\<lambda>c. [c]) ` set digits)"
    unfolding card_body_def lang.simps(3) [of "Rep 12 6 _"] lang_Rep lang_group
    by (simp add: digit_def)
  also have "\<dots> = {x @ [d] | x d i. x \<in> lpow group_words (12 + i) \<and> i \<le> 6 \<and> d \<in> set digits}"
    unfolding conc_def by blast
  finally show ?thesis .
qed

lemma card_wordE:
  assumes "m \<in> lang card_body"
  obtains x d n where "m = x @ [d]" "d \<in> set digits" "x \<in> lpow group_words n"
proof -
  obtain x d i where "m = x @ [d]" "x \<in> lpow group_words (12 + i)" "d \<in> set digits"
    using assms unfolding card_words mem_Collect_eq by (elim exE conjE)
  then show thesis using that by blast
qed

lemma wordy_card: "wordy card_body card_chars"
proof -
  have "m \<noteq> [] \<and> set m \<subseteq> card_chars \<and> is_word (Some (hd m)) \<and> is_word (Some (last m))"
    if h: "m \<in> lang card_body" for m
  proof -
    obtain x d n where m: "m = x @ [d]" and d: "d \<in> set digits" and x: "x \<in> lpow group_words n"
      using h by (rule card_wordE)
    have "x = [] \<or> hd x \<in> set digits" by (rule lpow_hd [OF group_word(1) x])
    moreover have "set x \<subseteq> card_chars" by (rule lpow_set [OF group_word(2) x])
    moreover have "is_word (Some d)" using d by (rule digit_word)
    moreover have "d \<in> card_chars" using d unfolding card_chars_def by blast
    ultimately show ?thesis using d digit_word [of "hd x"] unfolding m
      by (cases "x = []") (simp_all del: is_word.simps)
  qed
  then show ?thesis unfolding wordy_def by (simp add: card_body_def digit_def)
qed

lemma digits_lpow: "set ds \<subseteq> set digits \<Longrightarrow> ds \<in> lpow group_words (length ds)"
proof (induction ds rule: rev_induct)
  case (snoc d ds)
  then have "ds \<in> lpow group_words (length ds)" and "[d] \<in> group_words" unfolding group_words_def by auto
  then show ?case using concI by fastforce
qed simp

lemma digits_card:
  assumes "set ds \<subseteq> set digits" and "13 \<le> length ds" and "length ds \<le> 19"
  shows "ds \<in> lang card_body"
proof -
  obtain x d where ds: "ds = x @ [d]" using assms(2) by (cases ds rule: rev_cases) auto
  have "x \<in> lpow group_words (12 + (length x - 12))" using digits_lpow [of x] assms unfolding ds by simp
  moreover have "length x - 12 \<le> 6" and "d \<in> set digits" using assms unfolding ds by simp_all
  ultimately show ?thesis unfolding card_words ds by blast
qed

lemma card_starts: "m \<in> lang card_body \<Longrightarrow> m \<noteq> [] \<and> hd m \<in> set digits"
proof -
  assume "m \<in> lang card_body"
  then obtain x d n where m: "m = x @ [d]" "d \<in> set digits" and x: "x \<in> lpow group_words n"
    by (rule card_wordE)
  have "x = [] \<or> hd x \<in> set digits" by (rule lpow_hd [OF group_word(1) x])
  then show "m \<noteq> [] \<and> hd m \<in> set digits" unfolding m(1) using m(2) by (cases x) simp_all
qed

lemma no_digit_keeps:
  assumes "set s \<inter> set digits = {}"
  shows "segs (whole card_body) p (s @ t) = map Inl s @ segs (whole card_body) (last_of p s) t"
  using assms
proof (induction s arbitrary: p)
  case (Cons c s)
  have "\<not> (\<exists>m \<in> lang card_body. \<exists>u. c # s @ t = m @ u)"
  proof
    assume "\<exists>m \<in> lang card_body. \<exists>u. c # s @ t = m @ u"
    then obtain m u where "c # s @ t = m @ u" and "m \<noteq> []" and "hd m \<in> set digits"
      using card_starts by blast
    then have "c \<in> set digits" by (cases m) simp_all
    then show False using Cons.prems by simp
  qed
  then have "ms (whole card_body) (p, c # s @ t) = []" unfolding whole_none [OF wordy_card] by blast
  then show ?case using Cons by (simp add: segs_keep)
qed simp

text \<open>In front of a text that can continue no card number, a number is read as a whole.\<close>

lemma card_prefix:
  assumes "m \<in> lang card_body" and "m @ u = ds @ post" and "set ds \<subseteq> set digits"
    and "\<not> is_word (next_char u)" and "\<And>c. next_char post = Some c \<Longrightarrow> c \<notin> card_chars"
  shows "m = ds \<and> u = post"
proof -
  have sub: "set m \<subseteq> card_chars" using wordy_card assms(1) unfolding wordy_def by blast
  obtain x where "m @ x = ds \<and> u = x @ post \<or> m = ds @ x \<and> x @ u = post"
    using assms(2) by (auto simp: append_eq_append_conv2)
  then show ?thesis
  proof
    assume x: "m @ x = ds \<and> u = x @ post"
    show ?thesis
    proof (cases x)
      case (Cons c y)
      then have "c \<in> set digits" and "next_char u = Some c" using x assms(3) by auto
      then show ?thesis using assms(4) digit_word by (simp del: is_word.simps)
    qed (use x in simp)
  next
    assume x: "m = ds @ x \<and> x @ u = post"
    show ?thesis
    proof (cases x)
      case (Cons c y)
      then have "next_char post = Some c" and "c \<in> card_chars" using x sub by auto
      then show ?thesis using assms(5) by blast
    qed (use x in simp)
  qed
qed

lemma card_pass:
  assumes "set pre \<inter> set digits = {}" and "set post \<inter> set digits = {}"
    and "\<not> is_word (last_of None pre)" and "\<not> is_word (next_char post)"
    and "\<And>c. next_char post = Some c \<Longrightarrow> c \<notin> card_chars"
    and "set ds \<subseteq> set digits" and "13 \<le> length ds" and "length ds \<le> 19"
  shows "segs (whole card_body) None (pre @ ds @ post) = map Inl pre @ Inr ds # map Inl post"
proof -
  have "segs (whole card_body) (last_of None pre) (ds @ post) = Inr ds # map Inl post"
  proof (rule whole_cases [OF wordy_card, of "last_of None pre" "ds @ post"])
    assume "ms (whole card_body) (last_of None pre, ds @ post) = []"
    then show ?thesis
      using digits_card [OF assms(6-8)] assms(3,4) unfolding whole_none [OF wordy_card] by blast
  next
    fix m u
    assume m: "ds @ post = m @ u" "m \<in> lang card_body" "\<not> is_word (next_char u)"
      "segs (whole card_body) (last_of None pre) (ds @ post) = Inr m # segs (whole card_body) (Some (last m)) u"
    then have "m = ds" and "u = post" using card_prefix [OF m(2) m(1) [symmetric] assms(6) m(3) assms(5)] by blast+
    moreover have "segs (whole card_body) p post = map Inl post" for p
      using no_digit_keeps [OF assms(2), of p "[]"] by (simp add: segs_Nil whole_none [OF wordy_card] card_starts)
    ultimately show ?thesis using m(4) by simp
  qed
  then show ?thesis using no_digit_keeps [OF assms(1), of None "ds @ post"] by simp
qed

lemma render_Inl [simp]: "render f (map Inl s @ xs) = s @ render f xs"
  by (induction s) auto

lemma render_Inls [simp]: "render f (map Inl s) = s"
  using render_Inl [of f s "[]"] by simp

lemma found_Inl [simp]: "found e (map Inl s @ xs) = found e xs"
  by (induction s) auto

lemma found_Inls [simp]: "found e (map Inl s) = []"
  using found_Inl [of e s "[]"] by simp

lemma only_digits_id: "set ds \<subseteq> set digits \<Longrightarrow> only_digits ds = ds"
  unfolding only_digits_def by (auto intro: filter_True)

text \<open>A text whose only digits are those of a number of 13 to 19 digits, with no letter
  or underscore before it and none, no space and no dash after it, is changed by the card pass
  exactly when the number passes the Luhn check; then the number is replaced and reported, and
  nothing else is touched.\<close>

theorem ps_card:
  assumes "set pre \<inter> set digits = {}" and "set post \<inter> set digits = {}"
    and "\<not> is_word (last_of None pre)" and "\<not> is_word (next_char post)"
    and "next_char post \<noteq> Some (CHR '' '')" and "next_char post \<noteq> Some (CHR ''-'')"
    and "set ds \<subseteq> set digits" and "13 \<le> length ds" and "length ds \<le> 19"
  shows "scrub_entry (pre @ ds @ post, found_so_far) card_entry =
    (if passesLuhn ds then (pre @ ''[CARD_NUMBER_REDACTED]'' @ post, found_so_far @ [CARD_NUMBER])
     else (pre @ ds @ post, found_so_far))"
proof -
  have "c \<notin> card_chars" if "next_char post = Some c" for c
    using that assms(4-6) digit_word unfolding card_chars_def by auto
  then have "segs (whole card_body) None (pre @ ds @ post) = map Inl pre @ Inr ds # map Inl post"
    by (rule card_pass [OF assms(1-4) _ assms(7-9)])
  then show ?thesis using assms(8,9) only_digits_id [OF assms(7)]
    by (simp add: scrub_entry_def card_entry_def substitute_def accepted_def Let_def placeholder_def)
qed

lemma ps_card_witness:
  "scrub_entry (''pay ('' @ ''4111111111111111'' @ '') now'', []) card_entry =
    (''pay ('' @ ''[CARD_NUMBER_REDACTED]'' @ '') now'', [CARD_NUMBER])"
proof -
  have "passesLuhn ''4111111111111111''" by (simp add: passesLuhn_def digit_val_def)
  moreover have "\<not> is_word (last_of None ''pay ('')" and "\<not> is_word (next_char '') now'')" by code_simp+
  ultimately show ?thesis
    using ps_card [of "''pay (''" "'') now''" "''4111111111111111''" "[]"] by (simp add: digits_def)
qed

subsection \<open>Passes that leave no match\<close>

lemma lang_count: "lang (Rep n 0 digit) = lpow ((\<lambda>c. [c]) ` set digits) n"
  unfolding lang_Rep by (simp add: digit_def)

lemma lpow_digits: "x \<in> lpow ((\<lambda>c. [c]) ` set digits) n \<Longrightarrow> length x = n \<and> set x \<subseteq> set digits"
proof (induction n arbitrary: x)
  case (Suc n)
  then obtain a b where "x = a @ b" "a \<in> lpow ((\<lambda>c. [c]) ` set digits) n" "b \<in> (\<lambda>c. [c]) ` set digits"
    by (auto elim: concE)
  then show ?case using Suc.IH by auto
qed simp

lemma wordyI:
  assumes "plain body"
    and "\<And>m. m \<in> lang body \<Longrightarrow> \<exists>x y. m = x @ y \<and> x \<noteq> [] \<and> y \<noteq> [] \<and> set m \<subseteq> A \<and>
      hd x \<in> set digits \<and> last y \<in> set digits"
  shows "wordy body A"
proof -
  have "m \<noteq> [] \<and> set m \<subseteq> A \<and> is_word (Some (hd m)) \<and> is_word (Some (last m))" if "m \<in> lang body" for m
    using assms(2) [OF that] digit_word by (auto simp del: is_word.simps)
  then show ?thesis unfolding wordy_def using assms(1) by blast
qed

lemma wordy_ssn: "wordy ssn_body (insert (CHR ''-'') (set digits))"
proof (rule wordyI)
  fix m
  assume "m \<in> lang ssn_body"
  then obtain x y z where m: "m = x @ ''-'' @ y @ ''-'' @ z" and
    "x \<in> lpow ((\<lambda>c. [c]) ` set digits) 3" "y \<in> lpow ((\<lambda>c. [c]) ` set digits) 2"
    "z \<in> lpow ((\<lambda>c. [c]) ` set digits) 4"
    unfolding ssn_body_def seqs.simps lang.simps(3) lang_count lang.simps(2) by (auto elim!: concE)
  then have l: "length x = 3" "set x \<subseteq> set digits" "set y \<subseteq> set digits" "length z = 4" "set z \<subseteq> set digits"
    using lpow_digits by blast+
  then have "x \<noteq> []" and "z \<noteq> []" by auto
  then have "hd x \<in> set digits" and "last z \<in> set digits" using l hd_in_set last_in_set by blast+
  then show "\<exists>x y. m = x @ y \<and> x \<noteq> [] \<and> y \<noteq> [] \<and> set m \<subseteq> insert (CHR ''-'') (set digits) \<and>
      hd x \<in> set digits \<and> last y \<in> set digits"
    using m l \<open>x \<noteq> []\<close> \<open>z \<noteq> []\<close> by (intro exI [of _ x] exI [of _ "''-'' @ y @ ''-'' @ z"]) auto
qed (simp add: ssn_body_def digit_def)

lemma wordy_expiry: "wordy expiry_body (insert (CHR ''/'') (set digits))"
proof (rule wordyI)
  fix m
  assume "m \<in> lang expiry_body"
  then obtain x y n where m: "m = x @ ''/'' @ y"
    and x: "x \<in> lang (Alt (Seq (Cls ''0'') (Cls ''123456789'')) (Seq (Cls ''1'') (Cls ''012'')))"
    and y: "y \<in> lpow ((\<lambda>c. [c]) ` set digits) n" "n = 2 \<or> n = 4"
    unfolding expiry_body_def seqs.simps lang.simps(3) [of _ "Seq _ _"] lang.simps(3) [of "Cls ''/''"]
      lang.simps(4) [of "Rep _ _ _"] lang_count lang.simps(2) [of "''/''"]
    by (auto elim!: concE simp del: lang.simps)
  have "set x \<subseteq> set digits \<and> x \<noteq> [] \<and> hd x \<in> set digits"
    using x by (auto elim!: concE simp: digits_def)
  moreover have "length y = n" "set y \<subseteq> set digits" using lpow_digits [OF y(1)] by blast+
  moreover then have "y \<noteq> []" using y(2) by auto
  moreover then have "last y \<in> set digits" using calculation(3) last_in_set by blast
  ultimately show "\<exists>x y. m = x @ y \<and> x \<noteq> [] \<and> y \<noteq> [] \<and> set m \<subseteq> insert (CHR ''/'') (set digits) \<and>
      hd x \<in> set digits \<and> last y \<in> set digits"
    using m by (intro exI [of _ x] exI [of _ "''/'' @ y"]) auto
qed (simp add: expiry_body_def digit_def)

lemma entry_clears:
  assumes "wordy body A" and "set (placeholder k) \<inter> A = {}"
  shows "\<not> rx_test (whole body)
    (fst (scrub_entry (text, ks) \<lparr>pe_type = k, pe_pattern = whole body, pe_validate = None\<rparr>))"
proof -
  have "substitute \<lparr>pe_type = k, pe_pattern = whole body, pe_validate = None\<rparr> = (\<lambda>_. placeholder k)"
    by (simp add: substitute_def accepted_def fun_eq_iff)
  then show ?thesis
    using replace_clears [OF assms] by (simp add: scrub_entry_def replace_all_def Let_def placeholder_def word_chars_def)
qed

text \<open>Whatever the text, after the pass for social security numbers it holds none, and
  after the pass for expiry dates it holds none.\<close>

theorem ps_clears:
  "\<not> rx_test (whole ssn_body) (fst (scrub_entry (text, ks) ssn_entry)) \<and>
   \<not> rx_test (whole expiry_body) (fst (scrub_entry (text, ks) expiry_entry))"
proof
  show "\<not> rx_test (whole ssn_body) (fst (scrub_entry (text, ks) ssn_entry))"
    unfolding ssn_entry_def by (rule entry_clears [OF wordy_ssn]) (simp add: placeholder_def digits_def)
  show "\<not> rx_test (whole expiry_body) (fst (scrub_entry (text, ks) expiry_entry))"
    unfolding expiry_entry_def by (rule entry_clears [OF wordy_expiry]) (simp add: placeholder_def digits_def)
qed

subsection \<open>Text that is left alone\<close>

definition marks :: "char set" where
  "marks = set digits \<union> set uppers \<union> {CHR ''@''}"

lemma needs_seqs [simp]: "needs B (seqs rs) = list_ex (needs B) rs"
  by (induction rs rule: seqs.induct) auto

lemma needs_digit [simp]: "needs marks digit"
  by (auto simp: digit_def marks_def)

lemma PATTERNS_need: "list_all (\<lambda>e. needs marks (pe_pattern e)) PATTERNS"
proof -
  have "set uppers \<subseteq> marks" and "CHR ''@'' \<in> marks" by (auto simp: marks_def)
  then show ?thesis
    by (simp add: PATTERNS_def card_entry_def expiry_entry_def ssn_entry_def whole_def card_body_def
        expiry_body_def ssn_body_def cvv_rx_def iban_rx_def swift_rx_def email_rx_def phone_rx_def Let_def
        del: seqs.simps)
qed

lemma entries_keep:
  assumes "set t \<inter> marks = {}" and "list_all (\<lambda>e. needs marks (pe_pattern e)) es"
  shows "foldl scrub_entry (t, ks) es = (t, ks)"
  using assms(2)
proof (induction es)
  case (Cons e es)
  then have "segs (pe_pattern e) None t = map Inl t" using needs_segs [OF _ assms(1)] by simp
  then have "scrub_entry (t, ks) e = (t, ks)" by (simp add: scrub_entry_def)
  then show ?case using Cons by simp
qed simp

lemma scrub_unmarked: "set t \<inter> marks = {} \<Longrightarrow> scrub t = (t, [])"
  unfolding scrub_def by (rule entries_keep [OF _ PATTERNS_need])

text \<open>A text without a digit, a capital letter or an at sign is returned as it is, with
  nothing reported.\<close>

theorem ps_clean:
  assumes "set t \<inter> (set digits \<union> set uppers \<union> {CHR ''@''}) = {}"
  shows "scrub t = (t, [])"
  using assms by (rule scrub_unmarked [unfolded marks_def])

lemma ps_clean_witness: "scrub ''buy the dip (cvv: none)'' = (''buy the dip (cvv: none)'', [])"
  by (rule ps_clean) (simp add: digits_def uppers_def)

text \<open>A valid card number written in groups and followed by a space and its expiry date
  is not scrubbed: the card pattern swallows the month, the Luhn check then fails, and no other
  pattern fits; without the date the number is scrubbed.\<close>

theorem ps_leak:
  "scrub ''4111 1111 1111 1111 12/27'' = (''4111 1111 1111 1111 [EXPIRY_DATE_REDACTED]'', [EXPIRY_DATE]) \<and>
   scrub ''4111 1111 1111 1111'' = (''[CARD_NUMBER_REDACTED]'', [CARD_NUMBER])"
proof
  show "scrub ''4111 1111 1111 1111 12/27'' =
      (''4111 1111 1111 1111 [EXPIRY_DATE_REDACTED]'', [EXPIRY_DATE])" by code_simp
  show "scrub ''4111 1111 1111 1111'' = (''[CARD_NUMBER_REDACTED]'', [CARD_NUMBER])" by code_simp
qed

end
