(* ===== verification/Secrets.thy ===== *)
theory Secrets
  imports Kill_Switch "HOL-Library.Sublist"
begin

text \<open>
  \<open>security/secrets\<close>: the two KMS adapters, the loader, the rotation watcher and the dead man's
  switch. The environment of the process and the AWS client are parameters: \<open>env k\<close> is
  \<open>process.env[k]\<close>, \<open>decrypt\<close> and \<open>describe\<close> the answers to the two commands.
\<close>

subsection \<open>KMS adapters (\<open>kms.adapter.ts\<close>)\<close>

record key_version =
  kv_versionId :: string
  kv_createdAt :: int
  kv_status :: string

type_synonym env = "string \<Rightarrow> string option"

definition not_set :: "string \<Rightarrow> js_error" where
  "not_set k = PlainError [S ''Environment variable '', S k, S '' is not set'']"

definition local_getSecret :: "env \<Rightarrow> string \<Rightarrow> js_error + string" where
  "local_getSecret env k = (case env k of None \<Rightarrow> Inl (not_set k)
     | Some v \<Rightarrow> if v = '''' then Inl (not_set k) else Inr v)"

definition local_listKeyVersions :: "env \<Rightarrow> int \<Rightarrow> string \<Rightarrow> js_error + key_version list" where
  "local_listKeyVersions env now k = (case env k of None \<Rightarrow> Inr []
     | Some v \<Rightarrow> if v = '''' then Inr []
         else Inr [\<lparr>kv_versionId = ''local-v1'', kv_createdAt = now, kv_status = ''Active''\<rparr>])"

text \<open>\<open>decrypt c\<close>: the decoded plaintext of the base64 text \<open>c\<close>, or the error of the client
  or of the schema.\<close>

definition aws_getSecret :: "(string \<Rightarrow> js_error + string) \<Rightarrow> env \<Rightarrow> string \<Rightarrow> js_error + string" where
  "aws_getSecret decrypt env k = (case env k of None \<Rightarrow> Inl (not_set k)
     | Some v \<Rightarrow> if v = '''' then Inl (not_set k) else decrypt v)"

record key_metadata =
  km_KeyId :: string
  km_CreationDate :: "int option"
  km_KeyState :: "string option"

definition aws_listKeyVersions ::
    "(string \<Rightarrow> js_error + key_metadata option) \<Rightarrow> int \<Rightarrow> string \<Rightarrow> js_error + key_version list" where
  "aws_listKeyVersions describe now k = (case describe k of Inl e \<Rightarrow> Inl e
     | Inr None \<Rightarrow> Inr []
     | Inr (Some m) \<Rightarrow> Inr [\<lparr>kv_versionId = km_KeyId m,
         kv_createdAt = (case km_CreationDate m of None \<Rightarrow> now | Some t \<Rightarrow> t),
         kv_status = (case km_KeyState m of None \<Rightarrow> ''Enabled'' | Some s \<Rightarrow> s)\<rparr>])"

subsection \<open>The loader (\<open>secrets.loader.ts\<close>)\<close>

record loader_config =
  lc_requiredSecrets :: "string list"
  lc_kmsProvider :: string

record loader =
  sl_store :: "string \<rightharpoonup> string"
  sl_out :: "effect list"

text \<open>\<open>message.includes('is not set')\<close>; a printed number cannot be a part of the phrase, so any
  digit stands for it.\<close>

definition tmpl_text :: "tmpl \<Rightarrow> string" where
  "tmpl_text m = concat (map (\<lambda>c. case c of S s \<Rightarrow> s | _ \<Rightarrow> ''0'') m)"

definition says_not_set :: "js_error \<Rightarrow> bool" where
  "says_not_set e = sublist ''is not set'' (tmpl_text (error_message e))"

definition store_secret :: "string \<Rightarrow> string \<Rightarrow> string \<Rightarrow> string \<Rightarrow> loader \<Rightarrow> loader" where
  "store_secret provider verb k v l = l\<lparr>sl_store := (sl_store l)(k \<mapsto> v),
     sl_out := sl_out l @ [Alert LOW SECRET_LOADED [S ''Secret '', S k, S verb, S provider]
       [(''secretName'', JStr k), (''provider'', JStr provider)]]\<rparr>"

fun load_loop ::
    "string \<Rightarrow> (string \<Rightarrow> js_error + string) \<Rightarrow> string list \<Rightarrow>
     (string \<rightharpoonup> string) \<times> string list \<times> string list \<times> loader \<Rightarrow> (string \<rightharpoonup> string) \<times> string list \<times> string list \<times> loader" where
  "load_loop provider getSecret [] st = st"
| "load_loop provider getSecret (k # ks) (loaded, missing, failed, l) = load_loop provider getSecret ks
     (case getSecret k of
        Inr v \<Rightarrow> (loaded(k \<mapsto> v), missing, failed, store_secret provider '' loaded via '' k v l)
      | Inl e \<Rightarrow> if says_not_set e then (loaded, missing @ [k], failed, l) else (loaded, missing, failed @ [k], l))"

definition unavailable_error :: "string list \<Rightarrow> js_error" where
  "unavailable_error ks = new_error SecretsError SECRET_NOT_FOUND
     (S ''Missing or failed secrets: ['' # join_tmpl '', '' (map (\<lambda>k. [S k]) ks) @ [S '']''])"

definition sl_load :: "loader_config \<Rightarrow> (string \<Rightarrow> js_error + string) \<Rightarrow> loader \<Rightarrow>
    (js_error + (string \<rightharpoonup> string)) \<times> loader" where
  "sl_load c getSecret l = (
     let (loaded, missing, failed, l1) = load_loop (lc_kmsProvider c) getSecret (lc_requiredSecrets c) (Map.empty, [], [], l)
     in if missing @ failed \<noteq> [] then (Inl (unavailable_error (missing @ failed)), l1)
        else if list_ex (\<lambda>k. loaded k = Some '''') (lc_requiredSecrets c) then (Inl ZodError, l1)
        else (Inr loaded, l1))"

definition sl_get :: "string \<Rightarrow> loader \<Rightarrow> js_error + string" where
  "sl_get k l = (case sl_store l k of
     None \<Rightarrow> Inl (new_error SecretsError SECRET_NOT_FOUND [S ''Secret '', S k, S '' not found in store''])
   | Some v \<Rightarrow> Inr v)"

definition sl_reload :: "loader_config \<Rightarrow> (string \<Rightarrow> js_error + string) \<Rightarrow> string \<Rightarrow> loader \<Rightarrow>
    (js_error + unit) \<times> loader" where
  "sl_reload c getSecret k l = (case getSecret k of
     Inr v \<Rightarrow> (Inr (), store_secret (lc_kmsProvider c) '' reloaded via '' k v l)
   | Inl _ \<Rightarrow> (Inl (new_error SecretsError SECRET_DECRYPTION_FAILED [S ''Failed to reload secret '', S k]), l))"

subsection \<open>The rotation watcher (\<open>key.rotation.watcher.ts\<close>)\<close>

text \<open>The text of an ISO instant is ordered as the instant is.\<close>

fun latest_loop :: "key_version \<Rightarrow> key_version list \<Rightarrow> key_version" where
  "latest_loop l [] = l"
| "latest_loop l (v # vs) = latest_loop (if kv_createdAt l < kv_createdAt v then v else l) vs"

fun findLatestVersion :: "key_version list \<Rightarrow> key_version option" where
  "findLatestVersion [] = None"
| "findLatestVersion (v # vs) = Some (latest_loop v vs)"

definition cronExpression :: "int \<Rightarrow> tmpl" where
  "cronExpression n = (if n < 60 then [S ''*/'', N (of_int n), S '' * * * * *'']
     else [S ''*/'', N (of_int ((n + 59) div 60)), S '' * * * *''])"

record watcher =
  kr_known :: "string \<rightharpoonup> string"
  kr_scheduled :: "tmpl option"

definition kr_start :: "int \<Rightarrow> watcher \<Rightarrow> watcher" where
  "kr_start n x = (if kr_scheduled x \<noteq> None then x else x\<lparr>kr_scheduled := Some (cronExpression n)\<rparr>)"

definition kr_stop :: "watcher \<Rightarrow> watcher" where
  "kr_stop x = x\<lparr>kr_scheduled := None\<rparr>"

definition rotation_alert :: "string \<Rightarrow> string \<Rightarrow> string \<Rightarrow> effect" where
  "rotation_alert k old new = Alert MEDIUM SECRET_ROTATION_DETECTED [S ''Rotation detected for secret '', S k]
     [(''secretName'', JStr k), (''previousVersion'', JStr old), (''newVersion'', JStr new)]"

text \<open>One secret of a poll; every error is caught and logged.\<close>

definition poll_secret ::
    "loader_config \<Rightarrow> (string \<Rightarrow> js_error + key_version list) \<Rightarrow> (string \<Rightarrow> js_error + string) \<Rightarrow>
     string \<Rightarrow> (string \<rightharpoonup> string) \<times> loader \<Rightarrow> (string \<rightharpoonup> string) \<times> loader" where
  "poll_secret c versions getSecret k st = (case versions k of
     Inl _ \<Rightarrow> st
   | Inr vs \<Rightarrow> (case findLatestVersion vs of
       None \<Rightarrow> st
     | Some v \<Rightarrow> (case fst st k of
         None \<Rightarrow> ((fst st)(k \<mapsto> kv_versionId v), snd st)
       | Some old \<Rightarrow> if old \<noteq> kv_versionId v
           then ((fst st)(k \<mapsto> kv_versionId v), snd (sl_reload c getSecret k
             ((snd st)\<lparr>sl_out := sl_out (snd st) @ [rotation_alert k old (kv_versionId v)]\<rparr>)))
           else st)))"

fun poll_loop ::
    "loader_config \<Rightarrow> (string \<Rightarrow> js_error + key_version list) \<Rightarrow> (string \<Rightarrow> js_error + string) \<Rightarrow>
     string list \<Rightarrow> (string \<rightharpoonup> string) \<times> loader \<Rightarrow> (string \<rightharpoonup> string) \<times> loader" where
  "poll_loop c versions getSecret [] st = st"
| "poll_loop c versions getSecret (k # ks) st =
     poll_loop c versions getSecret ks (poll_secret c versions getSecret k st)"

definition pollForRotations ::
    "loader_config \<Rightarrow> (string \<Rightarrow> js_error + key_version list) \<Rightarrow> (string \<Rightarrow> js_error + string) \<Rightarrow>
     watcher \<Rightarrow> loader \<Rightarrow> watcher \<times> loader" where
  "pollForRotations c versions getSecret x l = (
     let (known, l1) = poll_loop c versions getSecret (lc_requiredSecrets c) (kr_known x, l)
     in (x\<lparr>kr_known := known\<rparr>, l1))"

subsection \<open>The dead man's switch (\<open>dead.mans.switch.ts\<close>)\<close>

record dead_man =
  dm_running :: bool                  \<comment> \<open>\<open>intervalHandle \<noteq> null\<close>\<close>
  dm_lastHeartbeatAt :: "int option"

definition heartbeatKey :: string where
  "heartbeatKey = ''deadman:heartbeat''"

definition dm_start :: "dead_man \<Rightarrow> dead_man" where
  "dm_start d = d\<lparr>dm_running := True\<rparr>"

definition dm_stop :: "dead_man \<Rightarrow> dead_man" where
  "dm_stop d = d\<lparr>dm_running := False\<rparr>"

definition dm_recordHeartbeat ::
    "('s, 'z) redis_scheme \<Rightarrow> config \<Rightarrow> int \<Rightarrow> dead_man \<Rightarrow> 's world \<Rightarrow> dead_man \<times> 's world" where
  "dm_recordHeartbeat R cfg now d w = (d\<lparr>dm_lastHeartbeatAt := Some now\<rparr>,
     with_db (rsetex R now heartbeatKey (deadManSwitchHeartbeatTimeoutSeconds cfg * 2) (JDate now)) w)"

text \<open>\<open>Math.round(ms / 1000)\<close>: halves go up.\<close>

definition round_seconds :: "int \<Rightarrow> int" where
  "round_seconds ms = (ms + 500) div 1000"

definition triggerSwitch ::
    "('s, 'z) redis_scheme \<Rightarrow> config \<Rightarrow> int \<Rightarrow> dead_man \<Rightarrow> 's world \<Rightarrow> dead_man \<times> 's world" where
  "triggerSwitch R cfg now d w = (
     let timeout = deadManSwitchHeartbeatTimeoutSeconds cfg;
         elapsed = (case dm_lastHeartbeatAt d of None \<Rightarrow> timeout | Some t \<Rightarrow> round_seconds (now - t));
         alert = Alert CRITICAL DEAD_MANS_SWITCH_TRIGGERED
           [S ''Dead man switch triggered: no heartbeat for '', N (of_int elapsed), S ''s (timeout: '',
            N (of_int timeout), S ''s)'']
           [(''lastHeartbeatAt'', case dm_lastHeartbeatAt d of None \<Rightarrow> JStr ''never'' | Some t \<Rightarrow> JDate t),
            (''timeoutSeconds'', JNum (of_int timeout)), (''elapsedSeconds'', JNum (of_int elapsed))]
     in (dm_stop d, ks_trigger R now KS_Global
           [S ''DEAD_MANS_SWITCH_TRIGGERED: no heartbeat for '', N (of_int elapsed), S ''s''] ''DeadMansSwitch''
           (emit alert w)))"

text \<open>\<open>up\<close> says whether the read of the key succeeds; an error is caught and logged.\<close>

definition checkHeartbeat ::
    "('s, 'z) redis_scheme \<Rightarrow> config \<Rightarrow> bool \<Rightarrow> int \<Rightarrow> dead_man \<Rightarrow> 's world \<Rightarrow> dead_man \<times> 's world" where
  "checkHeartbeat R cfg up now d w =
     (if up \<and> rget R now (db w) heartbeatKey = None then triggerSwitch R cfg now d w else (d, w))"

text \<open>The period of the interval timer, in milliseconds.\<close>

definition checkIntervalMs :: "config \<Rightarrow> int" where
  "checkIntervalMs cfg = deadManSwitchHeartbeatTimeoutSeconds cfg * 500"

subsection \<open>The switch over time\<close>

text \<open>The timer fires at the given times until the switch is stopped; the times at which it
  triggered are collected.\<close>

fun dm_ticks ::
    "('s, 'z) redis_scheme \<Rightarrow> config \<Rightarrow> int list \<Rightarrow> dead_man \<Rightarrow> 's world \<Rightarrow> int list \<times> dead_man \<times> 's world" where
  "dm_ticks R cfg [] d w = ([], d, w)"
| "dm_ticks R cfg (t # ts) d w =
     (if \<not> dm_running d then ([], d, w)
      else let (d1, w1) = checkHeartbeat R cfg True t d w; (hits, r) = dm_ticks R cfg ts d1 w1
           in (if rget R t (db w) heartbeatKey = None then t # hits else hits, r))"

lemma ticks_stopped: "\<not> dm_running d \<Longrightarrow> dm_ticks R cfg ts d w = ([], d, w)"
  by (cases ts) simp_all

text \<open>The key of the heartbeat lives for twice the timeout.\<close>

definition beat_alive :: "('s, 'z) redis_scheme \<Rightarrow> int \<Rightarrow> int \<Rightarrow> 's \<Rightarrow> bool" where
  "beat_alive R tb T s \<longleftrightarrow>
     (\<forall>t \<ge> tb. (t < tb + T * 2000 \<longrightarrow> rget R t s heartbeatKey \<noteq> None) \<and>
       (tb + T * 2000 < t \<longrightarrow> rget R t s heartbeatKey = None))"

context redis_kv
begin

lemma beat_recorded:
  "0 < deadManSwitchHeartbeatTimeoutSeconds cfg \<Longrightarrow>
   beat_alive R tb (deadManSwitchHeartbeatTimeoutSeconds cfg) (db (snd (dm_recordHeartbeat R cfg tb d w)))"
  unfolding beat_alive_def dm_recordHeartbeat_def
  using get_setex_live [of tb _ "deadManSwitchHeartbeatTimeoutSeconds cfg * 2"]
    get_setex_dead [of "deadManSwitchHeartbeatTimeoutSeconds cfg * 2" tb]
  by (auto simp: algebra_simps)

lemma trigger_halts:
  assumes "\<tau> \<le> t"
  shows "ks_isActive R t sc (snd (triggerSwitch R cfg \<tau> d w))"
  using halt.trigger_active [OF assms] halt.global_active by (simp add: triggerSwitch_def Let_def)

lemma ticks_trigger:
  assumes "beat_alive R tb T (db w)" and "dm_running d" and "0 < T"
    and "successively (\<lambda>a b. a \<le> b \<and> b \<le> a + T * 500) (a # ts)" and "tb \<le> a" and "a \<le> tb + T * 2000"
    and "tb + T * 2000 < last (a # ts)"
  shows "\<exists>\<tau>. fst (dm_ticks R cfg ts d w) = [\<tau>] \<and> tb + T * 2000 \<le> \<tau> \<and> \<tau> \<le> tb + T * 2500 \<and>
    snd (dm_ticks R cfg ts d w) = triggerSwitch R cfg \<tau> d w"
  using assms(4-7)
proof (induction ts arbitrary: a)
  case (Cons t ts)
  have t: "a \<le> t" "t \<le> a + T * 500" "successively (\<lambda>a b. a \<le> b \<and> b \<le> a + T * 500) (t # ts)"
    using Cons.prems(1) by (auto simp: successively_Cons)
  have tb: "tb \<le> t" using t(1) Cons.prems(2) by linarith
  show ?case
  proof (cases "rget R t (db w) heartbeatKey")
    case None
    have "\<not> t < tb + T * 2000" using assms(1) tb None unfolding beat_alive_def by blast
    then have "tb + T * 2000 \<le> t" by linarith
    moreover have "t \<le> tb + T * 2500" using t(2) Cons.prems(3) by linarith
    moreover have "\<not> dm_running (fst (triggerSwitch R cfg t d w))" by (simp add: triggerSwitch_def dm_stop_def Let_def)
    ultimately show ?thesis
      using None assms(2) by (auto simp: checkHeartbeat_def ticks_stopped split_beta)
  next
    case (Some v)
    have "\<not> tb + T * 2000 < t" using assms(1) tb Some unfolding beat_alive_def by force
    then have "t \<le> tb + T * 2000" by linarith
    then have "\<exists>\<tau>. fst (dm_ticks R cfg ts d w) = [\<tau>] \<and> tb + T * 2000 \<le> \<tau> \<and> \<tau> \<le> tb + T * 2500 \<and>
        snd (dm_ticks R cfg ts d w) = triggerSwitch R cfg \<tau> d w"
      using Cons.IH [OF t(3)] Cons.prems t(1) by auto
    then show ?thesis using Some assms(2) by (simp add: checkHeartbeat_def split_beta)
  qed
qed simp

end

text \<open>C39: After a last heartbeat, a timer that fires at least every half timeout stops the
  switch and halts all trading once, between two and two and a half timeouts after the heartbeat,
  with one alert of the switch and one of the kill switch; the halt then holds in every scope.\<close>

theorem dm_triggers:
  assumes "redis_kv R" and "0 < deadManSwitchHeartbeatTimeoutSeconds cfg" and "dm_running d"
    and "successively (\<lambda>a b. a \<le> b \<and> b \<le> a + checkIntervalMs cfg) (tb # ts)"
    and "tb + deadManSwitchHeartbeatTimeoutSeconds cfg * 2000 < last (tb # ts)"
    and "(da, wa) = dm_recordHeartbeat R cfg tb d w"
  shows "\<exists>\<tau> d2 w2. dm_ticks R cfg ts da wa = ([\<tau>], d2, w2) \<and>
    tb + deadManSwitchHeartbeatTimeoutSeconds cfg * 2000 \<le> \<tau> \<and> \<tau> \<le> tb + deadManSwitchHeartbeatTimeoutSeconds cfg * 2500 \<and>
    \<not> dm_running d2 \<and> (\<forall>t \<ge> \<tau>. \<forall>sc. ks_isActive R t sc w2) \<and>
    map effect_type (out w2) = map effect_type (out w) @ [DEAD_MANS_SWITCH_TRIGGERED, KILL_SWITCH_TRIGGERED]"
proof -
  let ?T = "deadManSwitchHeartbeatTimeoutSeconds cfg"
  have da: "dm_running da" and wa: "out wa = out w" and "wa = snd (dm_recordHeartbeat R cfg tb d w)"
    using assms(3,6) by (auto simp: dm_recordHeartbeat_def)
  then have alive: "beat_alive R tb ?T (db wa)" using redis_kv.beat_recorded [OF assms(1,2)] by simp
  have "\<exists>\<tau>. fst (dm_ticks R cfg ts da wa) = [\<tau>] \<and> tb + ?T * 2000 \<le> \<tau> \<and> \<tau> \<le> tb + ?T * 2500 \<and>
      snd (dm_ticks R cfg ts da wa) = triggerSwitch R cfg \<tau> da wa"
    by (rule redis_kv.ticks_trigger [OF assms(1) alive da assms(2) assms(4) [unfolded checkIntervalMs_def]])
      (use assms(2,5) in auto)
  then obtain \<tau> where \<tau>: "fst (dm_ticks R cfg ts da wa) = [\<tau>]" "tb + ?T * 2000 \<le> \<tau>" "\<tau> \<le> tb + ?T * 2500"
    "snd (dm_ticks R cfg ts da wa) = triggerSwitch R cfg \<tau> da wa" by blast
  moreover have "\<not> dm_running (fst (triggerSwitch R cfg \<tau> da wa))"
    by (simp add: triggerSwitch_def dm_stop_def Let_def)
  moreover have "map effect_type (out (snd (triggerSwitch R cfg \<tau> da wa))) =
      map effect_type (out w) @ [DEAD_MANS_SWITCH_TRIGGERED, KILL_SWITCH_TRIGGERED]"
    by (simp add: triggerSwitch_def ks_trigger_def Let_def wa)
  ultimately show ?thesis using redis_kv.trigger_halts [OF assms(1)]
    by (intro exI [of _ \<tau>] exI [of _ "fst (triggerSwitch R cfg \<tau> da wa)"] exI [of _ "snd (triggerSwitch R cfg \<tau> da wa)"])
      (auto simp: prod_eq_iff)
qed

definition demo_secrets_config :: config where
  "demo_secrets_config = default_config ''0123456789abcdef0123456789abcdef'' ''admin''"

definition demo_dead_man :: dead_man where
  "demo_dead_man = \<lparr>dm_running = True, dm_lastHeartbeatAt = None\<rparr>"

lemma dm_triggers_witness:
  "\<exists>\<tau> d2 w2. dm_ticks service demo_secrets_config [60000, 120000, 180000, 240000, 300000]
      (fst (dm_recordHeartbeat service demo_secrets_config 0 demo_dead_man mem_world))
      (snd (dm_recordHeartbeat service demo_secrets_config 0 demo_dead_man mem_world)) = ([\<tau>], d2, w2) \<and>
    240000 \<le> \<tau> \<and> \<tau> \<le> 300000 \<and> ks_isActive service 400000 (KS_User ''u'') w2"
proof -
  have T: "deadManSwitchHeartbeatTimeoutSeconds demo_secrets_config = 120"
    by (simp add: demo_secrets_config_def default_config_def)
  have run: "dm_running demo_dead_man" by (simp add: demo_dead_man_def)
  show ?thesis
    using dm_triggers [where R = service and cfg = demo_secrets_config and tb = 0 and d = demo_dead_man and w = mem_world and
        ts = "[60000, 120000, 180000, 240000, 300000]" and
        da = "fst (dm_recordHeartbeat service demo_secrets_config 0 demo_dead_man mem_world)" and
        wa = "snd (dm_recordHeartbeat service demo_secrets_config 0 demo_dead_man mem_world)"]
      mem.service.redis_kv_axioms run
    by (fastforce simp: T checkIntervalMs_def)
qed

subsection \<open>Loading\<close>

definition unavailable :: "(string \<Rightarrow> js_error + string) \<Rightarrow> string \<Rightarrow> bool" where
  "unavailable getSecret k = isl (getSecret k)"

definition said_not_set :: "(string \<Rightarrow> js_error + string) \<Rightarrow> string \<Rightarrow> bool" where
  "said_not_set getSecret k = says_not_set (projl (getSecret k))"

lemma load_loop_result:
  "load_loop p gs ks (m, a, b, l) = (ma, aa, ba, la) \<Longrightarrow>
    ma = (\<lambda>k. if k \<in> set ks \<and> \<not> unavailable gs k then Some (projr (gs k)) else m k) \<and>
    aa = a @ filter (said_not_set gs) (filter (unavailable gs) ks) \<and>
    ba = b @ filter (\<lambda>k. \<not> said_not_set gs k) (filter (unavailable gs) ks) \<and>
    sl_store la = (\<lambda>k. if k \<in> set ks \<and> \<not> unavailable gs k then Some (projr (gs k)) else sl_store l k)"
proof (induction ks arbitrary: m a b l)
  case (Cons k ks)
  show ?case
  proof (cases "gs k")
    case (Inl e)
    then have step: "load_loop p gs ks (m, if says_not_set e then a @ [k] else a, if says_not_set e then b else b @ [k], l) =
        (ma, aa, ba, la)" using Cons.prems by (simp split: if_splits)
    show ?thesis using Cons.IH [OF step] Inl
      by (auto simp: unavailable_def said_not_set_def fun_eq_iff)
  next
    case (Inr v)
    then have step: "load_loop p gs ks (m(k \<mapsto> v), a, b, store_secret p '' loaded via '' k v l) = (ma, aa, ba, la)"
      using Cons.prems by simp
    show ?thesis using Cons.IH [OF step] Inr
      by (auto simp: unavailable_def store_secret_def fun_eq_iff)
  qed
qed auto

text \<open>Loading succeeds exactly when every required secret is available and not empty, and
  then gives all of them. Otherwise it throws; when secrets are unavailable the error lists exactly
  these, those whose variable is not set first. In every case the available ones can be got
  afterwards and everything else is as before.\<close>

theorem sl_exact:
  "let req = lc_requiredSecrets c; bad = filter (unavailable gs) req; r = sl_load c gs l in
    fst r = (if bad \<noteq> [] then Inl (unavailable_error (filter (said_not_set gs) bad @ filter (\<lambda>k. \<not> said_not_set gs k) bad))
      else if list_ex (\<lambda>k. gs k = Inr '''') req then Inl ZodError
      else Inr (\<lambda>k. if k \<in> set req then Some (projr (gs k)) else None)) \<and>
    (\<lambda>k. sl_get k (snd r)) = (\<lambda>k. if k \<in> set req \<and> \<not> unavailable gs k then gs k else sl_get k l)"
proof -
  let ?req = "lc_requiredSecrets c"
  obtain ma aa ba la where loop: "load_loop (lc_kmsProvider c) gs ?req (Map.empty, [], [], l) = (ma, aa, ba, la)"
    by (metis prod_cases4)
  note res = load_loop_result [OF loop]
  have empty: "aa @ ba = [] \<longleftrightarrow> filter (unavailable gs) ?req = []"
    using res by (auto simp: filter_empty_conv)
  have avail: "\<forall>k \<in> set ?req. \<not> unavailable gs k" if "filter (unavailable gs) ?req = []"
    using that by (simp add: filter_empty_conv)
  have gs: "gs k = Inr (projr (gs k))" if "\<not> unavailable gs k" for k
    using that by (cases "gs k") (simp_all add: unavailable_def)
  have ex: "list_ex (\<lambda>k. ma k = Some '''') ?req = list_ex (\<lambda>k. gs k = Inr '''') ?req"
    if "filter (unavailable gs) ?req = []"
    unfolding list_ex_iff using res avail [OF that] gs by (metis option.inject sum.sel(2))
  have "sl_get k la = (if k \<in> set ?req \<and> \<not> unavailable gs k then gs k else sl_get k l)" for k
    using res gs [of k] by (simp add: sl_get_def)
  then have get: "(\<lambda>k. sl_get k (snd (sl_load c gs l))) = (\<lambda>k. if k \<in> set ?req \<and> \<not> unavailable gs k then gs k else sl_get k l)"
    by (simp add: sl_load_def loop Let_def)
  have fst: "fst (sl_load c gs l) = (if aa @ ba \<noteq> [] then Inl (unavailable_error (aa @ ba))
      else if list_ex (\<lambda>k. ma k = Some '''') ?req then Inl ZodError else Inr ma)"
    by (simp add: sl_load_def loop)
  have lists: "aa @ ba = filter (said_not_set gs) (filter (unavailable gs) ?req) @
      filter (\<lambda>k. \<not> said_not_set gs k) (filter (unavailable gs) ?req)" using res by simp
  show ?thesis
  proof (cases "filter (unavailable gs) ?req = []")
    case True
    have "ma = (\<lambda>k. if k \<in> set ?req then Some (projr (gs k)) else None)"
      using res avail [OF True] by (auto simp: fun_eq_iff)
    then show ?thesis unfolding Let_def get fst ex [OF True] using True empty by simp
  next
    case False
    then show ?thesis unfolding Let_def get fst lists [symmetric] using empty by simp
  qed
qed

subsection \<open>Rotations\<close>

lemma latest_loop_mem: "latest_loop v vs \<in> set (v # vs)"
  by (induction v vs rule: latest_loop.induct) auto

lemma findLatest_mem: "findLatestVersion vs = Some v \<Longrightarrow> v \<in> set vs"
  using latest_loop_mem by (cases vs) auto

text \<open>Polls at different times, each with the environment it runs in and the secrets it can read.\<close>

fun polls ::
    "loader_config \<Rightarrow> ('e \<Rightarrow> int \<Rightarrow> string \<Rightarrow> js_error + key_version list) \<Rightarrow>
     (int \<times> 'e \<times> (string \<Rightarrow> js_error + string)) list \<Rightarrow> watcher \<times> loader \<Rightarrow> watcher \<times> loader" where
  "polls c versions [] st = st"
| "polls c versions ((t, e, gs) # ps) st =
     polls c versions ps (pollForRotations c (versions e t) gs (fst st) (snd st))"

text \<open>An adapter that always reports the same version of a secret.\<close>

locale fixed_versions =
  fixes valid :: "'e \<Rightarrow> bool"
    and versions :: "'e \<Rightarrow> int \<Rightarrow> string \<Rightarrow> js_error + key_version list"
    and vid :: "string \<Rightarrow> string"
  assumes fixed: "valid e \<Longrightarrow> versions e t k = Inr vs \<Longrightarrow> v \<in> set vs \<Longrightarrow> kv_versionId v = vid k"
begin

definition known_fixed :: "(string \<rightharpoonup> string) \<Rightarrow> bool" where
  "known_fixed m \<longleftrightarrow> (\<forall>k. m k \<in> {None, Some (vid k)})"

lemma poll_secret_fixed:
  assumes "valid e" and "known_fixed (fst st)"
  shows "known_fixed (fst (poll_secret c (versions e t) gs k st)) \<and> snd (poll_secret c (versions e t) gs k st) = snd st"
proof -
  have "kv_versionId v = vid k" if "versions e t k = Inr vs" and "findLatestVersion vs = Some v" for vs v
    using fixed [OF assms(1) that(1) findLatest_mem [OF that(2)]] .
  moreover have "old = vid k" if "fst st k = Some old" for old
    using assms(2) that unfolding known_fixed_def by (metis empty_iff insert_iff option.distinct(1) option.inject)
  ultimately show ?thesis using assms(2)
    by (auto simp: poll_secret_def known_fixed_def split: sum.split option.split)
qed

lemma poll_loop_fixed:
  "valid e \<Longrightarrow> known_fixed (fst st) \<Longrightarrow>
   known_fixed (fst (poll_loop c (versions e t) gs ks st)) \<and> snd (poll_loop c (versions e t) gs ks st) = snd st"
proof (induction ks arbitrary: st)
  case (Cons k ks)
  then show ?case using poll_secret_fixed [OF Cons.prems] by simp
qed simp

lemma polls_fixed:
  "list_all (\<lambda>(_, e, _). valid e) ps \<Longrightarrow> known_fixed (kr_known (fst st)) \<Longrightarrow> snd (polls c versions ps st) = snd st"
proof (induction ps arbitrary: st)
  case (Cons p ps)
  obtain t e gs where p: "p = (t, e, gs)" by (cases p)
  obtain x l where st: "st = (x, l)" by (cases st)
  have "known_fixed (kr_known (fst (pollForRotations c (versions e t) gs x l))) \<and>
      snd (pollForRotations c (versions e t) gs x l) = l"
    using poll_loop_fixed [of e "(kr_known x, l)" c t gs "lc_requiredSecrets c"] Cons.prems
    by (simp add: p st pollForRotations_def split_beta)
  then show ?case using Cons by (simp add: p st)
qed simp

end

interpretation local_kms: fixed_versions "\<lambda>_. True" local_listKeyVersions "\<lambda>_. ''local-v1''"
  by unfold_locales (auto simp: local_listKeyVersions_def split: option.splits if_splits)

text \<open>The command answers with the id of the key that was asked for.\<close>

definition same_key :: "(string \<Rightarrow> string) \<Rightarrow> (string \<Rightarrow> js_error + key_metadata option) \<Rightarrow> bool" where
  "same_key arn describe \<longleftrightarrow> (\<forall>k m. describe k = Inr (Some m) \<longrightarrow> km_KeyId m = arn k)"

interpretation aws_kms: fixed_versions "same_key arn" aws_listKeyVersions arn for arn
  by unfold_locales (auto simp: aws_listKeyVersions_def same_key_def split: sum.splits option.splits)

text \<open>With neither adapter is a rotation ever noticed: from a fresh watcher, whatever values the
  secrets take between the polls, the loaded secrets stay as they are and no alert is raised. For
  AWS this rests on DescribeKey answering with the id of the key, which a rotation does not change.\<close>

theorem kr_never:
  assumes "kr_known x = Map.empty" and "list_all (\<lambda>(_, describe, _). same_key arn describe) aws_polls"
  shows "snd (polls c local_listKeyVersions local_polls (x, l)) = l \<and>
    snd (polls c aws_listKeyVersions aws_polls (x, l)) = l"
proof
  show "snd (polls c local_listKeyVersions local_polls (x, l)) = l"
    using local_kms.polls_fixed [of local_polls "(x, l)" c] assms(1)
    by (simp add: local_kms.known_fixed_def list_all_iff split_beta)
  show "snd (polls c aws_listKeyVersions aws_polls (x, l)) = l"
    using aws_kms.polls_fixed [OF assms(2), of "(x, l)" c] assms(1) by (simp add: aws_kms.known_fixed_def)
qed

definition demo_loader :: loader_config where
  "demo_loader = \<lparr>lc_requiredSecrets = [''KEY''], lc_kmsProvider = ''local''\<rparr>"

definition demo_watcher :: watcher where
  "demo_watcher = \<lparr>kr_known = Map.empty, kr_scheduled = None\<rparr>"

definition demo_describe :: "string \<Rightarrow> js_error + key_metadata option" where
  "demo_describe k = Inr (Some \<lparr>km_KeyId = k, km_CreationDate = None, km_KeyState = None\<rparr>)"

definition empty_loader :: loader where
  "empty_loader = \<lparr>sl_store = Map.empty, sl_out = []\<rparr>"

lemma kr_never_witness:
  "snd (polls demo_loader local_listKeyVersions
      [(5, \<lambda>k. Some ''old'', local_getSecret (\<lambda>k. Some ''old'')), (9, \<lambda>k. Some ''new'', local_getSecret (\<lambda>k. Some ''new''))]
      (demo_watcher, empty_loader)) = empty_loader \<and>
   snd (polls demo_loader aws_listKeyVersions
      [(5, demo_describe, \<lambda>k. Inr ''old''), (9, demo_describe, \<lambda>k. Inr ''new'')] (demo_watcher, empty_loader)) = empty_loader"
proof -
  have "same_key id demo_describe" by (auto simp: same_key_def demo_describe_def)
  then show ?thesis
    using kr_never [of demo_watcher id "[(5, demo_describe, \<lambda>k. Inr ''old''), (9, demo_describe, \<lambda>k. Inr ''new'')]" demo_loader
        "[(5, \<lambda>k. Some ''old'', local_getSecret (\<lambda>k. Some ''old'')), (9, \<lambda>k. Some ''new'', local_getSecret (\<lambda>k. Some ''new''))]" empty_loader]
    by (simp add: demo_watcher_def)
qed

text \<open>What a poll does to one secret: its known version and its stored value.\<close>

definition at_secret :: "string \<Rightarrow> (string \<rightharpoonup> string) \<times> loader \<Rightarrow> string option \<times> string option" where
  "at_secret k st = (fst st k, sl_store (snd st) k)"

definition rotated ::
    "js_error + key_version list \<Rightarrow> js_error + string \<Rightarrow> string option \<times> string option \<Rightarrow> string option \<times> string option" where
  "rotated versions secret s = (case versions of Inl _ \<Rightarrow> s | Inr vs \<Rightarrow> (case findLatestVersion vs of
       None \<Rightarrow> s
     | Some v \<Rightarrow> (Some (kv_versionId v),
         if fst s \<in> {None, Some (kv_versionId v)} then snd s
         else (case secret of Inr x \<Rightarrow> Some x | Inl _ \<Rightarrow> snd s))))"

lemma poll_secret_at:
  "at_secret k (poll_secret c versions gs j st) =
    (if j = k then rotated (versions k) (gs k) (at_secret k st) else at_secret k st)"
  by (auto simp: poll_secret_def at_secret_def rotated_def sl_reload_def store_secret_def
      split: sum.split option.split)

lemma poll_loop_at:
  "distinct ks \<Longrightarrow> at_secret k (poll_loop c versions gs ks st) =
    (if k \<in> set ks then rotated (versions k) (gs k) (at_secret k st) else at_secret k st)"
  by (induction ks arbitrary: st) (auto simp: poll_secret_at)

lemma poll_at:
  assumes "distinct (lc_requiredSecrets c)" and "k \<in> set (lc_requiredSecrets c)"
  shows "at_secret k (kr_known (fst (pollForRotations c versions gs x l)), snd (pollForRotations c versions gs x l)) =
    rotated (versions k) (gs k) (at_secret k (kr_known x, l))"
  using poll_loop_at [OF assms(1), where k = k and versions = versions and gs = gs and st = "(kr_known x, l)" and c = c]
    assms(2)
  by (simp add: pollForRotations_def at_secret_def split_beta)

definition reports :: "js_error + key_version list \<Rightarrow> string \<Rightarrow> bool" where
  "reports versions v = (case versions of Inl _ \<Rightarrow> True | Inr vs \<Rightarrow>
     (case findLatestVersion vs of None \<Rightarrow> True | Some x \<Rightarrow> kv_versionId x = v))"

lemma rotated_same: "reports versions v \<Longrightarrow> rotated versions secret (Some v, s) = (Some v, s)"
  by (auto simp: reports_def rotated_def split: sum.splits option.splits)

lemma polls_same:
  assumes "distinct (lc_requiredSecrets c)" and "k \<in> set (lc_requiredSecrets c)"
  shows "list_all (\<lambda>(t, e, _). reports (versions e t k) v) ps \<Longrightarrow> kr_known x k = Some v \<Longrightarrow>
    sl_store (snd (polls c versions ps (x, l))) k = sl_store l k"
proof (induction ps arbitrary: x l)
  case (Cons p ps)
  obtain t e gs where p: "p = (t, e, gs)" by (cases p)
  let ?r = "pollForRotations c (versions e t) gs x l"
  have "at_secret k (kr_known (fst ?r), snd ?r) = (Some v, sl_store l k)"
    using poll_at [OF assms, where versions = "versions e t" and gs = gs and x = x and l = l] rotated_same Cons.prems by (simp add: p at_secret_def)
  then show ?case using Cons.IH [of "fst ?r" "snd ?r"] Cons.prems by (simp add: p at_secret_def)
qed simp

text \<open>A rotation whose reload fails is lost: the new version is remembered although the old
  value is kept, so as long as no further version appears the old value stays, whatever can be read
  later. When the secret can be read the poll replaces it.\<close>

theorem kr_lost:
  assumes "distinct (lc_requiredSecrets c)" and "k \<in> set (lc_requiredSecrets c)"
    and "kr_known x k = Some old" and "versions e t k = Inr vs" and "findLatestVersion vs = Some v"
    and "kv_versionId v \<noteq> old" and "(y, m) = pollForRotations c (versions e t) gs x l"
    and "list_all (\<lambda>(t, e, _). reports (versions e t k) (kv_versionId v)) ps"
  shows "sl_store (snd (polls c versions ps (y, m))) k =
    (case gs k of Inl _ \<Rightarrow> sl_store l k | Inr new \<Rightarrow> Some new)"
proof -
  have "at_secret k (kr_known y, m) = rotated (versions e t k) (gs k) (Some old, sl_store l k)"
    using poll_at [OF assms(1,2), where versions = "versions e t" and gs = gs and x = x and l = l] assms(3)
    by (simp add: at_secret_def flip: assms(7))
  then have "kr_known y k = Some (kv_versionId v)"
    and "sl_store m k = (case gs k of Inl _ \<Rightarrow> sl_store l k | Inr new \<Rightarrow> Some new)"
    using assms(4-6) by (auto simp: at_secret_def rotated_def split: sum.splits)
  then show ?thesis using polls_same [where versions = versions and k = k, OF assms(1,2) assms(8)] by simp
qed

definition demo_versions :: "int \<Rightarrow> int \<Rightarrow> string \<Rightarrow> js_error + key_version list" where
  "demo_versions e t k = Inr [\<lparr>kv_versionId = (if e = 0 then ''v1'' else ''v2''), kv_createdAt = e, kv_status = ''on''\<rparr>]"

lemma kr_lost_witness:
  "sl_store (snd (polls demo_loader demo_versions [(9, 1, \<lambda>k. Inr ''new'')]
     (pollForRotations demo_loader (demo_versions 1 5) (\<lambda>k. Inl ZodError) (demo_watcher\<lparr>kr_known := [''KEY'' \<mapsto> ''v1'']\<rparr>)
       \<lparr>sl_store = [''KEY'' \<mapsto> ''old''], sl_out = []\<rparr>))) ''KEY'' = Some ''old''"
proof -
  let ?r = "pollForRotations demo_loader (demo_versions 1 5) (\<lambda>k. Inl ZodError) (demo_watcher\<lparr>kr_known := [''KEY'' \<mapsto> ''v1'']\<rparr>)
       \<lparr>sl_store = [''KEY'' \<mapsto> ''old''], sl_out = []\<rparr>"
  have at5: "demo_versions 1 5 k = Inr [\<lparr>kv_versionId = ''v2'', kv_createdAt = 1, kv_status = ''on''\<rparr>]"
    "demo_versions 1 9 k = Inr [\<lparr>kv_versionId = ''v2'', kv_createdAt = 1, kv_status = ''on''\<rparr>]" for k
    by (simp_all add: demo_versions_def)
  have dist: "distinct (lc_requiredSecrets demo_loader)" "''KEY'' \<in> set (lc_requiredSecrets demo_loader)"
    by (simp_all add: demo_loader_def)
  have "sl_store (snd (polls demo_loader demo_versions [(9, 1, \<lambda>k. Inr ''new'')] (fst ?r, snd ?r))) ''KEY'' =
      (case (\<lambda>k. Inl ZodError) ''KEY'' of Inl _ \<Rightarrow> sl_store \<lparr>sl_store = [''KEY'' \<mapsto> ''old''], sl_out = []\<rparr> ''KEY''
        | Inr new \<Rightarrow> Some new)"
    by (rule kr_lost [where k = "''KEY''" and versions = demo_versions and e = 1 and t = 5 and gs = "\<lambda>k. Inl ZodError",
          OF dist _ at5(1), where old = "''v1''" and
          v = "\<lparr>kv_versionId = ''v2'', kv_createdAt = 1, kv_status = ''on''\<rparr>" and x = "demo_watcher\<lparr>kr_known := [''KEY'' \<mapsto> ''v1'']\<rparr>"])
      (simp_all add: reports_def at5)
  then show ?thesis by simp
qed

end
