(* ===== verification/Headers.thy ===== *)
theory Headers
  imports Actions Sec_Types
begin

text \<open>
  \<open>security/headers\<close>: the CORS middleware and the security headers. A response is the list of the
  headers set so far, with what became of the request: handed to the next handler, or ended with a
  status and a body.
\<close>

datatype (plugins only: code size) outcome = Passed | Ended int "json option"

record response =
  rs_headers :: "(string \<times> string) list"
  rs_outcome :: outcome

text \<open>\<open>res.setHeader\<close> replaces an earlier value.\<close>

fun setHeader :: "string \<Rightarrow> string \<Rightarrow> (string \<times> string) list \<Rightarrow> (string \<times> string) list" where
  "setHeader k v [] = [(k, v)]"
| "setHeader k v ((k', v') # hs) = (if k' = k then (k, v) # hs else (k', v') # setHeader k v hs)"

lemma map_of_setHeader [simp]: "map_of (setHeader k v hs) = (map_of hs)(k \<mapsto> v)"
  by (induction hs) (auto simp: fun_eq_iff)

fun setHeaders :: "(string \<times> string) list \<Rightarrow> (string \<times> string) list \<Rightarrow> (string \<times> string) list" where
  "setHeaders [] hs = hs"
| "setHeaders ((k, v) # kvs) hs = setHeaders kvs (setHeader k v hs)"

subsection \<open>CORS (\<open>cors.middleware.ts\<close>)\<close>

definition ALLOWED_METHODS :: string where
  "ALLOWED_METHODS = ''GET, POST, PUT, PATCH, DELETE, OPTIONS''"

definition ALLOWED_HEADERS :: string where
  "ALLOWED_HEADERS = ''Content-Type, Authorization, X-Request-ID, X-Correlation-ID''"

text \<open>The middleware itself; \<open>origin\<close> is the header \<open>Origin\<close> if there is one.\<close>

definition corsMiddleware ::
    "string list \<Rightarrow> string \<Rightarrow> string option \<Rightarrow> (string \<times> string) list \<Rightarrow> response" where
  "corsMiddleware allowedOrigins method origin hs = (case origin of
     None \<Rightarrow> \<lparr>rs_headers = hs, rs_outcome = Passed\<rparr>
   | Some src \<Rightarrow>
       if src = '''' then \<lparr>rs_headers = hs, rs_outcome = Passed\<rparr>
       else if src \<notin> set allowedOrigins then \<lparr>rs_headers = hs, rs_outcome = Ended 403 None\<rparr>
       else \<lparr>rs_headers = setHeaders [(''Access-Control-Allow-Origin'', src),
               (''Access-Control-Allow-Methods'', ALLOWED_METHODS),
               (''Access-Control-Allow-Headers'', ALLOWED_HEADERS),
               (''Access-Control-Allow-Credentials'', ''true''), (''Vary'', ''Origin'')] hs,
             rs_outcome = (if method = ''OPTIONS'' then Ended 204 None else Passed)\<rparr>)"

definition createCorsMiddleware ::
    "string list \<Rightarrow> string \<Rightarrow> js_error + (string \<Rightarrow> string option \<Rightarrow> (string \<times> string) list \<Rightarrow> response)" where
  "createCorsMiddleware allowedOrigins environment =
     (if environment = ''production'' \<and> ''*'' \<in> set allowedOrigins
      then Inl (BaseErr AUTHZ_RESOURCE_FORBIDDEN CRITICAL [S ''Wildcard origin is not allowed in production''])
      else Inr (corsMiddleware allowedOrigins))"

subsection \<open>Security headers (\<open>security.headers.ts\<close>)\<close>

definition quoted :: "string \<Rightarrow> string" where
  "quoted s = CHR 0x27 # s @ [CHR 0x27]"

definition permission_names :: "string list" where
  "permission_names = [''camera'', ''microphone'', ''geolocation'', ''gyroscope'', ''magnetometer'',
     ''accelerometer'', ''usb'', ''payment'', ''autoplay'', ''fullscreen'']"

text \<open>The fields of the policy with the directive and the default of each.\<close>

definition csp_fields :: "(string \<times> string \<times> string) list" where
  "csp_fields = [(''defaultSrc'', ''default-src'', ''none''), (''scriptSrc'', ''script-src'', ''self''),
     (''styleSrc'', ''style-src'', ''self''), (''imgSrc'', ''img-src'', ''self''),
     (''connectSrc'', ''connect-src'', ''self''), (''fontSrc'', ''font-src'', ''self''),
     (''frameSrc'', ''frame-src'', ''none''), (''objectSrc'', ''object-src'', ''none'')]"

fun z_strings_default :: "string list \<Rightarrow> json option \<Rightarrow> string list option" where
  "z_strings_default d None = Some d"
| "z_strings_default d v = z_array z_string v"

text \<open>An object of string lists in the order of the schema, whose own default is the empty object.\<close>

fun parse_fields :: "(string \<times> string list) list \<Rightarrow> json \<Rightarrow> (string \<times> string list) list option" where
  "parse_fields [] j = Some []"
| "parse_fields ((k, d) # ks) j = (case (z_strings_default d (jget j k), parse_fields ks j) of
     (Some v, Some r) \<Rightarrow> Some ((k, v) # r) | _ \<Rightarrow> None)"

fun parse_policy :: "(string \<times> string list) list \<Rightarrow> json option \<Rightarrow> (string \<times> string list) list option" where
  "parse_policy ks None = parse_fields ks (JObj [])"
| "parse_policy ks (Some (JObj fs)) = parse_fields ks (JObj fs)"
| "parse_policy ks (Some _) = None"

record headers_config =
  hc_environment :: string
  hc_permissionsPolicy :: "(string \<times> string list) list"
  hc_csp :: "(string \<times> string list) list"

definition parse_environment :: "json option \<Rightarrow> string option" where
  "parse_environment v = (case v of None \<Rightarrow> Some ''development''
     | Some (JStr s) \<Rightarrow> if s \<in> {''development'', ''staging'', ''production''} then Some s else None
     | Some _ \<Rightarrow> None)"

definition parse_headers_config :: "json \<Rightarrow> headers_config option" where
  "parse_headers_config j = (case j of
     JObj fs \<Rightarrow> (case (parse_environment (jget j ''environment''),
         parse_policy (map (\<lambda>k. (k, [])) permission_names) (jget j ''permissionsPolicy''),
         parse_policy (map (\<lambda>(k, _, d). (k, [quoted d])) csp_fields) (jget j ''csp'')) of
       (Some e, Some p, Some c) \<Rightarrow> Some \<lparr>hc_environment = e, hc_permissionsPolicy = p, hc_csp = c\<rparr>
     | _ \<Rightarrow> None)
   | _ \<Rightarrow> None)"

fun join :: "string \<Rightarrow> string list \<Rightarrow> string" where
  "join sep [] = ''''"
| "join sep [x] = x"
| "join sep (x # xs) = x @ sep @ join sep xs"

definition permission_entry :: "string \<times> string list \<Rightarrow> string" where
  "permission_entry e = (case e of (directive, allowList) \<Rightarrow>
     if allowList = [] then directive @ ''=()''
     else directive @ ''=('' @ join '' '' (map (\<lambda>v. if v = ''self'' then v else CHR 0x22 # v @ [CHR 0x22]) allowList) @ '')'')"

definition buildPermissionsPolicy :: "(string \<times> string list) list \<Rightarrow> string" where
  "buildPermissionsPolicy c = join '', '' (map permission_entry c)"

definition field :: "(string \<times> string list) list \<Rightarrow> string \<Rightarrow> string list" where
  "field c k = (case map_of c k of None \<Rightarrow> [] | Some v \<Rightarrow> v)"

definition buildCsp :: "(string \<times> string list) list \<Rightarrow> string" where
  "buildCsp c = join ''; '' (map (\<lambda>(k, name, _). name @ '' '' @ join '' '' (field c k)) csp_fields)"

definition isHttpsRequest :: "string \<Rightarrow> string option \<Rightarrow> bool" where
  "isHttpsRequest protocol forwardedProto = (protocol = ''https'' \<or> forwardedProto = Some ''https'')"

definition securityHeadersMiddleware ::
    "headers_config \<Rightarrow> string \<Rightarrow> string option \<Rightarrow> (string \<times> string) list \<Rightarrow> response" where
  "securityHeadersMiddleware c protocol forwardedProto hs =
     (if hc_environment c = ''production'' \<and> \<not> isHttpsRequest protocol forwardedProto
      then \<lparr>rs_headers = hs, rs_outcome = Ended 403 (Some (JObj [(''error'', JStr ''HTTPS required'')]))\<rparr>
      else \<lparr>rs_headers = setHeaders [
              (''Strict-Transport-Security'', ''max-age=63072000; includeSubDomains; preload''),
              (''X-Content-Type-Options'', ''nosniff''), (''X-Frame-Options'', ''DENY''),
              (''Referrer-Policy'', ''strict-origin-when-cross-origin''),
              (''Permissions-Policy'', buildPermissionsPolicy (hc_permissionsPolicy c)),
              (''Content-Security-Policy'', buildCsp (hc_csp c))] hs,
            rs_outcome = Passed\<rparr>)"

definition createSecurityHeaders ::
    "json \<Rightarrow> js_error + (string \<Rightarrow> string option \<Rightarrow> (string \<times> string) list \<Rightarrow> response)" where
  "createSecurityHeaders rawConfig = (case parse_headers_config rawConfig of
     None \<Rightarrow> Inl ZodError | Some c \<Rightarrow> Inr (securityHeadersMiddleware c))"

subsection \<open>Properties\<close>

text \<open>A middleware that could be created lets a request pass or answers it as follows: a
  request without an origin passes untouched; an origin that is not listed is refused with status
  403 and no header; a listed origin is the one named by the header, never the wildcard in
  production, and a preflight request of it ends with status 204.\<close>

theorem cors_exact:
  assumes "createCorsMiddleware allowed env = Inr mw" and "map_of hs ''Access-Control-Allow-Origin'' = None"
  shows "(rs_outcome (mw method origin hs) = Passed \<longleftrightarrow>
      origin \<in> {None, Some ''''} \<or> the origin \<in> set allowed \<and> method \<noteq> ''OPTIONS'') \<and>
    map_of (rs_headers (mw method origin hs)) ''Access-Control-Allow-Origin'' =
      (if origin \<notin> {None, Some ''''} \<and> the origin \<in> set allowed then origin else None) \<and>
    (rs_outcome (mw method origin hs) = Ended 403 None \<longleftrightarrow> origin \<notin> {None, Some ''''} \<and> the origin \<notin> set allowed) \<and>
    \<not> (env = ''production'' \<and> map_of (rs_headers (mw method origin hs)) ''Access-Control-Allow-Origin'' = Some ''*'')"
proof -
  have mw: "mw = corsMiddleware allowed" and wild: "\<not> (env = ''production'' \<and> ''*'' \<in> set allowed)"
    using assms(1) by (auto simp: createCorsMiddleware_def split: if_splits)
  show ?thesis
    using assms(2) wild by (cases origin) (auto simp: mw corsMiddleware_def)
qed

lemma cors_exact_witness:
  "\<exists>mw. createCorsMiddleware [''https://a.b''] ''production'' = Inr mw \<and>
    rs_outcome (mw ''GET'' (Some ''https://a.b.c'') []) = Ended 403 None"
  using cors_exact [of "[''https://a.b'']" "''production''" "corsMiddleware [''https://a.b'']" "[]" "''GET''" "Some ''https://a.b.c''"]
  by (simp add: createCorsMiddleware_def)

text \<open>A wildcard that is accepted outside production matches no real origin.\<close>

lemma cors_wildcard:
  "src \<noteq> ''*'' \<Longrightarrow> src \<noteq> '''' \<Longrightarrow> rs_outcome (corsMiddleware [''*''] method (Some src) hs) = Ended 403 None"
  by (simp add: corsMiddleware_def)

end
