(* ===== verification/Bounded_Cache.thy ===== *)
theory Bounded_Cache
  imports Prelude
begin

text \<open>
  \<open>apps/api/src/common/bounded-cache.ts\<close>: the LRU and TTL cache of the services. A JavaScript
  \<open>Map\<close> is an association list in insertion order with distinct keys. \<open>undefined\<close> is not a
  value of the cache: a service stores the values it computed.
\<close>

subsection \<open>\<open>Map\<close> in insertion order\<close>

type_synonym ('k, 'v) js_map = "('k \<times> 'v) list"

definition map_has :: "'k \<Rightarrow> ('k, 'v) js_map \<Rightarrow> bool" where
  "map_has k m = (k \<in> fst ` set m)"

definition map_delete :: "'k \<Rightarrow> ('k, 'v) js_map \<Rightarrow> ('k, 'v) js_map" where
  "map_delete k m = filter (\<lambda>p. fst p \<noteq> k) m"

text \<open>A key that is there keeps its place.\<close>

fun map_set :: "'k \<Rightarrow> 'v \<Rightarrow> ('k, 'v) js_map \<Rightarrow> ('k, 'v) js_map" where
  "map_set k v [] = [(k, v)]"
| "map_set k v (p # m) = (if fst p = k then (k, v) # m else p # map_set k v m)"

lemma map_has_code [simp]: "map_has k [] = False" "map_has k (p # m) = (k = fst p \<or> map_has k m)"
  by (auto simp: map_has_def)

lemma map_delete_id: "\<not> map_has k m \<Longrightarrow> map_delete k m = m"
  by (induction m) (auto simp: map_delete_def)

lemma not_has_delete [simp]: "\<not> map_has k (map_delete k m)"
  by (auto simp: map_has_def map_delete_def)

lemma map_set_new: "\<not> map_has k m \<Longrightarrow> map_set k v m = m @ [(k, v)]"
  by (induction m) auto

lemma map_of_map_set: "map_of (map_set k v m) = (map_of m)(k \<mapsto> v)"
  by (induction m) (auto simp: fun_eq_iff)

lemma map_set_delete [simp]: "map_set k v (map_delete k m) = map_delete k m @ [(k, v)]"
  by (simp add: map_set_new)

lemma set_map_delete: "set (map_delete k m) = {p \<in> set m. fst p \<noteq> k}"
  by (auto simp: map_delete_def)

lemma distinct_map_delete [intro]: "distinct (map fst m) \<Longrightarrow> distinct (map fst (map_delete k m))"
  by (induction m) (auto simp: map_delete_def)

lemma length_map_delete: "length (map_delete k m) \<le> length m"
  by (simp add: map_delete_def)

lemma length_map_delete_has: "map_has k m \<Longrightarrow> length (map_delete k m) < length m"
  by (auto simp: map_has_def map_delete_def intro: length_filter_less)

lemma map_of_delete: "map_of (map_delete k m) = (map_of m)(k := None)"
  by (induction m) (auto simp: map_delete_def fun_eq_iff)

lemma map_has_map_of: "map_has k m \<longleftrightarrow> map_of m k \<noteq> None"
  by (auto simp: map_has_def map_of_eq_None_iff)

subsection \<open>The cache\<close>

record 'v entry =
  ce_value :: 'v
  ce_ts :: int

type_synonym ('k, 'v) cstore = "('k, 'v entry) js_map"

record bcache =
  bc_max :: nat
  bc_ttlMs :: int

definition bc_get :: "bcache \<Rightarrow> int \<Rightarrow> 'k \<Rightarrow> ('k, 'v) cstore \<Rightarrow> 'v option \<times> ('k, 'v) cstore" where
  "bc_get c now k st = (case map_of st k of
     None \<Rightarrow> (None, st)
   | Some e \<Rightarrow> if now - ce_ts e > bc_ttlMs c then (None, map_delete k st)
       else (Some (ce_value e), map_set k e (map_delete k st)))"

definition bc_set :: "bcache \<Rightarrow> int \<Rightarrow> 'k \<Rightarrow> 'v \<Rightarrow> ('k, 'v) cstore \<Rightarrow> ('k, 'v) cstore" where
  "bc_set c now k v st =
    (let st = (if map_has k st then map_delete k st else st);
         st = map_set k \<lparr>ce_value = v, ce_ts = now\<rparr> st
     in if length st > bc_max c then (case st of [] \<Rightarrow> st | p # _ \<Rightarrow> map_delete (fst p) st) else st)"

definition bc_delete :: "'k \<Rightarrow> ('k, 'v) cstore \<Rightarrow> bool \<times> ('k, 'v) cstore" where
  "bc_delete k st = (map_has k st, map_delete k st)"

definition bc_has :: "bcache \<Rightarrow> int \<Rightarrow> 'k \<Rightarrow> ('k, 'v) cstore \<Rightarrow> bool \<times> ('k, 'v) cstore" where
  "bc_has c now k st = (case bc_get c now k st of (r, st') \<Rightarrow> (r \<noteq> None, st'))"

definition bc_clear :: "('k, 'v) cstore \<Rightarrow> ('k, 'v) cstore" where
  "bc_clear st = []"

definition bc_size :: "('k, 'v) cstore \<Rightarrow> nat" where
  "bc_size st = length st"

definition bc_keys :: "('k, 'v) cstore \<Rightarrow> 'k list" where
  "bc_keys st = map fst st"

text \<open>The loop deletes from the map it walks over; a \<open>Map\<close> iterator allows that.\<close>

fun prune_loop :: "bcache \<Rightarrow> int \<Rightarrow> ('k, 'v) cstore \<Rightarrow> nat \<times> ('k, 'v) cstore \<Rightarrow> nat \<times> ('k, 'v) cstore" where
  "prune_loop c now [] acc = acc"
| "prune_loop c now ((k, e) # rest) (dropped, st) = prune_loop c now rest
     (if now - ce_ts e > bc_ttlMs c then (dropped + 1, map_delete k st) else (dropped, st))"

definition bc_prune :: "bcache \<Rightarrow> int \<Rightarrow> ('k, 'v) cstore \<Rightarrow> nat \<times> ('k, 'v) cstore" where
  "bc_prune c now st = prune_loop c now st (0, st)"

lemmas bc_defs = bc_get_def bc_set_def bc_delete_def bc_has_def bc_clear_def bc_prune_def

lemma prune_loop_snd: "snd (prune_loop c now xs (d, st)) =
    filter (\<lambda>p. \<forall>q \<in> set xs. fst q = fst p \<longrightarrow> \<not> now - ce_ts (snd q) > bc_ttlMs c) st"
proof (induction xs arbitrary: d st)
  case (Cons p xs)
  show ?case
    by (cases p) (auto simp: Cons.IH map_delete_def intro!: filter_cong)
qed simp

lemma prune_loop_fst: "fst (prune_loop c now xs (d, st)) =
    d + length (filter (\<lambda>p. now - ce_ts (snd p) > bc_ttlMs c) xs)"
  by (induction xs arbitrary: d st) auto

lemma bc_prune_exact:
  assumes "distinct (map fst st)"
  shows "bc_prune c now st = (length (filter (\<lambda>p. now - ce_ts (snd p) > bc_ttlMs c) st),
    filter (\<lambda>p. now - ce_ts (snd p) \<le> bc_ttlMs c) st)"
proof (rule prod_eqI)
  show "fst (bc_prune c now st) = fst (length (filter (\<lambda>p. now - ce_ts (snd p) > bc_ttlMs c) st),
      filter (\<lambda>p. now - ce_ts (snd p) \<le> bc_ttlMs c) st)"
    by (simp add: bc_prune_def prune_loop_fst)
  have "(\<forall>q \<in> set st. fst q = fst p \<longrightarrow> \<not> now - ce_ts (snd q) > bc_ttlMs c)
      = (now - ce_ts (snd p) \<le> bc_ttlMs c)" if "p \<in> set st" for p
    using that assms by (auto simp: distinct_map inj_on_def not_less)
  then show "snd (bc_prune c now st) = snd (length (filter (\<lambda>p. now - ce_ts (snd p) > bc_ttlMs c) st),
      filter (\<lambda>p. now - ce_ts (snd p) \<le> bc_ttlMs c) st)"
    by (simp add: bc_prune_def prune_loop_snd cong: filter_cong)
qed

subsection \<open>Histories of calls\<close>

datatype ('k, 'v) bc_call =
    BGet 'k | BHas 'k | BSet 'k 'v | BDelete 'k | BClear | BPrune

fun bc_step :: "bcache \<Rightarrow> int \<times> ('k, 'v) bc_call \<Rightarrow> ('k, 'v) cstore \<Rightarrow> ('k, 'v) cstore" where
  "bc_step c (now, BGet k) st = snd (bc_get c now k st)"
| "bc_step c (now, BHas k) st = snd (bc_has c now k st)"
| "bc_step c (now, BSet k v) st = bc_set c now k v st"
| "bc_step c (now, BDelete k) st = snd (bc_delete k st)"
| "bc_step c (now, BClear) st = bc_clear st"
| "bc_step c (now, BPrune) st = snd (bc_prune c now st)"

text \<open>The map that forgets nothing: what a caller wrote last under each key.\<close>

fun w_step :: "int \<times> ('k, 'v) bc_call \<Rightarrow> ('k \<rightharpoonup> 'v entry) \<Rightarrow> ('k \<rightharpoonup> 'v entry)" where
  "w_step (now, BSet k v) w = w(k \<mapsto> \<lparr>ce_value = v, ce_ts = now\<rparr>)"
| "w_step (now, BDelete k) w = w(k := None)"
| "w_step (now, BClear) w = Map.empty"
| "w_step _ w = w"

definition bc_wf :: "bcache \<Rightarrow> ('k, 'v) cstore \<Rightarrow> bool" where
  "bc_wf c st \<longleftrightarrow> distinct (map fst st) \<and> length st \<le> bc_max c"

definition bc_sim :: "('k, 'v) cstore \<Rightarrow> ('k \<rightharpoonup> 'v entry) \<Rightarrow> bool" where
  "bc_sim st w \<longleftrightarrow> (\<forall>(k, e) \<in> set st. w k = Some e)"

lemma bc_set_eq: "bc_set c now k v st =
    (let st' = map_delete k st @ [(k, \<lparr>ce_value = v, ce_ts = now\<rparr>)]
     in if length st' > bc_max c then map_delete (fst (hd st')) st' else st')"
proof -
  have "(if map_has k st then map_delete k st else st) = map_delete k st"
    by (simp add: map_delete_id)
  then show ?thesis
    by (auto simp: bc_set_def Let_def split: list.split)
qed

lemma bc_get_cases:
  obtains "bc_get c now k st = (None, st)" "\<not> map_has k st"
  | e where "map_of st k = Some e" "now - ce_ts e > bc_ttlMs c" "bc_get c now k st = (None, map_delete k st)"
  | e where "map_of st k = Some e" "now - ce_ts e \<le> bc_ttlMs c"
      "bc_get c now k st = (Some (ce_value e), map_delete k st @ [(k, e)])"
  by (cases "map_of st k"; cases "now - ce_ts (the (map_of st k)) > bc_ttlMs c")
    (auto simp: bc_get_def map_has_map_of)

lemma wf_delete [intro]: "bc_wf c st \<Longrightarrow> bc_wf c (map_delete k st)"
  using length_map_delete [of k st] by (auto simp: bc_wf_def)

lemma wf_readd: "bc_wf c st \<Longrightarrow> map_has k st \<Longrightarrow> bc_wf c (map_delete k st @ [(k, e)])"
  using length_map_delete_has [of k st] by (auto simp: bc_wf_def set_map_delete)

lemma wf_get: "bc_wf c st \<Longrightarrow> bc_wf c (snd (bc_get c now k st))"
  by (cases rule: bc_get_cases [of c now k st]) (auto simp: wf_readd map_has_map_of)

lemma wf_set: assumes "bc_wf c st" shows "bc_wf c (bc_set c now k v st)"
proof -
  define st' where "st' = map_delete k st @ [(k, \<lparr>ce_value = v, ce_ts = now\<rparr>)]"
  have d: "distinct (map fst st')"
    using assms by (auto simp: st'_def bc_wf_def set_map_delete)
  have l: "length st' \<le> Suc (bc_max c)"
    using assms length_map_delete [of k st] by (auto simp: st'_def bc_wf_def)
  have "map_has (fst (hd st')) st'"
    by (auto simp: st'_def map_has_def hd_append)
  then have "length (map_delete (fst (hd st')) st') < length st'"
    by (rule length_map_delete_has)
  with d l show ?thesis
    by (auto simp: bc_set_eq Let_def bc_wf_def simp flip: st'_def)
qed

lemma wf_step: "bc_wf c st \<Longrightarrow> bc_wf c (bc_step c call st)"
proof (induction c call st rule: bc_step.induct)
  case (6 c now st)
  then have d: "distinct (map fst st)" by (simp add: bc_wf_def)
  have "length (filter (\<lambda>p. now - ce_ts (snd p) \<le> bc_ttlMs c) st) \<le> bc_max c"
    by (rule le_trans [OF length_filter_le]) (use 6 in \<open>simp add: bc_wf_def\<close>)
  with d show ?case
    by (simp add: bc_prune_exact bc_wf_def distinct_map_filter)
qed (auto simp: wf_get wf_set bc_has_def bc_delete_def bc_clear_def split_beta bc_wf_def [of c "[]" for c] intro: wf_get)

lemma wf_clear: "bc_wf c []"
  by (simp add: bc_wf_def)

lemma sim_get: "bc_sim st w \<Longrightarrow> bc_sim (snd (bc_get c now k st)) w"
  by (cases rule: bc_get_cases [of c now k st])
    (auto simp: bc_sim_def set_map_delete dest: map_of_SomeD)

lemma sim_step: "bc_wf c st \<Longrightarrow> bc_sim st w \<Longrightarrow> bc_sim (bc_step c call st) (w_step call w)"
proof (induction c call st rule: bc_step.induct)
  case (6 c now st)
  then show ?case by (auto simp: bc_prune_exact bc_wf_def bc_sim_def)
next
  case (3 c now k v st)
  then show ?case by (auto simp: bc_sim_def set_map_delete bc_set_eq Let_def)
qed (simp_all add: sim_get bc_has_def split_beta bc_delete_def bc_clear_def, auto simp: bc_sim_def set_map_delete)

definition bc_run :: "bcache \<Rightarrow> (int \<times> ('k, 'v) bc_call) list \<Rightarrow> ('k, 'v) cstore" where
  "bc_run c calls = fold (bc_step c) calls []"

definition w_run :: "(int \<times> ('k, 'v) bc_call) list \<Rightarrow> ('k \<rightharpoonup> 'v entry)" where
  "w_run calls = fold w_step calls Map.empty"

lemma fold_inv: "bc_wf c st \<Longrightarrow> bc_sim st w \<Longrightarrow>
    bc_wf c (fold (bc_step c) calls st) \<and> bc_sim (fold (bc_step c) calls st) (fold w_step calls w)"
proof (induction calls arbitrary: st w)
  case (Cons call calls)
  show ?case
    using Cons.IH [OF wf_step [OF Cons.prems(1)] sim_step [OF Cons.prems]] by simp
qed simp

lemma run_inv: "bc_wf c (bc_run c calls)" "bc_sim (bc_run c calls) (w_run calls)"
  using fold_inv [of c "[]" Map.empty calls] by (auto simp: bc_run_def w_run_def wf_clear bc_sim_def)

lemma get_sound:
  assumes "fst (bc_get c now k (bc_run c calls)) = Some v"
  shows "\<exists>e. w_run calls k = Some e \<and> ce_value e = v \<and> now - ce_ts e \<le> bc_ttlMs c"
  using assms run_inv(2) [of c calls]
  by (cases rule: bc_get_cases [of c now k "bc_run c calls"])
    (auto simp: bc_sim_def dest: map_of_SomeD)


subsection \<open>What an eviction takes\<close>

text \<open>The keys other than \<open>k\<close> that a call moves to the end of the order.\<close>

fun bc_touched :: "'k \<Rightarrow> int \<times> ('k, 'v) bc_call \<Rightarrow> 'k set" where
  "bc_touched k (now, BGet x) = {x} - {k}"
| "bc_touched k (now, BHas x) = {x} - {k}"
| "bc_touched k (now, BSet x v) = {x} - {k}"
| "bc_touched k _ = {}"

fun bc_overwrites :: "'k \<Rightarrow> int \<times> ('k, 'v) bc_call \<Rightarrow> bool" where
  "bc_overwrites k (now, BSet x v) = (x = k)"
| "bc_overwrites k (now, BDelete x) = (x = k)"
| "bc_overwrites k (now, BClear) = True"
| "bc_overwrites k _ = False"

definition shielded :: "'k \<Rightarrow> 'v entry \<Rightarrow> 'k set \<Rightarrow> ('k, 'v) cstore \<Rightarrow> bool" where
  "shielded k e T st \<longleftrightarrow> (\<exists>us vs. st = us @ (k, e) # vs \<and> fst ` set vs \<subseteq> T)"

lemma shieldedI: "st = us @ (k, e) # vs \<Longrightarrow> fst ` set vs \<subseteq> T \<Longrightarrow> shielded k e T st"
  by (auto simp: shielded_def)

lemma shielded_filter:
  assumes "shielded k e T st" "P (k, e)" shows "shielded k e T (filter P st)"
proof -
  obtain us vs where st: "st = us @ (k, e) # vs" and T: "fst ` set vs \<subseteq> T"
    using assms(1) by (auto simp: shielded_def)
  show ?thesis
    by (rule shieldedI [of _ "filter P us" k e "filter P vs"]) (use st T assms(2) in auto)
qed

lemma shielded_snoc: assumes "shielded k e T st" "x \<in> T" shows "shielded k e T (st @ [(x, y)])"
proof -
  obtain us vs where "st = us @ (k, e) # vs" and "fst ` set vs \<subseteq> T"
    using assms(1) by (auto simp: shielded_def)
  with assms(2) show ?thesis by (intro shieldedI [of _ us k e "vs @ [(x, y)]"]) auto
qed

lemma shielded_map_of: assumes "shielded k e T st" "distinct (map fst st)" shows "map_of st k = Some e"
proof -
  have "(k, e) \<in> set st" using assms(1) by (auto simp: shielded_def)
  with assms(2) show ?thesis by (rule map_of_is_SomeI)
qed

lemma shielded_delete: "shielded k e T st \<Longrightarrow> x \<noteq> k \<Longrightarrow> shielded k e T (map_delete x st)"
  unfolding map_delete_def by (rule shielded_filter) auto

lemma shielded_get:
  assumes s: "shielded k e T st" and wf: "bc_wf c st" and x: "{x} - {k} \<subseteq> T"
    and t: "now - ce_ts e \<le> bc_ttlMs c"
  shows "shielded k e T (snd (bc_get c now x st))"
proof (cases "x = k")
  case True
  have "map_of st k = Some e" by (rule shielded_map_of [OF s]) (use wf in \<open>simp add: bc_wf_def\<close>)
  then have "bc_get c now x st = (Some (ce_value e), map_delete k st @ [(k, e)])"
    using t True by (simp add: bc_get_def)
  then show ?thesis by (intro shieldedI [of _ "map_delete k st" k e "[]"]) auto
next
  case False
  with x have "x \<in> T" by auto
  with False s show ?thesis
    by (cases rule: bc_get_cases [of c now x st]) (auto intro: shielded_snoc shielded_delete)
qed

lemma shielded_set:
  assumes s: "shielded k e T st" and wf: "bc_wf c st" and x: "x \<noteq> k" "x \<in> T"
    and T: "finite T" "card T < bc_max c" "k \<notin> T"
  shows "shielded k e T (bc_set c now x v st)"
proof -
  define y where "y = \<lparr>ce_value = v, ce_ts = now\<rparr>"
  define st' where "st' = map_delete x st @ [(x, y)]"
  have s': "shielded k e T st'"
    unfolding st'_def using s x by (auto intro: shielded_snoc shielded_delete)
  have d: "distinct (map fst st')"
    using wf by (auto simp: st'_def bc_wf_def set_map_delete)
  have "fst (hd st') \<noteq> k" if l: "length st' > bc_max c"
  proof
    assume hd: "fst (hd st') = k"
    obtain us vs where st': "st' = us @ (k, e) # vs" and vs: "fst ` set vs \<subseteq> T"
      using s' by (auto simp: shielded_def)
    have "us = []" using st' hd d by (cases us) auto
    then have "distinct (map fst vs)" "length st' = Suc (length vs)" using st' d by auto
    moreover have "card (fst ` set vs) \<le> card T" using vs T(1) by (rule card_mono [rotated])
    moreover have "card (set (map fst vs)) = length (map fst vs)"
      using \<open>distinct (map fst vs)\<close> by (rule distinct_card)
    ultimately have "length vs \<le> card T" by simp
    with l T(2) \<open>length st' = Suc (length vs)\<close> show False by simp
  qed
  then show ?thesis
    using s' by (auto simp: bc_set_eq Let_def shielded_delete simp flip: st'_def y_def)
qed

lemma shielded_step:
  assumes s: "shielded k e T st" and wf: "bc_wf c st" and T: "finite T" "card T < bc_max c" "k \<notin> T"
    and call: "bc_touched k call \<subseteq> T" "\<not> bc_overwrites k call" "fst call - ce_ts e \<le> bc_ttlMs c"
  shows "shielded k e T (bc_step c call st)"
proof -
  obtain now r where c: "call = (now, r)" by (cases call) auto
  show ?thesis
  proof (cases r)
    case BPrune
    have "distinct (map fst st)" using wf by (simp add: bc_wf_def)
    with s call c BPrune show ?thesis by (auto simp: bc_prune_exact intro!: shielded_filter)
  qed (use assms c in \<open>auto simp: bc_has_def split_beta bc_delete_def
      intro!: shielded_get shielded_set shielded_delete\<close>)
qed

lemma shielded_fold:
  assumes "shielded k e T st" "bc_wf c st" "finite T" "card T < bc_max c" "k \<notin> T"
    and "\<forall>call \<in> set calls. bc_touched k call \<subseteq> T \<and> \<not> bc_overwrites k call \<and> fst call - ce_ts e \<le> bc_ttlMs c"
  shows "shielded k e T (fold (bc_step c) calls st)"
  using assms(1,2,6)
proof (induction calls arbitrary: st)
  case (Cons call calls)
  show ?case
    using Cons.prems by (auto intro!: Cons.IH wf_step shielded_step assms(3-5) simp del: bc_step.simps)
qed simp

text \<open>C16: The cache of \<open>BoundedCache\<close> never holds more than \<open>max\<close> entries and never answers with a
  value that was not the last one written: after any history of calls, a hit returns what the map
  that forgets nothing holds under the key, written within the last \<open>ttlMs\<close>; and \<open>has\<close> agrees with
  \<open>get\<close>.\<close>

theorem bc_sound:
  "bc_size (bc_run c calls) \<le> bc_max c \<and>
   distinct (bc_keys (bc_run c calls)) \<and>
   fst (bc_has c now k (bc_run c calls)) = (fst (bc_get c now k (bc_run c calls)) \<noteq> None) \<and>
   (case fst (bc_get c now k (bc_run c calls)) of None \<Rightarrow> True
    | Some v \<Rightarrow> (case w_run calls k of None \<Rightarrow> False
        | Some e \<Rightarrow> ce_value e = v \<and> now - ce_ts e \<le> bc_ttlMs c))"
proof -
  have "bc_wf c (bc_run c calls)" by (rule run_inv)
  then show ?thesis
    using get_sound [of c now k calls]
    by (auto simp: bc_wf_def bc_size_def bc_keys_def bc_has_def split_beta split: option.split)
qed

text \<open>The eviction is least recently used: a value that was written at \<open>t\<close> is still answered
  at \<open>now\<close>, within the time to live, whatever was called in between, if no call overwrote it and fewer
  than \<open>max\<close> other keys were read or written since.\<close>

theorem bc_lru:
  assumes "\<forall>call \<in> set later. \<not> bc_overwrites k call \<and> fst call - t \<le> bc_ttlMs c"
    and "card (\<Union>call \<in> set later. bc_touched k call) < bc_max c"
    and "now - t \<le> bc_ttlMs c"
  shows "fst (bc_get c now k (bc_run c (earlier @ (t, BSet k v) # later))) = Some v"
proof -
  define e where "e = \<lparr>ce_value = v, ce_ts = t\<rparr>"
  define T where "T = (\<Union>call \<in> set later. bc_touched k call)"
  define st where "st = bc_set c t k v (bc_run c earlier)"
  have fin: "finite T"
  proof -
    have "finite (bc_touched k call)" for call :: "int \<times> ('a, 'b) bc_call"
      by (cases "(k, call)" rule: bc_touched.cases) auto
    then show ?thesis by (auto simp: T_def)
  qed
  have k: "k \<notin> T"
  proof -
    have "k \<notin> bc_touched k call" for call :: "int \<times> ('a, 'b) bc_call"
      by (cases "(k, call)" rule: bc_touched.cases) auto
    then show ?thesis by (auto simp: T_def)
  qed
  have wf: "bc_wf c st" by (simp add: st_def wf_set run_inv)
  have "map_delete k (bc_run c earlier) = []" if "fst (hd (map_delete k (bc_run c earlier) @ [(k, e)])) = k"
  proof (cases "map_delete k (bc_run c earlier)")
    case (Cons p ps)
    then have "p \<in> set (map_delete k (bc_run c earlier))" by simp
    then have "fst p \<noteq> k" by (auto simp only: set_map_delete)
    with that Cons show ?thesis by simp
  qed simp
  moreover have "0 < bc_max c" using assms(2) by simp
  ultimately have "shielded k e T st"
    by (auto simp: st_def bc_set_eq Let_def map_delete_def simp flip: e_def
        intro!: shieldedI [where vs = "[]"] intro: shieldedI [where vs = "[]"])
  then have s: "shielded k e T (fold (bc_step c) later st)"
    by (rule shielded_fold [OF _ wf fin]) (use assms k in \<open>auto simp: T_def e_def\<close>)
  have wf': "bc_wf c (fold (bc_step c) later st)"
    using fold_inv [of c st "\<lambda>k. map_of st k" later] wf
    by (auto simp: bc_sim_def bc_wf_def)
  have "map_of (fold (bc_step c) later st) k = Some e"
    by (rule shielded_map_of [OF s]) (use wf' in \<open>simp add: bc_wf_def\<close>)
  then show ?thesis
    using assms(3) by (simp add: bc_run_def bc_get_def e_def st_def)
qed

theorem bc_lru_witness:
  "fst (bc_get \<lparr>bc_max = 2, bc_ttlMs = 10\<rparr> 9 (1::nat) (bc_run \<lparr>bc_max = 2, bc_ttlMs = 10\<rparr>
     ([(0, BSet 7 True)] @ (1, BSet 1 False) # [(2, BSet 2 True), (3, BGet 1), (4, BSet 2 False)]))) = Some False"
  by (rule bc_lru) auto

end
