(* ===== verification/Resilience.thy ===== *)
theory Resilience
  imports Bounded_Cache "HOL-Library.Sublist"
begin

text \<open>
  The helpers around outbound calls in \<open>apps/api/src/common\<close>: the circuit breaker, \<open>withRetry\<close>, the
  monitor of the providers' quotas and the HTTP client. The call that is protected is a parameter:
  its outcome, or the list of the outcomes of its attempts.
\<close>

subsection \<open>\<open>circuit-breaker.ts\<close>\<close>

datatype cb_phase = CbClosed | CbOpen | CbHalfOpen

record breaker =
  br_state :: cb_phase
  br_failures :: nat
  br_lastFailure :: int

record breaker_config =
  br_name :: string
  br_threshold :: nat
  br_resetMs :: int

datatype 'e cb_error = BreakerOpen string | Thrown 'e

definition new_breaker :: breaker where
  "new_breaker = \<lparr>br_state = CbClosed, br_failures = 0, br_lastFailure = 0\<rparr>"

text \<open>\<open>fn\<close> is the outcome of the call and \<open>failed_at\<close> the time at which it fails; \<open>fallback\<close> is the
  outcome of the fallback, \<open>None\<close> when the caller gave none.\<close>

definition cb_exec ::
    "breaker_config \<Rightarrow> int \<Rightarrow> int \<Rightarrow> 'e + 'a \<Rightarrow> ('e cb_error + 'a) option \<Rightarrow> breaker \<Rightarrow> breaker \<times> ('e cb_error + 'a)" where
  "cb_exec c now failed_at fn fallback b =
    (if br_state b = CbOpen \<and> \<not> now - br_lastFailure b > br_resetMs c
     then (b, case fallback of Some r \<Rightarrow> r | None \<Rightarrow> Inl (BreakerOpen (br_name c)))
     else let b = (if br_state b = CbOpen then b\<lparr>br_state := CbHalfOpen\<rparr> else b)
       in case fn of
         Inr result \<Rightarrow>
           (if br_state b = CbHalfOpen then b\<lparr>br_state := CbClosed, br_failures := 0\<rparr> else b, Inr result)
       | Inl err \<Rightarrow>
           let b = b\<lparr>br_failures := br_failures b + 1, br_lastFailure := failed_at\<rparr>;
               b = (if br_failures b \<ge> br_threshold c then b\<lparr>br_state := CbOpen\<rparr> else b)
           in (b, case fallback of Some r \<Rightarrow> if br_state b = CbOpen then r else Inl (Thrown err)
                | None \<Rightarrow> Inl (Thrown err)))"

definition cb_getState :: "breaker \<Rightarrow> cb_phase \<times> nat" where
  "cb_getState b = (br_state b, br_failures b)"

text \<open>Calls one after the other, each with its times and outcome.\<close>

fun cb_run :: "breaker_config \<Rightarrow> (int \<times> int \<times> ('e + 'a)) list \<Rightarrow> breaker \<Rightarrow> breaker" where
  "cb_run c [] b = b"
| "cb_run c ((now, failed_at, fn) # calls) b = cb_run c calls (fst (cb_exec c now failed_at fn None b))"

definition failures_of :: "(int \<times> int \<times> ('e + 'a)) list \<Rightarrow> nat" where
  "failures_of calls = length (filter (\<lambda>(_, _, fn). isl fn) calls)"

lemma failures_of_Cons [simp]: "failures_of ((n, t, fn) # calls) = (if isl fn then 1 else 0) + failures_of calls"
  by (simp add: failures_of_def)

lemma cb_closed_step:
  assumes "br_state b = CbClosed"
  shows "fst (cb_exec c now t fn None b) =
    (if isl fn then b\<lparr>br_failures := br_failures b + 1, br_lastFailure := t,
       br_state := (if br_failures b + 1 \<ge> br_threshold c then CbOpen else CbClosed)\<rparr> else b)"
  using assms by (cases fn) (auto simp: cb_exec_def Let_def)

lemma cb_run_closed:
  "br_state b = CbClosed \<Longrightarrow> br_failures b + failures_of calls < br_threshold c \<Longrightarrow>
   br_state (cb_run c calls b) = CbClosed \<and> br_failures (cb_run c calls b) = br_failures b + failures_of calls"
proof (induction c calls b rule: cb_run.induct)
  case (2 c now t fn calls b)
  show ?case
    using 2 by (cases "isl fn") (auto simp: cb_closed_step)
qed (simp add: failures_of_def)

text \<open>A probe: one call while the circuit is open and the pause is over.\<close>

lemma cb_probe_step:
  assumes "br_state b = CbOpen" "br_resetMs c < now - br_lastFailure b" "br_threshold c \<le> br_failures b"
  shows "cb_exec c now t (fn :: 'e + 'a) None b = (case fn of
      Inr x \<Rightarrow> (b\<lparr>br_state := CbClosed, br_failures := 0\<rparr>, Inr x)
    | Inl e \<Rightarrow> (b\<lparr>br_failures := br_failures b + 1, br_lastFailure := t\<rparr>, Inl (Thrown e)))"
  using assms by (cases fn) (auto simp: cb_exec_def Let_def)

text \<open>The failures that trip this circuit breaker are counted over its whole life, not in
  a row: however many calls succeed in between, the breaker is closed until the number of failed calls
  reaches the threshold and open at that call. While it is open nothing is called and every call is
  refused; a call after the pause is a probe, whose success resets the count and whose failure keeps
  the circuit open.\<close>

theorem br_lifetime:
  fixes calls :: "(int \<times> int \<times> ('e + 'a)) list"
  shows "(failures_of calls < br_threshold c \<longrightarrow>
      cb_getState (cb_run c calls new_breaker) = (CbClosed, failures_of calls)) \<and>
    (failures_of calls + 1 = br_threshold c \<longrightarrow>
      cb_getState (fst (cb_exec c now t (Inl e :: 'e + 'a) None (cb_run c calls new_breaker))) =
        (CbOpen, br_threshold c)) \<and>
    (br_state b = CbOpen \<and> br_threshold c \<le> br_failures b \<longrightarrow>
      cb_exec c now t (fn :: 'e + 'a) None b =
        (if now - br_lastFailure b \<le> br_resetMs c then (b, Inl (BreakerOpen (br_name c)))
         else case fn of
           Inr x \<Rightarrow> (b\<lparr>br_state := CbClosed, br_failures := 0\<rparr>, Inr x)
         | Inl e \<Rightarrow> (b\<lparr>br_failures := br_failures b + 1, br_lastFailure := t\<rparr>, Inl (Thrown e))))"
proof (intro conjI impI)
  have closed: "br_state (cb_run c calls new_breaker) = CbClosed \<and>
      br_failures (cb_run c calls new_breaker) = failures_of calls"
    if "failures_of calls < br_threshold c"
    using cb_run_closed [of new_breaker calls c] that by (simp add: new_breaker_def)
  show "cb_getState (cb_run c calls new_breaker) = (CbClosed, failures_of calls)"
    if "failures_of calls < br_threshold c"
    using closed [OF that] by (simp add: cb_getState_def)
  show "cb_getState (fst (cb_exec c now t (Inl e :: 'e + 'a) None (cb_run c calls new_breaker))) =
      (CbOpen, br_threshold c)"
    if "failures_of calls + 1 = br_threshold c"
    using closed that by (simp add: cb_getState_def cb_closed_step)
next
  assume "br_state b = CbOpen \<and> br_threshold c \<le> br_failures b"
  then show "cb_exec c now t fn None b =
        (if now - br_lastFailure b \<le> br_resetMs c then (b, Inl (BreakerOpen (br_name c)))
         else case fn of
           Inr x \<Rightarrow> (b\<lparr>br_state := CbClosed, br_failures := 0\<rparr>, Inr x)
         | Inl e \<Rightarrow> (b\<lparr>br_failures := br_failures b + 1, br_lastFailure := t\<rparr>, Inl (Thrown e)))"
    by (auto simp: cb_probe_step) (simp add: cb_exec_def)
qed

theorem br_lifetime_witness:
  "cb_getState (cb_run \<lparr>br_name = ''dex'', br_threshold = 2, br_resetMs = 30000\<rparr>
     ((0, 0, Inl ()) # replicate 100 (1, 1, Inr True) @ [(2, 2, Inl ())]) new_breaker) = (CbOpen, 2)"
proof -
  have run: "cb_run c (xs @ [(n, t, fn)]) b = fst (cb_exec c n t fn None (cb_run c xs b))"
    for c :: breaker_config and n t :: int and fn :: "unit + bool" and xs b
    by (induction c xs b rule: cb_run.induct) auto
  have f: "failures_of (replicate n (1, 1, Inr True :: unit + bool)) = 0" for n
    by (simp add: failures_of_def)
  show ?thesis
    using br_lifetime [of "(0, 0, Inl ()) # replicate 100 (1, 1, Inr True)" "\<lparr>br_name = ''dex'', br_threshold = 2, br_resetMs = 30000\<rparr>"
        2 2 "()" undefined "Inr True"] run [of _ "(0, 0, Inl ()) # replicate 100 (1, 1, Inr True)" 2 2 "Inl ()" new_breaker]
    by (simp add: f)
qed

subsection \<open>\<open>retry.ts\<close>\<close>

text \<open>\<open>fn i\<close> is the outcome of the \<open>i\<close>-th attempt. The result carries the times slept, in order;
  \<open>Inl None\<close> is the \<open>undefined\<close> that is thrown when no attempt was made.\<close>

fun retry_loop :: "(nat \<Rightarrow> 'e + 'a) \<Rightarrow> nat \<Rightarrow> int \<Rightarrow> nat \<Rightarrow> nat \<Rightarrow> 'e option \<Rightarrow> int list \<Rightarrow> ('e option + 'a) \<times> int list" where
  "retry_loop fn attempts delayMs 0 i lastErr slept = (Inl lastErr, slept)"
| "retry_loop fn attempts delayMs (Suc left) i lastErr slept = (case fn i of
     Inr x \<Rightarrow> (Inr x, slept)
   | Inl err \<Rightarrow> retry_loop fn attempts delayMs left (i + 1) (Some err)
       (if i < attempts then slept @ [delayMs * int i] else slept))"

definition withRetry :: "(nat \<Rightarrow> 'e + 'a) \<Rightarrow> nat option \<Rightarrow> int option \<Rightarrow> ('e option + 'a) \<times> int list" where
  "withRetry fn attempts delayMs =
    (let attempts = (case attempts of None \<Rightarrow> 3 | Some a \<Rightarrow> a);
         delayMs = (case delayMs of None \<Rightarrow> 1000 | Some d \<Rightarrow> d)
     in retry_loop fn attempts delayMs attempts 1 None [])"

lemma retry_all_fail:
  assumes "\<forall>j. i \<le> j \<and> j < i + k \<longrightarrow> isl (fn j)" "i + k \<le> attempts + 1"
  shows "retry_loop fn attempts d (k + left) i err slept =
    retry_loop fn attempts d left (i + k) (if k = 0 then err else Some (projl (fn (i + k - 1))))
      (slept @ map (\<lambda>j. d * int j) (filter (\<lambda>j. j < attempts) [i ..< i + k]))"
  using assms
proof (induction k arbitrary: i err slept)
  case (Suc k)
  obtain e where e: "fn i = Inl e" using Suc.prems(1) by (metis isl_def le_refl less_add_same_cancel1 zero_less_Suc)
  have u: "[i ..< i + Suc k] = i # [Suc i ..< Suc i + k]" by (simp add: upt_rec)
  show ?case
    using Suc.IH [of "Suc i" "Some e" "if i < attempts then slept @ [d * int i] else slept"] Suc.prems e
    unfolding u by (cases k) auto
qed simp

text \<open>C36: \<open>withRetry\<close> returns the result of the first attempt that succeeds, if one of the first
  \<open>attempts\<close> does, and otherwise throws the error of the last one; it sleeps \<open>delayMs * i\<close> after the
  \<open>i\<close>-th failure and not after the last, so the pauses grow linearly although the log line names
  \<open>delayMs\<close> for each of them.\<close>

theorem retry_exact:
  assumes "0 < n"
  shows "case List.find (\<lambda>i. \<not> isl (fn i)) [1 ..< n + 1] of
      Some k \<Rightarrow> withRetry fn (Some n) (Some d) = (Inr (projr (fn k)), map (\<lambda>j. d * int j) [1 ..< k])
    | None \<Rightarrow> withRetry fn (Some n) (Some d) = (Inl (Some (projl (fn n))), map (\<lambda>j. d * int j) [1 ..< n])"
proof (cases "List.find (\<lambda>i. \<not> isl (fn i)) [1 ..< n + 1]")
  case None
  then have f: "\<forall>j. 1 \<le> j \<and> j < 1 + n \<longrightarrow> isl (fn j)"
    unfolding find_None_iff by (auto simp del: upt_Suc)
  have "filter (\<lambda>j. j < n) [1 ..< 1 + n] = [1 ..< n]"
    using assms by (simp add: upt_Suc)
  with None show ?thesis
    using retry_all_fail [OF f, of n d 0 None "[]"] assms by (simp add: withRetry_def)
next
  case (Some k)
  then obtain m where m: "m < length [1 ..< n + 1]" "\<not> isl (fn ([1 ..< n + 1] ! m))" "k = [1 ..< n + 1] ! m"
    "\<forall>j < m. isl (fn ([1 ..< n + 1] ! j))"
    by (auto simp: find_Some_iff)
  then have k: "k = m + 1" "k \<le> n" by (auto simp del: upt_Suc)
  have f: "\<forall>j. 1 \<le> j \<and> j < 1 + m \<longrightarrow> isl (fn j)"
  proof (intro allI impI)
    fix j assume j: "1 \<le> j \<and> j < 1 + m"
    then have "isl (fn ([1 ..< n + 1] ! (j - 1)))" using m(4) by auto
    moreover have "[1 ..< n + 1] ! (j - 1) = j" using j m(1) by (simp del: upt_Suc)
    ultimately show "isl (fn j)" by simp
  qed
  obtain x where x: "fn k = Inr x" using m(2,3) by (cases "fn k") auto
  have "filter (\<lambda>j. j < n) [1 ..< 1 + m] = [1 ..< k]"
    using k by (simp add: filter_id_conv del: upt_Suc)
  moreover have "n = m + Suc (n - k)" using k by simp
  ultimately have "retry_loop fn n d n 1 None [] = (Inr x, map (\<lambda>j. d * int j) [1 ..< k])"
    using retry_all_fail [OF f, of n d "Suc (n - k)" None "[]"] k x by simp
  then show ?thesis using Some x by (simp add: withRetry_def)
qed

theorem retry_exact_witness:
  "withRetry (\<lambda>i. if i < 3 then Inl i else Inr True) (Some 5) (Some 10) = (Inr True, [10, 20])"
  using retry_exact [of 5 "\<lambda>i. if i < 3 then Inl i else Inr True" 10]
  by (simp add: upt_rec)


subsection \<open>\<open>rate-limit-monitor.ts\<close>\<close>

record rm_entry =
  rm_count :: nat
  rm_windowStart :: int

type_synonym monitor = "(string, rm_entry) js_map"

definition rm_windowMs :: int where "rm_windowMs = 60000"

definition rm_track :: "int \<Rightarrow> string \<Rightarrow> monitor \<Rightarrow> monitor" where
  "rm_track now service m =
    (let entry = (case map_of m service of
         None \<Rightarrow> \<lparr>rm_count = 0, rm_windowStart = now\<rparr>
       | Some e \<Rightarrow> if now - rm_windowStart e > rm_windowMs then \<lparr>rm_count = 0, rm_windowStart = now\<rparr> else e)
     in map_set service (entry\<lparr>rm_count := rm_count entry + 1\<rparr>) m)"

text \<open>\<open>Math.round\<close> is the nearest integer, the larger one of two.\<close>

definition js_round :: "real \<Rightarrow> int" where
  "js_round x = \<lfloor>x + 1 / 2\<rfloor>"

record rm_report =
  rr_usage :: nat
  rr_pct :: int
  rr_warning :: bool

text \<open>\<open>limit\<close> is positive at every call of the program.\<close>

definition rm_check :: "string \<Rightarrow> real \<Rightarrow> monitor \<Rightarrow> rm_report" where
  "rm_check service limit m =
    (let usage = (case map_of m service of None \<Rightarrow> 0 | Some e \<Rightarrow> rm_count e);
         pct = js_round (real usage / limit * 100)
     in \<lparr>rr_usage = usage, rr_pct = pct, rr_warning = pct \<ge> 80\<rparr>)"

definition rm_limits :: "(string \<times> real) list" where
  "rm_limits = [(''CoinGecko'', 30), (''Birdeye'', 100), (''GoPlus'', 60), (''RugCheck'', 60),
     (''Jupiter'', 120), (''1inch'', 60), (''CryptoPanic'', 20)]"

definition rm_status :: "monitor \<Rightarrow> (string \<times> nat \<times> int) list" where
  "rm_status m = map (\<lambda>(svc, entry).
     (svc, rm_count entry, js_round (real (rm_count entry) /
        (case map_of rm_limits svc of None \<Rightarrow> 100 | Some l \<Rightarrow> l) * 100))) m"

declare map_of_map_set [simp]

text \<open>The window of a service tumbles: it starts at a call, holds the calls of the next 60 seconds and
  is replaced by the first call after them.\<close>

fun tumbling :: "int list \<Rightarrow> int list" where
  "tumbling ts = foldl (\<lambda>w t. if w = [] \<or> t - hd w > rm_windowMs then [t] else w @ [t]) [] ts"

definition of_service :: "string \<Rightarrow> (int \<times> string) list \<Rightarrow> int list" where
  "of_service s calls = map fst (filter (\<lambda>(_, s'). s' = s) calls)"

definition window_entry :: "int list \<Rightarrow> rm_entry option" where
  "window_entry w = (if w = [] then None else Some \<lparr>rm_count = length w, rm_windowStart = hd w\<rparr>)"

lemma track_window: "map_of (rm_track t s m) s = window_entry
    (if w = [] \<or> t - hd w > rm_windowMs then [t] else w @ [t])" if "map_of m s = window_entry w"
  using that by (auto simp: rm_track_def window_entry_def Let_def)

lemma monitor_fold:
  assumes "map_of m s = window_entry w"
  shows "map_of (foldl (\<lambda>m (t, s). rm_track t s m) m calls) s =
    window_entry (foldl (\<lambda>w t. if w = [] \<or> t - hd w > rm_windowMs then [t] else w @ [t]) w (of_service s calls))"
  using assms
proof (induction calls arbitrary: m w)
  case (Cons c calls)
  obtain t s' where c: "c = (t, s')" by (cases c) auto
  show ?case
  proof (cases "s' = s")
    case True
    show ?thesis
      using Cons.IH [OF track_window [OF Cons.prems]] True c by (simp add: of_service_def)
  next
    case False
    then have "map_of (rm_track t s' m) s = map_of m s" by (simp add: rm_track_def Let_def)
    with Cons False c show ?thesis by (simp add: of_service_def)
  qed
qed (simp add: of_service_def)

text \<open>\<open>check\<close> reports the number of calls of the last window, at any later time: \<open>track\<close>
  replaces a window that is over, \<open>check\<close> does not look at the clock, so a burst that ended hours ago
  still counts as the usage of the current minute.\<close>

theorem rm_stale:
  "rr_usage (rm_check s limit (foldl (\<lambda>m (t, s). rm_track t s m) [] calls)) =
     length (tumbling (of_service s calls))"
  using monitor_fold [of "[]" s "[]" calls] by (auto simp: rm_check_def window_entry_def Let_def)

subsection \<open>\<open>http.ts\<close>\<close>

datatype query_value = QUndefined | QNull | QValue string   \<comment> \<open>\<open>String(v)\<close> of the others\<close>

text \<open>\<open>encode\<close> is \<open>URLSearchParams.toString\<close> on the pairs that were appended.\<close>

fun given_params :: "(string \<times> query_value) list \<Rightarrow> (string \<times> string) list" where
  "given_params [] = []"
| "given_params ((k, QValue v) # ps) = (k, v) # given_params ps"
| "given_params (_ # ps) = given_params ps"

definition buildUrl :: "((string \<times> string) list \<Rightarrow> string) \<Rightarrow> string \<Rightarrow> (string \<times> query_value) list option \<Rightarrow> string" where
  "buildUrl encode base params = (case params of None \<Rightarrow> base
     | Some ps \<Rightarrow> let qs = encode (given_params ps)
         in if qs = '''' then base else base @ (if CHR ''?'' \<in> set base then ''&'' else ''?'') @ qs)"

record http_options =
  ho_headers :: "(string, string) js_map"
  ho_timeoutMs :: int
  ho_params :: "(string \<times> query_value) list option"
  ho_body :: "json option"

definition default_options :: http_options where
  "default_options = \<lparr>ho_headers = [], ho_timeoutMs = 15000, ho_params = None, ho_body = None\<rparr>"

record request_init =
  ri_method :: string
  ri_headers :: "(string, string) js_map"
  ri_body :: "json option"     \<comment> \<open>the text of the body, as the value it denotes\<close>

record http_error =
  he_message :: json
  he_status :: int
  he_body :: json

record response =
  rs_ok :: bool
  rs_status :: int
  rs_statusText :: string
  rs_contentType :: "string option"
  rs_text :: string

datatype fetched = Aborted | Failed "string option" | Responded response

definition request_of :: "string \<Rightarrow> http_options \<Rightarrow> request_init" where
  "request_of method opts =
    \<lparr>ri_method = method,
     ri_headers = foldl (\<lambda>h (k, v). map_set k v h)
       ((''Accept'', ''application/json'') #
        (if ho_body opts = None then [] else [(''Content-Type'', ''application/json'')])) (ho_headers opts),
     ri_body = ho_body opts\<rparr>"

text \<open>\<open>parse\<close> is \<open>JSON.parse\<close>; \<open>None\<close> is its syntax error.\<close>

definition response_data :: "(string \<Rightarrow> json option) \<Rightarrow> response \<Rightarrow> json" where
  "response_data parse resp =
    (if rs_text resp = '''' then JNull
     else if sublist ''application/json'' (case rs_contentType resp of None \<Rightarrow> '''' | Some c \<Rightarrow> c)
     then (case parse (rs_text resp) of Some d \<Rightarrow> d | None \<Rightarrow> JStr (rs_text resp))
     else JStr (rs_text resp))"

definition error_text :: "response \<Rightarrow> json \<Rightarrow> json" where
  "error_text resp data =
    (if truthy (jget data ''message'') then the (jget data ''message'')
     else if truthy (jget data ''error'') then the (jget data ''error'')
     else JText [S ''HTTP '', N (real_of_int (rs_status resp)), S '' '', S (rs_statusText resp)])"

definition http_request ::
    "(string \<Rightarrow> json option) \<Rightarrow> ((string \<times> string) list \<Rightarrow> string) \<Rightarrow> (string \<Rightarrow> request_init \<Rightarrow> fetched) \<Rightarrow>
     string \<Rightarrow> string \<Rightarrow> http_options \<Rightarrow> http_error + json" where
  "http_request parse encode fetch method url opts =
    (case fetch (buildUrl encode url (ho_params opts)) (request_of method opts) of
       Aborted \<Rightarrow> Inl \<lparr>he_message = JText [S ''Request timed out after '', N (real_of_int (ho_timeoutMs opts)), S ''ms''],
         he_status = 0, he_body = JNull\<rparr>
     | Failed m \<Rightarrow> Inl \<lparr>he_message = JStr (case m of None \<Rightarrow> ''Network error'' | Some t \<Rightarrow> t),
         he_status = 0, he_body = JNull\<rparr>
     | Responded resp \<Rightarrow> let data = response_data parse resp
         in if \<not> rs_ok resp
            then Inl \<lparr>he_message = error_text resp data, he_status = rs_status resp, he_body = data\<rparr>
            else Inr data)"

definition http_get where
  "http_get parse encode fetch url opts = http_request parse encode fetch ''GET'' url opts"
definition http_post where
  "http_post parse encode fetch url body opts = http_request parse encode fetch ''POST'' url (opts\<lparr>ho_body := body\<rparr>)"
definition http_put where
  "http_put parse encode fetch url body opts = http_request parse encode fetch ''PUT'' url (opts\<lparr>ho_body := body\<rparr>)"
definition http_patch where
  "http_patch parse encode fetch url body opts = http_request parse encode fetch ''PATCH'' url (opts\<lparr>ho_body := body\<rparr>)"
definition http_delete where
  "http_delete parse encode fetch url opts = http_request parse encode fetch ''DELETE'' url opts"

text \<open>A response whose status is not in the range of success is an error with that status; only a
  request without a response has status 0.\<close>

lemma http_status:
  assumes "\<And>r. fetch (buildUrl encode url (ho_params opts)) (request_of method opts) = Responded r \<Longrightarrow>
      rs_status r \<noteq> 0 \<and> (rs_ok r \<longleftrightarrow> rs_status r \<in> {200..299})"
    and "http_request parse encode fetch method url opts = Inl e"
  shows "he_status e = 0 \<longleftrightarrow>
      (\<nexists>r. fetch (buildUrl encode url (ho_params opts)) (request_of method opts) = Responded r)"
    and "he_status e \<notin> {200..299}"
  using assms by (auto simp: http_request_def Let_def split: fetched.splits if_splits)

end
