(* ===== verification/Guardrails.thy ===== *)
theory Guardrails
  imports Bounded_Cache
begin

text \<open>
  \<open>apps/api/src/guardrails/guardrails.service.ts\<close>: the limits a user sets for the trades of the agent.
  The table of configurations is a map; the trades of the user are a parameter: \<open>used\<close> is the sum of
  the live trades of the day (\<open>None\<close> when there is none) and \<open>trades\<close> the token and the value of each
  live trade.
\<close>

subsection \<open>The configuration\<close>

record gr_config =
  gc_perTradeUsd :: real
  gc_dailyUsd :: real
  gc_maxSlippageBps :: real
  gc_whitelist :: "string list"
  gc_blacklist :: "string list"
  gc_killSwitch :: bool

type_synonym gr_table = "string \<rightharpoonup> gr_config"

record gr_patch =
  gp_perTradeUsd :: "real option"
  gp_dailyUsd :: "real option"
  gp_maxSlippageBps :: "real option"
  gp_whitelist :: "string list option"
  gp_blacklist :: "string list option"
  gp_killSwitch :: "bool option"

definition no_patch :: gr_patch where
  "no_patch = \<lparr>gp_perTradeUsd = None, gp_dailyUsd = None, gp_maxSlippageBps = None, gp_whitelist = None,
     gp_blacklist = None, gp_killSwitch = None\<rparr>"

text \<open>The row that \<open>upsert\<close> creates; the two limits are the defaults of the schema.\<close>

definition new_gr_config :: gr_config where
  "new_gr_config = \<lparr>gc_perTradeUsd = 500, gc_dailyUsd = 2000, gc_maxSlippageBps = 5000, gc_whitelist = [],
     gc_blacklist = [], gc_killSwitch = False\<rparr>"

definition gr_config_of :: "string \<Rightarrow> gr_table \<Rightarrow> gr_config \<times> gr_table" where
  "gr_config_of u db =
    (let cfg = (case db u of None \<Rightarrow> new_gr_config | Some c \<Rightarrow> c);
         cfg = (if gc_maxSlippageBps cfg \<le> 150 then cfg\<lparr>gc_maxSlippageBps := 5000\<rparr> else cfg)
     in (cfg, db(u \<mapsto> cfg)))"

definition patched :: "'a option \<Rightarrow> 'a \<Rightarrow> 'a" where
  "patched p x = (case p of None \<Rightarrow> x | Some y \<Rightarrow> y)"

definition gr_update :: "string \<Rightarrow> gr_patch \<Rightarrow> gr_table \<Rightarrow> gr_config \<times> gr_table" where
  "gr_update u p db = (case gr_config_of u db of (cfg, db) \<Rightarrow>
     let cfg = \<lparr>gc_perTradeUsd = patched (gp_perTradeUsd p) (gc_perTradeUsd cfg),
                gc_dailyUsd = patched (gp_dailyUsd p) (gc_dailyUsd cfg),
                gc_maxSlippageBps = patched (gp_maxSlippageBps p) (gc_maxSlippageBps cfg),
                gc_whitelist = patched (gp_whitelist p) (gc_whitelist cfg),
                gc_blacklist = patched (gp_blacklist p) (gc_blacklist cfg),
                gc_killSwitch = patched (gp_killSwitch p) (gc_killSwitch cfg)\<rparr>
     in (cfg, db(u \<mapsto> cfg)))"

definition gr_kill :: "string \<Rightarrow> gr_table \<Rightarrow> gr_config \<times> gr_table" where
  "gr_kill u db = gr_update u (no_patch\<lparr>gp_killSwitch := Some True\<rparr>) db"

subsection \<open>The checks\<close>

record gr_intent =
  gi_userId :: string
  gi_tokenAddress :: string
  gi_notionalUsd :: real
  gi_slippageBps :: real
  gi_riskFlags :: "string list"      \<comment> \<open>empty when the field is absent\<close>

text \<open>\<open>None\<close> is \<open>ok: true\<close>, \<open>Some\<close> the reason of a refusal.\<close>

type_synonym gr_decision = "tmpl option"

definition gr_check :: "real option \<Rightarrow> gr_intent \<Rightarrow> gr_table \<Rightarrow> gr_decision \<times> gr_table" where
  "gr_check used i db = (case gr_config_of (gi_userId i) db of (cfg, db) \<Rightarrow>
     (if gc_killSwitch cfg then Some [S ''KILL_SWITCH_ON'']
      else if gi_tokenAddress i \<in> set (gc_blacklist cfg) then Some [S ''TOKEN_BLACKLISTED'']
      else if gc_whitelist cfg \<noteq> [] \<and> gi_tokenAddress i \<notin> set (gc_whitelist cfg) then Some [S ''TOKEN_NOT_WHITELISTED'']
      else if gi_notionalUsd i > gc_perTradeUsd cfg then Some [S ''PER_TRADE_LIMIT_$'', N (gc_perTradeUsd cfg)]
      else if gi_slippageBps i > gc_maxSlippageBps cfg then Some [S ''SLIPPAGE_CAP_'', N (gc_maxSlippageBps cfg), S ''bps'']
      else if ''HONEYPOT'' \<in> set (gi_riskFlags i) then Some [S ''HONEYPOT_FLAG'']
      else let dayTotal = (case used of None \<Rightarrow> 0 | Some x \<Rightarrow> x) + gi_notionalUsd i
        in if dayTotal > gc_dailyUsd cfg then Some [S ''DAILY_CAP_$'', N (gc_dailyUsd cfg)] else None,
      db))"

text \<open>The loop that adds up the value of the trades per token.\<close>

fun portfolio_of :: "(string \<times> real option) list \<Rightarrow> (string, real) js_map \<Rightarrow> (string, real) js_map" where
  "portfolio_of [] m = m"
| "portfolio_of ((tok, v) # ts) m = portfolio_of ts
     (map_set tok ((case map_of m tok of None \<Rightarrow> 0 | Some x \<Rightarrow> x) + (case v of None \<Rightarrow> 0 | Some x \<Rightarrow> x)) m)"

definition concentrationCheck :: "(string \<times> real option) list \<Rightarrow> string \<Rightarrow> real \<Rightarrow> bool \<times> tmpl option" where
  "concentrationCheck trades tokenAddress addUsd =
    (let portfolio = portfolio_of trades [];
         existing = (case map_of portfolio tokenAddress of None \<Rightarrow> 0 | Some x \<Rightarrow> x);
         tot = foldl (+) 0 (map snd portfolio) + addUsd
     in if tot \<le> 0 then (addUsd \<le> 0, None)
        else let exposure = (existing + addUsd) / tot
          in if exposure > 4 / 10
             then (False, Some [S ''CONCENTRATION_'', F (exposure * 100) 0, S ''%_in_'', S (take 8 tokenAddress), S ''...''])
             else (True, None))"

record gr_simulation =
  gs_currentDayUsed :: real
  gs_afterTrade :: real
  gs_headroom :: real
  gs_killSwitch :: bool
  gs_concentrationTop :: "(string \<times> int) list"

definition gr_simulate ::
    "real option \<Rightarrow> (string \<times> real option) list \<Rightarrow> string \<Rightarrow> real \<Rightarrow> gr_table \<Rightarrow> gr_simulation \<times> gr_table" where
  "gr_simulate used trades u scenarioUsd db = (case gr_config_of u db of (cfg, db) \<Rightarrow>
    (let currentDayUsed = (case used of None \<Rightarrow> 0 | Some x \<Rightarrow> x);
         afterTrade = currentDayUsed + scenarioUsd;
         portfolio = portfolio_of trades [];
         tot = foldl (+) 0 (map snd portfolio);
         tot = (if tot = 0 then 1 else tot)
     in \<lparr>gs_currentDayUsed = currentDayUsed, gs_afterTrade = afterTrade, gs_headroom = gc_dailyUsd cfg - afterTrade,
         gs_killSwitch = gc_killSwitch cfg,
         gs_concentrationTop = take 5 (sort_key (\<lambda>p. - snd p)
           (map (\<lambda>(token, v). (token, \<lfloor>v / tot * 100 + 1 / 2\<rfloor>)) portfolio))\<rparr>, db))"

subsection \<open>The checks do what they say\<close>

definition value_of :: "(string \<times> real option) list \<Rightarrow> string \<Rightarrow> real" where
  "value_of trades tok = (\<Sum>(t, v)\<leftarrow>trades. if t = tok then (case v of None \<Rightarrow> 0 | Some x \<Rightarrow> x) else 0)"

definition total_value :: "(string \<times> real option) list \<Rightarrow> real" where
  "total_value trades = (\<Sum>(t, v)\<leftarrow>trades. case v of None \<Rightarrow> 0 | Some x \<Rightarrow> x)"

lemma portfolio_value: "(case map_of (portfolio_of trades m) tok of None \<Rightarrow> 0 | Some x \<Rightarrow> x) =
    (case map_of m tok of None \<Rightarrow> 0 | Some x \<Rightarrow> x) + value_of trades tok"
  by (induction trades m rule: portfolio_of.induct)
    (auto simp: value_of_def map_of_map_set split: option.splits)

lemma sum_map_set: "(\<Sum>p\<leftarrow>map_set k v m. snd p) =
    (\<Sum>p\<leftarrow>m. snd p) + v - (case map_of m k of None \<Rightarrow> 0 | Some x \<Rightarrow> (x :: real))"
  by (induction m) auto

lemma portfolio_total: "(\<Sum>p\<leftarrow>portfolio_of trades m. snd p) = (\<Sum>p\<leftarrow>m. snd p) + total_value trades"
proof (induction trades m rule: portfolio_of.induct)
  case (2 tok v ts m)
  then show ?case by (simp only: portfolio_of.simps sum_map_set) (simp add: total_value_def)
qed (simp add: total_value_def)

lemma concentration_eq: "concentrationCheck trades tok add =
    (let tot = total_value trades + add; exposure = (value_of trades tok + add) / tot
     in if tot \<le> 0 then (add \<le> 0, None)
        else if exposure > 4 / 10
          then (False, Some [S ''CONCENTRATION_'', F (exposure * 100) 0, S ''%_in_'', S (take 8 tok), S ''...''])
          else (True, None))"
  using portfolio_total [of trades "[]"] portfolio_value [of trades "[]" tok]
  by (simp add: concentrationCheck_def foldl_sum [where f = id, simplified id_def] o_def Let_def)

text \<open>The concentration check weighs the new trade against the values of all the live
  trades: it lets a positive amount through exactly when the token would hold at most 40 percent of the
  total. For a user without live trades that is never the case: every first trade is refused, however
  small, and so are all the next ones as long as no live trade exists.\<close>

theorem gr_concentration:
  assumes "0 < add" and "0 \<le> total_value trades"
  shows "fst (concentrationCheck trades tok add) =
      (value_of trades tok + add \<le> 4 / 10 * (total_value trades + add)) \<and>
    (trades = [] \<longrightarrow> \<not> fst (concentrationCheck trades tok add))"
proof -
  have "\<not> total_value trades + add \<le> 0" using assms by simp
  then show ?thesis
    using assms(1) by (simp add: concentration_eq Let_def not_less field_simps)
      (auto simp: total_value_def value_of_def)
qed

theorem gr_concentration_witness:
  "\<not> fst (concentrationCheck [] ''mint'' 1) \<and> fst (concentrationCheck [(''a'', Some 90)] ''mint'' 10)"
  using gr_concentration [of 1 "[]" "''mint''"] gr_concentration [of 10 "[(''a'', Some 90)]" "''mint''"]
  by (simp add: total_value_def value_of_def)

lemma config_of_slippage: "150 < gc_maxSlippageBps (fst (gr_config_of u db))"
  by (auto simp: gr_config_of_def new_gr_config_def Let_def split: option.split)


text \<open>A slippage cap of 150 basis points or less cannot be set: \<open>update\<close> stores it, and the
  next operation that reads the configuration replaces it by 5000, so that a check with a slippage of
  up to 50 percent passes that cap. A kill survives.\<close>

theorem gr_tight_cap:
  assumes "gp_maxSlippageBps p = Some cap" "cap \<le> 150"
  shows "gc_maxSlippageBps (fst (gr_update u p db)) = cap \<and>
    gc_maxSlippageBps (fst (gr_config_of u (snd (gr_update u p db)))) = 5000 \<and>
    (gi_userId i = u \<and> gi_slippageBps i \<le> 5000 \<longrightarrow>
      fst (gr_check used i (snd (gr_update u p db))) =
      fst (gr_check used (i\<lparr>gi_slippageBps := 0\<rparr>) (snd (gr_update u p db)))) \<and>
    gc_killSwitch (fst (gr_config_of u (snd (gr_kill u db))))"
  using assms
  by (auto simp: gr_update_def gr_config_of_def gr_check_def gr_kill_def patched_def no_patch_def Let_def
      split: option.split)

theorem gr_tight_cap_witness:
  "gc_maxSlippageBps (fst (gr_config_of ''u'' (snd (gr_update ''u'' (no_patch\<lparr>gp_maxSlippageBps := Some 50\<rparr>) Map.empty)))) = 5000"
  using gr_tight_cap [of "no_patch\<lparr>gp_maxSlippageBps := Some 50\<rparr>" 50 "''u''" Map.empty] by simp

end
