(* ===== verification/Live_Guard.thy ===== *)
theory Live_Guard
  imports Prelude
begin

text \<open>
  \<open>apps/api/src/common/live-trade-guard.service.ts\<close>: the sliding windows on live swaps and
  withdrawals and the cap on the first live trades. \<open>live u\<close> is the answer of the database to the
  count of the live trades of \<open>u\<close>.
\<close>

subsection \<open>The guard\<close>

datatype trade_side = Buy | Sell

datatype lg_error =
    RateLimited string int nat real      \<comment> \<open>kind, \<open>waitSec\<close>, limit, window in seconds\<close>
  | FirstLiveTradeCap real nat int       \<comment> \<open>\<open>capUsd\<close>, the trades so far, \<open>remaining\<close>\<close>

record cap_entry =
  liveTradesSoFar :: nat
  cachedAt :: int

type_synonym buckets = "string \<rightharpoonup> int list"

record live_guard =
  swapBuckets :: buckets
  withdrawBuckets :: buckets
  capCache :: "string \<rightharpoonup> cap_entry"

definition SWAP_WINDOW_MS :: int where "SWAP_WINDOW_MS = 60000"
definition SWAP_MAX :: nat where "SWAP_MAX = 10"
definition WITHDRAW_WINDOW_MS :: int where "WITHDRAW_WINDOW_MS = 3600000"
definition WITHDRAW_MAX :: nat where "WITHDRAW_MAX = 5"
definition FIRST_LIVE_TRADE_CAP_USD :: real where "FIRST_LIVE_TRADE_CAP_USD = 100"
definition FIRST_LIVE_TRADE_COUNT :: nat where "FIRST_LIVE_TRADE_COUNT = 3"
definition CAP_CACHE_TTL_MS :: int where "CAP_CACHE_TTL_MS = 60000"

definition new_guard :: live_guard where
  "new_guard = \<lparr>swapBuckets = Map.empty, withdrawBuckets = Map.empty, capCache = Map.empty\<rparr>"

text \<open>The bucket of a known user is pruned in place, on the branch that throws too.\<close>

definition hitRate ::
    "buckets \<Rightarrow> string \<Rightarrow> int \<Rightarrow> nat \<Rightarrow> string \<Rightarrow> int \<Rightarrow> buckets \<times> (lg_error + unit)" where
  "hitRate m u windowMs limit kind now =
    (let old = (case m u of None \<Rightarrow> [] | Some ts \<Rightarrow> ts);
         ts = dropWhile (\<lambda>x. x < now - windowMs) old
     in if length ts \<ge> limit
        then (if m u = None then m else m(u \<mapsto> ts),
              Inl (RateLimited kind (ceil_seconds (hd ts + windowMs - now)) limit (real_of_int windowMs / 1000)))
        else (m(u \<mapsto> ts @ [now]), Inr ()))"

definition countLiveTrades :: "int \<Rightarrow> (string \<Rightarrow> nat) \<Rightarrow> string \<Rightarrow> live_guard \<Rightarrow> nat \<times> live_guard" where
  "countLiveTrades now live u g =
    (let fresh = (let count = live u
           in (count, g\<lparr>capCache := (capCache g)(u \<mapsto> \<lparr>liveTradesSoFar = count, cachedAt = now\<rparr>)\<rparr>))
     in case capCache g u of
       None \<Rightarrow> fresh
     | Some c \<Rightarrow> if now - cachedAt c < CAP_CACHE_TTL_MS then (liveTradesSoFar c, g) else fresh)"

definition checkLiveSwap ::
    "int \<Rightarrow> (string \<Rightarrow> nat) \<Rightarrow> string \<Rightarrow> real \<Rightarrow> trade_side option \<Rightarrow> live_guard \<Rightarrow> live_guard \<times> (lg_error + unit)" where
  "checkLiveSwap now live u notionalUsd side g =
    (if side = Some Sell then (g, Inr ())
     else (case hitRate (swapBuckets g) u SWAP_WINDOW_MS SWAP_MAX ''swap'' now of
        (m, Inl e) \<Rightarrow> (g\<lparr>swapBuckets := m\<rparr>, Inl e)
      | (m, Inr _) \<Rightarrow> (case countLiveTrades now live u (g\<lparr>swapBuckets := m\<rparr>) of
          (liveCount, g) \<Rightarrow>
            if liveCount < FIRST_LIVE_TRADE_COUNT \<and> notionalUsd > FIRST_LIVE_TRADE_CAP_USD
            then (g, Inl (FirstLiveTradeCap FIRST_LIVE_TRADE_CAP_USD liveCount
                      (int FIRST_LIVE_TRADE_COUNT - int liveCount)))
            else (g, Inr ()))))"

definition checkLiveWithdraw :: "int \<Rightarrow> string \<Rightarrow> live_guard \<Rightarrow> live_guard \<times> (lg_error + unit)" where
  "checkLiveWithdraw now u g =
    (case hitRate (withdrawBuckets g) u WITHDRAW_WINDOW_MS WITHDRAW_MAX ''withdraw'' now of
       (m, r) \<Rightarrow> (g\<lparr>withdrawBuckets := m\<rparr>, r))"

definition invalidate :: "string \<Rightarrow> live_guard \<Rightarrow> live_guard" where
  "invalidate u g = g\<lparr>capCache := (capCache g)(u := None)\<rparr>"

lemmas lg_consts = SWAP_WINDOW_MS_def SWAP_MAX_def WITHDRAW_WINDOW_MS_def WITHDRAW_MAX_def
  FIRST_LIVE_TRADE_CAP_USD_def FIRST_LIVE_TRADE_COUNT_def CAP_CACHE_TTL_MS_def

subsection \<open>The sliding window as a contract\<close>

text \<open>A limiter over a state \<open>'s\<close>: \<open>hit now s\<close> is the new state and whether the call is admitted. The
  provider promises that the state stands for the sorted list of the admitted times of the window
  (\<open>view\<close>), and that it admits exactly when fewer than \<open>limit\<close> of them lie in the window.\<close>

locale sliding_window =
  fixes hit :: "int \<Rightarrow> 's \<Rightarrow> 's \<times> bool"
    and view :: "'s \<Rightarrow> int list"
    and start :: 's
    and window :: int
    and limit :: nat
  assumes view_start: "view start = []"
    and hit_ok: "sorted (view s) \<Longrightarrow>
      snd (hit now s) = (length (filter (\<lambda>t. now - window \<le> t) (view s)) < limit)"
    and hit_view: "sorted (view s) \<Longrightarrow> view (fst (hit now s)) =
      filter (\<lambda>t. now - window \<le> t) (view s) @ (if snd (hit now s) then [now] else [])"
begin

text \<open>\<open>h\<close> holds the times of all the admitted calls so far, none after \<open>t\<close>.\<close>

definition tracks :: "int \<Rightarrow> int list \<Rightarrow> 's \<Rightarrow> bool" where
  "tracks t h s \<longleftrightarrow> (\<forall>x \<in> set h. x \<le> t) \<and> sorted h \<and> sorted (view s) \<and>
     (\<forall>now \<ge> t. filter (\<lambda>x. now - window \<le> x) (view s) = filter (\<lambda>x. now - window \<le> x) h
        \<and> length (filter (\<lambda>x. now - window \<le> x) h) \<le> limit)"

lemma tracks_start: "tracks t [] start"
  by (simp add: tracks_def view_start)

lemma tracks_later: "tracks t h s \<Longrightarrow> t \<le> t' \<Longrightarrow> tracks t' h s"
  by (auto simp: tracks_def)

lemma tracks_view: "tracks t h s \<Longrightarrow> view s' = view s \<Longrightarrow> tracks t h s'"
  by (simp add: tracks_def)

lemma admits_iff: "tracks t h s \<Longrightarrow> t \<le> now \<Longrightarrow>
    snd (hit now s) = (length (filter (\<lambda>x. now - window \<le> x) h) < limit)"
  by (auto simp: tracks_def hit_ok)

lemma within_limit: "tracks t h s \<Longrightarrow> t \<le> now \<Longrightarrow> length (filter (\<lambda>x. now - window \<le> x) h) \<le> limit"
  by (auto simp: tracks_def)

lemma tracks_hit:
  assumes tr: "tracks t h s" and t: "t \<le> now"
  shows "tracks now (if snd (hit now s) then h @ [now] else h) (fst (hit now s))"
proof -
  define p where "p = (if snd (hit now s) then [now] else [])"
  have s: "sorted (view s)" "sorted h" "\<forall>x \<in> set h. x \<le> now"
    and eq: "filter (\<lambda>x. now - window \<le> x) (view s) = filter (\<lambda>x. now - window \<le> x) h"
    using tr t by (auto simp: tracks_def)
  have v: "view (fst (hit now s)) = filter (\<lambda>x. now - window \<le> x) h @ p"
    by (simp add: hit_view s(1) eq p_def)
  have sub: "filter (\<lambda>x. now' - window \<le> x) (filter (\<lambda>x. now - window \<le> x) h) = filter (\<lambda>x. now' - window \<le> x) h"
    if "now \<le> now'" for now'
    using that by (auto intro!: filter_cong)
  have le: "length (filter (\<lambda>x. now' - window \<le> x) h) \<le> length (filter (\<lambda>x. now - window \<le> x) h)"
    if "now \<le> now'" for now'
    using that by (intro filter_le_mono) auto
  have lim: "length (filter (\<lambda>x. now' - window \<le> x) (h @ p)) \<le> limit" if "now \<le> now'" for now'
    using le [OF that] admits_iff [OF tr t] within_limit [OF tr t] by (auto simp: p_def)
  have h': "(if snd (hit now s) then h @ [now] else h) = h @ p" by (simp add: p_def)
  have p: "set p \<subseteq> {now}" "sorted p" by (auto simp: p_def)
  show ?thesis
    unfolding h' tracks_def v
    using p s sub lim by (auto simp: sorted_append sorted_wrt_filter)
qed

end

definition bucket :: "string \<Rightarrow> buckets \<Rightarrow> int list" where
  "bucket u m = (case m u of None \<Rightarrow> [] | Some ts \<Rightarrow> ts)"

definition rate_hit :: "string \<Rightarrow> string \<Rightarrow> int \<Rightarrow> nat \<Rightarrow> int \<Rightarrow> buckets \<Rightarrow> buckets \<times> bool" where
  "rate_hit u kind w l now m = (case hitRate m u w l kind now of (m', r) \<Rightarrow> (m', is_ok r))"

lemma dropWhile_sorted: "sorted xs \<Longrightarrow> dropWhile (\<lambda>x. x < (b::int)) xs = filter (\<lambda>x. b \<le> x) xs"
proof (induction xs)
  case (Cons x xs)
  then show ?case by (auto simp: not_less intro!: filter_True [symmetric])
qed simp

lemma rate_hit_ok: "sorted (bucket u m) \<Longrightarrow>
    snd (rate_hit u kind w l now m) = (length (filter (\<lambda>t. now - w \<le> t) (bucket u m)) < l)"
  by (auto simp: rate_hit_def hitRate_def bucket_def dropWhile_sorted Let_def split: option.splits)

lemma rate_hit_view: "0 < l \<Longrightarrow> sorted (bucket u m) \<Longrightarrow> bucket u (fst (rate_hit u kind w l now m)) =
    filter (\<lambda>t. now - w \<le> t) (bucket u m) @ (if snd (rate_hit u kind w l now m) then [now] else [])"
  by (auto simp: rate_hit_def hitRate_def bucket_def dropWhile_sorted Let_def split: option.splits)

lemma hitRate_other: "u' \<noteq> u \<Longrightarrow> bucket u' (fst (hitRate m u w l kind now)) = bucket u' m"
  by (auto simp: hitRate_def bucket_def Let_def)

lemma bucket_empty [simp]: "bucket u Map.empty = []"
  by (simp add: bucket_def)

lemma max_pos [simp]: "0 < SWAP_MAX" "0 < WITHDRAW_MAX"
  by (simp_all add: SWAP_MAX_def WITHDRAW_MAX_def)

interpretation swaps: sliding_window "rate_hit u ''swap'' SWAP_WINDOW_MS SWAP_MAX" "bucket u" Map.empty
    SWAP_WINDOW_MS SWAP_MAX for u
  by unfold_locales (simp_all add: rate_hit_ok rate_hit_view)

interpretation withdrawals: sliding_window "rate_hit u ''withdraw'' WITHDRAW_WINDOW_MS WITHDRAW_MAX"
    "bucket u" Map.empty WITHDRAW_WINDOW_MS WITHDRAW_MAX for u
  by unfold_locales (simp_all add: rate_hit_ok rate_hit_view)

subsection \<open>Histories of calls\<close>

datatype lg_call = CSwap string real "trade_side option" | CWithdraw string | CInvalidate string

fun lg_step :: "int \<times> (string \<Rightarrow> nat) \<times> lg_call \<Rightarrow> live_guard \<Rightarrow> live_guard \<times> (lg_error + unit)" where
  "lg_step (now, live, CSwap u notionalUsd side) g = checkLiveSwap now live u notionalUsd side g"
| "lg_step (now, live, CWithdraw u) g = checkLiveWithdraw now u g"
| "lg_step (now, live, CInvalidate u) g = (invalidate u g, Inr ())"

fun lg_run :: "(int \<times> (string \<Rightarrow> nat) \<times> lg_call) list \<Rightarrow> live_guard \<Rightarrow> live_guard" where
  "lg_run [] g = g"
| "lg_run (c # cs) g = lg_run cs (fst (lg_step c g))"

fun rate_limited :: "lg_error + unit \<Rightarrow> bool" where
  "rate_limited (Inl (RateLimited _ _ _ _)) = True"
| "rate_limited _ = False"

text \<open>The times of the buys, and of the withdrawals, of \<open>u\<close> that passed the rate limit.\<close>

fun swap_times :: "string \<Rightarrow> (int \<times> (string \<Rightarrow> nat) \<times> lg_call) list \<Rightarrow> live_guard \<Rightarrow> int list" where
  "swap_times u [] g = []"
| "swap_times u ((now, live, c) # cs) g = (case lg_step (now, live, c) g of (g', r) \<Rightarrow>
     (case c of CSwap u' _ side \<Rightarrow> if u' = u \<and> side \<noteq> Some Sell \<and> \<not> rate_limited r then [now] else [] | _ \<Rightarrow> [])
     @ swap_times u cs g')"

fun withdraw_times :: "string \<Rightarrow> (int \<times> (string \<Rightarrow> nat) \<times> lg_call) list \<Rightarrow> live_guard \<Rightarrow> int list" where
  "withdraw_times u [] g = []"
| "withdraw_times u ((now, live, c) # cs) g = (case lg_step (now, live, c) g of (g', r) \<Rightarrow>
     (case c of CWithdraw u' \<Rightarrow> if u' = u \<and> \<not> rate_limited r then [now] else [] | _ \<Rightarrow> [])
     @ withdraw_times u cs g')"

lemma hitRate_cases:
  obtains m' e where "hitRate m u w l kind now = (m', Inl e)" "rate_limited (Inl e)"
      "rate_hit u kind w l now m = (m', False)"
  | m' where "hitRate m u w l kind now = (m', Inr ())" "rate_hit u kind w l now m = (m', True)"
  by (cases "length (dropWhile (\<lambda>x. x < now - w) (case m u of None \<Rightarrow> [] | Some ts \<Rightarrow> ts)) \<ge> l")
    (auto simp: hitRate_def rate_hit_def Let_def)

lemma fst_rate_hit: "fst (rate_hit u kind w l now m) = fst (hitRate m u w l kind now)"
  by (auto simp: rate_hit_def split_beta)

lemma countLive_frame [simp]:
  "swapBuckets (snd (countLiveTrades now live u g)) = swapBuckets g"
  "withdrawBuckets (snd (countLiveTrades now live u g)) = withdrawBuckets g"
  by (auto simp: countLiveTrades_def Let_def split: option.split)

lemma swap_limited: "side \<noteq> Some Sell \<Longrightarrow>
    hitRate (swapBuckets g) u SWAP_WINDOW_MS SWAP_MAX ''swap'' now = (m, Inl e) \<Longrightarrow>
    checkLiveSwap now live u n side g = (g\<lparr>swapBuckets := m\<rparr>, Inl e)"
  by (simp add: checkLiveSwap_def)

lemma swap_admitted: "side \<noteq> Some Sell \<Longrightarrow>
    hitRate (swapBuckets g) u SWAP_WINDOW_MS SWAP_MAX ''swap'' now = (m, Inr ()) \<Longrightarrow>
    checkLiveSwap now live u n side g =
      (snd (countLiveTrades now live u (g\<lparr>swapBuckets := m\<rparr>)),
       (let c = fst (countLiveTrades now live u (g\<lparr>swapBuckets := m\<rparr>)) in
        if c < FIRST_LIVE_TRADE_COUNT \<and> n > FIRST_LIVE_TRADE_CAP_USD
        then Inl (FirstLiveTradeCap FIRST_LIVE_TRADE_CAP_USD c (int FIRST_LIVE_TRADE_COUNT - int c)) else Inr ()))"
  by (simp add: checkLiveSwap_def split_beta Let_def)

lemma swap_buy:
  assumes "side \<noteq> Some Sell"
  shows "swapBuckets (fst (checkLiveSwap now live u n side g)) = fst (rate_hit u ''swap'' SWAP_WINDOW_MS SWAP_MAX now (swapBuckets g))"
    and "rate_limited (snd (checkLiveSwap now live u n side g)) = (\<not> snd (rate_hit u ''swap'' SWAP_WINDOW_MS SWAP_MAX now (swapBuckets g)))"
    and "withdrawBuckets (fst (checkLiveSwap now live u n side g)) = withdrawBuckets g"
  by (cases rule: hitRate_cases [of "swapBuckets g" u SWAP_WINDOW_MS SWAP_MAX "''swap''" now],
      simp_all add: swap_limited [OF assms] swap_admitted [OF assms] fst_rate_hit Let_def)+

lemma swap_sell [simp]: "checkLiveSwap now live u n (Some Sell) g = (g, Inr ())"
  by (simp add: checkLiveSwap_def)

lemma withdraw_hit:
  "withdrawBuckets (fst (checkLiveWithdraw now u g)) = fst (rate_hit u ''withdraw'' WITHDRAW_WINDOW_MS WITHDRAW_MAX now (withdrawBuckets g))"
  "rate_limited (snd (checkLiveWithdraw now u g)) = (\<not> snd (rate_hit u ''withdraw'' WITHDRAW_WINDOW_MS WITHDRAW_MAX now (withdrawBuckets g)))"
  "swapBuckets (fst (checkLiveWithdraw now u g)) = swapBuckets g"
  by (cases rule: hitRate_cases [of "withdrawBuckets g" u WITHDRAW_WINDOW_MS WITHDRAW_MAX "''withdraw''" now],
      simp_all add: checkLiveWithdraw_def fst_rate_hit split_beta)+


abbreviation call_time :: "int \<times> (string \<Rightarrow> nat) \<times> lg_call \<Rightarrow> int" where
  "call_time c \<equiv> fst c"

lemma bucket_swap_other: "u' \<noteq> u \<Longrightarrow>
    bucket u' (swapBuckets (fst (checkLiveSwap now live u n side g))) = bucket u' (swapBuckets g)"
  by (cases "side = Some Sell") (simp_all add: swap_buy fst_rate_hit hitRate_other)

lemma bucket_withdraw_other: "u' \<noteq> u \<Longrightarrow>
    bucket u' (withdrawBuckets (fst (checkLiveWithdraw now u g))) = bucket u' (withdrawBuckets g)"
  by (simp add: withdraw_hit fst_rate_hit hitRate_other)

lemma swap_step_tracks:
  assumes tr: "swaps.tracks u t h (swapBuckets g)" and t: "t \<le> now"
  shows "swaps.tracks u now (h @ swap_times u [(now, live, c)] g) (swapBuckets (fst (lg_step (now, live, c) g)))"
proof (cases c)
  case (CSwap u' n side)
  show ?thesis
  proof (cases "u' = u \<and> side \<noteq> Some Sell")
    case True
    then show ?thesis
      using swaps.tracks_hit [OF tr t] CSwap by (auto simp: split_beta swap_buy)
  next
    case False
    have "bucket u (swapBuckets (fst (checkLiveSwap now live u' n side g))) = bucket u (swapBuckets g)"
      using False by (cases "u' = u") (auto simp: bucket_swap_other)
    then show ?thesis
      using swaps.tracks_view [OF swaps.tracks_later [OF tr t]] False CSwap by (auto simp: split_beta)
  qed
qed (use swaps.tracks_later [OF tr t] in \<open>auto simp: withdraw_hit invalidate_def split_beta\<close>)

lemma withdraw_step_tracks:
  assumes tr: "withdrawals.tracks u t h (withdrawBuckets g)" and t: "t \<le> now"
  shows "withdrawals.tracks u now (h @ withdraw_times u [(now, live, c)] g) (withdrawBuckets (fst (lg_step (now, live, c) g)))"
proof (cases c)
  case (CWithdraw u')
  show ?thesis
  proof (cases "u' = u")
    case True
    then show ?thesis
      using withdrawals.tracks_hit [OF tr t] CWithdraw by (auto simp: split_beta withdraw_hit)
  next
    case False
    then show ?thesis
      using withdrawals.tracks_view [OF withdrawals.tracks_later [OF tr t]] CWithdraw
      by (auto simp: split_beta bucket_withdraw_other)
  qed
next
  case (CSwap u' n side)
  have "withdrawBuckets (fst (checkLiveSwap now live u' n side g)) = withdrawBuckets g"
    by (cases "side = Some Sell") (simp_all add: swap_buy)
  then show ?thesis
    using withdrawals.tracks_later [OF tr t] CSwap by (auto simp: split_beta)
qed (use withdrawals.tracks_later [OF tr t] in \<open>auto simp: invalidate_def split_beta\<close>)

lemma times_Cons:
  "swap_times u (c # cs) g = swap_times u [c] g @ swap_times u cs (fst (lg_step c g))"
  "withdraw_times u (c # cs) g = withdraw_times u [c] g @ withdraw_times u cs (fst (lg_step c g))"
  by (cases c; simp add: split_beta)+

lemma run_tracks:
  assumes "swaps.tracks u t h (swapBuckets g)" "withdrawals.tracks u t h' (withdrawBuckets g)"
    and "sorted (t # map call_time cs)" "\<forall>c \<in> set cs. call_time c \<le> T" "t \<le> T"
  shows "swaps.tracks u T (h @ swap_times u cs g) (swapBuckets (lg_run cs g)) \<and>
    withdrawals.tracks u T (h' @ withdraw_times u cs g) (withdrawBuckets (lg_run cs g))"
  using assms
proof (induction cs arbitrary: t h h' g)
  case Nil
  then show ?case by (simp add: swaps.tracks_later [of u t] withdrawals.tracks_later [of u t])
next
  case (Cons c cs)
  obtain now live k where c: "c = (now, live, k)" by (cases c) auto
  have t: "t \<le> now" using Cons.prems c by simp
  have "swaps.tracks u T ((h @ swap_times u [c] g) @ swap_times u cs (fst (lg_step c g))) (swapBuckets (lg_run cs (fst (lg_step c g)))) \<and>
    withdrawals.tracks u T ((h' @ withdraw_times u [c] g) @ withdraw_times u cs (fst (lg_step c g))) (withdrawBuckets (lg_run cs (fst (lg_step c g))))"
    by (rule Cons.IH [of now]) (use Cons.prems c t in \<open>auto simp del: swap_times.simps withdraw_times.simps lg_step.simps
        simp: swap_step_tracks withdraw_step_tracks\<close>)
  then show ?case by (simp only: times_Cons [of u c cs g] append_assoc lg_run.simps)
qed

lemma history_tracks:
  assumes "sorted (map call_time cs)" "\<forall>c \<in> set cs. call_time c \<le> T"
  shows "swaps.tracks u T (swap_times u cs new_guard) (swapBuckets (lg_run cs new_guard)) \<and>
    withdrawals.tracks u T (withdraw_times u cs new_guard) (withdrawBuckets (lg_run cs new_guard))"
proof (cases cs)
  case Nil
  then show ?thesis by (simp add: new_guard_def swaps.tracks_start withdrawals.tracks_start)
next
  case (Cons c rest)
  show ?thesis
    using run_tracks [of u "call_time c" "[]" new_guard "[]" cs T] assms Cons
    by (simp add: new_guard_def swaps.tracks_start withdrawals.tracks_start)
qed



subsection \<open>The cap on the first trades\<close>

text \<open>The database only ever adds live trades.\<close>

fun db_grows :: "(int \<times> (string \<Rightarrow> nat) \<times> lg_call) list \<Rightarrow> bool" where
  "db_grows ((_, live, _) # (n, live', c) # cs) = ((\<forall>u. live u \<le> live' u) \<and> db_grows ((n, live', c) # cs))"
| "db_grows _ = True"

definition cache_below :: "(string \<Rightarrow> nat) \<Rightarrow> live_guard \<Rightarrow> bool" where
  "cache_below live g \<longleftrightarrow> (\<forall>u c. capCache g u = Some c \<longrightarrow> liveTradesSoFar c \<le> live u)"

lemma cache_below_mono: "cache_below live g \<Longrightarrow> (\<forall>u. live u \<le> live' u) \<Longrightarrow> cache_below live' g"
  unfolding cache_below_def by (meson le_trans)

lemma count_below: "cache_below live g \<Longrightarrow> fst (countLiveTrades now live u g) \<le> live u \<and>
    cache_below live (snd (countLiveTrades now live u g))"
  by (auto simp: countLiveTrades_def cache_below_def Let_def split: option.split)

lemma cache_below_frame [simp]: "cache_below live (g\<lparr>swapBuckets := m\<rparr>) = cache_below live g"
  by (simp add: cache_below_def)

lemma swap_below:
  assumes "cache_below live g"
  shows "cache_below live (fst (checkLiveSwap now live u n side g))"
    and "side \<noteq> Some Sell \<Longrightarrow> snd (checkLiveSwap now live u n side g) = Inr () \<Longrightarrow>
      n > FIRST_LIVE_TRADE_CAP_USD \<Longrightarrow> FIRST_LIVE_TRADE_COUNT \<le> live u"
proof -
  have b: "fst (countLiveTrades now live u (g\<lparr>swapBuckets := m\<rparr>)) \<le> live u \<and>
      cache_below live (snd (countLiveTrades now live u (g\<lparr>swapBuckets := m\<rparr>)))" for m
    by (rule count_below) (simp add: assms)
  show "cache_below live (fst (checkLiveSwap now live u n side g))"
  proof (cases "side = Some Sell")
    case False
    show ?thesis
      by (cases rule: hitRate_cases [of "swapBuckets g" u SWAP_WINDOW_MS SWAP_MAX "''swap''" now])
        (simp_all add: swap_limited [OF False] swap_admitted [OF False] assms b)
  qed (simp add: assms)
  assume h: "side \<noteq> Some Sell" "snd (checkLiveSwap now live u n side g) = Inr ()" "n > FIRST_LIVE_TRADE_CAP_USD"
  show "FIRST_LIVE_TRADE_COUNT \<le> live u"
  proof (cases rule: hitRate_cases [of "swapBuckets g" u SWAP_WINDOW_MS SWAP_MAX "''swap''" now])
    case (1 m' e)
    with h show ?thesis by (simp add: swap_limited [OF h(1)])
  next
    case (2 m')
    then have "\<not> fst (countLiveTrades now live u (g\<lparr>swapBuckets := m'\<rparr>)) < FIRST_LIVE_TRADE_COUNT"
      using h by (auto simp: swap_admitted [OF h(1) 2(1)] Let_def split: if_splits)
    with b show ?thesis by (meson le_trans not_less)
  qed
qed

lemma step_below: "cache_below live g \<Longrightarrow> cache_below live (fst (lg_step (now, live, c) g))"
proof (cases c)
  case (CWithdraw u)
  assume "cache_below live g"
  then show ?thesis using CWithdraw by (auto simp: checkLiveWithdraw_def cache_below_def split_beta)
qed (auto simp: swap_below(1), auto simp: invalidate_def cache_below_def)

lemma run_below:
  assumes "cache_below live g" "db_grows ((t, live, k) # cs)"
  shows "cache_below (fst (snd (last ((t, live, k) # cs)))) (lg_run cs g)"
  using assms
proof (induction cs arbitrary: t live k g)
  case (Cons c cs)
  obtain now live' k' where c: "c = (now, live', k')" by (cases c) auto
  have "cache_below live' (fst (lg_step c g))"
    using Cons.prems c by (auto intro!: step_below intro: cache_below_mono simp del: lg_step.simps)
  then have "cache_below (fst (snd (last ((now, live', k') # cs)))) (lg_run cs (fst (lg_step c g)))"
    by (rule Cons.IH) (use Cons.prems c in simp)
  then show ?case by (simp add: c)
qed simp

lemma db_grows_snoc: "db_grows (cs @ [(now, live, k)]) \<Longrightarrow> cs \<noteq> [] \<Longrightarrow>
    (\<forall>u. fst (snd (last cs)) u \<le> live u) \<and> db_grows cs"
proof (induction cs)
  case (Cons c cs)
  then show ?case by (cases cs; cases c; cases "hd cs") auto
qed simp

text \<open>The ramp of the first live trades holds through the 60 second cache, whatever was called
  before and whether or not the cache was invalidated: if a buy above 100 dollars is let through, the
  database holds at least three live trades of that user at that moment.\<close>

theorem lg_cap:
  assumes "db_grows (calls @ [(now, live, CSwap u usd side)])"
    and "side \<noteq> Some Sell" and "usd > 100"
    and "snd (checkLiveSwap now live u usd side (lg_run calls new_guard)) = Inr ()"
  shows "3 \<le> live u"
proof -
  have start: "cache_below l new_guard" for l by (simp add: cache_below_def new_guard_def)
  have "cache_below live (lg_run calls new_guard)"
  proof (cases calls)
    case (Cons c cs)
    obtain t l k where c: "c = (t, l, k)" by (cases c) auto
    have g: "(\<forall>u. fst (snd (last calls)) u \<le> live u) \<and> db_grows calls"
      by (rule db_grows_snoc [OF assms(1)]) (simp add: Cons)
    have "cache_below (fst (snd (last ((t, l, k) # cs)))) (lg_run cs (fst (lg_step (t, l, k) new_guard)))"
      by (rule run_below) (use g Cons c in \<open>auto intro: step_below start simp del: lg_step.simps\<close>)
    then show ?thesis using g Cons c by (auto intro: cache_below_mono simp del: lg_step.simps)
  qed (simp add: start)
  from swap_below(2) [OF this assms(2,4)] assms(3) show ?thesis
    by (simp add: lg_consts)
qed

theorem lg_cap_witness:
  "snd (checkLiveSwap 1 (\<lambda>_. 4) ''u'' 500 (Some Buy)
     (lg_run [(0, \<lambda>_. 3, CSwap ''u'' 500 None)] new_guard)) = Inr () \<and> (3::nat) \<le> (\<lambda>_. 4) ''u''"
  using lg_cap [where calls = "[(0, \<lambda>_. 3, CSwap ''u'' 500 None)]" and now = 1 and live = "\<lambda>_. 4"
      and u = "''u''" and usd = 500 and side = "Some Buy"]
  by (simp add: checkLiveSwap_def hitRate_def countLiveTrades_def new_guard_def lg_consts Let_def)

end
