(* ===== verification/Exit_Signals.thy ===== *)
theory Exit_Signals
  imports Prelude
begin

text \<open>
  \<open>apps/api/src/exit-engine\<close>: the signals of the exit engine (\<open>exit-engine.signals.ts\<close>) and the
  holder watch (\<open>holder-watch.service.ts\<close>). The environment variables are a configuration record
  whose default is the code's; the answers of the RPC node are parameters.
\<close>

subsection \<open>\<open>exit-engine.signals.ts\<close>\<close>

record exit_signal_config =
  minTrailingPct :: real
  maxTrailingPct :: real
  volSensitivity :: real
  liqDrainDropPct :: real
  minLiqToMcapRatio :: real
  momentumDropPct5m :: real

definition DEFAULT_EXIT_SIGNAL_CONFIG :: exit_signal_config where
  "DEFAULT_EXIT_SIGNAL_CONFIG = \<lparr>minTrailingPct = 12, maxTrailingPct = 50, volSensitivity = 3 / 2,
     liqDrainDropPct = 60, minLiqToMcapRatio = 2 / 100, momentumDropPct5m = 25\<rparr>"

definition pushWindow :: "real list \<Rightarrow> real \<Rightarrow> nat \<Rightarrow> real list" where
  "pushWindow window v cap =
    (if v \<le> 0 then window
     else let next = window @ [v]
       in if length next > cap then drop (length next - cap) next else next)"

text \<open>The relative changes from tick to tick; a change from a price that is not positive is left out.\<close>

fun tick_returns :: "real list \<Rightarrow> real list" where
  "tick_returns (prev # x # rest) =
     (if prev > 0 then [(x - prev) / prev] else []) @ tick_returns (x # rest)"
| "tick_returns _ = []"

definition realizedVolatilityPct :: "real list \<Rightarrow> real" where
  "realizedVolatilityPct window =
    (if length window < 3 then 0
     else let rets = tick_returns window
       in if length rets < 2 then 0
          else let mean = foldl (+) 0 rets / real (length rets);
                   variance = foldl (\<lambda>a r. a + (r - mean) ^ 2) 0 rets / real (length rets)
               in sqrt variance * 100)"

definition adaptiveTrailingPct :: "real \<Rightarrow> real \<Rightarrow> exit_signal_config \<Rightarrow> real" where
  "adaptiveTrailingPct baseTrailingPct volPct cfg =
    (let widened = baseTrailingPct + volPct * volSensitivity cfg
     in min (maxTrailingPct cfg) (max (minTrailingPct cfg) widened))"

definition liquidityDrainTriggered :: "real \<Rightarrow> real \<Rightarrow> exit_signal_config \<Rightarrow> bool" where
  "liquidityDrainTriggered currentLiqUsd peakLiqUsd cfg =
    (if \<not> peakLiqUsd > 0 \<or> \<not> currentLiqUsd \<ge> 0 then False
     else currentLiqUsd < peakLiqUsd * (1 - liqDrainDropPct cfg / 100))"

definition thinLiquidity :: "real \<Rightarrow> real \<Rightarrow> exit_signal_config \<Rightarrow> bool" where
  "thinLiquidity liqUsd mcapUsd cfg =
    (if \<not> mcapUsd > 0 \<or> \<not> liqUsd \<ge> 0 then False else liqUsd / mcapUsd < minLiqToMcapRatio cfg)"

definition momentumReversal :: "real option \<Rightarrow> bool \<Rightarrow> exit_signal_config \<Rightarrow> bool" where
  "momentumReversal priceChange5mPct inProfit cfg =
    (case priceChange5mPct of None \<Rightarrow> False
     | Some c \<Rightarrow> inProfit \<and> c \<le> - momentumDropPct5m cfg)"

lemma pushWindow_le: "length w \<le> cap \<Longrightarrow> length (pushWindow w v cap) \<le> cap"
  by (auto simp: pushWindow_def Let_def)

lemma pushWindow_last: "0 < v \<Longrightarrow> 0 < cap \<Longrightarrow> last (pushWindow w v cap) = v"
  by (auto simp: pushWindow_def Let_def)

lemma volatility_nonneg: "0 \<le> realizedVolatilityPct w"
proof -
  have "0 \<le> foldl (\<lambda>a r. a + (r - m) ^ 2) a rs" if "0 \<le> a" for a m :: real and rs
    using that by (induction rs arbitrary: a) auto
  then show ?thesis by (auto simp: realizedVolatilityPct_def Let_def)
qed

lemma trailing_bounds: "minTrailingPct cfg \<le> maxTrailingPct cfg \<Longrightarrow>
    adaptiveTrailingPct b v cfg \<in> {minTrailingPct cfg .. maxTrailingPct cfg}"
  by (auto simp: adaptiveTrailingPct_def Let_def)

subsection \<open>\<open>holder-watch.service.ts\<close>\<close>

record holder_snapshot =
  hs_top10Sum :: real
  hs_concentrationPct :: real
  hs_ts :: int

record holder_config =
  hw_BATCH :: nat
  hw_DUMP_DROP_PCT :: real
  hw_CONC_SPIKE_PTS :: real

definition default_holder_config :: holder_config where
  "default_holder_config = \<lparr>hw_BATCH = 15, hw_DUMP_DROP_PCT = 35, hw_CONC_SPIKE_PTS = 15\<rparr>"

datatype holder_event = HolderDump string real int | ConcentrationSpike string real int

record holder_watch =
  hw_snapshots :: "string \<rightharpoonup> holder_snapshot"
  hw_signals :: "string \<rightharpoonup> string \<times> int"
  hw_out :: "holder_event list"

definition consumeSignal :: "string \<Rightarrow> (string \<rightharpoonup> string \<times> int) \<Rightarrow> string option \<times> (string \<rightharpoonup> string \<times> int)" where
  "consumeSignal token signals = (case signals token of None \<Rightarrow> (None, signals)
     | Some (reason, ts) \<Rightarrow> (Some reason, signals(token := None)))"

text \<open>\<open>largest\<close>: the \<open>uiAmount\<close> of the largest accounts, \<open>None\<close> when the request failed; \<open>supply\<close>: the
  supply, \<open>None\<close> when that request failed or the field is missing.\<close>

definition fetchSnapshot :: "int \<Rightarrow> real option list option \<Rightarrow> real option \<Rightarrow> holder_snapshot option" where
  "fetchSnapshot now largest supply =
    (let accounts = (case largest of None \<Rightarrow> [] | Some a \<Rightarrow> a)
     in if accounts = [] then None
        else let top10Sum = foldl (\<lambda>s a. s + (case a of None \<Rightarrow> 0 | Some x \<Rightarrow> x)) 0 (take 10 accounts);
                 concentrationPct = (case supply of None \<Rightarrow> 0
                   | Some s \<Rightarrow> if s > 0 then min 100 (top10Sum / s * 100) else 0)
             in Some \<lparr>hs_top10Sum = top10Sum, hs_concentrationPct = concentrationPct, hs_ts = now\<rparr>)"

definition checkToken :: "holder_config \<Rightarrow> int \<Rightarrow> holder_snapshot option \<Rightarrow> string \<Rightarrow> holder_watch \<Rightarrow> holder_watch" where
  "checkToken c now fetched token h =
    (case fetched of None \<Rightarrow> h
     | Some snap \<Rightarrow>
        let before = hw_snapshots h token;
            h = h\<lparr>hw_snapshots := (hw_snapshots h)(token \<mapsto> snap)\<rparr>
        in case before of None \<Rightarrow> h
           | Some prev \<Rightarrow>
              if hs_top10Sum prev \<le> 0 then h
              else let dropPct = (hs_top10Sum prev - hs_top10Sum snap) / hs_top10Sum prev * 100
                in if dropPct \<ge> hw_DUMP_DROP_PCT c
                   then h\<lparr>hw_signals := (hw_signals h)(token \<mapsto> (''insider_dump'', now)),
                          hw_out := hw_out h @ [HolderDump token dropPct now]\<rparr>
                   else let concJump = hs_concentrationPct snap - hs_concentrationPct prev
                     in if concJump \<ge> hw_CONC_SPIKE_PTS c
                        then h\<lparr>hw_out := hw_out h @ [ConcentrationSpike token (hs_concentrationPct snap) now]\<rparr>
                        else h)"

text \<open>\<open>rows\<close> are the distinct tokens of the open positions, at most 500, as the database answers them; the
  least recently checked come first.\<close>

definition last_checked :: "holder_watch \<Rightarrow> string \<Rightarrow> int" where
  "last_checked h token = (case hw_snapshots h token of None \<Rightarrow> 0 | Some s \<Rightarrow> hs_ts s)"

definition dueTokens :: "holder_config \<Rightarrow> holder_watch \<Rightarrow> string list \<Rightarrow> string list" where
  "dueTokens c h rows = take (hw_BATCH c) (sort_key (last_checked h) rows)"

definition holder_tick ::
    "holder_config \<Rightarrow> int \<Rightarrow> (string \<Rightarrow> holder_snapshot option) \<Rightarrow> string list \<Rightarrow> holder_watch \<Rightarrow> holder_watch" where
  "holder_tick c now fetch rows h = foldl (\<lambda>h token. checkToken c now (fetch token) token h) h (dueTokens c h rows)"

text \<open>The holder watch raises the exit signal of a token exactly when the balance of its ten
  largest holders fell by 35 percent or more since the previous snapshot; the first snapshot of a
  token, a failed request and a rise never raise it, and a later snapshot never withdraws it.\<close>

theorem hw_dump:
  "hw_signals (checkToken default_holder_config now fetched token h) token =
    (case (fetched, hw_snapshots h token) of
       (Some snap, Some prev) \<Rightarrow>
         if 0 < hs_top10Sum prev \<and> hs_top10Sum snap \<le> 65 / 100 * hs_top10Sum prev
         then Some (''insider_dump'', now) else hw_signals h token
     | _ \<Rightarrow> hw_signals h token)"
proof -
  have "(p - s) / p * 100 \<ge> 35 \<longleftrightarrow> s \<le> 65 / 100 * p" if "0 < p" for p s :: real
    using that by (simp add: field_simps)
  then show ?thesis
    by (auto simp: checkToken_def default_holder_config_def Let_def not_le split: option.split)
qed

end
