(* ===== verification/Js_Text.thy ===== *)
theory Js_Text
  imports Prelude
begin

text \<open>
  The string methods of the trading modules: \<open>toLowerCase\<close>, \<open>toUpperCase\<close>, \<open>startsWith\<close>,
  \<open>parseInt\<close> and the part of a text after its first separator. Letters outside ASCII are left as they
  are: the texts are token addresses, symbols, chain names and flags.
\<close>

definition upper_letters :: string where
  "upper_letters = ''ABCDEFGHIJKLMNOPQRSTUVWXYZ''"

definition lower_letters :: string where
  "lower_letters = ''abcdefghijklmnopqrstuvwxyz''"

definition lower_char :: "char \<Rightarrow> char" where
  "lower_char c = (case map_of (zip upper_letters lower_letters) c of None \<Rightarrow> c | Some d \<Rightarrow> d)"

definition upper_char :: "char \<Rightarrow> char" where
  "upper_char c = (case map_of (zip lower_letters upper_letters) c of None \<Rightarrow> c | Some d \<Rightarrow> d)"

definition to_lower :: "string \<Rightarrow> string" where
  "to_lower = map lower_char"

definition to_upper :: "string \<Rightarrow> string" where
  "to_upper = map upper_char"

lemma lower_upper_char: "lower_char (lower_char c) = lower_char c" "upper_char (upper_char c) = upper_char c"
  by (auto simp: lower_char_def upper_char_def upper_letters_def lower_letters_def split: if_splits)

lemma to_lower_idem [simp]: "to_lower (to_lower s) = to_lower s"
  by (simp add: to_lower_def lower_upper_char)

lemma to_upper_idem [simp]: "to_upper (to_upper s) = to_upper s"
  by (simp add: to_upper_def lower_upper_char)

lemma to_case_Nil [simp]: "(to_lower s = []) = (s = [])" "(to_upper s = []) = (s = [])"
  by (simp_all add: to_lower_def to_upper_def)

definition starts_with :: "string \<Rightarrow> string \<Rightarrow> bool" where
  "starts_with p s = (take (length p) s = p)"

text \<open>\<open>parseInt(s, 10)\<close>: spaces, a sign and the longest run of digits; \<open>None\<close> is NaN.\<close>

definition digit_chars :: string where
  "digit_chars = ''0123456789''"

fun digit_index :: "string \<Rightarrow> char \<Rightarrow> nat" where
  "digit_index [] c = 0"
| "digit_index (d # ds) c = (if d = c then 0 else digit_index ds c + 1)"

definition digits_int :: "string \<Rightarrow> int option" where
  "digits_int s = (let ds = takeWhile (\<lambda>c. c \<in> set digit_chars) s
     in if ds = [] then None else Some (foldl (\<lambda>n c. 10 * n + int (digit_index digit_chars c)) 0 ds))"

definition parseInt :: "string \<Rightarrow> int option" where
  "parseInt s = (case dropWhile (\<lambda>c. c = CHR '' '') s of
     [] \<Rightarrow> None
   | c # s' \<Rightarrow> if c = CHR ''-'' then map_option uminus (digits_int s')
       else if c = CHR ''+'' then digits_int s' else digits_int (c # s'))"

text \<open>\<open>s.split(sep)[1]\<close> for a separator of one character that occurs.\<close>

definition second_part :: "char \<Rightarrow> string \<Rightarrow> string" where
  "second_part sep s = takeWhile (\<lambda>c. c \<noteq> sep) (tl (dropWhile (\<lambda>c. c \<noteq> sep) s))"

lemma parseInt_example: "parseInt (second_part CHR '':'' ''chainId:8453'') = Some 8453"
  by (simp add: second_part_def parseInt_def digits_int_def digit_chars_def)

end
