(* ===== verification/Exit_Engine.thy ===== *)
theory Exit_Engine
  imports Exit_Signals Js_Text
begin

text \<open>
  \<open>apps/api/src/exit-engine/exit-engine.service.ts\<close>: the automated sell loop. A row of the table of
  trades is a record; the database lookups, the wallet table, the token pool and
  \<open>ExecutionService.swap\<close> are the parameters in \<open>exit_world\<close>, and the writes of the loop are the new row.
  An instant is in milliseconds. The database itself does not fail in the model; logs are left out.
\<close>

subsection \<open>Configuration, tiers and rows\<close>

record exit_config =
  ec_LIVE_MODE :: bool
  ec_BATCH_SIZE :: nat
  ec_THESIS_BREAK_FLOOR :: real
  ec_THESIS_BREAK_DROP :: real
  ec_TIME_STOP_MOVE :: real        \<comment> \<open>a fraction, not percent\<close>
  ec_MAX_SELL_ATTEMPTS :: nat
  ec_BASE_SLIPPAGE_BPS :: real
  ec_MAX_SLIPPAGE_BPS :: real
  ec_VOL_WINDOW_CAP :: nat
  ec_sig :: exit_signal_config

definition default_exit_config :: exit_config where
  "default_exit_config = \<lparr>ec_LIVE_MODE = False, ec_BATCH_SIZE = 50, ec_THESIS_BREAK_FLOOR = 40,
     ec_THESIS_BREAK_DROP = 20, ec_TIME_STOP_MOVE = 10 / 100, ec_MAX_SELL_ATTEMPTS = 5,
     ec_BASE_SLIPPAGE_BPS = 300, ec_MAX_SLIPPAGE_BPS = 2500, ec_VOL_WINDOW_CAP = 20,
     ec_sig = DEFAULT_EXIT_SIGNAL_CONFIG\<rparr>"

definition TIME_STOP_48H_SELL_PCT :: real where "TIME_STOP_48H_SELL_PCT = 50"
definition PRE_TIER_TRAILING_STOP_PCT :: real where "PRE_TIER_TRAILING_STOP_PCT = 30"
definition SOL_MINT :: string where "SOL_MINT = ''So11111111111111111111111111111111111111112''"

record tier =
  ti_id :: string
  ti_mcapMultiple :: real
  ti_sellPct :: real
  ti_trailingStop :: real

definition tier_of :: "string \<Rightarrow> real \<Rightarrow> real \<Rightarrow> real \<Rightarrow> tier" where
  "tier_of i m s t = \<lparr>ti_id = i, ti_mcapMultiple = m, ti_sellPct = s, ti_trailingStop = t\<rparr>"

definition default_tiers :: "tier list" where
  "default_tiers = [tier_of ''tier_0'' 2 50 25, tier_of ''tier_1'' 5 25 20, tier_of ''tier_2'' 10 25 15]"

definition PROFILE_TIERS :: "(string \<times> tier list) list" where
  "PROFILE_TIERS =
    [(''degen_sniper'', [tier_of ''tier_0'' 3 35 30, tier_of ''tier_1'' 8 30 20, tier_of ''tier_2'' 20 35 12]),
     (''swing_trader'', [tier_of ''tier_0'' (3 / 2) 55 20, tier_of ''tier_1'' 3 25 15, tier_of ''tier_2'' 6 20 12]),
     (''default'', default_tiers)]"

definition getTiers :: "string option \<Rightarrow> tier list" where
  "getTiers profileKey =
    (case map_of PROFILE_TIERS (case profileKey of None \<Rightarrow> ''default'' | Some k \<Rightarrow> k) of
       None \<Rightarrow> default_tiers | Some ts \<Rightarrow> ts)"

record trade =
  tr_id :: string
  tr_userId :: string
  tr_chain :: string
  tr_side :: string
  tr_mode :: string
  tr_tokenOut :: string
  tr_amountOut :: "real option"            \<comment> \<open>\<open>parseFloat\<close>; \<open>None\<close> when it is not finite\<close>
  tr_priceUsd :: "real option"
  tr_createdAt :: int
  tr_strategyId :: "string option"
  tr_entryMcapUsd :: "real option"
  tr_highestMcapSeen :: "real option"
  tr_lastSignificantMoveAt :: "int option"
  tr_tiersExecuted :: "nat list"           \<comment> \<open>empty when the column is not an array\<close>
  tr_exitReason :: "string option"
  tr_exitAt :: "int option"
  tr_realizedPnl :: "real option"
  tr_pnlUsd :: "real option"
  tr_holdDurationSec :: "real option"
  tr_realizedProceedsUsd :: "real option"
  tr_sellAttempts :: nat
  tr_lastSellError :: "string option"
  tr_sellStuck :: bool

record live_data =
  lv_marketCapUsd :: "real option"
  lv_priceUsd :: "real option"
  lv_liquidityUsd :: "real option"
  lv_priceChange5m :: "real option"

record swap_request =
  sw_userId :: string
  sw_walletId :: string
  sw_chain :: string
  sw_tokenIn :: string
  sw_tokenOut :: string
  sw_amountIn :: real
  sw_notionalUsd :: real
  sw_slippageBps :: real
  sw_strategyId :: string

record exit_world =
  wo_getLive :: "string \<Rightarrow> live_data option"
  wo_snapshotMcap :: "string \<Rightarrow> real option"              \<comment> \<open>\<open>intelSnapshot\<close>\<close>
  wo_verdictMcap :: "string \<Rightarrow> int \<Rightarrow> real option"         \<comment> \<open>the last verdict until an instant\<close>
  wo_latestVerdict :: "string \<Rightarrow> (real \<times> string) option"
  wo_entryScore :: "string \<Rightarrow> int \<Rightarrow> real option"
  wo_wallet :: "string \<Rightarrow> string \<Rightarrow> string option"
  wo_swap :: "swap_request \<Rightarrow> string + string \<times> string option"

datatype exit_event =
    Swapped swap_request real                              \<comment> \<open>a confirmed sale and its fraction\<close>
  | LearningIngest string string
  | TradeExit string string string string real real bool "string option" int
  | TradeExitUser string string string real bool int
  | TradeExitFailed string string string string nat bool int
  | SellStuck string string string string string int

record exit_memory =
  em_mcapWindow :: "string \<rightharpoonup> real list"
  em_peakLiq :: "string \<rightharpoonup> real"
  em_signals :: "string \<rightharpoonup> string \<times> int"

subsection \<open>Selling\<close>

definition remainingPositionPct :: "nat list \<Rightarrow> tier list \<Rightarrow> real" where
  "remainingPositionPct executed tiers =
    (let soldPct = foldl (\<lambda>s idx. s + (if idx < length tiers then ti_sellPct (tiers ! idx) else 0)) 0 executed
     in max 0 (100 - soldPct))"

definition resolveTrailingStop :: "nat list \<Rightarrow> tier list \<Rightarrow> real" where
  "resolveTrailingStop executed tiers =
    (case executed of [] \<Rightarrow> PRE_TIER_TRAILING_STOP_PCT
     | i # is \<Rightarrow> let lastFired = foldl max i is
         in if lastFired < length tiers then ti_trailingStop (tiers ! lastFired) else PRE_TIER_TRAILING_STOP_PCT)"

definition slippageForAttempt :: "exit_config \<Rightarrow> nat \<Rightarrow> real" where
  "slippageForAttempt c attempts = min (ec_MAX_SLIPPAGE_BPS c) (ec_BASE_SLIPPAGE_BPS c * 2 ^ attempts)"

definition FULL_EXIT_REASONS :: "string list" where
  "FULL_EXIT_REASONS = [''trailing_stop'', ''time_stop'', ''liquidity_drain'', ''momentum_reversal'', ''insider_dump'']"

definition findTier :: "string \<Rightarrow> tier list \<Rightarrow> nat option" where
  "findTier reason tiers = List.find (\<lambda>i. ti_id (tiers ! i) = reason) [0 ..< length tiers]"

definition recordSellFailure ::
    "exit_config \<Rightarrow> int \<Rightarrow> string \<Rightarrow> string \<Rightarrow> trade \<Rightarrow> trade \<times> exit_event list" where
  "recordSellFailure c now reason error t =
    (let attempts = tr_sellAttempts t + 1;
         stuck = attempts \<ge> ec_MAX_SELL_ATTEMPTS c
     in (t\<lparr>tr_sellAttempts := attempts, tr_lastSellError := Some (take 500 error), tr_sellStuck := stuck\<rparr>,
         TradeExitFailed (tr_id t) (tr_tokenOut t) reason error attempts stuck now #
         (if stuck then [SellStuck (tr_id t) (tr_userId t) (tr_tokenOut t) reason error now] else [])))"

text \<open>The request, or the message of the error thrown before the swap. \<open>exec\<close> is there.\<close>

definition sell_request :: "exit_config \<Rightarrow> exit_world \<Rightarrow> trade \<Rightarrow> real \<Rightarrow> real \<Rightarrow> string + swap_request" where
  "sell_request c w t sellFraction sellNotionalUsd =
    (case wo_wallet w (tr_userId t) (tr_chain t) of
       None \<Rightarrow> Inl (''no '' @ tr_chain t @ '' wallet for user'')
     | Some wallet \<Rightarrow> (case tr_amountOut t of
         None \<Rightarrow> Inl ''original amountOut invalid''
       | Some amt \<Rightarrow> if amt \<le> 0 then Inl ''original amountOut invalid''
           else Inr \<lparr>sw_userId = tr_userId t, sw_walletId = wallet, sw_chain = tr_chain t,
             sw_tokenIn = tr_tokenOut t, sw_tokenOut = SOL_MINT,
             sw_amountIn = max 1 (of_int \<lfloor>amt * sellFraction\<rfloor>), sw_notionalUsd = sellNotionalUsd,
             sw_slippageBps = slippageForAttempt c (tr_sellAttempts t), sw_strategyId = ''exit_engine''\<rparr>))"

definition isFullExit :: "string \<Rightarrow> trade \<Rightarrow> bool" where
  "isFullExit reason t =
    (let tiers = getTiers (tr_strategyId t);
         newExecuted = (case findTier reason tiers of None \<Rightarrow> tr_tiersExecuted t
           | Some i \<Rightarrow> tr_tiersExecuted t @ [i])
     in (\<forall>i \<in> set [0 ..< length tiers]. i \<in> set newExecuted) \<or> reason \<in> set FULL_EXIT_REASONS
        \<or> starts_with ''thesis_break'' reason)"

definition executeSell ::
    "exit_config \<Rightarrow> exit_world \<Rightarrow> int \<Rightarrow> string \<Rightarrow> real \<Rightarrow> real \<Rightarrow> real \<Rightarrow> trade \<Rightarrow> trade \<times> exit_event list" where
  "executeSell c w now reason fraction mcapRatio entryUsd t =
    (let sellFraction = min 1 (max 0 fraction)
     in if sellFraction \<le> 0 then (t, [])
        else
          let sellNotionalUsd = entryUsd * mcapRatio * sellFraction;
              newExecuted = (case findTier reason (getTiers (tr_strategyId t)) of
                  None \<Rightarrow> tr_tiersExecuted t | Some i \<Rightarrow> tr_tiersExecuted t @ [i]);
              fullExit = isFullExit reason t
          in case sell_request c w t sellFraction sellNotionalUsd of
               Inl failure \<Rightarrow> recordSellFailure c now reason failure t
             | Inr req \<Rightarrow> (case wo_swap w req of
                 Inl failure \<Rightarrow> recordSellFailure c now reason failure t
               | Inr (sellTradeId, txHash) \<Rightarrow>
                   let proceeds = (case tr_realizedProceedsUsd t of None \<Rightarrow> 0 | Some p \<Rightarrow> p);
                       newProceeds = proceeds + sellNotionalUsd;
                       t' = t\<lparr>tr_tiersExecuted := newExecuted, tr_realizedProceedsUsd := Some newProceeds,
                              tr_sellAttempts := 0, tr_lastSellError := None\<rparr>;
                       t' = (if fullExit then
                           t'\<lparr>tr_exitReason := Some reason, tr_exitAt := Some now,
                              tr_realizedPnl := Some (newProceeds - entryUsd), tr_pnlUsd := Some (newProceeds - entryUsd),
                              tr_holdDurationSec := Some (of_int \<lfloor>real_of_int (now - tr_createdAt t) / 1000 + 1 / 2\<rfloor>)\<rparr>
                         else t')
                   in (t', Swapped req sellFraction #
                        (if fullExit then [LearningIngest (tr_userId t) (tr_id t)] else []) @
                        [TradeExit (tr_id t) sellTradeId (tr_userId t) (tr_tokenOut t) sellNotionalUsd
                           (sellNotionalUsd - entryUsd * sellFraction) fullExit txHash now,
                         TradeExitUser (tr_id t) (tr_tokenOut t) reason sellNotionalUsd fullExit now])))"

subsection \<open>The decision\<close>

text \<open>The first market cap that is known and positive: the snapshot of the token, or the last verdict
  until ten minutes after the purchase.\<close>

definition resolveEntryMcap :: "exit_world \<Rightarrow> string \<Rightarrow> int \<Rightarrow> real option" where
  "resolveEntryMcap w token buyTime =
    (let vh = (case wo_verdictMcap w token (buyTime + 600000) of None \<Rightarrow> None
               | Some m \<Rightarrow> if m > 0 then Some m else None)
     in case wo_snapshotMcap w token of None \<Rightarrow> vh | Some m \<Rightarrow> if m > 0 then Some m else vh)"

definition entry_mcap :: "exit_world \<Rightarrow> trade \<Rightarrow> real option" where
  "entry_mcap w t = (case tr_entryMcapUsd t of
     None \<Rightarrow> resolveEntryMcap w (tr_tokenOut t) (tr_createdAt t)
   | Some m \<Rightarrow> if m = 0 then resolveEntryMcap w (tr_tokenOut t) (tr_createdAt t) else Some m)"

definition thesis_break :: "exit_config \<Rightarrow> exit_world \<Rightarrow> trade \<Rightarrow> string option" where
  "thesis_break c w t = (case wo_latestVerdict w (tr_tokenOut t) of None \<Rightarrow> None
     | Some (score, verdict) \<Rightarrow>
        let entryScore = (case wo_entryScore w (tr_tokenOut t) (tr_createdAt t) of None \<Rightarrow> score | Some s \<Rightarrow> s);
            scoreDrop = entryScore - score;
            honeypot = (verdict = ''HIGH_RISK'');
            scoreFailed = (score \<le> ec_THESIS_BREAK_FLOOR c \<and> scoreDrop \<ge> ec_THESIS_BREAK_DROP c)
        in if \<not> honeypot \<and> \<not> scoreFailed then None
           else Some (if honeypot then ''thesis_break_honeypot'' else ''thesis_break''))"

text \<open>The loop over the tiers: the first that has not fired and whose multiple is reached.\<close>

definition due_tier :: "real \<Rightarrow> nat list \<Rightarrow> tier list \<Rightarrow> nat option" where
  "due_tier mcapRatio executed tiers =
    List.find (\<lambda>i. i \<notin> set executed \<and> mcapRatio \<ge> ti_mcapMultiple (tiers ! i)) [0 ..< length tiers]"

definition trailing_pct :: "exit_config \<Rightarrow> nat list \<Rightarrow> tier list \<Rightarrow> real list \<Rightarrow> real \<Rightarrow> real \<Rightarrow> real" where
  "trailing_pct c executed tiers win liqUsd currentMcap =
    (if thinLiquidity liqUsd currentMcap (ec_sig c) then minTrailingPct (ec_sig c)
     else adaptiveTrailingPct (resolveTrailingStop executed tiers) (realizedVolatilityPct win) (ec_sig c))"

text \<open>\<open>evaluateTrade\<close> from the danger checks on, with the market cap, the entry and the updated high:
  the reason and the fraction of the one sale of this tick, and the in-memory state.\<close>

definition exit_decision ::
    "exit_config \<Rightarrow> exit_world \<Rightarrow> int \<Rightarrow> live_data \<Rightarrow> real \<Rightarrow> real \<Rightarrow> real \<Rightarrow> trade \<Rightarrow> exit_memory
     \<Rightarrow> (string \<times> real) option \<times> exit_memory" where
  "exit_decision c w now live currentMcap entryMcap highestMcap t mem =
    (let token = tr_tokenOut t;
         mcapRatio = currentMcap / entryMcap;
         tiers = getTiers (tr_strategyId t);
         executed = tr_tiersExecuted t;
         openSec = real_of_int (now - tr_createdAt t) / 1000;
         inProfit = (mcapRatio > 1);
         remaining = remainingPositionPct executed tiers / 100;
         win = pushWindow (case em_mcapWindow mem token of None \<Rightarrow> [] | Some x \<Rightarrow> x) currentMcap (ec_VOL_WINDOW_CAP c);
         liqUsd = (case lv_liquidityUsd live of None \<Rightarrow> 0 | Some l \<Rightarrow> l);
         peakLiq = max (case em_peakLiq mem token of None \<Rightarrow> 0 | Some p \<Rightarrow> p) liqUsd;
         mem = mem\<lparr>em_mcapWindow := (em_mcapWindow mem)(token \<mapsto> win), em_peakLiq := (em_peakLiq mem)(token \<mapsto> peakLiq)\<rparr>
     in if liqUsd > 0 \<and> liquidityDrainTriggered liqUsd peakLiq (ec_sig c) then (Some (''liquidity_drain'', remaining), mem)
        else
          let (dumpReason, signals) = consumeSignal token (em_signals mem);
              mem = mem\<lparr>em_signals := signals\<rparr>
          in (if dumpReason \<noteq> None \<and> dumpReason \<noteq> Some '''' then Some (the dumpReason, remaining)
              else case due_tier mcapRatio executed tiers of
                Some i \<Rightarrow> Some (ti_id (tiers ! i), ti_sellPct (tiers ! i) / 100)
              | None \<Rightarrow>
                  if inProfit \<and> highestMcap > 0 \<and>
                     currentMcap \<le> highestMcap * (1 - trailing_pct c executed tiers win liqUsd currentMcap / 100)
                  then Some (''trailing_stop'', remaining)
                  else if momentumReversal (lv_priceChange5m live) inProfit (ec_sig c)
                  then Some (''momentum_reversal'', remaining)
                  else let highestMovePct = (highestMcap - entryMcap) / entryMcap
                    in if openSec \<ge> 72 * 3600 \<and> highestMovePct < ec_TIME_STOP_MOVE c
                       then Some (''time_stop'', remaining)
                       else if openSec \<ge> 48 * 3600 \<and> 0 \<notin> set executed \<and> highestMovePct < ec_TIME_STOP_MOVE c
                       then Some (''time_stop'', TIME_STOP_48H_SELL_PCT / 100)
                       else map_option (\<lambda>reason. (reason, remaining)) (thesis_break c w t),
              mem))"

definition decide_and_sell ::
    "exit_config \<Rightarrow> exit_world \<Rightarrow> int \<Rightarrow> live_data \<Rightarrow> real \<Rightarrow> real \<Rightarrow> real \<Rightarrow> trade \<Rightarrow> exit_memory
     \<Rightarrow> trade \<times> exit_memory \<times> exit_event list" where
  "decide_and_sell c w now live currentMcap entryMcap highestMcap t mem =
    (case exit_decision c w now live currentMcap entryMcap highestMcap t mem of
       (None, mem) \<Rightarrow> (t, mem, [])
     | (Some (reason, fraction), mem) \<Rightarrow>
         (case executeSell c w now reason fraction (currentMcap / entryMcap)
             (case tr_priceUsd t of None \<Rightarrow> 0 | Some p \<Rightarrow> p) t of
            (t, ev) \<Rightarrow> (t, mem, ev)))"

definition evaluateTrade ::
    "exit_config \<Rightarrow> exit_world \<Rightarrow> int \<Rightarrow> trade \<Rightarrow> exit_memory \<Rightarrow> trade \<times> exit_memory \<times> exit_event list" where
  "evaluateTrade c w now t mem =
    (case wo_getLive w (tr_tokenOut t) of None \<Rightarrow> (t, mem, [])
     | Some live \<Rightarrow> (case lv_marketCapUsd live of None \<Rightarrow> (t, mem, [])
       | Some currentMcap \<Rightarrow> if currentMcap \<le> 0 then (t, mem, [])
         else case entry_mcap w t of None \<Rightarrow> (t, mem, [])
           | Some entryMcap \<Rightarrow>
              let prevHigh = (case tr_highestMcapSeen t of None \<Rightarrow> entryMcap | Some h \<Rightarrow> h);
                  newHigh = max prevHigh currentMcap;
                  movedSig = (\<bar>currentMcap - entryMcap\<bar> / entryMcap \<ge> 10 / 100);
                  t = t\<lparr>tr_entryMcapUsd := Some entryMcap, tr_highestMcapSeen := Some newHigh\<rparr>;
                  t = (if movedSig then t\<lparr>tr_lastSignificantMoveAt := Some now\<rparr> else t)
              in decide_and_sell c w now live currentMcap entryMcap newHigh t mem))"

subsection \<open>The tick\<close>

definition open_trade :: "exit_config \<Rightarrow> trade \<Rightarrow> bool" where
  "open_trade c t = (tr_side t = ''buy'' \<and> tr_exitAt t = None \<and> \<not> tr_sellStuck t \<and>
     (ec_LIVE_MODE c \<or> tr_mode t = ''PAPER''))"

text \<open>\<open>db\<close> holds the rows in the order of \<open>createdAt\<close>; an update replaces the row with its id.\<close>

definition write_row :: "trade \<Rightarrow> trade list \<Rightarrow> trade list" where
  "write_row t db = map (\<lambda>r. if tr_id r = tr_id t then t else r) db"

definition pruneState :: "string set \<Rightarrow> exit_memory \<Rightarrow> exit_memory" where
  "pruneState active mem = mem\<lparr>em_mcapWindow := em_mcapWindow mem |` active, em_peakLiq := em_peakLiq mem |` active\<rparr>"

fun evaluate_all ::
    "exit_config \<Rightarrow> exit_world \<Rightarrow> int \<Rightarrow> trade list \<Rightarrow> trade list \<Rightarrow> exit_memory \<Rightarrow> exit_event list
     \<Rightarrow> trade list \<times> exit_memory \<times> exit_event list" where
  "evaluate_all c w now [] db mem out = (db, mem, out)"
| "evaluate_all c w now (t # ts) db mem out = (case evaluateTrade c w now t mem of
     (t', mem', ev) \<Rightarrow> evaluate_all c w now ts (write_row t' db) mem' (out @ ev))"

definition processOpenTrades ::
    "exit_config \<Rightarrow> exit_world \<Rightarrow> int \<Rightarrow> trade list \<Rightarrow> exit_memory \<Rightarrow> trade list \<times> exit_memory \<times> exit_event list" where
  "processOpenTrades c w now db mem =
    (let trades = take (ec_BATCH_SIZE c) (filter (open_trade c) db)
     in if trades = [] then (db, mem, [])
        else evaluate_all c w now trades db (pruneState (tr_tokenOut ` set trades) mem) [])"


subsection \<open>The ladders\<close>

lemma getTiers_cases:
  obtains "getTiers k = [tier_of ''tier_0'' 3 35 30, tier_of ''tier_1'' 8 30 20, tier_of ''tier_2'' 20 35 12]"
  | "getTiers k = [tier_of ''tier_0'' (3 / 2) 55 20, tier_of ''tier_1'' 3 25 15, tier_of ''tier_2'' 6 20 12]"
  | "getTiers k = default_tiers"
proof -
  define key where "key = (case k of None \<Rightarrow> ''default'' | Some k \<Rightarrow> k)"
  have "getTiers k = (case map_of PROFILE_TIERS key of None \<Rightarrow> default_tiers | Some ts \<Rightarrow> ts)"
    by (simp add: getTiers_def key_def)
  then show ?thesis
    using that by (auto simp: PROFILE_TIERS_def split: if_splits)
qed

definition ladder_ok :: "tier list \<Rightarrow> bool" where
  "ladder_ok ts \<longleftrightarrow> map ti_id ts = [''tier_0'', ''tier_1'', ''tier_2''] \<and>
     (\<forall>t \<in> set ts. 0 < ti_sellPct t) \<and> (\<Sum>t\<leftarrow>ts. ti_sellPct t) = 100 \<and> sorted (map ti_mcapMultiple ts)"

lemma ladder: "ladder_ok (getTiers k)"
  by (rule getTiers_cases [of k]) (simp_all add: ladder_ok_def tier_of_def default_tiers_def)

lemma ladder_length: "ladder_ok ts \<Longrightarrow> length ts = 3"
  by (metis (no_types, lifting) ladder_ok_def length_Cons length_map list.size(3) numeral_3_eq_3)

lemma ladder_explicit:
  assumes "ladder_ok ts"
  obtains a b c where "ts = [a, b, c]" "ti_id a = ''tier_0''" "ti_id b = ''tier_1''" "ti_id c = ''tier_2''"
    "0 < ti_sellPct a" "0 < ti_sellPct b" "0 < ti_sellPct c" "ti_sellPct a + ti_sellPct b + ti_sellPct c = 100"
proof -
  have "length ts = 3" using assms by (rule ladder_length)
  then obtain a b c where "ts = [a, b, c]" by (auto simp: length_Suc_conv numeral_3_eq_3)
  with assms show ?thesis by (auto simp: ladder_ok_def intro: that)
qed

definition pct_of :: "tier list \<Rightarrow> nat list \<Rightarrow> real" where
  "pct_of ts xs = (\<Sum>i\<leftarrow>xs. ti_sellPct (ts ! i))"

lemma below_three: "{..<3} = {0, 1, 2 :: nat}"
  by auto

lemma less_three: "i < 3 \<longleftrightarrow> i = 0 \<or> i = 1 \<or> i = (2 :: nat)"
  by auto

lemma findTier_ladder:
  assumes "ladder_ok ts"
  shows "findTier ''tier_0'' ts = Some 0" "findTier ''tier_1'' ts = Some 1" "findTier ''tier_2'' ts = Some 2"
    and "r \<notin> {''tier_0'', ''tier_1'', ''tier_2''} \<Longrightarrow> findTier r ts = None"
proof -
  obtain a b c where ts: "ts = [a, b, c]" "ti_id a = ''tier_0''" "ti_id b = ''tier_1''" "ti_id c = ''tier_2''"
    by (rule ladder_explicit [OF assms])
  have "[0 ..< length ts] = [0, 1, 2]" by (simp add: ts upt_rec)
  then show "findTier ''tier_0'' ts = Some 0" "findTier ''tier_1'' ts = Some 1" "findTier ''tier_2'' ts = Some 2"
    "r \<notin> {''tier_0'', ''tier_1'', ''tier_2''} \<Longrightarrow> findTier r ts = None"
    by (auto simp: findTier_def ts)
qed

lemma tier_id: "ladder_ok ts \<Longrightarrow> i < 3 \<Longrightarrow> ti_id (ts ! i) = [''tier_0'', ''tier_1'', ''tier_2''] ! i"
proof -
  assume ok: "ladder_ok ts" and i: "i < 3"
  have "ti_id (ts ! i) = map ti_id ts ! i" using i by (simp add: ladder_length [OF ok])
  also have "\<dots> = [''tier_0'', ''tier_1'', ''tier_2''] ! i" using ok by (simp add: ladder_ok_def)
  finally show ?thesis .
qed

lemma tier_ids: "ladder_ok ts \<Longrightarrow> i < 3 \<Longrightarrow> ti_id (ts ! i) \<in> {''tier_0'', ''tier_1'', ''tier_2''}"
  using tier_id [of ts i] by (auto simp: less_three)

lemma findTier_id: "ladder_ok ts \<Longrightarrow> i < 3 \<Longrightarrow> findTier (ti_id (ts ! i)) ts = Some i"
  using tier_id [of ts i] findTier_ladder(1-3) [of ts] by (auto simp: less_three)

lemma remaining_eq:
  assumes "ladder_ok ts" "set xs \<subseteq> {..<3}" "distinct xs"
  shows "remainingPositionPct xs ts = 100 - pct_of ts xs" "0 \<le> pct_of ts xs" "pct_of ts xs \<le> 100"
    and "pct_of ts xs = 100 \<longleftrightarrow> set xs = {..<3}"
proof -
  obtain a b c where ts: "ts = [a, b, c]" "0 < ti_sellPct a" "0 < ti_sellPct b" "0 < ti_sellPct c"
    "ti_sellPct a + ti_sellPct b + ti_sellPct c = 100"
    by (rule ladder_explicit [OF assms(1)])
  have all: "(\<Sum>i\<in>{..<3}. ti_sellPct (ts ! i)) = 100"
    unfolding below_three by (simp add: ts(1)) (use ts(5) in linarith)
  have p: "pct_of ts xs = (\<Sum>i\<in>set xs. ti_sellPct (ts ! i))"
    by (simp add: pct_of_def sum_list_distinct_conv_sum_set assms(3))
  have pos: "0 < ti_sellPct (ts ! i)" if "i < 3" for i
    using that by (auto simp: ts numeral_3_eq_3 less_Suc_eq)
  show "0 \<le> pct_of ts xs"
    unfolding p by (rule sum_nonneg) (use assms(2) pos in \<open>auto intro: less_imp_le\<close>)
  have split: "(\<Sum>i\<in>{..<3} - set xs. ti_sellPct (ts ! i)) = 100 - pct_of ts xs"
    using sum_diff [of "{..<3}" "set xs" "\<lambda>i. ti_sellPct (ts ! i)"] assms(2) by (simp add: p all)
  have "0 \<le> (\<Sum>i\<in>{..<3} - set xs. ti_sellPct (ts ! i))"
    by (rule sum_nonneg) (auto intro: less_imp_le pos)
  then show le: "pct_of ts xs \<le> 100" by (simp add: split)
  have "foldl (\<lambda>s idx. s + (if idx < length ts then ti_sellPct (ts ! idx) else 0)) 0 xs
      = (\<Sum>i\<leftarrow>xs. if i < length ts then ti_sellPct (ts ! i) else 0)"
    by (simp add: foldl_sum)
  also have "\<dots> = pct_of ts xs"
    unfolding pct_of_def by (rule arg_cong [where f = sum_list]) (use assms(2) ts(1) in \<open>auto simp: subset_iff\<close>)
  finally show "remainingPositionPct xs ts = 100 - pct_of ts xs"
    using le by (simp add: remainingPositionPct_def)
  show "pct_of ts xs = 100 \<longleftrightarrow> set xs = {..<3}"
  proof
    assume h: "pct_of ts xs = 100"
    have "{..<3} - set xs = {}"
    proof (rule ccontr)
      assume "{..<3} - set xs \<noteq> {}"
      then have "0 < (\<Sum>i\<in>{..<3} - set xs. ti_sellPct (ts ! i))"
        by (intro sum_pos) (auto intro: pos)
      with h show False by (simp add: split)
    qed
    with assms(2) show "set xs = {..<3}" by auto
  qed (simp add: p all)
qed

subsection \<open>What one evaluation does to a row\<close>

text \<open>The fractions of the position that were sold.\<close>

definition sold :: "exit_event list \<Rightarrow> real" where
  "sold ev = (\<Sum>e\<leftarrow>ev. case e of Swapped _ f \<Rightarrow> f | _ \<Rightarrow> 0)"

lemma sold_simps [simp]: "sold [] = 0"
  "sold (e # ev) = (case e of Swapped _ f \<Rightarrow> f | _ \<Rightarrow> 0) + sold ev" "sold (a @ b) = sold a + sold b"
  by (simp_all add: sold_def)

text \<open>A row after a failed sale, and after a sale.\<close>

definition failed_row :: "exit_config \<Rightarrow> string \<Rightarrow> trade \<Rightarrow> trade" where
  "failed_row c error t = t\<lparr>tr_sellAttempts := tr_sellAttempts t + 1, tr_lastSellError := Some (take 500 error),
     tr_sellStuck := (tr_sellAttempts t + 1 \<ge> ec_MAX_SELL_ATTEMPTS c)\<rparr>"

lemma recordSellFailure_row:
  "fst (recordSellFailure c now reason error t) = failed_row c error t"
  "sold (snd (recordSellFailure c now reason error t)) = 0"
  by (simp_all add: recordSellFailure_def failed_row_def Let_def)

lemma executeSell_cases:
  obtains (none) "fraction \<le> 0" "executeSell c w now reason fraction m u t = (t, [])"
  | (failed) error ev where "0 < fraction" "executeSell c w now reason fraction m u t = (failed_row c error t, ev)"
      "sold ev = 0" "ev \<noteq> []"
  | (sale) t' ev where "0 < fraction" "executeSell c w now reason fraction m u t = (t', ev)" "sold ev = min 1 fraction"
      "ev \<noteq> []"
      "tr_tiersExecuted t' = tr_tiersExecuted t @ (case findTier reason (getTiers (tr_strategyId t)) of None \<Rightarrow> [] | Some i \<Rightarrow> [i])"
      "tr_exitAt t' = (if isFullExit reason t then Some now else tr_exitAt t)"
      "tr_exitReason t' = (if isFullExit reason t then Some reason else tr_exitReason t)"
      "tr_strategyId t' = tr_strategyId t" "tr_sellStuck t' = tr_sellStuck t" "tr_createdAt t' = tr_createdAt t"
proof (cases "fraction \<le> 0")
  case True
  then show ?thesis by (intro none) (auto simp: executeSell_def)
next
  case False
  define f where "f = min 1 (max 0 fraction)"
  have f: "\<not> f \<le> 0" "f = min 1 fraction" using False by (auto simp: f_def)
  have fail: "recordSellFailure c now reason e t = (failed_row c e t, snd (recordSellFailure c now reason e t))"
    "snd (recordSellFailure c now reason e t) \<noteq> []" for e
    using recordSellFailure_row(1) [of c now reason e t] by (simp_all add: prod_eq_iff recordSellFailure_def Let_def)
  show ?thesis
  proof (cases "sell_request c w t f (u * m * f)")
    case (Inl e)
    then have "executeSell c w now reason fraction m u t = recordSellFailure c now reason e t"
      using f(1) by (simp add: executeSell_def flip: f_def)
    with fail False show ?thesis by (intro failed [of e]) (auto simp: recordSellFailure_row)
  next
    case (Inr req)
    show ?thesis
    proof (cases "wo_swap w req")
      case (Inl e)
      then have "executeSell c w now reason fraction m u t = recordSellFailure c now reason e t"
        using f(1) Inr by (simp add: executeSell_def flip: f_def)
      with fail False show ?thesis by (intro failed [of e]) (auto simp: recordSellFailure_row)
    next
      case (Inr res)
      obtain sid tx where res: "res = (sid, tx)" by (cases res) auto
      obtain t' ev where e: "executeSell c w now reason fraction m u t = (t', ev)" by force
      show ?thesis
        by (rule sale [OF _ e]; use e f \<open>sell_request c w t f (u * m * f) = Inr req\<close> Inr res False in
          \<open>auto simp: executeSell_def Let_def simp flip: f_def split: option.splits if_splits\<close>)
    qed
  qed
qed

lemma isFullExit_simps:
  assumes "ladder_ok (getTiers (tr_strategyId t))"
  shows "reason \<in> {''trailing_stop'', ''time_stop'', ''liquidity_drain'', ''momentum_reversal'', ''insider_dump'',
      ''thesis_break'', ''thesis_break_honeypot''} \<Longrightarrow> isFullExit reason t"
    and "i < 3 \<Longrightarrow> reason = ti_id (getTiers (tr_strategyId t) ! i) \<Longrightarrow>
      isFullExit reason t = ({..<3} \<subseteq> insert i (set (tr_tiersExecuted t)))"
proof -
  show "isFullExit reason t" if "reason \<in> {''trailing_stop'', ''time_stop'', ''liquidity_drain'', ''momentum_reversal'',
      ''insider_dump'', ''thesis_break'', ''thesis_break_honeypot''}"
  proof -
    have "reason \<in> set FULL_EXIT_REASONS \<or> starts_with ''thesis_break'' reason"
      using that by (elim insertE emptyE) (simp_all add: FULL_EXIT_REASONS_def starts_with_def)
    then show ?thesis unfolding isFullExit_def Let_def by blast
  qed
  assume i: "i < 3" "reason = ti_id (getTiers (tr_strategyId t) ! i)"
  have r: "reason \<in> {''tier_0'', ''tier_1'', ''tier_2''}"
    unfolding i(2) by (rule tier_ids [OF assms i(1)])
  have ft: "findTier reason (getTiers (tr_strategyId t)) = Some i"
    unfolding i(2) by (rule findTier_id [OF assms i(1)])
  have nr: "reason \<notin> set FULL_EXIT_REASONS" "\<not> starts_with ''thesis_break'' reason"
    using r by (auto simp: FULL_EXIT_REASONS_def starts_with_def)
  have "set [0 ..< length (getTiers (tr_strategyId t))] = {..<3}"
    by (simp add: ladder_length [OF assms] lessThan_atLeast0)
  then show "isFullExit reason t = ({..<3} \<subseteq> insert i (set (tr_tiersExecuted t)))"
    unfolding isFullExit_def Let_def ft using nr by (auto simp: subset_iff)
qed


subsection \<open>The position is never oversold\<close>

definition full_reasons :: "string set" where
  "full_reasons = {''trailing_stop'', ''time_stop'', ''liquidity_drain'', ''momentum_reversal'', ''insider_dump'',
     ''thesis_break'', ''thesis_break_honeypot''}"

text \<open>The sales the decision can ask for.\<close>

definition exit_action :: "trade \<Rightarrow> int \<Rightarrow> string \<Rightarrow> real \<Rightarrow> bool" where
  "exit_action t now reason fraction \<longleftrightarrow>
     reason \<in> full_reasons \<and> fraction = remainingPositionPct (tr_tiersExecuted t) (getTiers (tr_strategyId t)) / 100 \<and>
       (reason = ''time_stop'' \<longrightarrow> 72 * 3600 \<le> real_of_int (now - tr_createdAt t) / 1000)
   \<or> (\<exists>i < 3. i \<notin> set (tr_tiersExecuted t) \<and> {..<i} \<subseteq> set (tr_tiersExecuted t) \<and> reason = ti_id (getTiers (tr_strategyId t) ! i) \<and>
        fraction = ti_sellPct (getTiers (tr_strategyId t) ! i) / 100)
   \<or> reason = ''time_stop'' \<and> fraction = 1 / 2 \<and> 0 \<notin> set (tr_tiersExecuted t)"

text \<open>The holder watch only raises \<open>insider_dump\<close>.\<close>

definition watch_signals :: "exit_memory \<Rightarrow> bool" where
  "watch_signals mem \<longleftrightarrow> (\<forall>token s. em_signals mem token = Some s \<longrightarrow> fst s = ''insider_dump'')"

lemma due_tier_Some:
  assumes "due_tier m executed tiers = Some i"
  shows "i < length tiers" "i \<notin> set executed" "ti_mcapMultiple (tiers ! i) \<le> m"
  using assms by (auto simp: due_tier_def find_Some_iff)

lemma due_tier_first:
  assumes "ladder_ok tiers" "due_tier m executed tiers = Some i"
  shows "{..<i} \<subseteq> set executed"
proof
  fix j assume "j \<in> {..<i}"
  then have j: "j < i" by simp
  note i = due_tier_Some [OF assms(2)]
  have "\<not> (j \<notin> set executed \<and> m \<ge> ti_mcapMultiple (tiers ! j))"
    using assms(2) j by (auto simp: due_tier_def find_Some_iff)
  moreover have "map ti_mcapMultiple tiers ! j \<le> map ti_mcapMultiple tiers ! i"
    by (rule sorted_nth_mono) (use assms(1) j i(1) in \<open>auto simp: ladder_ok_def\<close>)
  ultimately show "j \<in> set executed" using i(1,3) j by auto
qed

lemma thesis_reason: "thesis_break c w t = Some r \<Longrightarrow> r \<in> {''thesis_break'', ''thesis_break_honeypot''}"
  by (auto simp: thesis_break_def Let_def split: option.splits prod.splits if_splits)

lemma consumed_reason: "watch_signals mem \<Longrightarrow> fst (consumeSignal token (em_signals mem)) = Some r \<Longrightarrow> r = ''insider_dump''"
  by (auto simp: consumeSignal_def watch_signals_def split: option.splits prod.splits)

text \<open>Reasoning about the chain of rules.\<close>

lemma rule_chain:
  assumes "(if A then Some a else if B then Some b else case T of Some i \<Rightarrow> Some (f i) | None \<Rightarrow>
      if C then Some c else if D then Some d else if E then Some e else if G then Some g else map_option h th) = Some x"
    and "A \<Longrightarrow> P a" "\<not> A \<Longrightarrow> B \<Longrightarrow> P b" "\<And>i. T = Some i \<Longrightarrow> P (f i)" "C \<Longrightarrow> P c" "D \<Longrightarrow> P d" "E \<Longrightarrow> P e" "\<not> E \<Longrightarrow> G \<Longrightarrow> P g"
      "\<And>r. th = Some r \<Longrightarrow> P (h r)"
  shows "P x"
  using assms by (auto split: if_splits option.splits)

lemma rule_chain_fires: "C \<Longrightarrow>
    (if A then Some a else if B then Some b else case T of Some i \<Rightarrow> Some (f i) | None \<Rightarrow>
      if C then Some c else if D then Some d else if E then Some e else if G then Some g else map_option h th) \<noteq> None"
  by (auto split: option.split)

definition tick_memory :: "exit_config \<Rightarrow> live_data \<Rightarrow> real \<Rightarrow> trade \<Rightarrow> exit_memory \<Rightarrow> exit_memory" where
  "tick_memory c live currentMcap t mem =
    mem\<lparr>em_mcapWindow := (em_mcapWindow mem)(tr_tokenOut t \<mapsto>
          pushWindow (case em_mcapWindow mem (tr_tokenOut t) of None \<Rightarrow> [] | Some x \<Rightarrow> x) currentMcap (ec_VOL_WINDOW_CAP c)),
        em_peakLiq := (em_peakLiq mem)(tr_tokenOut t \<mapsto>
          max (case em_peakLiq mem (tr_tokenOut t) of None \<Rightarrow> 0 | Some p \<Rightarrow> p)
              (case lv_liquidityUsd live of None \<Rightarrow> 0 | Some l \<Rightarrow> l))\<rparr>"

definition drained :: "exit_config \<Rightarrow> live_data \<Rightarrow> trade \<Rightarrow> exit_memory \<Rightarrow> bool" where
  "drained c live t mem \<longleftrightarrow>
    (let liqUsd = (case lv_liquidityUsd live of None \<Rightarrow> 0 | Some l \<Rightarrow> l)
     in liqUsd > 0 \<and> liquidityDrainTriggered liqUsd
       (max (case em_peakLiq mem (tr_tokenOut t) of None \<Rightarrow> 0 | Some p \<Rightarrow> p) liqUsd) (ec_sig c))"

definition trail_hit :: "exit_config \<Rightarrow> live_data \<Rightarrow> real \<Rightarrow> real \<Rightarrow> trade \<Rightarrow> exit_memory \<Rightarrow> bool" where
  "trail_hit c live currentMcap highestMcap t mem \<longleftrightarrow> currentMcap \<le> highestMcap *
     (1 - trailing_pct c (tr_tiersExecuted t) (getTiers (tr_strategyId t))
        (pushWindow (case em_mcapWindow mem (tr_tokenOut t) of None \<Rightarrow> [] | Some x \<Rightarrow> x) currentMcap (ec_VOL_WINDOW_CAP c))
        (case lv_liquidityUsd live of None \<Rightarrow> 0 | Some l \<Rightarrow> l) currentMcap / 100)"

text \<open>The decision as the chain of its rules.\<close>

lemma decision_chain:
  fixes c w now live currentMcap entryMcap highestMcap t mem
  defines "m \<equiv> tick_memory c live currentMcap t mem" and "ratio \<equiv> currentMcap / entryMcap"
    and "tiers \<equiv> getTiers (tr_strategyId t)" and "executed \<equiv> tr_tiersExecuted t"
  defines "remaining \<equiv> remainingPositionPct executed tiers / 100"
    and "dump \<equiv> fst (consumeSignal (tr_tokenOut t) (em_signals mem))"
    and "age \<equiv> real_of_int (now - tr_createdAt t) / 1000"
    and "move \<equiv> (highestMcap - entryMcap) / entryMcap"
  shows "fst (exit_decision c w now live currentMcap entryMcap highestMcap t mem) =
    (if drained c live t mem then Some (''liquidity_drain'', remaining)
     else if dump \<noteq> None \<and> dump \<noteq> Some '''' then Some (the dump, remaining)
     else case due_tier ratio executed tiers of Some i \<Rightarrow> Some (ti_id (tiers ! i), ti_sellPct (tiers ! i) / 100) | None \<Rightarrow>
     if ratio > 1 \<and> highestMcap > 0 \<and> trail_hit c live currentMcap highestMcap t mem then Some (''trailing_stop'', remaining)
     else if momentumReversal (lv_priceChange5m live) (ratio > 1) (ec_sig c) then Some (''momentum_reversal'', remaining)
     else if age \<ge> 72 * 3600 \<and> move < ec_TIME_STOP_MOVE c then Some (''time_stop'', remaining)
     else if age \<ge> 48 * 3600 \<and> 0 \<notin> set executed \<and> move < ec_TIME_STOP_MOVE c then Some (''time_stop'', 1 / 2)
     else map_option (\<lambda>reason. (reason, remaining)) (thesis_break c w t))"
    and "snd (exit_decision c w now live currentMcap entryMcap highestMcap t mem) =
      (if drained c live t mem then m else m\<lparr>em_signals := snd (consumeSignal (tr_tokenOut t) (em_signals mem))\<rparr>)"
proof -
  have s: "em_signals (mem\<lparr>em_mcapWindow := x, em_peakLiq := y\<rparr>) = em_signals mem" for x y by simp
  have half: "(50 :: real) / 100 = 1 / 2" by simp
  show "fst (exit_decision c w now live currentMcap entryMcap highestMcap t mem) =
    (if drained c live t mem then Some (''liquidity_drain'', remaining)
     else if dump \<noteq> None \<and> dump \<noteq> Some '''' then Some (the dump, remaining)
     else case due_tier ratio executed tiers of Some i \<Rightarrow> Some (ti_id (tiers ! i), ti_sellPct (tiers ! i) / 100) | None \<Rightarrow>
     if ratio > 1 \<and> highestMcap > 0 \<and> trail_hit c live currentMcap highestMcap t mem then Some (''trailing_stop'', remaining)
     else if momentumReversal (lv_priceChange5m live) (ratio > 1) (ec_sig c) then Some (''momentum_reversal'', remaining)
     else if age \<ge> 72 * 3600 \<and> move < ec_TIME_STOP_MOVE c then Some (''time_stop'', remaining)
     else if age \<ge> 48 * 3600 \<and> 0 \<notin> set executed \<and> move < ec_TIME_STOP_MOVE c then Some (''time_stop'', 1 / 2)
     else map_option (\<lambda>reason. (reason, remaining)) (thesis_break c w t))"
    unfolding exit_decision_def drained_def trail_hit_def ratio_def tiers_def executed_def remaining_def dump_def age_def move_def
      TIME_STOP_48H_SELL_PCT_def Let_def split_beta if_distrib [of fst] fst_conv s half
    by (rule refl)
  show "snd (exit_decision c w now live currentMcap entryMcap highestMcap t mem) =
      (if drained c live t mem then m else m\<lparr>em_signals := snd (consumeSignal (tr_tokenOut t) (em_signals mem))\<rparr>)"
    unfolding exit_decision_def drained_def m_def tick_memory_def Let_def split_beta if_distrib [of snd] snd_conv s
    by simp
qed

lemma decision_action:
  assumes "watch_signals mem"
    and "fst (exit_decision c w now live cur entry high t mem) = Some (reason, fraction)"
  shows "exit_action t now reason fraction"
proof -
  have "(\<lambda>(reason, fraction). exit_action t now reason fraction) (reason, fraction)"
  proof (rule rule_chain [OF assms(2) [unfolded decision_chain(1)]])
    assume "fst (consumeSignal (tr_tokenOut t) (em_signals mem)) \<noteq> None \<and> fst (consumeSignal (tr_tokenOut t) (em_signals mem)) \<noteq> Some ''''"
    then have "the (fst (consumeSignal (tr_tokenOut t) (em_signals mem))) = ''insider_dump''"
      using consumed_reason [OF assms(1)] by auto
    from this show "case (the (fst (consumeSignal (tr_tokenOut t) (em_signals mem))),
        remainingPositionPct (tr_tiersExecuted t) (getTiers (tr_strategyId t)) / 100) of (r, f) \<Rightarrow> exit_action t now r f"
      by (simp add: exit_action_def full_reasons_def)
  next
    fix i assume "due_tier (cur / entry) (tr_tiersExecuted t) (getTiers (tr_strategyId t)) = Some i"
    from due_tier_Some [OF this] due_tier_first [OF ladder this]
    have "i < 3" "i \<notin> set (tr_tiersExecuted t)" "{..<i} \<subseteq> set (tr_tiersExecuted t)"
      by (simp_all add: ladder_length [OF ladder])
    then show "case (ti_id (getTiers (tr_strategyId t) ! i), ti_sellPct (getTiers (tr_strategyId t) ! i) / 100) of
        (r, f) \<Rightarrow> exit_action t now r f"
      unfolding exit_action_def by auto
  next
    fix r assume "thesis_break c w t = Some r"
    from thesis_reason [OF this]
    show "case (r, remainingPositionPct (tr_tiersExecuted t) (getTiers (tr_strategyId t)) / 100) of (r, f) \<Rightarrow> exit_action t now r f"
      unfolding exit_action_def full_reasons_def by auto
  qed (simp_all add: exit_action_def full_reasons_def)
  then show ?thesis by simp
qed


definition same_row :: "trade \<Rightarrow> trade \<Rightarrow> bool" where
  "same_row t t0 \<longleftrightarrow> tr_tiersExecuted t0 = tr_tiersExecuted t \<and> tr_exitAt t0 = tr_exitAt t \<and>
     tr_exitReason t0 = tr_exitReason t \<and> tr_strategyId t0 = tr_strategyId t \<and> tr_sellStuck t0 = tr_sellStuck t \<and>
     tr_createdAt t0 = tr_createdAt t \<and> tr_sellAttempts t0 = tr_sellAttempts t"

lemma evaluate_cases:
  assumes "watch_signals mem"
  obtains (idle) t0 mem' where "evaluateTrade c w now t mem = (t0, mem', [])" "same_row t t0"
  | (act) t0 mem' reason fraction m u where
      "evaluateTrade c w now t mem = (fst (executeSell c w now reason fraction m u t0), mem',
         snd (executeSell c w now reason fraction m u t0))"
      "same_row t t0" "exit_action t0 now reason fraction"
proof -
  note ev = evaluateTrade_def [of c w now t mem]
  show ?thesis
  proof (cases "\<exists>live cur entry. wo_getLive w (tr_tokenOut t) = Some live \<and> lv_marketCapUsd live = Some cur \<and> \<not> cur \<le> 0
      \<and> entry_mcap w t = Some entry")
    case False
    then have "evaluateTrade c w now t mem = (t, mem, [])"
      unfolding ev by (auto split: option.split)
    then show ?thesis by (intro idle [of t mem]) (simp_all add: same_row_def)
  next
    case True
    then obtain live cur entry where h: "wo_getLive w (tr_tokenOut t) = Some live" "lv_marketCapUsd live = Some cur"
      "\<not> cur \<le> 0" "entry_mcap w t = Some entry" by blast
    define high where "high = max (case tr_highestMcapSeen t of None \<Rightarrow> entry | Some h \<Rightarrow> h) cur"
    define t0 where "t0 = (let t = t\<lparr>tr_entryMcapUsd := Some entry, tr_highestMcapSeen := Some high\<rparr>
      in if \<bar>cur - entry\<bar> / entry \<ge> 10 / 100 then t\<lparr>tr_lastSignificantMoveAt := Some now\<rparr> else t)"
    have row: "same_row t t0" by (auto simp: same_row_def t0_def Let_def)
    have e: "evaluateTrade c w now t mem = decide_and_sell c w now live cur entry high t0 mem"
      unfolding ev t0_def high_def by (simp add: h Let_def)
    obtain d mem' where d: "exit_decision c w now live cur entry high t0 mem = (d, mem')" by force
    show ?thesis
    proof (cases d)
      case None
      with e d row show ?thesis by (intro idle [of t0 mem']) (simp_all add: decide_and_sell_def)
    next
      case (Some rf)
      obtain reason fraction where rf: "rf = (reason, fraction)" by (cases rf) auto
      have "exit_action t0 now reason fraction"
        using d Some rf by (intro decision_action [OF assms, of c w now live cur entry high t0]) simp
      with e d Some rf row show ?thesis
        by (intro act [of reason fraction "cur / entry" "case tr_priceUsd t0 of None \<Rightarrow> 0 | Some p \<Rightarrow> p" t0 mem'])
          (simp_all add: decide_and_sell_def split_beta)
    qed
  qed
qed

text \<open>The books of a row: how much of the position was sold.\<close>

definition row_ok :: "trade \<Rightarrow> real \<Rightarrow> bool" where
  "row_ok t s \<longleftrightarrow> (if tr_exitAt t = None
     then length (tr_tiersExecuted t) < 3 \<and> tr_tiersExecuted t = [0 ..< length (tr_tiersExecuted t)] \<and>
       tr_exitReason t = None \<and>
       s = pct_of (getTiers (tr_strategyId t)) (tr_tiersExecuted t) / 100
     else 0 \<le> s \<and> s \<le> 1 \<and> (tr_exitReason t \<noteq> Some ''time_stop'' \<longrightarrow> s = 1))"

lemma prefix_set: "xs = [0 ..< length xs] \<Longrightarrow> length xs < 3 \<Longrightarrow> set xs \<subset> {..<3} \<and> distinct xs"
proof -
  assume h: "xs = [0 ..< length xs]" "length xs < 3"
  have "set xs = {..<length xs}" by (subst h(1)) (simp add: lessThan_atLeast0)
  moreover have "distinct xs" by (subst h(1)) simp
  moreover have "{..<length xs} \<subset> {..<3}" using h(2) by auto
  ultimately show ?thesis by simp
qed

lemma row_ok_bounds: assumes "row_ok t s" shows "0 \<le> s \<and> s \<le> 1"
proof (cases "tr_exitAt t = None")
  case True
  then have "set (tr_tiersExecuted t) \<subseteq> {..<3}" "distinct (tr_tiersExecuted t)"
    "s = pct_of (getTiers (tr_strategyId t)) (tr_tiersExecuted t) / 100"
    using assms prefix_set [of "tr_tiersExecuted t"] by (auto simp: row_ok_def)
  with remaining_eq(2,3) [OF ladder this(1,2), of "tr_strategyId t"] show ?thesis by simp
qed (use assms in \<open>simp add: row_ok_def\<close>)

lemma row_ok_same: "same_row t t0 \<Longrightarrow> row_ok t0 s = row_ok t s"
  by (simp add: same_row_def row_ok_def)

lemma row_ok_failed: "row_ok (failed_row c e t) s = row_ok t s"
  by (simp add: row_ok_def failed_row_def)

lemma sell_row_ok:
  assumes ok: "row_ok t s" and op: "tr_exitAt t = None" and act: "exit_action t now reason fraction"
    and r: "executeSell c w now reason fraction m u t = (t', ev)"
  shows "row_ok t' (s + sold ev)"
proof -
  define ts where "ts = getTiers (tr_strategyId t)"
  define ex where "ex = tr_tiersExecuted t"
  have lad: "ladder_ok ts" by (simp add: ts_def ladder)
  have pre: "ex = [0 ..< length ex]" "length ex < 3" and s: "s = pct_of ts ex / 100" and nr: "tr_exitReason t = None"
    using ok op by (simp_all add: row_ok_def ts_def ex_def)
  have ex: "set ex \<subset> {..<3}" "distinct ex" using prefix_set [OF pre] by auto
  have rem: "remainingPositionPct ex ts = 100 - pct_of ts ex" "0 \<le> pct_of ts ex" "pct_of ts ex \<le> 100"
    "pct_of ts ex \<noteq> 100"
    using remaining_eq [OF lad _ ex(2)] ex(1) by auto
  from r show ?thesis
  proof (cases rule: executeSell_cases [of fraction c w now reason m u t])
    case none
    with r ok show ?thesis by simp
  next
    case (failed error ev')
    with r ok show ?thesis by (auto simp: row_ok_failed)
  next
    case (sale t2 ev2)
    with r have eq: "t2 = t'" "ev2 = ev" by simp_all
    note sale = sale [unfolded eq]
    consider (full) "reason \<in> full_reasons" "fraction = (100 - pct_of ts ex) / 100"
      | (tier) i where "i < 3" "i \<notin> set ex" "{..<i} \<subseteq> set ex" "reason = ti_id (ts ! i)" "fraction = ti_sellPct (ts ! i) / 100"
      | (half) "reason = ''time_stop''" "fraction = 1 / 2" "0 \<notin> set ex"
      using act rem(1) by (auto simp: exit_action_def ts_def ex_def)
    then show ?thesis
    proof cases
      case full
      have "isFullExit reason t"
        by (rule isFullExit_simps(1)) (use lad full in \<open>simp_all add: ts_def full_reasons_def\<close>)
      moreover have "min 1 fraction = 1 - s" using full rem(2,3) by (simp add: s field_simps)
      ultimately show ?thesis using sale rem by (simp add: row_ok_def s)
    next
      case half
      have "isFullExit reason t"
        by (rule isFullExit_simps(1)) (use lad half in \<open>simp_all add: ts_def\<close>)
      moreover have "ex = []" using half(3) pre by (metis gr_zeroI atLeastLessThan_upt atLeastLessThan_iff le0 length_0_conv)
      then have "s = 0" by (simp add: s pct_of_def)
      ultimately show ?thesis using sale half by (simp add: row_ok_def)
    next
      case (tier i)
      have ft: "findTier reason (getTiers (tr_strategyId t)) = Some i"
        using findTier_id [OF lad tier(1)] tier(4) by (simp add: ts_def)
      have full: "isFullExit reason t = ({..<3} \<subseteq> insert i (set ex))"
        unfolding ex_def by (rule isFullExit_simps(2)) (use lad tier in \<open>simp_all add: ts_def\<close>)
      have ex': "set (ex @ [i]) \<subseteq> {..<3}" "distinct (ex @ [i])" using ex tier by auto
      have pct: "pct_of ts (ex @ [i]) = pct_of ts ex + ti_sellPct (ts ! i)" by (simp add: pct_of_def)
      have "ti_sellPct (ts ! i) \<le> 100" using remaining_eq(3) [OF lad ex'] rem(2) pct by simp
      then have sold: "s + sold ev = pct_of ts (ex @ [i]) / 100" using sale(3) tier(5) by (simp add: s pct add_divide_distrib)
      show ?thesis
      proof (cases "isFullExit reason t")
        case True
        then have "set (ex @ [i]) = {..<3}" using full ex' by auto
        then have "pct_of ts (ex @ [i]) = 100" using remaining_eq(4) [OF lad ex'] by simp
        with True sale sold show ?thesis by (simp add: row_ok_def)
      next
        case False
        then have "set (ex @ [i]) \<noteq> {..<3}" using full by auto
        have sx: "set ex = {..<length ex}" by (subst pre(1)) (simp add: lessThan_atLeast0)
        have i: "i = length ex"
        proof (rule antisym)
          show "i \<le> length ex" using tier(3) sx by (auto simp: subset_iff not_le [symmetric])
          show "length ex \<le> i" using tier(2) sx by (auto simp: not_le [symmetric])
        qed
        have pre': "ex @ [i] = [0 ..< length (ex @ [i])]" using pre(1) i by simp
        have "length (ex @ [i]) < 3"
        proof (rule ccontr)
          assume "\<not> length (ex @ [i]) < 3"
          then have "length (ex @ [i]) = 3" using pre(2) by simp
          then have "set (ex @ [i]) = {..<3}" by (subst pre') (simp add: lessThan_atLeast0)
          with \<open>set (ex @ [i]) \<noteq> {..<3}\<close> show False by simp
        qed
        with False sale sold op nr pre' ft show ?thesis
          by (simp add: row_ok_def ts_def ex_def)
      qed
    qed
  qed
qed


lemma evaluate_row_ok:
  assumes "row_ok t s" "tr_exitAt t = None" "watch_signals mem" "evaluateTrade c w now t mem = (t', mem', ev)"
  shows "row_ok t' (s + sold ev)"
proof (cases rule: evaluate_cases [OF assms(3), of c w now t])
  case (1 t0 m0)
  then show ?thesis using assms by (auto simp: row_ok_same)
next
  case (2 t0 m0 reason fraction m u)
  have "row_ok t0 s" using 2(2) assms(1) by (simp add: row_ok_same)
  moreover have "tr_exitAt t0 = None" using 2(2) assms(2) by (simp add: same_row_def)
  moreover have "executeSell c w now reason fraction m u t0 = (t', ev)" using 2(1) assms(4) by (simp add: prod_eq_iff)
  ultimately show ?thesis using 2(3) by (intro sell_row_ok)
qed

text \<open>The life of a row: the ticks at which it is evaluated, each with its own world, clock and memory.\<close>

fun row_history ::
    "exit_config \<Rightarrow> (exit_world \<times> int \<times> exit_memory) list \<Rightarrow> trade \<times> real \<Rightarrow> trade \<times> real" where
  "row_history c [] ts = ts"
| "row_history c ((w, now, mem) # ticks) (t, s) = (if open_trade c t
     then (case evaluateTrade c w now t mem of (t', _, ev) \<Rightarrow> row_history c ticks (t', s + sold ev))
     else row_history c ticks (t, s))"

lemma history_ok:
  "row_ok t s \<Longrightarrow> \<forall>(w, now, mem) \<in> set ticks. watch_signals mem \<Longrightarrow>
   row_history c ticks (t, s) = (t', s') \<Longrightarrow> row_ok t' s'"
proof (induction c ticks "(t, s)" arbitrary: t s rule: row_history.induct)
  case (2 c w now mem ticks t s)
  show ?case
  proof (cases "open_trade c t")
    case True
    obtain t1 m1 ev where e: "evaluateTrade c w now t mem = (t1, m1, ev)" by (cases "evaluateTrade c w now t mem") auto
    have "row_ok t1 (s + sold ev)"
      by (rule evaluate_row_ok [OF 2(3) _ _ e]) (use True 2(4) in \<open>auto simp: open_trade_def\<close>)
    with 2 True e show ?thesis by auto
  next
    case False
    with 2 show ?thesis by auto
  qed
qed auto

text \<open>C3: The exit engine never sells more of a position than was bought, whatever the
  market, the database and the swaps do at any tick of its life: the confirmed sales add up to at most
  the whole; while the row is open they are exactly the percentages of the tiers it records, which
  fired in order; and a row closed for any reason but \<open>time_stop\<close> is sold out.\<close>

theorem ee_never_oversells:
  assumes "tr_tiersExecuted t = []" "tr_exitAt t = None" "tr_exitReason t = None"
    and "\<forall>(w, now, mem) \<in> set ticks. watch_signals mem"
    and "row_history c ticks (t, 0) = (t', s)"
  shows "0 \<le> s \<and> s \<le> 1 \<and>
    (tr_exitAt t' = None \<longrightarrow> (\<exists>k < 3. tr_tiersExecuted t' = [0 ..< k]) \<and>
       s = (\<Sum>i\<leftarrow>tr_tiersExecuted t'. ti_sellPct (getTiers (tr_strategyId t') ! i)) / 100) \<and>
    (tr_exitAt t' \<noteq> None \<and> tr_exitReason t' \<noteq> Some ''time_stop'' \<longrightarrow> s = 1)"
proof -
  have "row_ok t 0" using assms(1-3) by (simp add: row_ok_def pct_of_def)
  then have "row_ok t' s" using assms(4,5) by (rule history_ok)
  then show ?thesis
    using row_ok_bounds [of t' s] by (auto simp: row_ok_def pct_of_def split: if_splits)
qed

subsection \<open>The time stop\<close>

lemma sell_closes:
  assumes r: "executeSell c w now reason fraction m u t = (t', ev)"
    and op: "tr_exitAt t = None" "tr_exitReason t = None" and ex: "tr_exitReason t' = Some x"
  shows "x = reason \<and> sold ev = min 1 fraction \<and> tr_exitAt t' = Some now"
  using r op ex
  by (cases rule: executeSell_cases [of fraction c w now reason m u t])
    (auto simp: failed_row_def split: if_splits)

text \<open>C31: The 48 hour time stop asks for half of the position and closes the whole row: if an
  evaluation closes an open row for \<open>time_stop\<close> before its 72nd hour, one half was sold, the row is
  marked as exited, and no later tick looks at it again, so the other half stays in the wallet.\<close>

theorem ee_half_exit:
  assumes "tr_exitAt t = None" "tr_exitReason t = None" "watch_signals mem"
    and "now - tr_createdAt t < 72 * 3600 * 1000"
    and "evaluateTrade c w now t mem = (t', mem', ev)" and "tr_exitReason t' = Some ''time_stop''"
  shows "sold ev = 1 / 2 \<and> tr_exitAt t' = Some now \<and> \<not> open_trade c t'"
proof (cases rule: evaluate_cases [OF assms(3), of c w now t])
  case (1 t0 m0)
  then show ?thesis using assms by (simp add: same_row_def)
next
  case (2 t0 m0 reason fraction m u)
  have r: "executeSell c w now reason fraction m u t0 = (t', ev)" using 2(1) assms(5) by (simp add: prod_eq_iff)
  have c: "''time_stop'' = reason \<and> sold ev = min 1 fraction \<and> tr_exitAt t' = Some now"
    by (rule sell_closes [OF r]) (use 2(2) assms in \<open>simp_all add: same_row_def\<close>)
  have "\<not> 72 * 3600 \<le> real_of_int (now - tr_createdAt t0) / 1000"
    using assms(4) 2(2) by (simp add: same_row_def field_simps)
  moreover have "reason \<noteq> ti_id (getTiers k ! i)" if "i < 3" for i k
    using tier_ids [OF ladder that, of k] c by auto
  ultimately have "fraction = 1 / 2" using 2(3) c by (auto simp: exit_action_def)
  with c show ?thesis by (simp add: open_trade_def)
qed

definition flat_trade :: trade where
  "flat_trade = \<lparr>tr_id = ''t'', tr_userId = ''u'', tr_chain = ''SOLANA'', tr_side = ''buy'', tr_mode = ''PAPER'',
     tr_tokenOut = ''m'', tr_amountOut = Some 1000, tr_priceUsd = Some 100, tr_createdAt = 0, tr_strategyId = None,
     tr_entryMcapUsd = Some 100, tr_highestMcapSeen = None, tr_lastSignificantMoveAt = None, tr_tiersExecuted = [],
     tr_exitReason = None, tr_exitAt = None, tr_realizedPnl = None, tr_pnlUsd = None, tr_holdDurationSec = None,
     tr_realizedProceedsUsd = None, tr_sellAttempts = 0, tr_lastSellError = None, tr_sellStuck = False\<rparr>"

definition flat_world :: "real \<Rightarrow> (swap_request \<Rightarrow> string + string \<times> string option) \<Rightarrow> exit_world" where
  "flat_world cur swap = \<lparr>wo_getLive = (\<lambda>_. Some \<lparr>lv_marketCapUsd = Some cur, lv_priceUsd = None,
       lv_liquidityUsd = Some 50, lv_priceChange5m = None\<rparr>),
     wo_snapshotMcap = (\<lambda>_. None), wo_verdictMcap = (\<lambda>_ _. None), wo_latestVerdict = (\<lambda>_. None),
     wo_entryScore = (\<lambda>_ _. None), wo_wallet = (\<lambda>_ _. Some ''w''), wo_swap = swap\<rparr>"

definition no_memory :: exit_memory where
  "no_memory = \<lparr>em_mcapWindow = Map.empty, em_peakLiq = Map.empty, em_signals = Map.empty\<rparr>"

lemmas flat_defs = flat_trade_def flat_world_def no_memory_def


text \<open>A position that has not moved, evaluated at a market cap of 101 against an entry of 100.\<close>

lemma flat_tiers: "getTiers None = default_tiers"
  by (simp add: getTiers_def PROFILE_TIERS_def)

lemma flat_due: "r < 2 \<Longrightarrow> due_tier r ex default_tiers = None"
  by (auto simp: due_tier_def find_None_iff default_tiers_def tier_of_def less_Suc_eq nth_Cons')

lemma flat_decision:
  assumes "t = flat_trade\<lparr>tr_entryMcapUsd := Some 100, tr_highestMcapSeen := Some 101, tr_sellAttempts := n\<rparr>"
    and "fst (consumeSignal ''m'' (em_signals mem)) = d" and "em_peakLiq mem = Map.empty"
  shows "fst (exit_decision default_exit_config (flat_world 101 swap) now
      \<lparr>lv_marketCapUsd = Some 101, lv_priceUsd = None, lv_liquidityUsd = Some 50, lv_priceChange5m = None\<rparr> 101 100 101 t mem) =
    (if d \<noteq> None \<and> d \<noteq> Some '''' then Some (the d, 1)
     else if now \<ge> 259200000 then Some (''time_stop'', 1) else if now \<ge> 172800000 then Some (''time_stop'', 1 / 2) else None)"
proof -
  have nd: "\<not> drained default_exit_config \<lparr>lv_marketCapUsd = Some 101, lv_priceUsd = None, lv_liquidityUsd = Some 50,
      lv_priceChange5m = None\<rparr> t mem"
    using assms(1,3) by (simp add: drained_def liquidityDrainTriggered_def default_exit_config_def DEFAULT_EXIT_SIGNAL_CONFIG_def)
  have trail: "0 < trailing_pct default_exit_config [] default_tiers win 50 101" for win
    using trailing_bounds [of "ec_sig default_exit_config" "resolveTrailingStop [] default_tiers" "realizedVolatilityPct win"]
    by (auto simp: trailing_pct_def default_exit_config_def DEFAULT_EXIT_SIGNAL_CONFIG_def)
  have nt: "\<not> trail_hit default_exit_config \<lparr>lv_marketCapUsd = Some 101, lv_priceUsd = None, lv_liquidityUsd = Some 50,
      lv_priceChange5m = None\<rparr> 101 101 t mem"
    using assms(1) trail by (simp add: trail_hit_def flat_trade_def flat_tiers not_le algebra_simps)
  show ?thesis
    unfolding decision_chain(1)
    using assms(1,2) nd nt
    by (simp add: flat_trade_def flat_world_def flat_tiers flat_due momentumReversal_def default_exit_config_def
        thesis_break_def remainingPositionPct_def field_simps)
qed

lemma flat_evaluate:
  assumes "t = flat_trade\<lparr>tr_sellAttempts := n\<rparr>"
  shows "evaluateTrade default_exit_config (flat_world 101 swap) now t mem =
    decide_and_sell default_exit_config (flat_world 101 swap) now
      \<lparr>lv_marketCapUsd = Some 101, lv_priceUsd = None, lv_liquidityUsd = Some 50, lv_priceChange5m = None\<rparr> 101 100 101
      (t\<lparr>tr_entryMcapUsd := Some 100, tr_highestMcapSeen := Some 101\<rparr>) mem"
  using assms by (simp add: evaluateTrade_def flat_world_def flat_trade_def entry_mcap_def)

theorem ee_half_exit_witness:
  "(case evaluateTrade default_exit_config (flat_world 101 (\<lambda>_. Inr (''s'', None))) 172800000 flat_trade no_memory of
     (t', mem', ev) \<Rightarrow> tr_exitReason t' = Some ''time_stop'' \<and> sold ev = 1 / 2 \<and>
       \<not> open_trade default_exit_config t')"
proof -
  define t where "t = flat_trade\<lparr>tr_entryMcapUsd := Some 100, tr_highestMcapSeen := Some 101\<rparr>"
  define W where "W = flat_world 101 (\<lambda>_. Inr (''s'', None))"
  obtain t' mem' ev where e: "evaluateTrade default_exit_config W 172800000 flat_trade no_memory = (t', mem', ev)"
    by (metis prod_cases3)
  have n: "flat_trade = flat_trade\<lparr>tr_sellAttempts := 0\<rparr>" by (simp add: flat_trade_def)
  have d: "fst (exit_decision default_exit_config W 172800000 \<lparr>lv_marketCapUsd = Some 101, lv_priceUsd = None,
      lv_liquidityUsd = Some 50, lv_priceChange5m = None\<rparr> 101 100 101 t no_memory) = Some (''time_stop'', 1 / 2)"
    unfolding W_def by (subst flat_decision [of t 0 no_memory None])
      (simp_all add: t_def flat_trade_def no_memory_def consumeSignal_def)
  have full: "isFullExit ''time_stop'' t" by (rule isFullExit_simps(1) [OF ladder]) simp
  have "tr_exitReason (fst (executeSell default_exit_config W 172800000 ''time_stop'' (1 / 2) m u t)) = Some ''time_stop''" for m u
    using full by (simp add: executeSell_def sell_request_def W_def flat_world_def t_def flat_trade_def Let_def)
  moreover have "\<exists>m u. executeSell default_exit_config W 172800000 ''time_stop'' (1 / 2) m u t = (t', ev)"
    using e d unfolding W_def flat_evaluate [OF n] decide_and_sell_def
    by (auto simp: t_def split: prod.splits option.splits)
  ultimately have "tr_exitReason t' = Some ''time_stop''" by (metis fst_conv)
  moreover have "tr_exitAt flat_trade = None" "tr_exitReason flat_trade = None" "watch_signals no_memory"
    "172800000 - tr_createdAt flat_trade < 72 * 3600 * 1000"
    by (simp_all add: flat_defs watch_signals_def)
  ultimately show ?thesis
    using ee_half_exit [OF _ _ _ _ e] e by (simp add: W_def)
qed


subsection \<open>The danger signals\<close>

lemma exit_request_strategy: "sell_request c w t f n = Inr req \<Longrightarrow> sw_strategyId req = ''exit_engine''"
  by (auto simp: sell_request_def split: option.splits if_splits)

text \<open>When every swap the engine asks for fails, a sale only fails.\<close>

lemma executeSell_fails:
  assumes "\<And>req. sw_strategyId req = ''exit_engine'' \<Longrightarrow> isl (wo_swap w req)"
  obtains "fraction \<le> 0" "executeSell c w now reason fraction m u t = (t, [])"
  | f where "0 < fraction" "executeSell c w now reason fraction m u t = recordSellFailure c now reason f t"
proof (cases "fraction \<le> 0")
  case True
  then show ?thesis by (intro that(1)) (simp_all add: executeSell_def)
next
  case False
  then have pos: "0 < fraction" by simp
  show ?thesis
  proof (cases "sell_request c w t (min 1 (max 0 fraction)) (u * m * min 1 (max 0 fraction))")
    case (Inl f)
    with pos show ?thesis by (intro that(2) [of f]) (auto simp: executeSell_def Let_def)
  next
    case (Inr req)
    obtain f where "wo_swap w req = Inl f" using assms [OF exit_request_strategy [OF Inr]] by (auto simp: isl_def)
    with pos Inr show ?thesis by (intro that(2) [of f]) (auto simp: executeSell_def Let_def)
  qed
qed

text \<open>The whale dump signal of a token fires once for the whole engine, whether or not
  anything is sold: after an evaluation of a row with market data and without a liquidity drain the
  signal is gone, also when the swap fails. The row is then still open with one more attempt, and
  neither a later tick nor another row of the same token sees the signal.\<close>

theorem ee_signal_lost:
  assumes "wo_getLive w (tr_tokenOut t) = Some live" "lv_marketCapUsd live = Some cur" "0 < cur"
    and "tr_entryMcapUsd t = Some entry" "entry \<noteq> 0"
    and "em_signals mem (tr_tokenOut t) = Some (''insider_dump'', ts)" "\<not> drained c live t mem"
    and "\<And>req. isl (wo_swap w req)"
    and "evaluateTrade c w now t mem = (t', mem', ev)"
  shows "em_signals mem' (tr_tokenOut t) = None \<and> tr_exitAt t' = tr_exitAt t \<and> sold ev = 0 \<and>
    (row_ok t s \<and> tr_exitAt t = None \<longrightarrow> tr_sellAttempts t' = tr_sellAttempts t + 1)"
proof -
  define high where "high = max (case tr_highestMcapSeen t of None \<Rightarrow> entry | Some h \<Rightarrow> h) cur"
  define t0 where "t0 = (let t = t\<lparr>tr_entryMcapUsd := Some entry, tr_highestMcapSeen := Some high\<rparr>
      in if \<bar>cur - entry\<bar> / entry \<ge> 10 / 100 then t\<lparr>tr_lastSignificantMoveAt := Some now\<rparr> else t)"
  define remaining where "remaining = remainingPositionPct (tr_tiersExecuted t) (getTiers (tr_strategyId t)) / 100"
  have row: "same_row t t0" "tr_tokenOut t0 = tr_tokenOut t" by (auto simp: same_row_def t0_def Let_def)
  have nd: "\<not> drained c live t0 mem" using assms(7) by (simp add: drained_def row(2))
  have "evaluateTrade c w now t mem = decide_and_sell c w now live cur entry high t0 mem"
    using assms(1-5) by (simp add: evaluateTrade_def entry_mcap_def t0_def high_def Let_def)
  moreover have "exit_decision c w now live cur entry high t0 mem = (Some (''insider_dump'', remaining),
      (tick_memory c live cur t0 mem)\<lparr>em_signals := (em_signals mem)(tr_tokenOut t := None)\<rparr>)"
    using nd assms(6) row by (simp add: prod_eq_iff decision_chain consumeSignal_def same_row_def remaining_def)
  ultimately obtain m u where e: "executeSell c w now ''insider_dump'' remaining m u t0 = (t', ev)"
      "em_signals mem' (tr_tokenOut t) = None"
    using assms(9) by (auto simp: decide_and_sell_def split: prod.splits)
  have "0 < remaining" if "row_ok t s" "tr_exitAt t = None"
  proof -
    have "set (tr_tiersExecuted t) \<subset> {..<3}" "distinct (tr_tiersExecuted t)"
      using prefix_set [of "tr_tiersExecuted t"] that by (auto simp: row_ok_def)
    with remaining_eq [OF ladder [of "tr_strategyId t"] _ this(2)] show ?thesis
      unfolding remaining_def by (metis diff_gt_0_iff_gt divide_pos_pos less_le psubset_eq zero_less_numeral)
  qed
  note pos = this
  show ?thesis
  proof (rule executeSell_fails [of w remaining c now "''insider_dump''" m u t0])
    show "isl (wo_swap w req)" for req by (rule assms(8))
    assume "remaining \<le> 0" "executeSell c w now ''insider_dump'' remaining m u t0 = (t0, [])"
    with e row pos show ?thesis by (auto simp: same_row_def)
  next
    fix f assume "0 < remaining" "executeSell c w now ''insider_dump'' remaining m u t0 = recordSellFailure c now ''insider_dump'' f t0"
    then have "t' = failed_row c f t0" "sold ev = 0"
      using recordSellFailure_row [of c now "''insider_dump''" f t0] e(1) by (metis fst_conv, metis snd_conv)
    with e(2) row show ?thesis by (auto simp: same_row_def failed_row_def)
  qed
qed

text \<open>A row whose swaps all fail is never closed.\<close>

lemma evaluate_fails:
  assumes "\<And>req. sw_strategyId req = ''exit_engine'' \<Longrightarrow> isl (wo_swap w req)"
    and "watch_signals mem" "evaluateTrade c w now t mem = (t', mem', ev)"
  shows "tr_exitAt t' = tr_exitAt t \<and> tr_tiersExecuted t' = tr_tiersExecuted t \<and> sold ev = 0"
proof (cases rule: evaluate_cases [OF assms(2), of c w now t])
  case (1 t0 m0)
  then show ?thesis using assms(3) by (simp add: same_row_def)
next
  case (2 t0 m0 reason fraction m u)
  show ?thesis
  proof (rule executeSell_fails [of w fraction c now reason m u t0])
    show "isl (wo_swap w req)" if "sw_strategyId req = ''exit_engine''" for req by (rule assms(1) [OF that])
  next
    assume "executeSell c w now reason fraction m u t0 = (t0, [])"
    with 2 assms(3) show ?thesis by (auto simp: same_row_def)
  next
    fix f assume "executeSell c w now reason fraction m u t0 = recordSellFailure c now reason f t0"
    with 2 assms(3) have "t' = failed_row c f t0" "sold ev = 0"
      using recordSellFailure_row [of c now reason f t0] by simp_all
    with 2(2) show ?thesis by (simp add: same_row_def failed_row_def)
  qed
qed

lemma history_fails:
  "\<forall>(w, now, mem) \<in> set ticks. watch_signals mem \<and> (\<forall>req. sw_strategyId req = ''exit_engine'' \<longrightarrow> isl (wo_swap w req)) \<Longrightarrow>
   row_history c ticks (t, s) = (t', s') \<Longrightarrow> tr_exitAt t' = tr_exitAt t \<and> s' = s"
proof (induction c ticks "(t, s)" arbitrary: t s rule: row_history.induct)
  case (2 c w now mem ticks t s)
  show ?case
  proof (cases "open_trade c t")
    case True
    obtain t1 m1 ev where e: "evaluateTrade c w now t mem = (t1, m1, ev)" by (metis prod_cases3)
    have "tr_exitAt t1 = tr_exitAt t \<and> tr_tiersExecuted t1 = tr_tiersExecuted t \<and> sold ev = 0"
      by (rule evaluate_fails [OF _ _ e]) (use 2(3) in auto)
    with 2 True e show ?thesis by auto
  next
    case False
    with 2 show ?thesis by auto
  qed
qed auto

subsection \<open>The batch\<close>

lemma evaluate_row_id: "tr_id (fst (evaluateTrade c w now t mem)) = tr_id t"
proof -
  have x: "tr_id (fst (executeSell c w now r f m u t)) = tr_id t" for r f m u t
    by (auto simp: executeSell_def recordSellFailure_def Let_def split: sum.split)
  show ?thesis
    by (auto simp: evaluateTrade_def decide_and_sell_def Let_def split_beta x split: option.split)
qed

lemma evaluate_all_other: "tr_id r \<notin> tr_id ` set ts \<Longrightarrow> r \<in> set db \<Longrightarrow>
    r \<in> set (fst (evaluate_all c w now ts db mem out))"
proof (induction ts arbitrary: db mem out)
  case (Cons t ts)
  obtain t' mem' ev where e: "evaluateTrade c w now t mem = (t', mem', ev)" by (metis prod_cases3)
  have "tr_id t' = tr_id t" using evaluate_row_id [of c w now t mem] e by simp
  then have "r \<in> set (write_row t' db)" using Cons.prems by (force simp: write_row_def)
  with Cons e show ?case by simp
qed simp

text \<open>One tick looks at the fifty oldest open rows and at no other: a younger open position is
  left as it is, with no stop, whatever the market does, as long as fifty older ones stay open.\<close>

theorem ee_starves:
  assumes "distinct (map tr_id db)" "50 \<le> i" "i < length (filter (open_trade default_exit_config) db)"
  shows "filter (open_trade default_exit_config) db ! i \<in>
    set (fst (processOpenTrades default_exit_config w now db mem))"
proof -
  have batch: "ec_BATCH_SIZE default_exit_config = 50" by (simp add: default_exit_config_def)
  define os where "os = filter (open_trade default_exit_config) db"
  have d: "distinct (map tr_id os)" using assms(1) by (simp add: os_def distinct_map_filter)
  have i: "i < length os" using assms(3) by (simp add: os_def)
  have "tr_id (os ! i) \<notin> tr_id ` set (take 50 os)"
  proof
    assume "tr_id (os ! i) \<in> tr_id ` set (take 50 os)"
    then obtain j where j: "j < 50" "j < length os" "tr_id (os ! i) = tr_id (os ! j)"
      by (auto simp: in_set_conv_nth)
    then have "map tr_id os ! i = map tr_id os ! j" using i by simp
    then have "i = j" using nth_eq_iff_index_eq [OF d, of i j] i j(2) by simp
    with j(1) assms(2) show False by simp
  qed
  moreover have "os ! i \<in> set db" using nth_mem [OF i] by (simp add: os_def)
  ultimately show ?thesis
    using i by (auto simp: processOpenTrades_def Let_def batch simp flip: os_def intro: evaluate_all_other)
qed

definition many_trades :: "trade list" where
  "many_trades = map (\<lambda>k. flat_trade\<lparr>tr_id := replicate k CHR ''x''\<rparr>) [0 ..< 51]"

theorem ee_starves_witness:
  "many_trades ! 50 \<in> set (fst (processOpenTrades default_exit_config (flat_world 1 (\<lambda>_. Inr (''s'', None))) 0
     many_trades no_memory))"
proof -
  have f: "filter (open_trade default_exit_config) many_trades = many_trades"
    by (auto simp: many_trades_def filter_id_conv open_trade_def flat_trade_def)
  have "distinct (map tr_id many_trades)"
    by (auto simp: many_trades_def distinct_map inj_on_def o_def dest: arg_cong [where f = length])
  moreover have "length many_trades = 51" by (simp add: many_trades_def)
  ultimately show ?thesis
    using ee_starves [of many_trades 50 "flat_world 1 (\<lambda>_. Inr (''s'', None))" 0 no_memory] by (simp add: f)
qed


definition dump_memory :: exit_memory where
  "dump_memory = no_memory\<lparr>em_signals := [''m'' \<mapsto> (''insider_dump'', 0)]\<rparr>"

theorem ee_signal_lost_witness:
  "(case evaluateTrade default_exit_config (flat_world 101 (\<lambda>_. Inl ''rpc'')) 1 flat_trade dump_memory of
     (t', mem', ev) \<Rightarrow> em_signals mem' ''m'' = None \<and> tr_exitAt t' = None \<and> tr_sellAttempts t' = 1)"
proof -
  define live where "live = \<lparr>lv_marketCapUsd = Some 101, lv_priceUsd = None, lv_liquidityUsd = Some 50, lv_priceChange5m = None\<rparr>"
  obtain t' mem' ev where e: "evaluateTrade default_exit_config (flat_world 101 (\<lambda>_. Inl ''rpc'')) 1 flat_trade dump_memory
      = (t', mem', ev)" by (metis prod_cases3)
  have h: "wo_getLive (flat_world 101 (\<lambda>_. Inl ''rpc'')) (tr_tokenOut flat_trade) = Some live" "lv_marketCapUsd live = Some 101"
    "(0::real) < 101" "tr_entryMcapUsd flat_trade = Some 100" "(100::real) \<noteq> 0"
    "em_signals dump_memory (tr_tokenOut flat_trade) = Some (''insider_dump'', 0)"
    by (simp_all add: flat_defs live_def dump_memory_def)
  have "\<not> drained default_exit_config live flat_trade dump_memory"
    by (simp add: drained_def live_def dump_memory_def flat_defs liquidityDrainTriggered_def default_exit_config_def
        DEFAULT_EXIT_SIGNAL_CONFIG_def)
  moreover have "isl (wo_swap (flat_world 101 (\<lambda>_. Inl ''rpc'')) req)" for req by (simp add: flat_world_def)
  moreover have "row_ok flat_trade 0" by (simp add: row_ok_def flat_trade_def pct_of_def)
  moreover have "tr_exitAt flat_trade = None" "tr_sellAttempts flat_trade = 0" "tr_tokenOut flat_trade = ''m''"
    by (simp_all add: flat_trade_def)
  ultimately show ?thesis
    using ee_signal_lost [OF h _ _ e, of 0] by (simp add: e)
qed

theorem ee_never_oversells_witness:
  "(case row_history default_exit_config [(flat_world 101 (\<lambda>_. Inl ''rpc''), 0, no_memory)] (flat_trade, 0) of
     (t', s) \<Rightarrow> 0 \<le> s \<and> s \<le> 1)"
proof -
  obtain t' s where e: "row_history default_exit_config [(flat_world 101 (\<lambda>_. Inl ''rpc''), 0, no_memory)] (flat_trade, 0) = (t', s)"
    by force
  have "tr_tiersExecuted flat_trade = []" "tr_exitAt flat_trade = None" "tr_exitReason flat_trade = None"
    "\<forall>(w, now, mem) \<in> set [(flat_world 101 (\<lambda>_. Inl ''rpc''), 0::int, no_memory)]. watch_signals mem"
    by (simp_all add: flat_defs watch_signals_def)
  from ee_never_oversells [OF this e] show ?thesis unfolding e by simp
qed

subsection \<open>A collapse in profit is sold, a failed sale is retried\<close>

lemma executeSell_tries: "0 < fraction \<Longrightarrow> snd (executeSell c w now reason fraction m u t) \<noteq> []"
  by (cases rule: executeSell_cases [of fraction c w now reason m u t]) auto

lemma trailing_le_max: "minTrailingPct (ec_sig c) \<le> maxTrailingPct (ec_sig c) \<Longrightarrow>
    trailing_pct c ex tiers win liq cur \<le> maxTrailingPct (ec_sig c)"
  using trailing_bounds [of "ec_sig c" "resolveTrailingStop ex tiers" "realizedVolatilityPct win"]
  by (auto simp: trailing_pct_def)

lemma remaining_pos: "row_ok t s \<Longrightarrow> tr_exitAt t = None \<Longrightarrow>
    0 < remainingPositionPct (tr_tiersExecuted t) (getTiers (tr_strategyId t))"
proof -
  assume h: "row_ok t s" "tr_exitAt t = None"
  then have "set (tr_tiersExecuted t) \<subset> {..<3}" "distinct (tr_tiersExecuted t)"
    using prefix_set [of "tr_tiersExecuted t"] by (auto simp: row_ok_def)
  with remaining_eq [OF ladder [of "tr_strategyId t"] _ this(2)] show ?thesis
    by (metis diff_gt_0_iff_gt less_le psubset_eq)
qed



text \<open>C23: A sale that fails changes nothing but the retry fields: tiers, exit and proceeds keep their
  values, nothing is reported as sold, the next attempt asks for twice the slippage up to 2500 basis
  points, and the fifth failure in a row takes the row out of the loop for good.\<close>

theorem ee_retry:
  assumes "0 < fraction" "\<And>req. isl (wo_swap w req)"
    and "executeSell default_exit_config w now reason fraction m u t = (t', ev)"
  shows "(\<exists>e. t' = t\<lparr>tr_sellAttempts := tr_sellAttempts t + 1, tr_lastSellError := Some (take 500 e),
           tr_sellStuck := (5 \<le> tr_sellAttempts t + 1)\<rparr>) \<and>
    sold ev = 0 \<and>
    slippageForAttempt default_exit_config (tr_sellAttempts t') = min 2500 (300 * 2 ^ (tr_sellAttempts t + 1)) \<and>
    (5 \<le> tr_sellAttempts t' \<longrightarrow> \<not> open_trade default_exit_config t')"
proof -
  obtain f where "recordSellFailure default_exit_config now reason f t = (t', ev)"
  proof (rule executeSell_fails [of w fraction default_exit_config now reason m u t])
    show "isl (wo_swap w req)" for req by (rule assms(2))
  qed (use assms(1,3) in auto)
  then have t': "t' = failed_row default_exit_config f t" "sold ev = 0"
    using recordSellFailure_row [of default_exit_config now reason f t] by simp_all
  then show ?thesis
    by (auto simp: failed_row_def default_exit_config_def slippageForAttempt_def open_trade_def)
qed

theorem ee_retry_witness:
  "(case executeSell default_exit_config (flat_world 1 (\<lambda>_. Inl ''rpc'')) 0 ''tier_0'' (1 / 2) 2 100
      (flat_trade\<lparr>tr_sellAttempts := 4\<rparr>) of (t', ev) \<Rightarrow> \<not> open_trade default_exit_config t')"
proof -
  obtain t' ev where e: "executeSell default_exit_config (flat_world 1 (\<lambda>_. Inl ''rpc'')) 0 ''tier_0'' (1 / 2) 2 100
      (flat_trade\<lparr>tr_sellAttempts := 4\<rparr>) = (t', ev)" by force
  have "isl (wo_swap (flat_world 1 (\<lambda>_. Inl ''rpc'')) req)" for req by (simp add: flat_world_def)
  from ee_retry [OF _ this e] show ?thesis by (auto simp: e)
qed

end
