(* ===== verification/Execution.thy ===== *)
theory Execution
  imports Guardrails Live_Guard Exit_Engine
begin

text \<open>
  \<open>apps/api/src/execution/execution.service.ts\<close>: \<open>swap\<close>, the path of every trade, with the guardrails
  and the live trade guard as they are modelled, and the foreign key of the table of trades
  (\<open>prisma/migrations/20260424_strategy_attribution\<close>). The prices, verdicts, quotes, chains, the wash trade
  check and the risk engine are parameters in \<open>ex_world\<close>. An amount is the number its text denotes;
  \<open>None\<close> is the empty text.
\<close>

subsection \<open>Inputs and state\<close>

record swap_input =
  si_userId :: string
  si_walletId :: string
  si_chain :: string
  si_evmChainId :: "int option"
  si_tokenIn :: string
  si_tokenOut :: string
  si_amountIn :: "real option"
  si_notionalUsd :: real
  si_slippageBps :: real
  si_riskFlags :: "string list"
  si_orderId :: "string option"
  si_strategyId :: "string option"
  si_applyDynamicSizing :: bool

datatype trade_mode = LIVE | PAPER

datatype ex_error =
    BadRequest string
  | WashTradeBlocked
  | RiskBlocked "string list"
  | GuardrailBlocked tmpl
  | UserNotFound
  | LiveGuardBlocked lg_error
  | WalletNotFound
  | DexError string
  | ForeignKeyViolation string

record swap_result =
  sr_tradeId :: string
  sr_txHash :: "string option"
  sr_amountOut :: real
  sr_mode :: trade_mode

record trade_row =
  ro_id :: string
  ro_userId :: string
  ro_orderId :: "string option"
  ro_chain :: string
  ro_side :: trade_side
  ro_tokenIn :: string
  ro_tokenOut :: string
  ro_amountIn :: real
  ro_amountOut :: real
  ro_priceUsd :: real
  ro_mode :: trade_mode
  ro_txHash :: "string option"
  ro_strategyId :: "string option"

text \<open>What one attempt on Solana comes to: a confirmed transaction with its output, an error of the program
  that the code reads as slippage, another error, or no transaction in the answer of the aggregator.\<close>

datatype sol_outcome = SolConfirmed string real | SolSlippage string | SolFailed string | SolNoTransaction real

record ex_world =
  xw_solUsd :: real
  xw_verdict :: "string \<Rightarrow> unit + (real \<times> string list) option"
  xw_wash :: "swap_input \<Rightarrow> bool"
  xw_risk :: "swap_input \<Rightarrow> string list option"       \<comment> \<open>the block reasons, \<open>None\<close> when approved\<close>
  xw_used :: "string \<Rightarrow> real option"
  xw_paperMode :: "string \<Rightarrow> bool option"
  xw_live :: "string \<Rightarrow> nat"
  xw_wallet :: "string \<Rightarrow> string \<Rightarrow> string option"
  xw_solana :: "swap_input \<Rightarrow> nat \<Rightarrow> real \<Rightarrow> sol_outcome"
  xw_selfTransfer :: "swap_input \<Rightarrow> string + string"
  xw_evm :: "int \<Rightarrow> swap_input \<Rightarrow> string + string \<times> real option"
  xw_quote :: "swap_input \<Rightarrow> real option"
  xw_strategies :: "string set"
  xw_newId :: string
  xw_paperHash :: string

datatype ex_event =
    Audit string                      \<comment> \<open>an entry of the security audit log\<close>
  | UserAudit string                  \<comment> \<open>a row of \<open>auditLog\<close>\<close>
  | ComplianceRecord string
  | DnaRecord string
  | EmotionalCheck string
  | LearningJob string string

datatype order_status = OrderFilled "string option" | OrderFailed

record ex_state =
  es_guardrails :: gr_table
  es_liveGuard :: live_guard
  es_trades :: "trade_row list"
  es_paper :: "(string \<times> string) \<rightharpoonup> int"
  es_orders :: "string \<rightharpoonup> order_status"
  es_onchain :: "(swap_input \<times> string) list"       \<comment> \<open>the swaps that were executed, with their hash\<close>
  es_out :: "ex_event list"

definition emit :: "ex_event \<Rightarrow> ex_state \<Rightarrow> ex_state" where
  "emit e st = st\<lparr>es_out := es_out st @ [e]\<rparr>"

subsection \<open>Sizing\<close>

definition low_liquidity :: "string \<Rightarrow> bool" where
  "low_liquidity f = (let s = to_lower f in
     (\<exists>i \<in> set [0 ..< length s]. starts_with ''lowliquidity'' (drop i s) \<or> starts_with ''thinliq'' (drop i s) \<or>
        (starts_with ''low'' (drop i s) \<and> starts_with ''liquidity'' (drop (i + 4) s) \<and> s ! (i + 3) \<noteq> CHR 0x0A \<and> s ! (i + 3) \<noteq> CHR 0x0D) \<or>
        (starts_with ''thin'' (drop i s) \<and> starts_with ''liq'' (drop (i + 5) s) \<and> s ! (i + 4) \<noteq> CHR 0x0A \<and> s ! (i + 4) \<noteq> CHR 0x0D)))"

definition size_multiplier :: "(real \<times> string list) option \<Rightarrow> string list \<Rightarrow> real" where
  "size_multiplier verdict riskFlags =
    (let score = (case verdict of None \<Rightarrow> 0 | Some (s, _) \<Rightarrow> s);
         mult = (if score \<ge> 90 then 1 else if score \<ge> 80 then 7 / 10 else if score \<ge> 70 then 5 / 10 else 3 / 10);
         mult = (if ''HONEYPOT'' \<in> set riskFlags then mult * (5 / 10) else mult);
         mult = (if ''newToken'' \<in> set riskFlags \<or> ''NEW_TOKEN'' \<in> set riskFlags then mult * (7 / 10) else mult);
         factors = (case verdict of None \<Rightarrow> [] | Some (_, fs) \<Rightarrow> fs)
     in if \<exists>f \<in> set factors. low_liquidity f then mult * (7 / 10) else mult)"

definition computeDynamicSize :: "ex_world \<Rightarrow> string \<Rightarrow> real \<Rightarrow> string list \<Rightarrow> real" where
  "computeDynamicSize w token ceil riskFlags = (case xw_verdict w token of
     Inl _ \<Rightarrow> ceil
   | Inr verdict \<Rightarrow> let sized = ceil * size_multiplier verdict riskFlags; floor = ceil * (1 / 10)
       in max floor (min ceil sized))"

text \<open>The first part of \<open>swap\<close>: the amount is derived from the notional, then the notional is scaled. After
  the first step the amount is not empty, so the second does not derive it again.\<close>

definition sol_amount :: "ex_world \<Rightarrow> real \<Rightarrow> real" where
  "sol_amount w usd = of_int \<lfloor>usd / xw_solUsd w * 10 ^ 9 + 1 / 2\<rfloor>"

definition normalise_amount :: "ex_world \<Rightarrow> swap_input \<Rightarrow> ex_error + swap_input" where
  "normalise_amount w i =
    (if si_amountIn i = None \<and> si_notionalUsd i > 0
     then if si_chain i = ''SOLANA'' then Inr (i\<lparr>si_amountIn := Some (sol_amount w (si_notionalUsd i))\<rparr>)
          else Inl (BadRequest ''amountIn is required for EVM trades'')
     else if si_amountIn i = None then Inl (BadRequest ''amountIn must not be empty'') else Inr i)"

definition apply_sizing :: "ex_world \<Rightarrow> swap_input \<Rightarrow> swap_input" where
  "apply_sizing w i =
    (if si_applyDynamicSizing i \<and> si_notionalUsd i > 0
     then let originalNotional = si_notionalUsd i;
              i = i\<lparr>si_notionalUsd := computeDynamicSize w (si_tokenOut i) originalNotional (si_riskFlags i)\<rparr>
          in if si_notionalUsd i \<noteq> originalNotional \<and> si_chain i = ''SOLANA'' \<and> si_amountIn i = None
             then i\<lparr>si_amountIn := Some (sol_amount w (si_notionalUsd i))\<rparr> else i
     else i)"

subsection \<open>Clearing a trade\<close>

definition QUOTE_TOKENS :: "string list" where
  "QUOTE_TOKENS = [''So11111111111111111111111111111111111111112'', ''EPjFWdd5AufqSSqeM2qN1xzybapC8G4wEGGkZwyTDt1v'',
     ''Es9vMFrzaCERmJfrF4H2FYD4KCoNkY11McCe8BenwNYB'', ''0xc02aaa39b223fe8d0a0e5c4f27ead9083c756cc2'',
     ''0xa0b86991c6218b36c1d19d4a2e9eb0ce3606eb48'', ''0xdac17f958d2ee523a2206206994597c13d831ec7'']"

definition is_quote :: "string \<Rightarrow> bool" where
  "is_quote t = (t \<in> set QUOTE_TOKENS \<or> to_lower t \<in> set QUOTE_TOKENS)"

definition inferSwapSide :: "string \<Rightarrow> string \<Rightarrow> trade_side" where
  "inferSwapSide tokenIn tokenOut = (if is_quote tokenOut \<and> \<not> is_quote tokenIn then Sell else Buy)"

text \<open>From the audit entry to the live trade guard.\<close>

definition clear_swap :: "ex_world \<Rightarrow> int \<Rightarrow> swap_input \<Rightarrow> ex_state \<Rightarrow> ex_state \<times> (ex_error + trade_mode)" where
  "clear_swap w now i st =
    (let st = emit (Audit ''SWAP_INITIATED'') st
     in if xw_wash w i then (emit (Audit ''COMPLIANCE_WASH_TRADE_BLOCKED'') st, Inl WashTradeBlocked)
        else case xw_risk w i of Some reasons \<Rightarrow> (emit (Audit ''RISK_ENGINE_BLOCKED'') st, Inl (RiskBlocked reasons))
        | None \<Rightarrow>
          (case gr_check (xw_used w (si_userId i)) \<lparr>gi_userId = si_userId i, gi_tokenAddress = si_tokenOut i,
                gi_notionalUsd = si_notionalUsd i, gi_slippageBps = si_slippageBps i, gi_riskFlags = si_riskFlags i\<rparr>
              (es_guardrails st) of (decision, db) \<Rightarrow>
            let st = st\<lparr>es_guardrails := db\<rparr>
            in case decision of Some reason \<Rightarrow> (st, Inl (GuardrailBlocked reason))
               | None \<Rightarrow> (case xw_paperMode w (si_userId i) of None \<Rightarrow> (st, Inl UserNotFound)
                 | Some True \<Rightarrow> (st, Inr PAPER)
                 | Some False \<Rightarrow>
                    (case checkLiveSwap now (xw_live w) (si_userId i) (si_notionalUsd i)
                        (Some (inferSwapSide (si_tokenIn i) (si_tokenOut i))) (es_liveGuard st) of (g, r) \<Rightarrow>
                      let st = st\<lparr>es_liveGuard := g\<rparr>
                      in case r of Inl e \<Rightarrow> (st, Inl (LiveGuardBlocked e)) | Inr _ \<Rightarrow> (st, Inr LIVE)))))"

subsection \<open>Executing\<close>

definition MAX_SWAP_ATTEMPTS :: nat where "MAX_SWAP_ATTEMPTS = 3"
definition SWAP_SLIPPAGE_CEILING :: real where "SWAP_SLIPPAGE_CEILING = 10000"

definition attempt_slippage :: "real \<Rightarrow> nat \<Rightarrow> real" where
  "attempt_slippage base k = (if k = 0 then base else min SWAP_SLIPPAGE_CEILING (base * 2 ^ k))"

text \<open>The loop over the attempts; the first component lists the slippages of the transactions sent.\<close>

fun sol_loop :: "(nat \<Rightarrow> real \<Rightarrow> sol_outcome) \<Rightarrow> real \<Rightarrow> nat \<Rightarrow> nat \<Rightarrow> real list \<times> (string + string \<times> real)" where
  "sol_loop send base 0 k = ([], Inl ''Slippage exceeded'')"
| "sol_loop send base (Suc left) k = (let s = attempt_slippage base k in case send k s of
     SolConfirmed sig out \<Rightarrow> ([s], Inr (sig, out))
   | SolFailed msg \<Rightarrow> ([s], Inl msg)
   | SolNoTransaction _ \<Rightarrow> ([], Inl ''Slippage exceeded'')
   | SolSlippage _ \<Rightarrow> (case sol_loop send base left (k + 1) of (ss, r) \<Rightarrow> (s # ss, r)))"

definition executeSolana :: "ex_world \<Rightarrow> swap_input \<Rightarrow> ex_error + string \<times> real" where
  "executeSolana w i = (case xw_wallet w (si_userId i) (si_walletId i) of
     None \<Rightarrow> Inl WalletNotFound
   | Some _ \<Rightarrow> (case xw_solana w i 0 (si_slippageBps i) of
       SolNoTransaction out \<Rightarrow> (case xw_selfTransfer w i of Inl m \<Rightarrow> Inl (DexError m) | Inr sig \<Rightarrow> Inr (sig, out))
     | _ \<Rightarrow> (case snd (sol_loop (xw_solana w i) (si_slippageBps i) MAX_SWAP_ATTEMPTS 0) of
         Inl m \<Rightarrow> Inl (DexError m) | Inr r \<Rightarrow> Inr r)))"

definition resolveEvmChainId :: "swap_input \<Rightarrow> int" where
  "resolveEvmChainId i =
    (if si_evmChainId i \<noteq> None \<and> si_evmChainId i \<noteq> Some 0 then the (si_evmChainId i)
     else case List.find (starts_with ''chainId:'') (si_riskFlags i) of
         None \<Rightarrow> 1
       | Some hint \<Rightarrow> (case parseInt (second_part CHR '':'' hint) of None \<Rightarrow> 1 | Some n \<Rightarrow> n))"

definition executeEvm :: "ex_world \<Rightarrow> swap_input \<Rightarrow> ex_error + string \<times> real" where
  "executeEvm w i = (case xw_wallet w (si_userId i) (si_walletId i) of
     None \<Rightarrow> Inl WalletNotFound
   | Some _ \<Rightarrow> (case xw_evm w (resolveEvmChainId i) i of
       Inl m \<Rightarrow> Inl (DexError m)
     | Inr (hash, dstAmount) \<Rightarrow> Inr (hash, case dstAmount of Some d \<Rightarrow> d | None \<Rightarrow> the (si_amountIn i))))"

text \<open>The \<open>try\<close> block of \<open>swap\<close>; a live swap that returns was executed on chain.\<close>

definition run_swap :: "ex_world \<Rightarrow> trade_mode \<Rightarrow> swap_input \<Rightarrow> ex_state \<Rightarrow> ex_state \<times> (ex_error + string \<times> real)" where
  "run_swap w mode i st = (case mode of
     LIVE \<Rightarrow> (case (if si_chain i = ''SOLANA'' then executeSolana w i else executeEvm w i) of
         Inl e \<Rightarrow> (st, Inl e)
       | Inr (hash, out) \<Rightarrow> (st\<lparr>es_onchain := es_onchain st @ [(i, hash)]\<rparr>, Inr (hash, out)))
   | PAPER \<Rightarrow> (st, Inr (xw_paperHash w, case xw_quote w i of Some q \<Rightarrow> q | None \<Rightarrow> the (si_amountIn i))))"

definition set_order :: "string option \<Rightarrow> order_status \<Rightarrow> ex_state \<Rightarrow> ex_state" where
  "set_order oid s st = (case oid of None \<Rightarrow> st
     | Some i \<Rightarrow> if i = '''' then st else st\<lparr>es_orders := (es_orders st)(i \<mapsto> s)\<rparr>)"

definition swap_failed :: "swap_input \<Rightarrow> ex_state \<Rightarrow> ex_state" where
  "swap_failed i st = emit (Audit ''SWAP_FAILED'')
     (set_order (si_orderId i) OrderFailed (emit (UserAudit ''execution.swap.failed'') st))"

subsection \<open>Recording\<close>

text \<open>The upsert creates the row with the amount, the statement after it adds the amount.\<close>

definition updatePaperBalance :: "string \<Rightarrow> string \<Rightarrow> real \<Rightarrow> ex_state \<Rightarrow> ex_state" where
  "updatePaperBalance u token amount st =
    (if amount < 0 then st
     else let delta = \<lfloor>amount + 1 / 2\<rfloor>;
              upserted = (case es_paper st (u, token) of None \<Rightarrow> delta | Some old \<Rightarrow> old)
          in st\<lparr>es_paper := (es_paper st)((u, token) \<mapsto> upserted + delta)\<rparr>)"

definition trade_created :: "ex_world \<Rightarrow> trade_mode \<Rightarrow> swap_input \<Rightarrow> string \<Rightarrow> real \<Rightarrow> trade_row" where
  "trade_created w mode i hash out =
    \<lparr>ro_id = xw_newId w, ro_userId = si_userId i, ro_orderId = si_orderId i, ro_chain = si_chain i,
     ro_side = inferSwapSide (si_tokenIn i) (si_tokenOut i), ro_tokenIn = si_tokenIn i, ro_tokenOut = si_tokenOut i,
     ro_amountIn = the (si_amountIn i), ro_amountOut = out, ro_priceUsd = si_notionalUsd i, ro_mode = mode,
     ro_txHash = Some hash, ro_strategyId = (if si_strategyId i = Some '''' then None else si_strategyId i)\<rparr>"

definition finish_swap :: "trade_row \<Rightarrow> ex_state \<Rightarrow> ex_state" where
  "finish_swap row st =
    (let st = st\<lparr>es_trades := es_trades st @ [row]\<rparr>;
         st = (if ro_mode row = PAPER then updatePaperBalance (ro_userId row) (ro_tokenOut row) (ro_amountOut row) st else st);
         st = set_order (ro_orderId row) (OrderFilled (ro_txHash row)) st;
         st = emit (Audit ''SWAP_COMPLETED'') (emit (ComplianceRecord (ro_userId row)) st);
         st = (if ro_side row = Buy then emit (DnaRecord (ro_userId row)) st else st)
     in emit (UserAudit ''execution.swap'')
          (emit (LearningJob (ro_userId row) (ro_id row)) (emit (EmotionalCheck (ro_userId row)) st)))"

text \<open>The end of \<open>swap\<close>. The insert obeys the foreign key: a strategy the row names has to exist.\<close>

definition record_swap ::
    "ex_world \<Rightarrow> trade_mode \<Rightarrow> swap_input \<Rightarrow> string \<Rightarrow> real \<Rightarrow> ex_state \<Rightarrow> ex_state \<times> (ex_error + swap_result)" where
  "record_swap w mode i hash out st =
    (let st = (if mode = LIVE then st\<lparr>es_liveGuard := invalidate (si_userId i) (es_liveGuard st)\<rparr> else st);
         row = trade_created w mode i hash out
     in if ro_strategyId row \<noteq> None \<and> the (ro_strategyId row) \<notin> xw_strategies w
        then (st, Inl (ForeignKeyViolation (the (ro_strategyId row))))
        else (finish_swap row st,
          Inr \<lparr>sr_tradeId = ro_id row, sr_txHash = ro_txHash row, sr_amountOut = out, sr_mode = mode\<rparr>))"

definition ex_swap :: "ex_world \<Rightarrow> int \<Rightarrow> swap_input \<Rightarrow> ex_state \<Rightarrow> ex_state \<times> (ex_error + swap_result)" where
  "ex_swap w now i st = (case normalise_amount w i of Inl e \<Rightarrow> (st, Inl e)
     | Inr i \<Rightarrow> let i = apply_sizing w i in
        (case clear_swap w now i st of (st, Inl e) \<Rightarrow> (st, Inl e)
         | (st, Inr mode) \<Rightarrow> (case run_swap w mode i st of
             (st, Inl e) \<Rightarrow> (swap_failed i st, Inl e)
           | (st, Inr (hash, out)) \<Rightarrow> record_swap w mode i hash out st)))"

text \<open>\<open>multiWalletBuy\<close>: one swap after the other; a failed one leaves an empty result.\<close>

fun multiWalletBuy :: "ex_world \<Rightarrow> int \<Rightarrow> swap_input \<Rightarrow> string list \<Rightarrow> ex_state \<Rightarrow> ex_state \<times> swap_result list" where
  "multiWalletBuy w now i [] st = (st, [])"
| "multiWalletBuy w now i (wallet # ws) st = (case ex_swap w now (i\<lparr>si_walletId := wallet\<rparr>) st of (st, r) \<Rightarrow>
     (case multiWalletBuy w now i ws st of (st, rs) \<Rightarrow>
       (st, (case r of Inr x \<Rightarrow> x
          | Inl _ \<Rightarrow> \<lparr>sr_tradeId = '''', sr_txHash = None, sr_amountOut = 0, sr_mode = PAPER\<rparr>) # rs)))"


subsection \<open>Nothing is executed unchecked\<close>

lemma emit_frame [simp]: "es_onchain (emit e st) = es_onchain st" "es_trades (emit e st) = es_trades st"
  "es_guardrails (emit e st) = es_guardrails st" "es_liveGuard (emit e st) = es_liveGuard st"
  "es_paper (emit e st) = es_paper st"
  by (simp_all add: emit_def)

lemma set_order_frame [simp]: "es_onchain (set_order oid s st) = es_onchain st"
  "es_trades (set_order oid s st) = es_trades st" "es_paper (set_order oid s st) = es_paper st"
  by (auto simp: set_order_def split: option.split)

lemma finish_frame [simp]: "es_onchain (finish_swap row st) = es_onchain st"
  "es_trades (finish_swap row st) = es_trades st @ [row]"
  by (simp_all add: finish_swap_def Let_def updatePaperBalance_def)

lemma swap_failed_frame [simp]: "es_onchain (swap_failed i st) = es_onchain st" "es_trades (swap_failed i st) = es_trades st"
  by (simp_all add: swap_failed_def)

definition guard_intent :: "swap_input \<Rightarrow> gr_intent" where
  "guard_intent i = \<lparr>gi_userId = si_userId i, gi_tokenAddress = si_tokenOut i, gi_notionalUsd = si_notionalUsd i,
     gi_slippageBps = si_slippageBps i, gi_riskFlags = si_riskFlags i\<rparr>"

lemma clear_frame [simp]: "es_onchain (fst (clear_swap w now i st)) = es_onchain st"
  "es_trades (fst (clear_swap w now i st)) = es_trades st"
  by (auto simp: clear_swap_def Let_def split_beta split: option.split bool.split sum.split)

lemma clear_ok:
  assumes "clear_swap w now i st = (st', Inr mode)"
  shows "\<not> xw_wash w i" "xw_risk w i = None"
    "fst (gr_check (xw_used w (si_userId i)) (guard_intent i) (es_guardrails st)) = None"
    "xw_paperMode w (si_userId i) = Some (mode = PAPER)"
    "mode = LIVE \<Longrightarrow> snd (checkLiveSwap now (xw_live w) (si_userId i) (si_notionalUsd i)
       (Some (inferSwapSide (si_tokenIn i) (si_tokenOut i))) (es_liveGuard st)) = Inr ()"
  using assms
  by (auto simp: clear_swap_def Let_def guard_intent_def split: prod.splits option.splits bool.splits sum.splits if_splits)

lemma run_frame: "es_trades (fst (run_swap w mode i st)) = es_trades st"
  by (auto simp: run_swap_def split: trade_mode.split sum.split prod.split)

lemma run_onchain: "run_swap w mode i st = (st', r) \<Longrightarrow> es_onchain st' = es_onchain st @
    (case r of Inl _ \<Rightarrow> [] | Inr (hash, _) \<Rightarrow> if mode = LIVE then [(i, hash)] else [])"
  by (auto simp: run_swap_def split: trade_mode.splits sum.splits prod.splits)

lemma record_onchain [simp]: "es_onchain (fst (record_swap w mode i hash out st)) = es_onchain st"
  by (simp add: record_swap_def Let_def)

lemma swap_cases:
  obtains (refused) e where "ex_swap w now i st = (fst (ex_swap w now i st), Inl e)"
      "es_onchain (fst (ex_swap w now i st)) = es_onchain st" "es_trades (fst (ex_swap w now i st)) = es_trades st"
  | (ran) j sa mode sb hash out where "normalise_amount w i = Inr j" "clear_swap w now (apply_sizing w j) st = (sa, Inr mode)"
      "run_swap w mode (apply_sizing w j) sa = (sb, Inr (hash, out))"
      "ex_swap w now i st = record_swap w mode (apply_sizing w j) hash out sb"
proof (cases "normalise_amount w i")
  case (Inl e)
  then show ?thesis by (intro refused [of e]) (simp_all add: ex_swap_def)
next
  case (Inr j)
  note j = this
  obtain sa r where c: "clear_swap w now (apply_sizing w j) st = (sa, r)" by force
  have sa: "es_onchain sa = es_onchain st" "es_trades sa = es_trades st"
    using clear_frame [of w now "apply_sizing w j" st] c by simp_all
  show ?thesis
  proof (cases r)
    case (Inl e)
    with j c sa show ?thesis by (intro refused [of e]) (simp_all add: ex_swap_def)
  next
    case (Inr mode)
    obtain sb r2 where x: "run_swap w mode (apply_sizing w j) sa = (sb, r2)" by force
    show ?thesis
    proof (cases r2)
      case (Inl e)
      with x have "es_onchain sb = es_onchain sa" "es_trades sb = es_trades sa"
        using run_onchain [OF x] run_frame [of w mode "apply_sizing w j" sa] by simp_all
      with Inl j c Inr x sa show ?thesis by (intro refused [of e]) (simp_all add: ex_swap_def)
    next
      case r2: (Inr hr)
      obtain hash out where "hr = (hash, out)" by force
      with r2 j c Inr x show ?thesis by (intro ran [of j sa mode sb hash out]) (simp_all add: ex_swap_def)
    qed
  qed
qed

text \<open>C4: Nothing is executed on chain unchecked: whenever \<open>swap\<close> leaves a new transaction on
  chain, it is one transaction, of the request as it was normalised and sized, and for that request no
  wash trade was detected, the risk engine approved, the guardrails allowed it, the user exists and is
  not in paper mode, and the live trade guard let it pass. Every other outcome, errors included, leaves
  the chain alone.\<close>

theorem sx_guarded:
  "es_onchain (fst (ex_swap w now i st)) = es_onchain st \<or>
   (case normalise_amount w i of Inl _ \<Rightarrow> False
    | Inr j \<Rightarrow> let j = apply_sizing w j in
       (\<exists>hash. es_onchain (fst (ex_swap w now i st)) = es_onchain st @ [(j, hash)]) \<and>
       \<not> xw_wash w j \<and> xw_risk w j = None \<and>
       fst (gr_check (xw_used w (si_userId j)) (guard_intent j) (es_guardrails st)) = None \<and>
       xw_paperMode w (si_userId j) = Some False \<and>
       snd (checkLiveSwap now (xw_live w) (si_userId j) (si_notionalUsd j)
         (Some (inferSwapSide (si_tokenIn j) (si_tokenOut j))) (es_liveGuard st)) = Inr ())"
proof (cases rule: swap_cases [of w now i st])
  case (refused e)
  then show ?thesis by simp
next
  case (ran j sa mode sb hash out)
  have sa: "es_onchain sa = es_onchain st" using clear_frame(1) [of w now "apply_sizing w j" st] ran(2) by simp
  show ?thesis
  proof (cases mode)
    case LIVE
    then show ?thesis
      using ran(1,4) clear_ok [OF ran(2)] run_onchain [OF ran(3)] sa by (simp add: Let_def)
  next
    case PAPER
    then show ?thesis using ran(4) run_onchain [OF ran(3)] sa by simp
  qed
qed

subsection \<open>Dynamic sizing\<close>

lemma computeDynamicSize_bounds: "0 \<le> ceil \<Longrightarrow> ceil / 10 \<le> computeDynamicSize w token ceil flags \<and>
    computeDynamicSize w token ceil flags \<le> ceil"
  by (auto simp: computeDynamicSize_def Let_def split: sum.split)

lemma apply_sizing_amount: "si_amountIn i \<noteq> None \<Longrightarrow> si_amountIn (apply_sizing w i) = si_amountIn i"
  by (auto simp: apply_sizing_def Let_def)

lemma normalise_some: "normalise_amount w i = Inr j \<Longrightarrow> si_amountIn j \<noteq> None \<and> j = i\<lparr>si_amountIn := si_amountIn j\<rparr> \<and>
    si_amountIn j = (if si_amountIn i = None then Some (sol_amount w (si_notionalUsd i)) else si_amountIn i)"
  by (auto simp: normalise_amount_def split: if_splits)

text \<open>Dynamic sizing scales the books and not the trade. The notional that the guardrails check
  and the table records is scaled to between a tenth and the whole of the requested one; the amount
  that is swapped on chain is the requested amount, or the one derived from the unscaled notional.\<close>

theorem sx_sizing:
  assumes "si_applyDynamicSizing i" "0 < si_notionalUsd i" "normalise_amount w i = Inr j"
  shows "si_notionalUsd (apply_sizing w j) = computeDynamicSize w (si_tokenOut i) (si_notionalUsd i) (si_riskFlags i) \<and>
    si_notionalUsd i / 10 \<le> si_notionalUsd (apply_sizing w j) \<and> si_notionalUsd (apply_sizing w j) \<le> si_notionalUsd i \<and>
    si_amountIn (apply_sizing w j) =
      (if si_amountIn i = None then Some (sol_amount w (si_notionalUsd i)) else si_amountIn i) \<and>
    (\<forall>hash out. ro_priceUsd (trade_created w LIVE (apply_sizing w j) hash out) = si_notionalUsd (apply_sizing w j)) \<and>
    gi_notionalUsd (guard_intent (apply_sizing w j)) = si_notionalUsd (apply_sizing w j)"
proof -
  note n = normalise_some [OF assms(3)]
  then obtain a where j: "j = i\<lparr>si_amountIn := a\<rparr>" by blast
  have f: "si_applyDynamicSizing j" "si_notionalUsd j = si_notionalUsd i" "si_tokenOut j = si_tokenOut i"
    "si_riskFlags j = si_riskFlags i"
    unfolding j using assms(1) by simp_all
  have u: "si_notionalUsd (apply_sizing w j) = computeDynamicSize w (si_tokenOut i) (si_notionalUsd i) (si_riskFlags i)"
    using n f assms(2) by (auto simp: apply_sizing_def Let_def)
  then show ?thesis
    using n computeDynamicSize_bounds [of "si_notionalUsd i" w "si_tokenOut i" "si_riskFlags i"] assms(2)
    by (auto simp: apply_sizing_amount trade_created_def guard_intent_def)
qed


definition plain_input :: swap_input where
  "plain_input = \<lparr>si_userId = ''u'', si_walletId = ''w'', si_chain = ''SOLANA'', si_evmChainId = None, si_tokenIn = SOL_MINT,
     si_tokenOut = ''mint'', si_amountIn = Some 1000, si_notionalUsd = 1000, si_slippageBps = 100, si_riskFlags = [],
     si_orderId = None, si_strategyId = None, si_applyDynamicSizing = True\<rparr>"

definition plain_world :: ex_world where
  "plain_world = \<lparr>xw_solUsd = 100, xw_verdict = (\<lambda>_. Inr (Some (50, []))), xw_wash = (\<lambda>_. False), xw_risk = (\<lambda>_. None),
     xw_used = (\<lambda>_. None), xw_paperMode = (\<lambda>_. Some False), xw_live = (\<lambda>_. 5), xw_wallet = (\<lambda>_ _. Some ''a''),
     xw_solana = (\<lambda>_ _ _. SolConfirmed ''sig'' 7), xw_selfTransfer = (\<lambda>_. Inl ''''), xw_evm = (\<lambda>_ _. Inl ''''),
     xw_quote = (\<lambda>_. None), xw_strategies = {}, xw_newId = ''t1'', xw_paperHash = ''p''\<rparr>"

definition new_ex_state :: ex_state where
  "new_ex_state = \<lparr>es_guardrails = Map.empty, es_liveGuard = new_guard, es_trades = [], es_paper = Map.empty,
     es_orders = Map.empty, es_onchain = [], es_out = []\<rparr>"

lemma plain_size: "computeDynamicSize plain_world ''mint'' 1000 [] = 300"
  by (simp add: computeDynamicSize_def plain_world_def size_multiplier_def)

text \<open>A request of 1000 dollars passes the limit of 500 per trade, and all of it is swapped.\<close>

theorem sx_sizing_witness:
  "si_amountIn (apply_sizing plain_world plain_input) = Some 1000 \<and>
   fst (gr_check None (guard_intent (apply_sizing plain_world plain_input)) Map.empty) = None \<and>
   fst (gr_check None (guard_intent plain_input) Map.empty) \<noteq> None"
proof -
  have n: "normalise_amount plain_world plain_input = Inr plain_input"
    by (simp add: normalise_amount_def plain_input_def)
  have d: "si_applyDynamicSizing plain_input" "0 < si_notionalUsd plain_input"
    by (simp_all add: plain_input_def)
  have "si_notionalUsd (apply_sizing plain_world plain_input) = 300"
    "si_amountIn (apply_sizing plain_world plain_input) = Some 1000"
    using sx_sizing [OF d n] plain_size by (simp_all add: plain_input_def)
  moreover have "si_slippageBps (apply_sizing plain_world plain_input) = 100"
    "si_riskFlags (apply_sizing plain_world plain_input) = []"
    by (simp_all add: apply_sizing_def plain_input_def Let_def)
  ultimately show ?thesis
    by (simp add: gr_check_def gr_config_of_def new_gr_config_def guard_intent_def plain_input_def Let_def)
qed

subsection \<open>Retries of a swap\<close>

lemma sol_loop_sent: "\<exists>n \<le> left. fst (sol_loop send base left k) = map (attempt_slippage base) [k ..< k + n]"
proof (induction left arbitrary: k)
  case (Suc left)
  show ?case
  proof (cases "send k (attempt_slippage base k)")
    case (SolSlippage x)
    obtain n where n: "n \<le> left" "fst (sol_loop send base left (k + 1)) = map (attempt_slippage base) [k + 1 ..< k + 1 + n]"
      using Suc.IH [of "k + 1"] by blast
    have "[k ..< k + Suc n] = k # [k + 1 ..< k + 1 + n]" by (simp add: upt_rec)
    with n SolSlippage show ?thesis by (intro exI [of _ "Suc n"]) (simp add: Let_def split_beta)
  qed (auto simp: Let_def intro: exI [of _ 0] exI [of _ "Suc 0"])
qed simp

text \<open>A live swap on Solana sends at most three transactions, with the requested slippage, then
  twice and four times that, never above 10000 basis points. The guardrails compared only the requested
  slippage with the user's cap: when the first two transactions fail on slippage, the third goes out
  with four times what the cap allowed.\<close>

theorem sx_slippage:
  "(\<exists>n \<le> 3. fst (sol_loop send base MAX_SWAP_ATTEMPTS 0) = take n [base, min 10000 (base * 2), min 10000 (base * 4)]) \<and>
   ((\<exists>a b. send 0 base = SolSlippage a \<and> send 1 (min 10000 (base * 2)) = SolSlippage b) \<and>
      (\<forall>x. send 2 (min 10000 (base * 4)) \<noteq> SolNoTransaction x) \<longrightarrow>
    fst (sol_loop send base MAX_SWAP_ATTEMPTS 0) = [base, min 10000 (base * 2), min 10000 (base * 4)])"
proof (intro conjI impI)
  obtain n where n: "n \<le> 3" "fst (sol_loop send base 3 0) = map (attempt_slippage base) [0 ..< n]"
    using sol_loop_sent [where left = 3 and k = 0 and send = send and base = base] by auto
  have t: "map (attempt_slippage base) [0 ..< 3] = [base, min 10000 (base * 2), min 10000 (base * 4)]"
    by (simp add: upt_rec attempt_slippage_def SWAP_SLIPPAGE_CEILING_def)
  have "map (attempt_slippage base) [0 ..< n] = take n (map (attempt_slippage base) [0 ..< 3])"
    using n(1) by (simp add: take_map)
  with n t show "\<exists>n \<le> 3. fst (sol_loop send base MAX_SWAP_ATTEMPTS 0) = take n [base, min 10000 (base * 2), min 10000 (base * 4)]"
    by (auto simp: MAX_SWAP_ATTEMPTS_def)
next
  assume "(\<exists>a b. send 0 base = SolSlippage a \<and> send 1 (min 10000 (base * 2)) = SolSlippage b) \<and>
      (\<forall>x. send 2 (min 10000 (base * 4)) \<noteq> SolNoTransaction x)"
  then show "fst (sol_loop send base MAX_SWAP_ATTEMPTS 0) = [base, min 10000 (base * 2), min 10000 (base * 4)]"
    by (cases "send 2 (min 10000 (base * 4))")
      (auto simp: MAX_SWAP_ATTEMPTS_def numeral_3_eq_3 attempt_slippage_def SWAP_SLIPPAGE_CEILING_def Let_def numeral_2_eq_2)
qed

theorem sx_slippage_witness:
  "fst (sol_loop (\<lambda>_ _. SolSlippage ''x'') 1000 MAX_SWAP_ATTEMPTS 0) = [1000, 2000, 4000]"
  using sx_slippage [of "\<lambda>_ _. SolSlippage ''x''" 1000] by simp

subsection \<open>Paper balances\<close>

text \<open>The paper balance of a token is credited twice at its first fill: the upsert creates the
  row with the amount, and the statement that follows adds it again. Every later fill adds it once.\<close>

theorem px_first_fill:
  assumes "0 \<le> amount"
  shows "es_paper (updatePaperBalance u token amount st) (u, token) = Some (case es_paper st (u, token) of
      None \<Rightarrow> 2 * \<lfloor>amount + 1 / 2\<rfloor> | Some b \<Rightarrow> b + \<lfloor>amount + 1 / 2\<rfloor>)"
  using assms by (simp add: updatePaperBalance_def Let_def split: option.split)

theorem px_first_fill_witness:
  "es_paper (updatePaperBalance ''u'' ''mint'' 1000 new_ex_state) (''u'', ''mint'') = Some 2000"
  using px_first_fill [of 1000 "''u''" "''mint''" new_ex_state] by (simp add: new_ex_state_def)

subsection \<open>The exit engine on top of \<open>swap\<close>\<close>

text \<open>The request of the exit engine as \<open>swap\<close> gets it, and what the exit engine sees of the answer.\<close>

definition exit_input :: "swap_request \<Rightarrow> swap_input" where
  "exit_input req = \<lparr>si_userId = sw_userId req, si_walletId = sw_walletId req, si_chain = sw_chain req, si_evmChainId = None,
     si_tokenIn = sw_tokenIn req, si_tokenOut = sw_tokenOut req, si_amountIn = Some (sw_amountIn req),
     si_notionalUsd = sw_notionalUsd req, si_slippageBps = sw_slippageBps req, si_riskFlags = [], si_orderId = None,
     si_strategyId = Some (sw_strategyId req), si_applyDynamicSizing = False\<rparr>"

definition exit_answer :: "ex_error + swap_result \<Rightarrow> string + string \<times> string option" where
  "exit_answer r = (case r of Inl _ \<Rightarrow> Inl ''swap failed'' | Inr x \<Rightarrow> Inr (sr_tradeId x, sr_txHash x))"

definition exit_swap :: "ex_world \<Rightarrow> int \<Rightarrow> ex_state \<Rightarrow> swap_request \<Rightarrow> string + string \<times> string option" where
  "exit_swap w now st req = exit_answer (snd (ex_swap w now (exit_input req) st))"

lemma unknown_strategy:
  assumes "si_strategyId i = Some s" "s \<noteq> ''''" "s \<notin> xw_strategies w"
  shows "isl (snd (ex_swap w now i st))" "es_trades (fst (ex_swap w now i st)) = es_trades st"
proof -
  have st: "si_strategyId (apply_sizing w j) = Some s" if "normalise_amount w i = Inr j" for j
    using that assms(1) by (auto simp: normalise_amount_def apply_sizing_def Let_def split: if_splits)
  have "isl (snd (ex_swap w now i st)) \<and> es_trades (fst (ex_swap w now i st)) = es_trades st"
  proof (cases rule: swap_cases [of w now i st])
    case (refused e)
    then show ?thesis by (metis isl_def snd_conv)
  next
    case (ran j sa mode sb hash out)
    have "es_trades sb = es_trades st"
      using run_frame [of w mode "apply_sizing w j" sa] ran(3) clear_frame(2) [of w now "apply_sizing w j" st] ran(2) by simp
    then show ?thesis
      using st [OF ran(1)] assms(2,3) ran(4) by (simp add: record_swap_def trade_created_def Let_def)
  qed
  then show "isl (snd (ex_swap w now i st))" "es_trades (fst (ex_swap w now i st)) = es_trades st" by auto
qed


text \<open>C1: On top of \<open>swap\<close> the exit engine can never close a position. It names the strategy
  \<open>exit_engine\<close>, the table of trades has a foreign key on strategies, and no strategy has that id; so
  the insert that follows an executed swap fails and \<open>swap\<close> throws. Whatever the ticks of the life of
  a row see, the row stays open and nothing is booked as sold, no trade is recorded, and a request that
  was cleared and executed live is on chain all the same, to be repeated by the next attempt.\<close>

theorem ee_never_closes:
  assumes "\<forall>(w, now, mem) \<in> set ticks. watch_signals mem \<and>
      (\<exists>xw clock st. ''exit_engine'' \<notin> xw_strategies xw \<and> wo_swap w = exit_swap xw clock st)"
    and "row_history c ticks (t, 0) = (t', s)"
    and "''exit_engine'' \<notin> xw_strategies xw" and "sw_strategyId req = ''exit_engine''"
  shows "tr_exitAt t' = tr_exitAt t \<and> s = 0 \<and>
    es_trades (fst (ex_swap xw clock (exit_input req) st)) = es_trades st \<and>
    (\<forall>sa hash out. clear_swap xw clock (exit_input req) st = (sa, Inr LIVE) \<and>
       snd (run_swap xw LIVE (exit_input req) sa) = Inr (hash, out) \<longrightarrow>
       es_onchain (fst (ex_swap xw clock (exit_input req) st)) = es_onchain st @ [(exit_input req, hash)] \<and>
       snd (ex_swap xw clock (exit_input req) st) = Inl (ForeignKeyViolation ''exit_engine''))"
proof -
  have fails: "isl (exit_swap xw clock st req)" if "''exit_engine'' \<notin> xw_strategies xw" "sw_strategyId req = ''exit_engine''"
    for xw clock st req
    using unknown_strategy(1) [of "exit_input req" "''exit_engine''" xw clock st] that
    by (auto simp: exit_swap_def exit_answer_def exit_input_def isl_def)
  have "tr_exitAt t' = tr_exitAt t \<and> s = 0"
  proof (rule history_fails [OF _ assms(2)])
    show "\<forall>(w, now, mem) \<in> set ticks. watch_signals mem \<and> (\<forall>req. sw_strategyId req = ''exit_engine'' \<longrightarrow> isl (wo_swap w req))"
      using assms(1) fails by fastforce
  qed
  moreover have "es_trades (fst (ex_swap xw clock (exit_input req) st)) = es_trades st"
    by (rule unknown_strategy(2) [of _ "''exit_engine''"]) (use assms(3,4) in \<open>simp_all add: exit_input_def\<close>)
  moreover have "es_onchain (fst (ex_swap xw clock (exit_input req) st)) = es_onchain st @ [(exit_input req, hash)] \<and>
      snd (ex_swap xw clock (exit_input req) st) = Inl (ForeignKeyViolation ''exit_engine'')"
    if c: "clear_swap xw clock (exit_input req) st = (sa, Inr LIVE)"
      and r: "snd (run_swap xw LIVE (exit_input req) sa) = Inr (hash, out)" for sa hash out
  proof -
    obtain sb where run: "run_swap xw LIVE (exit_input req) sa = (sb, Inr (hash, out))"
      using r by (metis prod.collapse)
    have n: "normalise_amount xw (exit_input req) = Inr (exit_input req)" "apply_sizing xw (exit_input req) = exit_input req"
      by (simp_all add: normalise_amount_def apply_sizing_def exit_input_def)
    have "es_onchain sb = es_onchain st @ [(exit_input req, hash)]"
      using run_onchain [OF run] clear_frame(1) [of xw clock "exit_input req" st] c by simp
    then show ?thesis
      using assms(3,4) by (simp add: ex_swap_def n c run record_swap_def trade_created_def Let_def)
        (simp add: exit_input_def)
  qed
  ultimately show ?thesis by blast
qed

definition exit_request :: swap_request where
  "exit_request = \<lparr>sw_userId = ''u'', sw_walletId = ''w'', sw_chain = ''SOLANA'', sw_tokenIn = ''mint'', sw_tokenOut = SOL_MINT,
     sw_amountIn = 500, sw_notionalUsd = 100, sw_slippageBps = 300, sw_strategyId = ''exit_engine''\<rparr>"

text \<open>A world in which everything passes: the sale is on chain and unrecorded.\<close>

theorem ee_never_closes_witness:
  "es_onchain (fst (ex_swap plain_world 0 (exit_input exit_request) new_ex_state)) = [(exit_input exit_request, ''sig'')] \<and>
   es_trades (fst (ex_swap plain_world 0 (exit_input exit_request) new_ex_state)) = []"
proof -
  have sell: "inferSwapSide ''mint'' SOL_MINT = Sell"
    by (simp add: inferSwapSide_def is_quote_def QUOTE_TOKENS_def SOL_MINT_def to_lower_def lower_char_def
        upper_letters_def lower_letters_def)
  have "fst (gr_check None (guard_intent (exit_input exit_request)) Map.empty) = None"
    by (simp add: gr_check_def gr_config_of_def new_gr_config_def guard_intent_def exit_input_def exit_request_def Let_def)
  then obtain db where db: "gr_check None (guard_intent (exit_input exit_request)) Map.empty = (None, db)"
    by (metis prod.collapse)
  have c: "\<exists>sa. clear_swap plain_world 0 (exit_input exit_request) new_ex_state = (sa, Inr LIVE)"
    using db sell by (simp add: clear_swap_def emit_def new_ex_state_def plain_world_def guard_intent_def exit_input_def
        exit_request_def Let_def)
  then obtain sa where sa: "clear_swap plain_world 0 (exit_input exit_request) new_ex_state = (sa, Inr LIVE)" by blast
  have "executeSolana plain_world (exit_input exit_request) = Inr (''sig'', 7)"
    by (simp add: executeSolana_def plain_world_def exit_input_def exit_request_def MAX_SWAP_ATTEMPTS_def
        numeral_3_eq_3 Let_def)
  then have r: "snd (run_swap plain_world LIVE (exit_input exit_request) sa) = Inr (''sig'', 7)"
    by (simp add: run_swap_def exit_input_def exit_request_def)
  have "''exit_engine'' \<notin> xw_strategies plain_world" "sw_strategyId exit_request = ''exit_engine''"
    by (simp_all add: plain_world_def exit_request_def)
  from ee_never_closes [of "[]" default_exit_config flat_trade flat_trade 0, OF _ _ this, of 0 new_ex_state] sa r
  show ?thesis by (simp add: new_ex_state_def)
qed

end
