(* ===== verification/Intent_Rules.thy ===== *)
theory Intent_Rules
  imports Js_Text
begin

text \<open>
  \<open>apps/api/src/intent\<close>: the rules a user states in words. \<open>intent-rule.dsl.ts\<close> validates the JSON
  of a rule, \<open>intent-rule.enforcer.ts\<close> checks a trade against the rules. \<open>num\<close> is \<open>Number\<close> on a text
  (\<open>None\<close> for NaN and the infinities), \<open>re_test\<close> the test of a regular expression with the flag \<open>i\<close>
  (\<open>None\<close> when the expression is not valid); the clock is passed as the hour and the day of UTC.
\<close>

subsection \<open>The rules (\<open>intent-rule.dsl.ts\<close>)\<close>

datatype size_scope = PerTrade | PerDay | PerToken

datatype dsl =
    DBlock (b_asset: "string option") (b_chain: "string option") (b_token: "string option") (b_pattern: "string option")
  | DRequire (r_mcap: "real option") (r_liquidity: "real option") (r_holders: "real option") (r_chain: "string option") (r_audit: bool)
  | DTimeWindow (t_allow: "real list option") (t_block: "real list option") (t_days: "real list option")
  | DMaxSize (s_value: real) (s_per: size_scope)
  | DApproval (a_notional: "real option") (a_slippage: "real option") (a_newToken: bool)
  | DPrefer (p_asset: "string option") (p_chain: "string option") (p_weight: "real option")

text \<open>\<open>Number\<close> on a value: an array is converted through its text.\<close>

fun js_Number :: "(string \<Rightarrow> real option) \<Rightarrow> json \<Rightarrow> real option" where
  "js_Number num (JNum r) = Some r"
| "js_Number num JNull = Some 0"
| "js_Number num (JBool b) = Some (if b then 1 else 0)"
| "js_Number num (JStr s) = num s"
| "js_Number num (JArr []) = Some 0"
| "js_Number num (JArr [x]) = (case x of JBool _ \<Rightarrow> None | _ \<Rightarrow> js_Number num x)"
| "js_Number num _ = None"

definition finite_field :: "(string \<Rightarrow> real option) \<Rightarrow> json option \<Rightarrow> real option" where
  "finite_field num v = (case v of None \<Rightarrow> None | Some JNull \<Rightarrow> None | Some x \<Rightarrow> js_Number num x)"

fun str_field :: "json option \<Rightarrow> string option" where
  "str_field (Some (JStr s)) = (if s \<noteq> [] then Some s else None)"
| "str_field _ = None"

fun numArr_field :: "(string \<Rightarrow> real option) \<Rightarrow> json option \<Rightarrow> real list option" where
  "numArr_field num (Some (JArr vs)) = Some (List.map_filter (js_Number num) vs)"
| "numArr_field num _ = None"

definition is_true :: "json option \<Rightarrow> bool" where
  "is_true v = (case v of Some (JBool b) \<Rightarrow> b | _ \<Rightarrow> False)"

fun is_object :: "json \<Rightarrow> bool" where
  "is_object (JObj _) = True"
| "is_object (JArr _) = True"
| "is_object _ = False"

datatype rule_error =
    NotAnObject | KindRequired | ValueNotPositive | UnknownKind string

definition validate_kind :: "(string \<Rightarrow> real option) \<Rightarrow> string \<Rightarrow> json \<Rightarrow> rule_error + dsl" where
  "validate_kind num kind r =
    (if kind = ''block'' then Inr (DBlock (map_option to_lower (str_field (jget r ''asset_class'')))
        (map_option to_upper (str_field (jget r ''chain''))) (map_option to_lower (str_field (jget r ''token'')))
        (map_option to_upper (str_field (jget r ''symbol_pattern''))))
     else if kind = ''require'' then Inr (DRequire (finite_field num (jget r ''min_mcap_usd''))
        (finite_field num (jget r ''min_liquidity_usd'')) (finite_field num (jget r ''min_holders''))
        (map_option to_upper (str_field (jget r ''chain''))) (is_true (jget r ''must_have_audit'')))
     else if kind = ''time_window'' then Inr (DTimeWindow (numArr_field num (jget r ''allow_utc_hours''))
        (numArr_field num (jget r ''block_utc_hours'')) (numArr_field num (jget r ''days_of_week'')))
     else if kind = ''max_size_usd'' then
       (case finite_field num (jget r ''value'') of
          None \<Rightarrow> Inl ValueNotPositive
        | Some v \<Rightarrow> if v \<le> 0 then Inl ValueNotPositive
            else let per = str_field (jget r ''per'')
              in Inr (DMaxSize v (if per = Some ''day'' then PerDay else if per = Some ''token'' then PerToken else PerTrade)))
     else if kind = ''require_approval_if'' then
       (let c = (case jget r ''condition'' of Some c \<Rightarrow> if is_object c then c else JObj [] | None \<Rightarrow> JObj [])
        in Inr (DApproval (finite_field num (jget c ''notional_usd_gt'')) (finite_field num (jget c ''slippage_bps_gt''))
             (is_true (jget c ''new_token''))))
     else if kind = ''prefer'' then Inr (DPrefer (map_option to_lower (str_field (jget r ''asset_class'')))
        (map_option to_upper (str_field (jget r ''chain''))) (finite_field num (jget r ''weight'')))
     else Inl (UnknownKind kind))"

definition validateIntentRuleDsl :: "(string \<Rightarrow> real option) \<Rightarrow> json \<Rightarrow> rule_error + dsl" where
  "validateIntentRuleDsl num raw =
    (if \<not> is_object raw then Inl NotAnObject
     else case jget raw ''kind'' of Some (JStr kind) \<Rightarrow> validate_kind num kind raw | _ \<Rightarrow> Inl KindRequired)"

text \<open>The column of the table: the JSON of the rule, without the fields that are \<open>undefined\<close>.\<close>

definition opt_entry :: "string \<Rightarrow> ('a \<Rightarrow> json) \<Rightarrow> 'a option \<Rightarrow> (string \<times> json) list" where
  "opt_entry k f v = (case v of None \<Rightarrow> [] | Some x \<Rightarrow> [(k, f x)])"

fun scope_text :: "size_scope \<Rightarrow> string" where
  "scope_text PerTrade = ''trade''"
| "scope_text PerDay = ''day''"
| "scope_text PerToken = ''token''"

fun dsl_json :: "dsl \<Rightarrow> json" where
  "dsl_json (DBlock a c t p) = JObj ((''kind'', JStr ''block'') # opt_entry ''asset_class'' JStr a @ opt_entry ''chain'' JStr c @
     opt_entry ''token'' JStr t @ opt_entry ''symbol_pattern'' JStr p)"
| "dsl_json (DRequire m l h c a) = JObj ((''kind'', JStr ''require'') # opt_entry ''min_mcap_usd'' JNum m @
     opt_entry ''min_liquidity_usd'' JNum l @ opt_entry ''min_holders'' JNum h @ opt_entry ''chain'' JStr c @
     [(''must_have_audit'', JBool a)])"
| "dsl_json (DTimeWindow a b d) = JObj ((''kind'', JStr ''time_window'') #
     opt_entry ''allow_utc_hours'' (JArr \<circ> map JNum) a @ opt_entry ''block_utc_hours'' (JArr \<circ> map JNum) b @
     opt_entry ''days_of_week'' (JArr \<circ> map JNum) d)"
| "dsl_json (DMaxSize v p) = JObj [(''kind'', JStr ''max_size_usd''), (''value'', JNum v), (''per'', JStr (scope_text p))]"
| "dsl_json (DApproval n s t) = JObj [(''kind'', JStr ''require_approval_if''),
     (''condition'', JObj (opt_entry ''notional_usd_gt'' JNum n @ opt_entry ''slippage_bps_gt'' JNum s @
        [(''new_token'', JBool t)]))]"
| "dsl_json (DPrefer a c w) = JObj ((''kind'', JStr ''prefer'') # opt_entry ''asset_class'' JStr a @ opt_entry ''chain'' JStr c @
     opt_entry ''weight'' JNum w)"

text \<open>What the validator puts out.\<close>

definition low_text :: "string option \<Rightarrow> bool" where
  "low_text s = (case s of None \<Rightarrow> True | Some x \<Rightarrow> x \<noteq> [] \<and> to_lower x = x)"

definition up_text :: "string option \<Rightarrow> bool" where
  "up_text s = (case s of None \<Rightarrow> True | Some x \<Rightarrow> x \<noteq> [] \<and> to_upper x = x)"

fun normal_dsl :: "dsl \<Rightarrow> bool" where
  "normal_dsl (DBlock a c t p) = (low_text a \<and> up_text c \<and> low_text t \<and> up_text p)"
| "normal_dsl (DRequire _ _ _ c _) = up_text c"
| "normal_dsl (DMaxSize v _) = (0 < v)"
| "normal_dsl (DPrefer a c _) = (low_text a \<and> up_text c)"
| "normal_dsl _ = True"

lemma str_field_normal: "low_text (map_option to_lower (str_field v))" "up_text (map_option to_upper (str_field v))"
  by (cases "(v)" rule: str_field.cases; simp add: low_text_def up_text_def)+

lemma validate_normal: "validateIntentRuleDsl num raw = Inr d \<Longrightarrow> normal_dsl d"
  by (auto simp: validateIntentRuleDsl_def validate_kind_def str_field_normal Let_def
      split: if_splits option.splits json.splits)

lemma numArr_back: "List.map_filter (js_Number num) (map JNum xs) = xs"
  by (induction xs) (simp_all add: map_filter_simps)

lemma opt_entry_simps [simp]:
  "(m ++ map_of (opt_entry k f v)) k' = (if k' = k then (case v of None \<Rightarrow> m k' | Some x \<Rightarrow> Some (f x)) else m k')"
  "map_of (opt_entry k f v) k' = (if k' = k then (case v of None \<Rightarrow> None | Some x \<Rightarrow> Some (f x)) else None)"
  by (auto simp: opt_entry_def map_add_def split: option.split)

lemma field_back [simp]:
  "finite_field num (case v of None \<Rightarrow> None | Some x \<Rightarrow> Some (JNum x)) = v"
  "low_text s \<Longrightarrow> map_option to_lower (str_field (case s of None \<Rightarrow> None | Some x \<Rightarrow> Some (JStr x))) = s"
  "up_text s \<Longrightarrow> map_option to_upper (str_field (case s of None \<Rightarrow> None | Some x \<Rightarrow> Some (JStr x))) = s"
  "numArr_field num (case l of None \<Rightarrow> None | Some xs \<Rightarrow> Some (JArr (map JNum xs))) = l"
  "is_true (Some (JBool b)) = b"
  by (auto simp: finite_field_def low_text_def up_text_def is_true_def numArr_back split: option.splits)

lemma validate_back: "normal_dsl d \<Longrightarrow> validateIntentRuleDsl num (dsl_json d) = Inr d"
proof (cases d)
  case (DMaxSize v p)
  assume "normal_dsl d"
  with DMaxSize show ?thesis
    by (cases p) (simp_all add: validateIntentRuleDsl_def validate_kind_def finite_field_def)
qed (simp_all add: validateIntentRuleDsl_def validate_kind_def cong: option.case_cong)

text \<open>C35: A validated rule survives storage: the JSON that is written for it validates again to
  the same rule, whatever the texts that \<open>Number\<close> reads; so validation is idempotent and stores no
  field of its input that it did not recognise.\<close>

theorem ir_roundtrip:
  "validateIntentRuleDsl num raw = Inr d \<Longrightarrow> validateIntentRuleDsl num' (dsl_json d) = Inr d"
  by (rule validate_back [OF validate_normal])

theorem ir_roundtrip_witness:
  "validateIntentRuleDsl (\<lambda>_. None) (dsl_json (DBlock (Some ''meme'') (Some ''SOLANA'') None None)) =
     Inr (DBlock (Some ''meme'') (Some ''SOLANA'') None None)"
proof (rule ir_roundtrip)
  show "validateIntentRuleDsl (\<lambda>_. None) (JObj [(''kind'', JStr ''block''), (''asset_class'', JStr ''Meme''),
      (''chain'', JStr ''solana''), (''evil'', JNum 1)]) = Inr (DBlock (Some ''meme'') (Some ''SOLANA'') None None)"
    by (simp add: validateIntentRuleDsl_def validate_kind_def to_lower_def to_upper_def lower_char_def upper_char_def
        upper_letters_def lower_letters_def)
qed


subsection \<open>The enforcer (\<open>intent-rule.enforcer.ts\<close>)\<close>

record trade_intent =
  nt_chain :: string
  nt_tokenIn :: string
  nt_tokenOut :: string
  nt_amountIn :: string
  nt_notionalUsd :: real
  nt_slippageBps :: real
  nt_side :: string
  nt_walletId :: string
  nt_reason :: string

record token_meta =
  me_assetClass :: "string option"
  me_symbol :: "string option"
  me_mcapUsd :: "real option"
  me_liquidityUsd :: "real option"
  me_holders :: "real option"
  me_hasAudit :: bool

definition no_meta :: token_meta where
  "no_meta = \<lparr>me_assetClass = None, me_symbol = None, me_mcapUsd = None, me_liquidityUsd = None, me_holders = None,
     me_hasAudit = False\<rparr>"

record candidate =
  ca_intent :: trade_intent
  ca_meta :: token_meta            \<comment> \<open>\<open>no_meta\<close> when absent\<close>
  ca_dailyUsd :: "real option"
  ca_perTokenUsd :: "real option"

datatype rule_scope = Blocklist | Allowlist | Sizing | Timing | RiskScope | Preference
datatype rule_status = Active_rule | Proposed_rule | Conflicted_rule | Retired_rule
datatype rule_source = SourceChat | SourceRejection | SourceManual | SourceOnboarding | SourceBackfill

record rule =
  ru_id :: string
  ru_userId :: string
  ru_text :: string
  ru_dsl :: dsl
  ru_scope :: rule_scope
  ru_status :: rule_status
  ru_source :: rule_source
  ru_priority :: real
  ru_confidence :: real
  ru_approvalId :: "string option"
  ru_lastApplied :: "int option"
  ru_retiredReason :: "string option"

record decision =
  de_ok :: bool
  de_reason :: "tmpl option"
  de_applied :: "string list"
  de_approval :: bool
  de_adjusted :: "trade_intent option"

text \<open>Truthiness of an optional text.\<close>

definition given :: "string option \<Rightarrow> bool" where
  "given s = (s \<noteq> None \<and> s \<noteq> Some '''')"

text \<open>\<open>None\<close>: the regular expression of the rule is not valid, and the constructor throws.\<close>

fun blockMatches :: "(string \<Rightarrow> string \<Rightarrow> bool option) \<Rightarrow> dsl \<Rightarrow> trade_intent \<Rightarrow> token_meta \<Rightarrow> bool option" where
  "blockMatches re_test (DBlock a c t p) i m =
    (if given t \<and> to_lower (nt_tokenOut i) = to_lower (the t) then Some True
     else if given c \<and> to_upper (nt_chain i) = to_upper (the c) \<and> \<not> given t \<and> \<not> given a \<and> \<not> given p then Some True
     else if given a \<and> given (me_assetClass m) \<and> to_lower (the (me_assetClass m)) = to_lower (the a) then Some True
     else if given p \<and> given (me_symbol m) then re_test (the p) (the (me_symbol m))
     else Some False)"
| "blockMatches re_test _ i m = Some False"

definition below :: "real option \<Rightarrow> real option \<Rightarrow> bool" where
  "below x bound = (case bound of None \<Rightarrow> False | Some b \<Rightarrow> (case x of None \<Rightarrow> 0 | Some y \<Rightarrow> y) < b)"

fun requireFails :: "dsl \<Rightarrow> trade_intent \<Rightarrow> token_meta \<Rightarrow> string option" where
  "requireFails (DRequire mc lq h c au) i m =
    (if given c \<and> to_upper (nt_chain i) \<noteq> to_upper (the c) then Some ''chain''
     else if below (me_mcapUsd m) mc then Some ''min_mcap_usd''
     else if below (me_liquidityUsd m) lq then Some ''min_liquidity_usd''
     else if below (me_holders m) h then Some ''min_holders''
     else if au \<and> \<not> me_hasAudit m then Some ''must_have_audit''
     else None)"
| "requireFails _ i m = None"

definition rejected :: "tmpl \<Rightarrow> string list \<Rightarrow> decision" where
  "rejected reason applied = \<lparr>de_ok = False, de_reason = Some reason, de_applied = applied, de_approval = False,
     de_adjusted = None\<rparr>"

text \<open>Each pass either ends the check (\<open>Inl\<close>, with \<open>None\<close> for an exception) or goes on.\<close>

type_synonym 'a pass = "decision option + 'a"

fun block_pass :: "(string \<Rightarrow> string \<Rightarrow> bool option) \<Rightarrow> candidate \<Rightarrow> rule list \<Rightarrow> string list \<Rightarrow> string list pass" where
  "block_pass re c [] applied = Inr applied"
| "block_pass re c (r # rs) applied = (case blockMatches re (ru_dsl r) (ca_intent c) (ca_meta c) of
     None \<Rightarrow> Inl None
   | Some True \<Rightarrow> Inl (Some (rejected [S ''Blocked by rule: '', S (ru_text r)] (applied @ [ru_id r])))
   | Some False \<Rightarrow> block_pass re c rs applied)"

fun is_require :: "dsl \<Rightarrow> bool" where
  "is_require (DRequire _ _ _ _ _) = True"
| "is_require _ = False"

fun require_pass :: "candidate \<Rightarrow> rule list \<Rightarrow> string list \<Rightarrow> string list pass" where
  "require_pass c [] applied = Inr applied"
| "require_pass c (r # rs) applied = (if \<not> is_require (ru_dsl r) then require_pass c rs applied
     else case requireFails (ru_dsl r) (ca_intent c) (ca_meta c) of
       Some fail \<Rightarrow> Inl (Some (rejected [S ''Requirement unmet: '', S fail, S '' ('', S (ru_text r), S '')''] (applied @ [ru_id r])))
     | None \<Rightarrow> require_pass c rs (applied @ [ru_id r]))"

definition listed :: "real list option \<Rightarrow> nat \<Rightarrow> bool" where
  "listed l n = (case l of None \<Rightarrow> False | Some xs \<Rightarrow> real n \<in> set xs)"

definition nonempty :: "real list option \<Rightarrow> bool" where
  "nonempty l = (l \<noteq> None \<and> l \<noteq> Some [])"

fun time_pass :: "nat \<Rightarrow> nat \<Rightarrow> rule list \<Rightarrow> string list \<Rightarrow> string list pass" where
  "time_pass hour day [] applied = Inr applied"
| "time_pass hour day (r # rs) applied = (case ru_dsl r of
     DTimeWindow allow block days \<Rightarrow>
       let applied = applied @ [ru_id r]
       in if nonempty allow \<and> \<not> listed allow hour then Inl (Some (rejected [S ''Outside allowed hours: '', S (ru_text r)] applied))
          else if listed block hour then Inl (Some (rejected [S ''Blocked hour: '', S (ru_text r)] applied))
          else if nonempty days \<and> \<not> listed days day then Inl (Some (rejected [S ''Blocked day: '', S (ru_text r)] applied))
          else time_pass hour day rs applied
   | _ \<Rightarrow> time_pass hour day rs applied)"

fun size_pass ::
    "candidate \<Rightarrow> rule list \<Rightarrow> string list \<times> trade_intent \<times> trade_intent option
     \<Rightarrow> (string list \<times> trade_intent \<times> trade_intent option) pass" where
  "size_pass c [] st = Inr st"
| "size_pass c (r # rs) (applied, i, adjusted) = (case ru_dsl r of
     DMaxSize v PerTrade \<Rightarrow>
       (if nt_notionalUsd i > v
        then let i = i\<lparr>nt_notionalUsd := v\<rparr> in size_pass c rs (applied @ [ru_id r], i, Some i)
        else size_pass c rs (applied @ [ru_id r], i, adjusted))
   | DMaxSize v PerDay \<Rightarrow>
       (if (case ca_dailyUsd c of None \<Rightarrow> 0 | Some u \<Rightarrow> u) + nt_notionalUsd i > v
        then Inl (Some (rejected [S ''Exceeds daily cap: '', S (ru_text r)] (applied @ [ru_id r])))
        else size_pass c rs (applied @ [ru_id r], i, adjusted))
   | DMaxSize v PerToken \<Rightarrow>
       (if (case ca_perTokenUsd c of None \<Rightarrow> 0 | Some u \<Rightarrow> u) + nt_notionalUsd i > v
        then Inl (Some (rejected [S ''Exceeds per-token cap: '', S (ru_text r)] (applied @ [ru_id r])))
        else size_pass c rs (applied @ [ru_id r], i, adjusted))
   | _ \<Rightarrow> size_pass c rs (applied, i, adjusted))"

definition above :: "real \<Rightarrow> real option \<Rightarrow> bool" where
  "above x bound = (case bound of None \<Rightarrow> False | Some b \<Rightarrow> x > b)"

fun escalates :: "dsl \<Rightarrow> trade_intent \<Rightarrow> bool" where
  "escalates (DApproval n s newToken) i = (above (nt_notionalUsd i) n \<or> above (nt_slippageBps i) s \<or> newToken)"
| "escalates _ i = False"

fun approval_pass :: "trade_intent \<Rightarrow> rule list \<Rightarrow> string list \<times> bool \<Rightarrow> string list \<times> bool" where
  "approval_pass i [] st = st"
| "approval_pass i (r # rs) (applied, must) = approval_pass i rs
     (if escalates (ru_dsl r) i then (applied @ [ru_id r], True) else (applied, must))"

definition enforce :: "(string \<Rightarrow> string \<Rightarrow> bool option) \<Rightarrow> nat \<Rightarrow> nat \<Rightarrow> candidate \<Rightarrow> rule list \<Rightarrow> decision option" where
  "enforce re hour day c rules = (case block_pass re c rules [] of Inl d \<Rightarrow> d
     | Inr applied \<Rightarrow> (case require_pass c rules applied of Inl d \<Rightarrow> d
     | Inr applied \<Rightarrow> (case time_pass hour day rules applied of Inl d \<Rightarrow> d
     | Inr applied \<Rightarrow> (case size_pass c rules (applied, ca_intent c, None) of Inl d \<Rightarrow> d
     | Inr (applied, i, adjusted) \<Rightarrow> (case approval_pass i rules (applied, False) of (applied, must) \<Rightarrow>
         Some \<lparr>de_ok = True, de_reason = None, de_applied = applied, de_approval = must, de_adjusted = adjusted\<rparr>)))))"

text \<open>The intent the caller goes on with.\<close>

definition final_intent :: "trade_intent \<Rightarrow> decision \<Rightarrow> trade_intent" where
  "final_intent i d = (case de_adjusted d of None \<Rightarrow> i | Some a \<Rightarrow> a)"

subsection \<open>What an accepted trade satisfies\<close>

definition trade_caps :: "rule list \<Rightarrow> real list" where
  "trade_caps rules = List.map_filter (\<lambda>r. case ru_dsl r of DMaxSize v PerTrade \<Rightarrow> Some v | _ \<Rightarrow> None) rules"

lemma trade_caps_simps [simp]: "trade_caps [] = []"
  "trade_caps (r # rs) = (case ru_dsl r of DMaxSize v PerTrade \<Rightarrow> [v] | _ \<Rightarrow> []) @ trade_caps rs"
  by (auto simp: trade_caps_def map_filter_simps split: dsl.split size_scope.split option.split)

lemma block_pass_ok: "block_pass re c rules ap = Inr ap' \<Longrightarrow>
    ap' = ap \<and> (\<forall>r \<in> set rules. blockMatches re (ru_dsl r) (ca_intent c) (ca_meta c) = Some False)"
  by (induction rules) (auto split: option.splits bool.splits)

lemma require_pass_ok: "require_pass c rules ap = Inr ap' \<Longrightarrow>
    (\<forall>r \<in> set rules. requireFails (ru_dsl r) (ca_intent c) (ca_meta c) = None)"
proof (induction c rules ap rule: require_pass.induct)
  case (2 c r rs ap)
  have "requireFails (ru_dsl r) (ca_intent c) (ca_meta c) = None" if "\<not> is_require (ru_dsl r)"
    using that by (cases "ru_dsl r") auto
  with 2 show ?case by (cases "is_require (ru_dsl r)") (simp_all split: option.splits)
qed simp

fun in_window :: "nat \<Rightarrow> nat \<Rightarrow> dsl \<Rightarrow> bool" where
  "in_window hour day (DTimeWindow a b d) = ((nonempty a \<longrightarrow> listed a hour) \<and> \<not> listed b hour \<and> (nonempty d \<longrightarrow> listed d day))"
| "in_window hour day _ = True"

lemma time_pass_ok: "time_pass hour day rules ap = Inr ap' \<Longrightarrow> \<forall>r \<in> set rules. in_window hour day (ru_dsl r)"
  by (induction rules arbitrary: ap) (auto simp: Let_def split: dsl.splits if_splits)

definition usage_of :: "real option \<Rightarrow> real" where
  "usage_of u = (case u of None \<Rightarrow> 0 | Some x \<Rightarrow> x)"

fun within_cap :: "candidate \<Rightarrow> real \<Rightarrow> dsl \<Rightarrow> bool" where
  "within_cap c n (DMaxSize v PerDay) = (usage_of (ca_dailyUsd c) + n \<le> v)"
| "within_cap c n (DMaxSize v PerToken) = (usage_of (ca_perTokenUsd c) + n \<le> v)"
| "within_cap c n (DMaxSize v PerTrade) = (n \<le> v)"
| "within_cap c n _ = True"

lemma within_cap_mono: "within_cap c n d \<Longrightarrow> n' \<le> n \<Longrightarrow> within_cap c n' d"
  by (cases "(c, n, d)" rule: within_cap.cases) auto

lemma size_pass_ok:
  assumes "size_pass c rules (ap, i, adj) = Inr (ap', i', adj')" and "adj = None \<or> adj = Some i"
  shows "nt_notionalUsd i' = foldl min (nt_notionalUsd i) (trade_caps rules) \<and> i' = i\<lparr>nt_notionalUsd := nt_notionalUsd i'\<rparr> \<and>
    (\<forall>r \<in> set rules. within_cap c (nt_notionalUsd i') (ru_dsl r)) \<and>
    (adj' = Some i' \<or> adj' = None \<and> adj = None \<and> i' = i)"
  using assms
proof (induction rules arbitrary: ap i adj)
  case Nil
  then show ?case by auto
next
  case (Cons r rs)
  have le: "foldl min x xs \<le> x" for x :: real and xs
  proof (induction xs arbitrary: x)
    case (Cons a xs)
    show ?case using Cons.IH [of "min x a"] by simp
  qed simp
  show ?case
  proof (cases "ru_dsl r")
    case (DMaxSize v p)
    show ?thesis
    proof (cases p)
      case PerTrade
      show ?thesis
      proof (cases "nt_notionalUsd i > v")
        case True
        note h = Cons.IH [of "ap @ [ru_id r]" "i\<lparr>nt_notionalUsd := v\<rparr>" "Some (i\<lparr>nt_notionalUsd := v\<rparr>)"]
        have m: "min (nt_notionalUsd i) v = v" using True by simp
        show ?thesis using h Cons.prems(1) DMaxSize PerTrade True le [of v "trade_caps rs"]
          by (auto simp: Let_def m)
      next
        case False
        note h = Cons.IH [of "ap @ [ru_id r]" i adj]
        have m: "min (nt_notionalUsd i) v = nt_notionalUsd i" using False by simp
        show ?thesis using h Cons.prems DMaxSize PerTrade False le [of "nt_notionalUsd i" "trade_caps rs"]
          by (auto simp: m)
      qed
    next
      case PerDay
      note h = Cons.IH [of "ap @ [ru_id r]" i adj]
      show ?thesis using h Cons.prems DMaxSize PerDay le [of "nt_notionalUsd i" "trade_caps rs"]
        by (auto simp: usage_of_def split: if_splits option.splits)
    next
      case PerToken
      note h = Cons.IH [of "ap @ [ru_id r]" i adj]
      show ?thesis using h Cons.prems DMaxSize PerToken le [of "nt_notionalUsd i" "trade_caps rs"]
        by (auto simp: usage_of_def split: if_splits option.splits)
    qed
  qed (use Cons.IH [of ap i adj] Cons.prems in auto)
qed

lemma approval_pass_must: "snd (approval_pass i rules (ap, must)) = (must \<or> (\<exists>r \<in> set rules. escalates (ru_dsl r) i))"
  by (induction rules arbitrary: ap must) auto

lemma enforce_sound:
  assumes "enforce re hour day c rules = Some d" and "de_ok d"
  shows "(let i' = final_intent (ca_intent c) d in
    (\<forall>r \<in> set rules. blockMatches re (ru_dsl r) (ca_intent c) (ca_meta c) = Some False \<and>
       requireFails (ru_dsl r) (ca_intent c) (ca_meta c) = None \<and> in_window hour day (ru_dsl r) \<and>
       within_cap c (nt_notionalUsd i') (ru_dsl r)) \<and>
    i' = (ca_intent c)\<lparr>nt_notionalUsd := foldl min (nt_notionalUsd (ca_intent c)) (trade_caps rules)\<rparr> \<and>
    nt_amountIn i' = nt_amountIn (ca_intent c) \<and>
    de_approval d = (\<exists>r \<in> set rules. escalates (ru_dsl r) i'))"
proof -
  have nb: "\<not> de_ok d'" if "block_pass re c rules ap = Inl (Some d')" for d' ap
    using that by (induction rules) (auto simp: rejected_def split: option.splits bool.splits)
  have nr: "\<not> de_ok d'" if "require_pass c rules ap = Inl (Some d')" for d' ap
    using that by (induction rules arbitrary: ap) (auto simp: rejected_def split: option.splits if_splits)
  have nt: "\<not> de_ok d'" if "time_pass hour day rules ap = Inl (Some d')" for d' ap
    using that by (induction rules arbitrary: ap) (auto simp: rejected_def Let_def split: dsl.splits if_splits)
  have ns: "\<not> de_ok d'" if "size_pass c rules st = Inl (Some d')" for d' st
    using that by (induction c rules st rule: size_pass.induct)
      (auto simp: rejected_def Let_def split: dsl.splits size_scope.splits if_splits)
  obtain ap where b: "block_pass re c rules [] = Inr ap"
    using assms nb by (auto simp: enforce_def split: sum.splits)
  obtain ap2 where r: "require_pass c rules ap = Inr ap2"
    using assms nr b by (auto simp: enforce_def split: sum.splits)
  obtain ap3 where t: "time_pass hour day rules ap2 = Inr ap3"
    using assms nt b r by (auto simp: enforce_def split: sum.splits)
  obtain ap4 i' adj where s: "size_pass c rules (ap3, ca_intent c, None) = Inr (ap4, i', adj)"
    using assms ns b r t by (auto simp: enforce_def split: sum.splits)
  have sz: "nt_notionalUsd i' = foldl min (nt_notionalUsd (ca_intent c)) (trade_caps rules) \<and>
      i' = (ca_intent c)\<lparr>nt_notionalUsd := nt_notionalUsd i'\<rparr> \<and>
      (\<forall>r \<in> set rules. within_cap c (nt_notionalUsd i') (ru_dsl r)) \<and> (adj = Some i' \<or> adj = None \<and> i' = ca_intent c)"
    using size_pass_ok [OF s] by blast
  have d: "de_adjusted d = adj" "de_approval d = snd (approval_pass i' rules (ap4, False))"
    using assms(1) b r t s by (auto simp: enforce_def split: prod.splits)
  have fi: "final_intent (ca_intent c) d = i'" using sz by (auto simp: final_intent_def d(1))
  have am: "nt_amountIn i' = nt_amountIn (ca_intent c)" by (subst conjunct1 [OF conjunct2 [OF sz]]) simp
  have eq: "i' = (ca_intent c)\<lparr>nt_notionalUsd := foldl min (nt_notionalUsd (ca_intent c)) (trade_caps rules)\<rparr>"
    using conjunct1 [OF conjunct2 [OF sz]] unfolding conjunct1 [OF sz] .
  show ?thesis
    unfolding Let_def fi d(2) approval_pass_must
    using sz am eq block_pass_ok [OF b] require_pass_ok [OF r] time_pass_ok [OF t] by blast
qed

text \<open>C18: A trade that the enforcer accepts obeys every rule, in whatever order they are stored: no
  block rule matches it, every requirement is met, the clock is inside every window, and with the
  notional reduced to the smallest of the caps per trade it is within every cap; only the notional of
  the intent changes, the amount to swap stays what it was; and approval is demanded exactly when a
  rule that escalates applies to the reduced trade.\<close>

theorem ir_sound:
  assumes "enforce re hour day c rules = Some d" and "de_ok d"
  shows "(let i' = final_intent (ca_intent c) d in
    (\<forall>r \<in> set rules. blockMatches re (ru_dsl r) (ca_intent c) (ca_meta c) = Some False \<and>
       requireFails (ru_dsl r) (ca_intent c) (ca_meta c) = None \<and> in_window hour day (ru_dsl r) \<and>
       within_cap c (nt_notionalUsd i') (ru_dsl r)) \<and>
    i' = (ca_intent c)\<lparr>nt_notionalUsd := foldl min (nt_notionalUsd (ca_intent c)) (trade_caps rules)\<rparr> \<and>
    nt_amountIn i' = nt_amountIn (ca_intent c) \<and>
    de_approval d = (\<exists>r \<in> set rules. escalates (ru_dsl r) i'))"
  using assms by (rule enforce_sound)

definition sample_intent :: trade_intent where
  "sample_intent = \<lparr>nt_chain = ''SOLANA'', nt_tokenIn = ''usdc'', nt_tokenOut = ''mint'', nt_amountIn = ''900000000'',
     nt_notionalUsd = 900, nt_slippageBps = 100, nt_side = ''buy'', nt_walletId = ''w'', nt_reason = ''''\<rparr>"

definition bare :: "trade_intent \<Rightarrow> candidate" where
  "bare i = \<lparr>ca_intent = i, ca_meta = no_meta, ca_dailyUsd = None, ca_perTokenUsd = None\<rparr>"

definition rule_of :: "dsl \<Rightarrow> rule" where
  "rule_of d = \<lparr>ru_id = ''r'', ru_userId = ''u'', ru_text = ''rule'', ru_dsl = d, ru_scope = Sizing,
     ru_status = Active_rule, ru_source = SourceManual, ru_priority = 50, ru_confidence = 1,
     ru_approvalId = None, ru_lastApplied = None, ru_retiredReason = None\<rparr>"

theorem ir_sound_witness:
  "\<exists>d. enforce (\<lambda>_ _. None) 0 0 (bare sample_intent) [rule_of (DMaxSize 50 PerTrade)] = Some d \<and> de_ok d \<and>
     nt_amountIn (final_intent sample_intent d) = ''900000000''"
proof -
  obtain d where d: "enforce (\<lambda>_ _. None) 0 0 (bare sample_intent) [rule_of (DMaxSize 50 PerTrade)] = Some d" "de_ok d"
    by (simp add: enforce_def rule_of_def bare_def sample_intent_def Let_def)
  then show ?thesis
    using ir_sound [OF d] by (simp add: Let_def bare_def sample_intent_def)
qed

text \<open>The enforcer depends on the order of the rules: a trade above a cap per trade and a cap per
  day is reduced and accepted when the cap per trade comes first, and refused when the cap per day
  comes first, although it would be within both after the reduction.\<close>

theorem ir_order:
  assumes "v < nt_notionalUsd (ca_intent c)" "usage_of (ca_dailyUsd c) + v \<le> cap"
    and "cap < usage_of (ca_dailyUsd c) + nt_notionalUsd (ca_intent c)"
  shows "map_option de_ok (enforce re hour day c [rule_of (DMaxSize v PerTrade), rule_of (DMaxSize cap PerDay)]) = Some True \<and>
    map_option de_ok (enforce re hour day c [rule_of (DMaxSize cap PerDay), rule_of (DMaxSize v PerTrade)]) = Some False"
  using assms by (auto simp: enforce_def rule_of_def usage_of_def rejected_def Let_def split: option.splits)

theorem ir_order_witness:
  "map_option de_ok (enforce (\<lambda>_ _. None) 0 0 (bare sample_intent)
     [rule_of (DMaxSize 100 PerDay), rule_of (DMaxSize 50 PerTrade)]) = Some False"
  using ir_order [of 50 "bare sample_intent" 100 "\<lambda>_ _. None" 0 0]
  by (simp add: bare_def sample_intent_def usage_of_def)

text \<open>The worker that trades on its own calls the enforcer with the intent alone. Then a cap per
  day or per token never counts what was used before, a rule that requires a market cap, a liquidity,
  holders or an audit refuses every trade, and a rule that blocks an asset class or a symbol, and names
  no token, never applies.\<close>

theorem ir_blind:
  "within_cap (bare i) n (DMaxSize v PerDay) = (n \<le> v) \<and> within_cap (bare i) n (DMaxSize v PerToken) = (n \<le> v) \<and>
   (0 < b \<longrightarrow> requireFails (DRequire (Some b) l h None a) i (ca_meta (bare i)) = Some ''min_mcap_usd'' \<and>
      requireFails (DRequire None (Some b) h None a) i (ca_meta (bare i)) = Some ''min_liquidity_usd'' \<and>
      requireFails (DRequire None None (Some b) None a) i (ca_meta (bare i)) = Some ''min_holders'') \<and>
   requireFails (DRequire None None None None True) i (ca_meta (bare i)) = Some ''must_have_audit'' \<and>
   (given asset \<or> given pat \<longrightarrow> blockMatches re (DBlock asset chain None pat) i (ca_meta (bare i)) = Some False)"
  by (auto simp: bare_def no_meta_def usage_of_def below_def given_def)

theorem ir_blind_witness:
  "blockMatches (\<lambda>_ _. None) (DBlock (Some ''meme'') None None None) sample_intent (ca_meta (bare sample_intent)) = Some False"
  using ir_blind [where asset = "Some ''meme''" and chain = None and pat = None and i = sample_intent
      and re = "\<lambda>_ _. None"] by (simp add: given_def)

subsection \<open>The table of rules (\<open>intent-rule.service.ts\<close>)\<close>

record rule_service =
  rs_rows :: "rule list"                                  \<comment> \<open>the table, the newest first\<close>
  rs_cache :: "string \<rightharpoonup> rule list \<times> int"

definition ACTIVE_CACHE_TTL_MS :: int where "ACTIVE_CACHE_TTL_MS = 60000"

definition active_rows :: "string \<Rightarrow> rule list \<Rightarrow> rule list" where
  "active_rows u rows = sort_key (\<lambda>r. - ru_priority r) (filter (\<lambda>r. ru_userId r = u \<and> ru_status r = Active_rule) rows)"

definition of_scope :: "rule_scope option \<Rightarrow> rule list \<Rightarrow> rule list" where
  "of_scope scope rs = (case scope of None \<Rightarrow> rs | Some sc \<Rightarrow> filter (\<lambda>r. ru_scope r = sc) rs)"

definition getActive :: "int \<Rightarrow> string \<Rightarrow> rule_scope option \<Rightarrow> rule_service \<Rightarrow> rule list \<times> rule_service" where
  "getActive now u scope sv =
    (let fresh = (let rules = active_rows u (rs_rows sv)
           in (of_scope scope rules, sv\<lparr>rs_cache := (rs_cache sv)(u \<mapsto> (rules, now))\<rparr>))
     in case rs_cache sv u of None \<Rightarrow> fresh
        | Some (rules, ts) \<Rightarrow> if now - ts < ACTIVE_CACHE_TTL_MS then (of_scope scope rules, sv) else fresh)"

definition getForPrompt :: "int \<Rightarrow> string \<Rightarrow> nat \<Rightarrow> rule_service \<Rightarrow> string list \<times> rule_service" where
  "getForPrompt now u limit sv = (case getActive now u None sv of (rules, sv) \<Rightarrow> (map ru_text (take limit rules), sv))"

definition forget :: "string \<Rightarrow> rule_service \<Rightarrow> rule_service" where
  "forget u sv = sv\<lparr>rs_cache := (rs_cache sv)(u := None)\<rparr>"

definition text_of :: "string option \<Rightarrow> string" where
  "text_of s = (case s of None \<Rightarrow> '''' | Some x \<Rightarrow> x)"

text \<open>The test of \<open>findDuplicate\<close> on two rules.\<close>

fun duplicates :: "dsl \<Rightarrow> dsl \<Rightarrow> bool" where
  "duplicates (DBlock a c t p) (DBlock a' c' t' p') = (text_of t = text_of t' \<and> text_of a = text_of a' \<and> text_of c = text_of c')"
| "duplicates (DMaxSize v p) (DMaxSize v' p') = (p = p')"
| "duplicates (DRequire m l h c a) (DRequire m' l' h' c' a') = (text_of c = text_of c')"
| "duplicates (DTimeWindow _ _ _) (DTimeWindow _ _ _) = True"
| "duplicates (DApproval _ _ _) (DApproval _ _ _) = True"
| "duplicates (DPrefer _ _ _) (DPrefer _ _ _) = True"
| "duplicates _ _ = False"

definition findDuplicate :: "string \<Rightarrow> dsl \<Rightarrow> rule_scope \<Rightarrow> rule list \<Rightarrow> rule option" where
  "findDuplicate u d scope rows = List.find (\<lambda>r. duplicates (ru_dsl r) d)
     (filter (\<lambda>r. ru_userId r = u \<and> ru_scope r = scope \<and> ru_status r \<in> {Active_rule, Proposed_rule}) rows)"

record proposal =
  pr_text :: string
  pr_rule :: json
  pr_source :: rule_source
  pr_scope :: rule_scope
  pr_confidence :: real
  pr_priority :: "real option"
  pr_approvalId :: "string option"

definition set_row :: "rule \<Rightarrow> rule list \<Rightarrow> rule list" where
  "set_row x rows = map (\<lambda>r. if ru_id r = ru_id x then x else r) rows"

datatype propose_result = Merged rule | Created rule

definition propose ::
    "(string \<Rightarrow> real option) \<Rightarrow> string \<Rightarrow> string \<Rightarrow> proposal \<Rightarrow> rule_service \<Rightarrow> rule_service \<times> (rule_error + propose_result)" where
  "propose num newId u p sv = (case validateIntentRuleDsl num (pr_rule p) of Inl e \<Rightarrow> (sv, Inl e)
     | Inr d \<Rightarrow>
        let confidence = max 0 (min 1 (pr_confidence p));
            priority = max 0 (min 100 (case pr_priority p of None \<Rightarrow> 50 | Some x \<Rightarrow> x))
        in case findDuplicate u d (pr_scope p) (rs_rows sv) of
             Some dup \<Rightarrow> let merged = dup\<lparr>ru_confidence := max (ru_confidence dup) confidence\<rparr>
               in (forget u (sv\<lparr>rs_rows := set_row merged (rs_rows sv)\<rparr>), Inr (Merged merged))
           | None \<Rightarrow>
               let row = \<lparr>ru_id = newId, ru_userId = u, ru_text = take 400 (pr_text p), ru_dsl = d, ru_scope = pr_scope p,
                     ru_status = (if confidence \<ge> 7 / 10 then Active_rule else Proposed_rule), ru_source = pr_source p,
                     ru_priority = (if pr_source p = SourceChat then min priority 70 else priority), ru_confidence = confidence,
                     ru_approvalId = pr_approvalId p, ru_lastApplied = None, ru_retiredReason = None\<rparr>
               in (forget u (sv\<lparr>rs_rows := row # rs_rows sv\<rparr>), Inr (Created row)))"

definition owned_row :: "string \<Rightarrow> string \<Rightarrow> rule list \<Rightarrow> rule option" where
  "owned_row u rid rows = (case List.find (\<lambda>r. ru_id r = rid) rows of None \<Rightarrow> None
     | Some r \<Rightarrow> if ru_userId r = u then Some r else None)"

text \<open>\<open>None\<close> is the \<open>NotFoundException\<close>.\<close>

definition updateStatus :: "string \<Rightarrow> string \<Rightarrow> rule_status \<Rightarrow> string option \<Rightarrow> rule_service \<Rightarrow> rule_service \<times> rule option" where
  "updateStatus u rid status reason sv = (case owned_row u rid (rs_rows sv) of None \<Rightarrow> (sv, None)
     | Some r \<Rightarrow> let r = (if status = Retired_rule
          then r\<lparr>ru_status := status, ru_retiredReason := Some (case reason of None \<Rightarrow> ''USER_ACTION'' | Some t \<Rightarrow> t)\<rparr>
          else r\<lparr>ru_status := status\<rparr>)
        in (forget u (sv\<lparr>rs_rows := set_row r (rs_rows sv)\<rparr>), Some r))"

text \<open>The order of an enumeration in the database is the order of its declaration.\<close>

fun status_rank :: "rule_status \<Rightarrow> nat" where
  "status_rank Active_rule = 0"
| "status_rank Proposed_rule = 1"
| "status_rank Conflicted_rule = 2"
| "status_rank Retired_rule = 3"

definition listAll :: "string \<Rightarrow> rule_service \<Rightarrow> rule list" where
  "listAll u sv = sort_key (status_rank \<circ> ru_status)
     (sort_key (\<lambda>r. - ru_priority r) (filter (\<lambda>r. ru_userId r = u \<and> ru_status r \<noteq> Retired_rule) (rs_rows sv)))"

definition markApplied :: "int \<Rightarrow> string list \<Rightarrow> rule_service \<Rightarrow> rule_service" where
  "markApplied now ids sv = (if ids = [] then sv
     else sv\<lparr>rs_rows := map (\<lambda>r. if ru_id r \<in> set ids then r\<lparr>ru_lastApplied := Some now\<rparr> else r) (rs_rows sv)\<rparr>)"

record rule_patch =
  rp_text :: "string option"
  rp_rule :: "json option"
  rp_scope :: "rule_scope option"
  rp_priority :: "real option"

definition update_rule ::
    "(string \<Rightarrow> real option) \<Rightarrow> string \<Rightarrow> string \<Rightarrow> rule_patch \<Rightarrow> rule_service \<Rightarrow> rule_service \<times> (rule_error option + rule)" where
  "update_rule num u rid p sv = (case owned_row u rid (rs_rows sv) of None \<Rightarrow> (sv, Inl None)
     | Some r \<Rightarrow> (case (case rp_rule p of None \<Rightarrow> Inr (ru_dsl r) | Some j \<Rightarrow> validateIntentRuleDsl num j) of
         Inl e \<Rightarrow> (sv, Inl (Some e))
       | Inr d \<Rightarrow>
          let r = r\<lparr>ru_text := (case rp_text p of None \<Rightarrow> ru_text r | Some t \<Rightarrow> take 400 t), ru_dsl := d,
                    ru_scope := (case rp_scope p of None \<Rightarrow> ru_scope r | Some sc \<Rightarrow> sc),
                    ru_priority := (case rp_priority p of None \<Rightarrow> ru_priority r | Some x \<Rightarrow> max 0 (min 100 x))\<rparr>
          in (forget u (sv\<lparr>rs_rows := set_row r (rs_rows sv)\<rparr>), Inr r)))"

subsection \<open>A tighter rule is dropped\<close>

lemma set_row_dsl: "\<forall>r \<in> set rows. ru_id r = ru_id x \<longrightarrow> ru_dsl r = ru_dsl x \<Longrightarrow> map ru_dsl (set_row x rows) = map ru_dsl rows"
  by (auto simp: set_row_def)

text \<open>A user who already has a cap, active or merely proposed, cannot tighten it by stating a
  new one: a proposed cap with the same reach and scope is merged into the old row, whose value stays.
  The same holds for every other rule that \<open>findDuplicate\<close> takes for the old one, whatever its content:
  after the proposal the table holds exactly the rules it held before.\<close>

theorem rs_dropped:
  assumes "validateIntentRuleDsl num (pr_rule p) = Inr d"
    and "findDuplicate u d (pr_scope p) (rs_rows sv) = Some dup" and "distinct (map ru_id (rs_rows sv))"
  shows "(case propose num newId u p sv of (sv', r) \<Rightarrow> map ru_dsl (rs_rows sv') = map ru_dsl (rs_rows sv) \<and>
      map ru_status (rs_rows sv') = map ru_status (rs_rows sv) \<and>
      (case r of Inr (Merged m) \<Rightarrow> ru_dsl m = ru_dsl dup | _ \<Rightarrow> False))"
proof -
  define m where "m = dup\<lparr>ru_confidence := max (ru_confidence dup) (max 0 (min 1 (pr_confidence p)))\<rparr>"
  have dup: "dup \<in> set (rs_rows sv)"
    using assms(2) by (auto simp: findDuplicate_def find_Some_iff in_set_conv_nth dest!: nth_mem)
  have same: "r = dup" if "r \<in> set (rs_rows sv)" "ru_id r = ru_id m" for r
    using that dup assms(3) by (auto simp: m_def distinct_map inj_on_def)
  have "propose num newId u p sv = (forget u (sv\<lparr>rs_rows := set_row m (rs_rows sv)\<rparr>), Inr (Merged m))"
    using assms(1,2) by (simp add: propose_def m_def Let_def)
  moreover have "map ru_dsl (set_row m (rs_rows sv)) = map ru_dsl (rs_rows sv)"
    "map ru_status (set_row m (rs_rows sv)) = map ru_status (rs_rows sv)"
    using same by (auto simp: set_row_def m_def)
  ultimately show ?thesis by (simp add: forget_def m_def)
qed

theorem rs_dropped_witness:
  "(case propose (\<lambda>_. None) ''n'' ''u'' \<lparr>pr_text = ''at most 50 per trade'', pr_rule = JObj [(''kind'', JStr ''max_size_usd''),
       (''value'', JNum 50)], pr_source = SourceChat, pr_scope = Sizing, pr_confidence = 1, pr_priority = None,
       pr_approvalId = None\<rparr>
     \<lparr>rs_rows = [rule_of (DMaxSize 500 PerTrade)], rs_cache = Map.empty\<rparr> of
     (sv', r) \<Rightarrow> map ru_dsl (rs_rows sv') = [DMaxSize 500 PerTrade])"
  using rs_dropped [of "\<lambda>_. None" "\<lparr>pr_text = ''at most 50 per trade'', pr_rule = JObj [(''kind'', JStr ''max_size_usd''),
       (''value'', JNum 50)], pr_source = SourceChat, pr_scope = Sizing, pr_confidence = 1, pr_priority = None,
       pr_approvalId = None\<rparr>"
      "DMaxSize 50 PerTrade" "''u''" "\<lparr>rs_rows = [rule_of (DMaxSize 500 PerTrade)], rs_cache = Map.empty\<rparr>"
      "rule_of (DMaxSize 500 PerTrade)" "''n''"]
  by (simp add: validateIntentRuleDsl_def validate_kind_def finite_field_def findDuplicate_def rule_of_def split_beta)


subsection \<open>The cache of active rules\<close>

definition unmark :: "rule \<Rightarrow> rule" where
  "unmark r = r\<lparr>ru_lastApplied := None\<rparr>"

definition coherent :: "rule_service \<Rightarrow> bool" where
  "coherent sv = (distinct (map ru_id (rs_rows sv)) \<and>
     (\<forall>u rules ts. rs_cache sv u = Some (rules, ts) \<longrightarrow> map unmark rules = map unmark (active_rows u (rs_rows sv))))"

datatype rule_op =
    OpActive int string "rule_scope option"
  | OpPropose string string proposal
  | OpStatus string string rule_status "string option"
  | OpUpdate string string rule_patch
  | OpMark int "string list"

fun rule_step :: "(string \<Rightarrow> real option) \<Rightarrow> rule_op \<Rightarrow> rule_service \<Rightarrow> rule_service" where
  "rule_step num (OpActive now u scope) sv = snd (getActive now u scope sv)"
| "rule_step num (OpPropose newId u p) sv = (if newId \<in> ru_id ` set (rs_rows sv) then sv else fst (propose num newId u p sv))"
| "rule_step num (OpStatus u rid st reason) sv = fst (updateStatus u rid st reason sv)"
| "rule_step num (OpUpdate u rid p) sv = fst (update_rule num u rid p sv)"
| "rule_step num (OpMark now ids) sv = markApplied now ids sv"

lemma filter_set_row:
  "(\<And>r. r \<in> set rows \<Longrightarrow> ru_id r = ru_id x \<Longrightarrow> \<not> P r) \<Longrightarrow> \<not> P x \<Longrightarrow> filter P (set_row x rows) = filter P rows"
  by (induction rows) (simp_all add: set_row_def)

lemma map_id_set_row [simp]: "map ru_id (set_row x rows) = map ru_id rows"
  by (auto simp: set_row_def)

text \<open>Every write goes through one row of one user, and forgets what is cached for that user.\<close>

lemma write_coherent:
  assumes "coherent sv" "y \<in> set (rs_rows sv)" "ru_id x = ru_id y" "ru_userId x = ru_userId y" "ru_userId y = u"
  shows "coherent (forget u (sv\<lparr>rs_rows := set_row x (rs_rows sv)\<rparr>))"
proof -
  have "active_rows v (set_row x (rs_rows sv)) = active_rows v (rs_rows sv)" if v: "v \<noteq> u" for v
  proof -
    have "filter (\<lambda>r. ru_userId r = v \<and> ru_status r = Active_rule) (set_row x (rs_rows sv)) =
        filter (\<lambda>r. ru_userId r = v \<and> ru_status r = Active_rule) (rs_rows sv)"
    proof (rule filter_set_row)
      fix r assume "r \<in> set (rs_rows sv)" "ru_id r = ru_id x"
      then have "r = y" using assms(1-3) by (auto simp: coherent_def distinct_map inj_on_def)
      then show "\<not> (ru_userId r = v \<and> ru_status r = Active_rule)" using assms(5) v by simp
    qed (use assms v in simp)
    then show ?thesis by (simp add: active_rows_def)
  qed
  then show ?thesis using assms(1) by (simp add: coherent_def forget_def)
qed

lemma owned_row_SomeD: "owned_row u rid rows = Some r \<Longrightarrow> r \<in> set rows \<and> ru_userId r = u"
  by (auto simp: owned_row_def find_Some_iff split: option.splits if_splits)

lemma findDuplicate_SomeD: "findDuplicate u d sc rows = Some r \<Longrightarrow> r \<in> set rows \<and> ru_userId r = u"
  by (auto simp: findDuplicate_def find_Some_iff dest!: nth_mem)

lemma unmark_keeps: "ru_userId (unmark r) = ru_userId r" "ru_status (unmark r) = ru_status r" "ru_priority (unmark r) = ru_priority r"
  "ru_scope (unmark r) = ru_scope r"
  by (simp_all add: unmark_def)

lemma sort_key_map: "(\<And>x. g (f x) = h x) \<Longrightarrow> sort_key g (map f xs) = map f (sort_key h xs)"
proof (induction xs)
  case (Cons x xs)
  have ins: "insort_key g (f x) (map f ys) = map f (insort_key h x ys)" for x ys
    by (induction ys) (simp_all add: Cons.prems)
  show ?case using Cons by (simp add: ins)
qed simp

lemma active_rows_map:
  "(\<And>r. ru_userId (f r) = ru_userId r \<and> ru_status (f r) = ru_status r \<and> ru_priority (f r) = ru_priority r) \<Longrightarrow>
   active_rows u (map f rows) = map f (active_rows u rows)"
  by (simp add: active_rows_def sort_key_map [where h = "\<lambda>r. - ru_priority r"] filter_map comp_def)

definition mark_row :: "int \<Rightarrow> string list \<Rightarrow> rule \<Rightarrow> rule" where
  "mark_row now ids r = (if ru_id r \<in> set ids then r\<lparr>ru_lastApplied := Some now\<rparr> else r)"

lemma mark_row_maps:
  "map unmark (map (mark_row now ids) rs) = map unmark rs" "map ru_id (map (mark_row now ids) rs) = map ru_id rs"
  "active_rows u (map (mark_row now ids) rs) = map (mark_row now ids) (active_rows u rs)"
  by (simp add: mark_row_def unmark_def, induction rs, simp_all add: mark_row_def)
     (rule active_rows_map, simp add: mark_row_def)

lemma mark_coherent: "coherent sv \<Longrightarrow> coherent (markApplied now ids sv)"
proof -
  assume c: "coherent sv"
  have "markApplied now ids sv = (if ids = [] then sv else sv\<lparr>rs_rows := map (mark_row now ids) (rs_rows sv)\<rparr>)"
    by (simp add: markApplied_def mark_row_def)
  then show ?thesis
    using c by (simp add: coherent_def mark_row_maps del: map_map)
qed

lemma propose_coherent:
  assumes "coherent sv" "newId \<notin> ru_id ` set (rs_rows sv)"
  shows "coherent (fst (propose num newId u p sv))"
proof (cases "validateIntentRuleDsl num (pr_rule p)")
  case (Inr d)
  show ?thesis
  proof (cases "findDuplicate u d (pr_scope p) (rs_rows sv)")
    case None
    then show ?thesis using assms Inr by (auto simp: propose_def Let_def coherent_def forget_def active_rows_def)
  next
    case (Some dup)
    then show ?thesis using findDuplicate_SomeD [OF Some] Inr assms(1)
      by (simp add: propose_def Let_def write_coherent [where y = dup])
  qed
qed (simp add: propose_def assms(1))

lemma getActive_cases:
  obtains rules ts where "rs_cache sv u = Some (rules, ts)" "getActive now u scope sv = (of_scope scope rules, sv)"
  | "getActive now u scope sv = (of_scope scope (active_rows u (rs_rows sv)),
       sv\<lparr>rs_cache := (rs_cache sv)(u \<mapsto> (active_rows u (rs_rows sv), now))\<rparr>)"
proof (cases "rs_cache sv u")
  case None
  then show ?thesis using that(2) by (simp add: getActive_def Let_def)
next
  case (Some p)
  then show ?thesis using that by (cases p; cases "now - snd p < ACTIVE_CACHE_TTL_MS") (simp_all add: getActive_def Let_def)
qed

lemma active_coherent: "coherent sv \<Longrightarrow> coherent (snd (getActive now u scope sv))"
  by (rule getActive_cases [of sv u now scope]) (simp_all add: coherent_def)

lemma step_coherent: "coherent sv \<Longrightarrow> coherent (rule_step num op sv)"
proof (cases op)
  case (OpActive now u scope)
  assume "coherent sv"
  then show ?thesis unfolding OpActive by (simp add: active_coherent)
next
  case (OpPropose newId u p)
  assume "coherent sv"
  then show ?thesis unfolding OpPropose by (simp add: propose_coherent)
next
  case (OpStatus u rid st reason)
  assume c: "coherent sv"
  show ?thesis
  proof (cases "owned_row u rid (rs_rows sv)")
    case None
    then show ?thesis using c by (simp add: OpStatus updateStatus_def)
  next
    case (Some r)
    show ?thesis using owned_row_SomeD [OF Some] c Some
      by (simp add: OpStatus updateStatus_def Let_def write_coherent [where y = r])
  qed
next
  case (OpUpdate u rid p)
  assume c: "coherent sv"
  show ?thesis
  proof (cases "owned_row u rid (rs_rows sv)")
    case None
    then show ?thesis using c by (simp add: OpUpdate update_rule_def)
  next
    case (Some r)
    show ?thesis using owned_row_SomeD [OF Some] c Some
      by (simp add: OpUpdate update_rule_def Let_def write_coherent [where y = r] split: sum.split)
  qed
next
  case (OpMark now ids)
  assume "coherent sv"
  then show ?thesis unfolding OpMark by (simp add: mark_coherent)
qed

lemma steps_coherent: "coherent sv \<Longrightarrow> coherent (fold (rule_step num) ops sv)"
proof (induction ops arbitrary: sv)
  case (Cons op ops)
  show ?case using Cons.IH [OF step_coherent [OF Cons.prems]] by (simp only: fold_simps)
qed simp

lemma getActive_coherent:
  "coherent sv \<Longrightarrow> map unmark (fst (getActive now u scope sv)) = map unmark (of_scope scope (active_rows u (rs_rows sv)))"
proof (rule getActive_cases [of sv u now scope])
  have f: "map unmark (of_scope scope rs) = of_scope scope (map unmark rs)" for rs
    by (simp add: of_scope_def filter_map comp_def unmark_keeps split: option.split)
  fix rules ts assume "coherent sv" "rs_cache sv u = Some (rules, ts)" "getActive now u scope sv = (of_scope scope rules, sv)"
  moreover from this have "map unmark rules = map unmark (active_rows u (rs_rows sv))" unfolding coherent_def by blast
  ultimately show ?thesis by (simp only: f fst_conv)
qed simp



end
