(* ===== verification/Auto_Trader.thy ===== *)
theory Auto_Trader
  imports Execution Intent_Rules
begin

text \<open>
  \<open>apps/api/src/approvals\<close> and \<open>agents/autonomous-trader.worker.ts\<close>: the requests for approval, and
  the worker that trades on its own. The tables are lists; the queues are the list of jobs with the time
  from which they may run. The answer of the language model, the strategies and the trades of a user are
  parameters; conviction scores and similar episodes, which only feed prompts and statistics, are left out.
\<close>

subsection \<open>State\<close>

datatype autonomy = MANUAL | GUIDED | SEMI_AUTO | FULL_AUTO
datatype channel = WEB | TELEGRAM
datatype approval_status = PENDING | APPROVED | REJECTED | EXPIRED
datatype reject_category = TOO_RISKY | WRONG_TOKEN | BAD_TIMING | WRONG_SIZE | OTHER

record learning_config =
  lc_userId :: string
  lc_enabled :: bool
  lc_level :: autonomy
  lc_maxTradeUsd :: real
  lc_dailyLimit :: int
  lc_dailyUsed :: int
  lc_dailyResetAt :: "int option"
  lc_approvalRequired :: bool
  lc_timeoutMin :: int
  lc_channels :: "channel list"
  lc_onTimeout :: string

record approval =
  ap_id :: string
  ap_userId :: string
  ap_strategyId :: "string option"
  ap_intent :: trade_intent
  ap_executed :: "string option"        \<comment> \<open>\<open>tradeIntent.executedTradeId\<close>\<close>
  ap_status :: approval_status
  ap_expiresAt :: int
  ap_respondedAt :: "int option"
  ap_respondedVia :: "channel option"
  ap_rejectCategory :: "reject_category option"
  ap_rejectReason :: "string option"

datatype auto_job =
    AutoTick
  | AutoDecide string
  | ExecuteApproved string
  | ExtractRejection string string
  | EpisodeIngest string string string

datatype auto_event =
    Emitted string string string              \<comment> \<open>\<open>emitToUser\<close>: the user, the event, the request\<close>
  | TelegramPush string string
  | Notified string string "tmpl option"      \<comment> \<open>the user, the kind, the reason\<close>

record auto_state =
  au_configs :: "learning_config list"
  au_approvals :: "approval list"             \<comment> \<open>the oldest first\<close>
  au_rules :: rule_service
  au_ex :: ex_state
  au_jobs :: "(auto_job \<times> int) list"
  au_out :: "auto_event list"

record strategy =
  sg_id :: string
  sg_enabled :: bool
  sg_score :: "real option"
  sg_samples :: "real option option"          \<comment> \<open>the sample count of the performance row, if there is one\<close>

text \<open>The process: its environment variables, the functions of the platform, the clock of UTC, and the
  users' Telegram chats.\<close>

record trader_env =
  te_llm :: bool
  te_enforce :: bool
  te_episodic :: bool
  te_memory :: bool
  te_parse :: "string \<Rightarrow> json option"
  te_num :: "string \<Rightarrow> real option"
  te_text :: "json \<Rightarrow> string"
  te_amount :: "string \<Rightarrow> real option"
  te_regex :: "string \<Rightarrow> string \<Rightarrow> bool option"
  te_hour :: nat
  te_day :: nat
  te_chat :: "string \<Rightarrow> string option"

text \<open>What a user's tick reads from outside: the exchange, the live trades, the strategies, the answer of
  the model to the prompt of a strategy (\<open>None\<close> when the call fails), and the next identifier.\<close>

record user_world =
  uw_ex :: ex_world
  uw_trades :: "(string \<times> real option) list"
  uw_strategies :: "strategy list"
  uw_answer :: "string \<Rightarrow> string option"
  uw_newId :: string

definition enqueue :: "auto_job \<Rightarrow> int \<Rightarrow> auto_state \<Rightarrow> auto_state" where
  "enqueue j due st = st\<lparr>au_jobs := au_jobs st @ [(j, due)]\<rparr>"

definition tell :: "auto_event \<Rightarrow> auto_state \<Rightarrow> auto_state" where
  "tell e st = st\<lparr>au_out := au_out st @ [e]\<rparr>"

subsection \<open>Requests for approval (\<open>approvals.service.ts\<close>)\<close>

definition find_approval :: "string \<Rightarrow> auto_state \<Rightarrow> approval option" where
  "find_approval aid st = List.find (\<lambda>a. ap_id a = aid) (au_approvals st)"

definition update_approval :: "string \<Rightarrow> (approval \<Rightarrow> approval) \<Rightarrow> auto_state \<Rightarrow> auto_state" where
  "update_approval aid f st = st\<lparr>au_approvals := map (\<lambda>a. if ap_id a = aid then f a else a) (au_approvals st)\<rparr>"

definition approval_create ::
    "trader_env \<Rightarrow> int \<Rightarrow> string \<Rightarrow> string \<Rightarrow> string option \<Rightarrow> trade_intent \<Rightarrow> int \<Rightarrow> channel list \<Rightarrow> auto_state \<Rightarrow> auto_state" where
  "approval_create env now newId u sid i timeoutMin channels st =
    (let req = \<lparr>ap_id = newId, ap_userId = u, ap_strategyId = sid, ap_intent = i, ap_executed = None, ap_status = PENDING,
           ap_expiresAt = now + timeoutMin * 60000, ap_respondedAt = None, ap_respondedVia = None, ap_rejectCategory = None,
           ap_rejectReason = None\<rparr>;
         st = tell (Emitted u ''approval_pending'' newId) (st\<lparr>au_approvals := au_approvals st @ [req]\<rparr>)
     in if TELEGRAM \<in> set channels \<and> given (te_chat env u) then tell (TelegramPush u newId) st else st)"

datatype respond_error = ApprovalNotFound | ApprovalForbidden

definition answered :: "int \<Rightarrow> bool \<Rightarrow> channel \<Rightarrow> reject_category option \<Rightarrow> string option \<Rightarrow> approval \<Rightarrow> approval" where
  "answered now accept via category reason a =
    (let a = a\<lparr>ap_status := (if accept then APPROVED else REJECTED), ap_respondedAt := Some now, ap_respondedVia := Some via\<rparr>;
         a = (if \<not> accept \<and> category \<noteq> None then a\<lparr>ap_rejectCategory := category\<rparr> else a)
     in if \<not> accept \<and> given reason then a\<lparr>ap_rejectReason := reason\<rparr> else a)"

definition approval_respond ::
    "trader_env \<Rightarrow> int \<Rightarrow> string \<Rightarrow> string \<Rightarrow> bool \<Rightarrow> channel \<Rightarrow> reject_category option \<Rightarrow> string option \<Rightarrow> auto_state
     \<Rightarrow> auto_state \<times> (respond_error + approval)" where
  "approval_respond env now u aid accept via category reason st = (case find_approval aid st of
     None \<Rightarrow> (st, Inl ApprovalNotFound)
   | Some req \<Rightarrow>
       if ap_userId req \<noteq> u then (st, Inl ApprovalForbidden)
       else if ap_status req \<noteq> PENDING then (st, Inr req)
       else let st = tell (Emitted u ''approval_resolved'' aid) (update_approval aid (answered now accept via category reason) st);
                st = (if accept then enqueue (ExecuteApproved aid) now st
                      else if te_memory env then enqueue (ExtractRejection u aid) now st else st)
            in (st, Inr (answered now accept via category reason req)))"

definition expired :: "int \<Rightarrow> approval \<Rightarrow> approval" where
  "expired now a = a\<lparr>ap_status := EXPIRED, ap_respondedAt := Some now\<rparr>"

definition approval_expire :: "int \<Rightarrow> string \<Rightarrow> auto_state \<Rightarrow> auto_state \<times> approval option" where
  "approval_expire now aid st = (case find_approval aid st of
     None \<Rightarrow> (st, None)
   | Some a \<Rightarrow> if ap_status a \<noteq> PENDING then (st, Some a) else (update_approval aid (expired now) st, Some (expired now a)))"

definition approval_listPending :: "string \<Rightarrow> auto_state \<Rightarrow> approval list" where
  "approval_listPending u st = rev (filter (\<lambda>a. ap_userId a = u \<and> ap_status a = PENDING) (au_approvals st))"

text \<open>\<open>approval-expirer.worker.ts\<close>\<close>

definition is_due :: "int \<Rightarrow> approval \<Rightarrow> bool" where
  "is_due now a = (ap_status a = PENDING \<and> ap_expiresAt a \<le> now)"

definition expirer_run :: "int \<Rightarrow> auto_state \<Rightarrow> auto_state \<times> nat" where
  "expirer_run now st =
    (st\<lparr>au_approvals := map (\<lambda>a. if is_due now a then expired now a else a) (au_approvals st)\<rparr>,
     length (filter (is_due now) (au_approvals st)))"

subsection \<open>The proposal of the model\<close>

definition MIN_SCORE_TO_ACT :: real where "MIN_SCORE_TO_ACT = 5 / 10"
definition MAX_CANDIDATES_PER_TICK_PER_USER :: nat where "MAX_CANDIDATES_PER_TICK_PER_USER = 1"
definition AUTO_RETIRE_MIN_SAMPLE :: real where "AUTO_RETIRE_MIN_SAMPLE = 10"
definition AUTO_RETIRE_SCORE_FLOOR :: real where "AUTO_RETIRE_SCORE_FLOOR = 25 / 100"

text \<open>The match of \<open>/\{[\s\S]*\}/\<close>: from the first opening brace to the last closing one.\<close>

definition braces :: "string \<Rightarrow> string option" where
  "braces raw = (let t = rev (dropWhile (\<lambda>c. c \<noteq> CHR 0x7D) (rev (dropWhile (\<lambda>c. c \<noteq> CHR 0x7B) raw)))
     in if t = [] then None else Some t)"

definition js_String :: "(json \<Rightarrow> string) \<Rightarrow> json option \<Rightarrow> string" where
  "js_String txt v = (case v of None \<Rightarrow> ''undefined'' | Some (JStr s) \<Rightarrow> s | Some JNull \<Rightarrow> ''null''
     | Some (JBool b) \<Rightarrow> (if b then ''true'' else ''false'') | Some x \<Rightarrow> txt x)"

definition num_field :: "(string \<Rightarrow> real option) \<Rightarrow> json option \<Rightarrow> real option" where
  "num_field num v = (case v of None \<Rightarrow> None | Some x \<Rightarrow> js_Number num x)"

definition clamp_slippage :: "real option \<Rightarrow> real" where
  "clamp_slippage v = max 50 (min 300 (case v of None \<Rightarrow> 100 | Some r \<Rightarrow> if r = 0 then 100 else r))"

definition read_intent :: "trader_env \<Rightarrow> json \<Rightarrow> trade_intent option" where
  "read_intent env p =
    (if jget p ''action'' \<noteq> Some (JStr ''trade'') then None
     else case num_field (te_num env) (jget p ''notionalUsd'') of None \<Rightarrow> None
     | Some notional \<Rightarrow>
         if notional \<le> 0 then None
         else if \<not> truthy (jget p ''tokenIn'') \<or> \<not> truthy (jget p ''tokenOut'') \<or> \<not> truthy (jget p ''walletId'') \<or>
             \<not> truthy (jget p ''amountIn'') then None
         else Some \<lparr>nt_chain = js_String (te_text env) (jget p ''chain''), nt_tokenIn = js_String (te_text env) (jget p ''tokenIn''),
             nt_tokenOut = js_String (te_text env) (jget p ''tokenOut''), nt_amountIn = js_String (te_text env) (jget p ''amountIn''),
             nt_notionalUsd = notional, nt_slippageBps = clamp_slippage (num_field (te_num env) (jget p ''slippageBps'')),
             nt_side = (if jget p ''side'' = Some (JStr ''sell'') then ''sell'' else ''buy''),
             nt_walletId = js_String (te_text env) (jget p ''walletId''),
             nt_reason = (case jget p ''reason'' of None \<Rightarrow> '''' | Some JNull \<Rightarrow> '''' | v \<Rightarrow> js_String (te_text env) v)\<rparr>)"

definition proposeIntent :: "trader_env \<Rightarrow> string option \<Rightarrow> trade_intent option" where
  "proposeIntent env answer = (if \<not> te_llm env then None
     else case answer of None \<Rightarrow> None
     | Some raw \<Rightarrow> (case braces raw of None \<Rightarrow> None
     | Some t \<Rightarrow> (case te_parse env t of None \<Rightarrow> None | Some p \<Rightarrow> read_intent env p)))"

text \<open>The strategies a tick looks at.\<close>

definition acts :: "strategy \<Rightarrow> bool" where
  "acts s = (sg_enabled s \<and> (case sg_score s of None \<Rightarrow> False | Some x \<Rightarrow> x \<ge> MIN_SCORE_TO_ACT))"

definition keeps :: "strategy \<Rightarrow> bool" where
  "keeps s = (case sg_samples s of None \<Rightarrow> True
     | Some n \<Rightarrow> \<not> ((case n of None \<Rightarrow> 0 | Some x \<Rightarrow> x) \<ge> AUTO_RETIRE_MIN_SAMPLE \<and>
                   (case sg_score s of None \<Rightarrow> 0 | Some x \<Rightarrow> x) < AUTO_RETIRE_SCORE_FLOOR))"

definition pick_strategies :: "strategy list \<Rightarrow> strategy list" where
  "pick_strategies ss = take MAX_CANDIDATES_PER_TICK_PER_USER (filter keeps
     (take (MAX_CANDIDATES_PER_TICK_PER_USER * 3)
       (sort_key (\<lambda>s. - (case sg_score s of None \<Rightarrow> 0 | Some x \<Rightarrow> x)) (filter acts ss))))"

subsection \<open>The daily cap\<close>

definition dailyCapState :: "int \<Rightarrow> learning_config \<Rightarrow> int \<times> int \<times> bool" where
  "dailyCapState now cfg =
    (let resetExpired = (case lc_dailyResetAt cfg of None \<Rightarrow> True | Some t \<Rightarrow> t < now);
         used = (if resetExpired then 0 else lc_dailyUsed cfg)
     in (used, lc_dailyLimit cfg - used, resetExpired))"

definition bumped :: "int \<Rightarrow> learning_config \<Rightarrow> learning_config" where
  "bumped now cfg = (case dailyCapState now cfg of (_, _, resetExpired) \<Rightarrow>
     if resetExpired then cfg\<lparr>lc_dailyUsed := 1, lc_dailyResetAt := Some (now + 24 * 3600000)\<rparr>
     else cfg\<lparr>lc_dailyUsed := lc_dailyUsed cfg + 1\<rparr>)"

definition bumpDailyUsage :: "int \<Rightarrow> string \<Rightarrow> auto_state \<Rightarrow> auto_state" where
  "bumpDailyUsage now u st =
     st\<lparr>au_configs := map (\<lambda>c. if lc_userId c = u then bumped now c else c) (au_configs st)\<rparr>"

subsection \<open>One tick of one user\<close>

definition episode :: "trader_env \<Rightarrow> int \<Rightarrow> string \<Rightarrow> string \<Rightarrow> trade_intent \<Rightarrow> auto_state \<Rightarrow> auto_state" where
  "episode env now u kind i st = (if te_episodic env then enqueue (EpisodeIngest u kind (nt_tokenOut i)) now st else st)"

definition mark_rules :: "int \<Rightarrow> decision \<Rightarrow> auto_state \<Rightarrow> auto_state" where
  "mark_rules now d st = st\<lparr>au_rules := markApplied now (de_applied d) (au_rules st)\<rparr>"

text \<open>How a stage ends: it throws (an invalid regular expression), it skips the strategy, or it goes on.\<close>

datatype 'a gate = Threw | Skipped | Passed 'a

definition rule_gate :: "trader_env \<Rightarrow> int \<Rightarrow> string \<Rightarrow> trade_intent \<Rightarrow> auto_state \<Rightarrow> auto_state \<times> (trade_intent \<times> bool) gate" where
  "rule_gate env now u i st =
    (if \<not> te_enforce env then (st, Passed (i, False))
     else case getActive now u None (au_rules st) of (rules, sv) \<Rightarrow>
       let st = st\<lparr>au_rules := sv\<rparr>
       in if rules = [] then (st, Passed (i, False))
          else case enforce (te_regex env) (te_hour env) (te_day env) (bare i) rules of
            None \<Rightarrow> (st, Threw)
          | Some d \<Rightarrow>
              if \<not> de_ok d
              then (episode env now u ''REJECTED'' i (mark_rules now d (tell (Notified u ''INTENT_RULE_BLOCKED'' (de_reason d)) st)),
                    Skipped)
              else (mark_rules now d st, Passed (final_intent i d, de_approval d)))"

definition intent_guard :: "string \<Rightarrow> trade_intent \<Rightarrow> gr_intent" where
  "intent_guard u i = \<lparr>gi_userId = u, gi_tokenAddress = nt_tokenOut i, gi_notionalUsd = nt_notionalUsd i,
     gi_slippageBps = nt_slippageBps i, gi_riskFlags = []\<rparr>"

definition guard_gate :: "trader_env \<Rightarrow> user_world \<Rightarrow> int \<Rightarrow> string \<Rightarrow> trade_intent \<Rightarrow> auto_state \<Rightarrow> auto_state \<times> bool" where
  "guard_gate env w now u i st =
    (case gr_check (xw_used (uw_ex w) u) (intent_guard u i) (es_guardrails (au_ex st)) of (refusal, db) \<Rightarrow>
      let st = st\<lparr>au_ex := (au_ex st)\<lparr>es_guardrails := db\<rparr>\<rparr>
      in if refusal \<noteq> None then (episode env now u ''REJECTED'' i st, False)
         else if \<not> fst (concentrationCheck (uw_trades w) (nt_tokenOut i) (nt_notionalUsd i))
         then (episode env now u ''REJECTED'' i st, False)
         else (st, True))"

definition swap_of :: "trader_env \<Rightarrow> string \<Rightarrow> string option \<Rightarrow> trade_intent \<Rightarrow> swap_input" where
  "swap_of env u sid i = \<lparr>si_userId = u, si_walletId = nt_walletId i,
     si_chain = (if nt_chain i = ''SOLANA'' then ''SOLANA'' else ''EVM''), si_evmChainId = None, si_tokenIn = nt_tokenIn i,
     si_tokenOut = nt_tokenOut i, si_amountIn = te_amount env (nt_amountIn i), si_notionalUsd = nt_notionalUsd i,
     si_slippageBps = nt_slippageBps i, si_riskFlags = [], si_orderId = None, si_strategyId = sid,
     si_applyDynamicSizing = False\<rparr>"

definition execute_now :: "trader_env \<Rightarrow> user_world \<Rightarrow> int \<Rightarrow> string \<Rightarrow> strategy \<Rightarrow> trade_intent \<Rightarrow> auto_state \<Rightarrow> auto_state \<times> bool" where
  "execute_now env w now u s i st = (case ex_swap (uw_ex w) now (swap_of env u (Some (sg_id s)) i) (au_ex st) of (ex, r) \<Rightarrow>
     let st = st\<lparr>au_ex := ex\<rparr>
     in case r of
          Inr _ \<Rightarrow> (tell (Notified u ''AUTONOMOUS_TRADE'' None) (bumpDailyUsage now u st), True)
        | Inl _ \<Rightarrow> (tell (Notified u ''AUTONOMOUS_FAILED'' None) st, False))"

definition needs_approval :: "learning_config \<Rightarrow> bool \<Rightarrow> bool" where
  "needs_approval cfg force = (lc_level cfg = SEMI_AUTO \<or> (lc_level cfg = FULL_AUTO \<and> lc_approvalRequired cfg) \<or> force)"

definition route :: "trader_env \<Rightarrow> user_world \<Rightarrow> int \<Rightarrow> learning_config \<Rightarrow> strategy \<Rightarrow> trade_intent \<Rightarrow> bool \<Rightarrow> auto_state
    \<Rightarrow> auto_state \<times> bool" where
  "route env w now cfg s i force st =
    (let u = lc_userId cfg
     in if lc_level cfg = GUIDED then (tell (Notified u ''STRATEGY_SUGGESTION'' None) st, True)
        else if needs_approval cfg force
        then let channels = (if lc_channels cfg \<noteq> [] then lc_channels cfg else [WEB]);
                 st = approval_create env now (uw_newId w) u (Some (sg_id s)) i (lc_timeoutMin cfg) channels st;
                 st = enqueue (AutoDecide (uw_newId w)) (now + lc_timeoutMin cfg * 60000) st
             in (episode env now u ''APPROVED'' i st, True)
        else execute_now env w now u s i st)"

definition cap_notional :: "real \<Rightarrow> trade_intent \<Rightarrow> trade_intent" where
  "cap_notional m i = (if nt_notionalUsd i > m then i\<lparr>nt_notionalUsd := m\<rparr> else i)"

definition strategy_step ::
    "trader_env \<Rightarrow> user_world \<Rightarrow> int \<Rightarrow> learning_config \<Rightarrow> strategy \<Rightarrow> auto_state \<Rightarrow> auto_state \<times> bool gate" where
  "strategy_step env w now cfg s st = (case proposeIntent env (uw_answer w (sg_id s)) of
     None \<Rightarrow> (st, Skipped)
   | Some i \<Rightarrow> (case rule_gate env now (lc_userId cfg) (cap_notional (lc_maxTradeUsd cfg) i) st of
       (st, Threw) \<Rightarrow> (st, Threw)
     | (st, Skipped) \<Rightarrow> (st, Skipped)
     | (st, Passed (i, force)) \<Rightarrow> (case guard_gate env w now (lc_userId cfg) i st of
         (st, False) \<Rightarrow> (st, Skipped)
       | (st, True) \<Rightarrow> (case route env w now cfg s i force st of (st, acted) \<Rightarrow> (st, Passed acted)))))"

fun run_strategies ::
    "trader_env \<Rightarrow> user_world \<Rightarrow> int \<Rightarrow> learning_config \<Rightarrow> strategy list \<Rightarrow> auto_state \<times> bool \<Rightarrow> auto_state \<times> bool gate" where
  "run_strategies env w now cfg [] (st, acted) = (st, Passed acted)"
| "run_strategies env w now cfg (s # ss) (st, acted) = (case strategy_step env w now cfg s st of
     (st, Threw) \<Rightarrow> (st, Threw)
   | (st, Skipped) \<Rightarrow> run_strategies env w now cfg ss (st, acted)
   | (st, Passed a) \<Rightarrow> run_strategies env w now cfg ss (st, acted \<or> a))"

definition runForUser :: "trader_env \<Rightarrow> user_world \<Rightarrow> int \<Rightarrow> learning_config \<Rightarrow> auto_state \<Rightarrow> auto_state \<times> bool gate" where
  "runForUser env w now cfg st = (case dailyCapState now cfg of (_, remaining, _) \<Rightarrow>
     if remaining \<le> 0 then (st, Passed False)
     else run_strategies env w now cfg (pick_strategies (uw_strategies w)) (st, False))"

subsection \<open>The jobs of the worker\<close>

definition eligible :: "learning_config \<Rightarrow> bool" where
  "eligible cfg = (lc_enabled cfg \<and> lc_level cfg \<noteq> MANUAL)"

definition auto_tick :: "trader_env \<Rightarrow> (string \<Rightarrow> user_world) \<Rightarrow> int \<Rightarrow> auto_state \<Rightarrow> auto_state" where
  "auto_tick env w now st =
     foldl (\<lambda>st cfg. fst (runForUser env (w (lc_userId cfg)) now cfg st)) st (filter eligible (au_configs st))"

text \<open>The part of \<open>executeApproved\<close> after the request has been read.\<close>

definition execute_request :: "trader_env \<Rightarrow> ex_world \<Rightarrow> int \<Rightarrow> approval \<Rightarrow> auto_state \<Rightarrow> auto_state" where
  "execute_request env w now req st =
    (if given (ap_executed req) then st
     else case ex_swap w now (swap_of env (ap_userId req) (if given (ap_strategyId req) then ap_strategyId req else None)
         (ap_intent req)) (au_ex st) of (ex, r) \<Rightarrow>
       let st = st\<lparr>au_ex := ex\<rparr>
       in case r of
            Inr res \<Rightarrow>
              tell (Notified (ap_userId req) ''AUTONOMOUS_TRADE'' None) (bumpDailyUsage now (ap_userId req)
                (update_approval (ap_id req) (\<lambda>a. a\<lparr>ap_status := APPROVED, ap_respondedAt := Some now,
                    ap_intent := ap_intent req, ap_executed := Some (sr_tradeId res)\<rparr>) st))
          | Inl _ \<Rightarrow> tell (Notified (ap_userId req) ''AUTONOMOUS_FAILED'' None) st)"

definition executeApproved :: "trader_env \<Rightarrow> ex_world \<Rightarrow> int \<Rightarrow> string \<Rightarrow> auto_state \<Rightarrow> auto_state" where
  "executeApproved env w now aid st = (case find_approval aid st of None \<Rightarrow> st | Some req \<Rightarrow> execute_request env w now req st)"

definition timeout_policy :: "string \<Rightarrow> auto_state \<Rightarrow> string" where
  "timeout_policy u st = (case List.find (\<lambda>c. lc_userId c = u) (au_configs st) of None \<Rightarrow> ''reject'' | Some c \<Rightarrow> lc_onTimeout c)"

definition handleAutoDecide :: "trader_env \<Rightarrow> ex_world \<Rightarrow> int \<Rightarrow> string \<Rightarrow> auto_state \<Rightarrow> auto_state" where
  "handleAutoDecide env w now aid st = (case find_approval aid st of None \<Rightarrow> st
     | Some req \<Rightarrow>
         if ap_status req \<noteq> PENDING then st
         else if timeout_policy (ap_userId req) st = ''reject'' then update_approval aid (expired now) st
         else executeApproved env w now aid st)"

fun worker_job :: "trader_env \<Rightarrow> (string \<Rightarrow> user_world) \<Rightarrow> (string \<Rightarrow> ex_world) \<Rightarrow> int \<Rightarrow> auto_job \<Rightarrow> auto_state \<Rightarrow> auto_state" where
  "worker_job env w xw now AutoTick st = auto_tick env w now st"
| "worker_job env w xw now (AutoDecide aid) st = handleAutoDecide env (xw aid) now aid st"
| "worker_job env w xw now (ExecuteApproved aid) st = executeApproved env (xw aid) now aid st"
| "worker_job env w xw now _ st = st"

subsection \<open>What the worker may execute\<close>

lemma frames [simp]:
  "au_ex (tell e st) = au_ex st" "au_ex (enqueue j due st) = au_ex st" "au_ex (episode env now u k i st) = au_ex st"
  "au_ex (mark_rules now dn st) = au_ex st" "au_ex (bumpDailyUsage now u st) = au_ex st"
  "au_ex (update_approval aid f st) = au_ex st" "au_ex (approval_create env now nid u sid i m ch st) = au_ex st"
  by (simp_all add: tell_def enqueue_def episode_def mark_rules_def bumpDailyUsage_def update_approval_def
      approval_create_def Let_def)

lemma rule_gate_ex [simp]: "au_ex (fst (rule_gate env now u i st)) = au_ex st"
  by (simp add: rule_gate_def Let_def split_beta split: option.split)

lemma rule_gate_passed:
  assumes "rule_gate env now u i st = (st', Passed (i', force))"
  obtains "i' = i" "\<not> force" "\<not> te_enforce env \<or> fst (getActive now u None (au_rules st)) = []"
  | d where "te_enforce env" "de_ok d" "i' = final_intent i d" "force = de_approval d"
    "enforce (te_regex env) (te_hour env) (te_day env) (bare i) (fst (getActive now u None (au_rules st))) = Some d"
  using assms that unfolding rule_gate_def
  by (force simp: Let_def split_beta split: if_splits option.splits)

lemma guard_gate_onchain [simp]:
  "es_onchain (au_ex (fst (guard_gate env w now u i st))) = es_onchain (au_ex st)"
  by (simp add: guard_gate_def Let_def split_beta)

lemma guard_gate_passed: "guard_gate env w now u i st = (st', True) \<Longrightarrow>
    fst (gr_check (xw_used (uw_ex w) u) (intent_guard u i) (es_guardrails (au_ex st))) = None \<and>
    fst (concentrationCheck (uw_trades w) (nt_tokenOut i) (nt_notionalUsd i))"
  by (auto simp: guard_gate_def Let_def split_beta split: if_splits)

lemma cap_notional_le: "nt_notionalUsd (cap_notional m i) \<le> m"
  by (simp add: cap_notional_def)

lemma cap_notional_amount [simp]: "nt_amountIn (cap_notional m i) = nt_amountIn i"
  by (simp add: cap_notional_def)

lemma pick_length: "pick_strategies ss = [] \<or> (\<exists>s. pick_strategies ss = [s] \<and> s \<in> set ss \<and> acts s)"
proof (cases "pick_strategies ss")
  case (Cons s rest)
  have "s \<in> set (pick_strategies ss)" using Cons by simp
  then have "s \<in> set ss" "acts s"
    by (auto simp: pick_strategies_def dest!: in_set_takeD)
  moreover have "length (pick_strategies ss) \<le> 1" by (simp add: pick_strategies_def MAX_CANDIDATES_PER_TICK_PER_USER_def)
  then have "rest = []" using Cons by simp
  ultimately show ?thesis using Cons by blast
qed simp

text \<open>The input that \<open>swap\<close> runs with: without dynamic sizing only an empty amount changes.\<close>

lemma unsized: "\<not> si_applyDynamicSizing i \<Longrightarrow> apply_sizing w i = i"
  by (simp add: apply_sizing_def)

lemma swap_input_of:
  assumes "normalise_amount xw (swap_of env u sid i) = Inr j"
  shows "apply_sizing xw j = j \<and> si_userId j = u \<and> si_tokenOut j = nt_tokenOut i \<and> si_notionalUsd j = nt_notionalUsd i \<and>
    si_slippageBps j = nt_slippageBps i \<and> (te_amount env (nt_amountIn i) \<noteq> None \<longrightarrow> si_amountIn j = te_amount env (nt_amountIn i))"
  using assms by (auto simp: normalise_amount_def swap_of_def unsized split: if_splits)

lemma execute_onchain:
  "es_onchain (fst (ex_swap xw now (swap_of env u sid i) ex)) = es_onchain ex \<or>
   (\<exists>j hash. normalise_amount xw (swap_of env u sid i) = Inr j \<and>
      es_onchain (fst (ex_swap xw now (swap_of env u sid i) ex)) = es_onchain ex @ [(j, hash)])"
proof (cases rule: swap_cases [of xw now "swap_of env u sid i" ex])
  case (refused e)
  then show ?thesis by simp
next
  case (ran j sa mode sb hash out)
  have "es_onchain sa = es_onchain ex" using clear_frame(1) [of xw now "apply_sizing xw j" ex] ran(2) by simp
  moreover have "apply_sizing xw j = j" using swap_input_of [OF ran(1)] by simp
  ultimately show ?thesis using ran(1,4) run_onchain [OF ran(3)] by (cases mode) auto
qed

definition freely :: "learning_config \<Rightarrow> bool" where
  "freely cfg = (lc_level cfg \<noteq> GUIDED \<and> \<not> needs_approval cfg False)"

lemma route_onchain:
  "es_onchain (au_ex (fst (route env w now cfg s i force st))) = es_onchain (au_ex st) \<or>
   (freely cfg \<and> \<not> force \<and> (\<exists>j hash. normalise_amount (uw_ex w) (swap_of env (lc_userId cfg) (Some (sg_id s)) i) = Inr j \<and>
      es_onchain (au_ex (fst (route env w now cfg s i force st))) = es_onchain (au_ex st) @ [(j, hash)]))"
proof (cases "lc_level cfg = GUIDED \<or> needs_approval cfg force")
  case True
  then show ?thesis by (auto simp: route_def Let_def)
next
  case False
  then have r: "route env w now cfg s i force st = execute_now env w now (lc_userId cfg) s i st" and f: "freely cfg" "\<not> force"
    by (auto simp: route_def freely_def needs_approval_def)
  have "au_ex (fst (execute_now env w now (lc_userId cfg) s i st)) =
      fst (ex_swap (uw_ex w) now (swap_of env (lc_userId cfg) (Some (sg_id s)) i) (au_ex st))"
    by (simp add: execute_now_def Let_def split_beta split: sum.split)
  then show ?thesis
    unfolding r using f execute_onchain [of "uw_ex w" now env "lc_userId cfg" "Some (sg_id s)" i "au_ex st"] by simp
qed

text \<open>The rules allow a trade of a notional as it is.\<close>

definition rules_allow :: "trader_env \<Rightarrow> trade_intent \<Rightarrow> rule list \<Rightarrow> bool" where
  "rules_allow env i rules = (\<forall>r \<in> set rules. blockMatches (te_regex env) (ru_dsl r) i no_meta = Some False \<and>
     requireFails (ru_dsl r) i no_meta = None \<and> in_window (te_hour env) (te_day env) (ru_dsl r) \<and>
     within_cap (bare i) (nt_notionalUsd i) (ru_dsl r) \<and> \<not> escalates (ru_dsl r) i)"

lemma bare_sel [simp]: "ca_intent (bare i) = i" "ca_meta (bare i) = no_meta" "ca_dailyUsd (bare i) = None"
    "ca_perTokenUsd (bare i) = None"
  by (simp_all add: bare_def)

lemma within_cap_bare: "within_cap (bare i) n d = within_cap (bare i') n d"
  by (cases "(bare i, n, d)" rule: within_cap.cases) simp_all

lemma blockMatches_notional: "blockMatches re d (i\<lparr>nt_notionalUsd := x\<rparr>) m = blockMatches re d i m"
  by (cases d) simp_all

lemma requireFails_notional: "requireFails d (i\<lparr>nt_notionalUsd := x\<rparr>) m = requireFails d i m"
  by (cases d) simp_all

lemma foldl_min_le: "foldl min x xs \<le> (x :: real)"
proof (induction xs arbitrary: x)
  case (Cons a xs)
  show ?case using Cons.IH [of "min x a"] by simp
qed simp

lemma gate_sound:
  assumes "rule_gate env now u i st = (st', Passed (i', False))"
  shows "nt_notionalUsd i' \<le> nt_notionalUsd i \<and> nt_amountIn i' = nt_amountIn i \<and> nt_tokenOut i' = nt_tokenOut i \<and>
    (te_enforce env \<longrightarrow> rules_allow env i' (fst (getActive now u None (au_rules st))))"
  using assms
proof (cases rule: rule_gate_passed)
  case 1
  then show ?thesis by (auto simp: rules_allow_def)
next
  case (2 d)
  let ?rules = "fst (getActive now u None (au_rules st))"
  define n where "n = foldl min (nt_notionalUsd i) (trade_caps ?rules)"
  note e = enforce_sound [OF 2(5) 2(2), unfolded Let_def bare_sel, folded 2(3)]
  have ne: "\<not> (\<exists>r \<in> set ?rules. escalates (ru_dsl r) i')" using e 2(4) by blast
  have i': "i' = i\<lparr>nt_notionalUsd := n\<rparr>" unfolding n_def using e by blast
  have n: "nt_notionalUsd i' = n" by (simp add: i')
  have "rules_allow env i' ?rules"
    unfolding rules_allow_def
  proof (intro ballI conjI)
    fix r assume r: "r \<in> set ?rules"
    with e have a: "blockMatches (te_regex env) (ru_dsl r) i no_meta = Some False" "requireFails (ru_dsl r) i no_meta = None"
      "in_window (te_hour env) (te_day env) (ru_dsl r)" "within_cap (bare i) (nt_notionalUsd i') (ru_dsl r)" by blast+
    show "blockMatches (te_regex env) (ru_dsl r) i' no_meta = Some False" "requireFails (ru_dsl r) i' no_meta = None"
      using a(1,2) by (simp_all only: i' blockMatches_notional requireFails_notional)
    show "in_window (te_hour env) (te_day env) (ru_dsl r)" by (rule a(3))
    show "within_cap (bare i') (nt_notionalUsd i') (ru_dsl r)" using a(4) within_cap_bare by blast
    show "\<not> escalates (ru_dsl r) i'" using ne r by blast
  qed
  moreover have "n \<le> nt_notionalUsd i" unfolding n_def by (rule foldl_min_le)
  ultimately show ?thesis using n by (simp add: i')
qed

text \<open>The outcome of one strategy.\<close>

definition sound_trade ::
    "trader_env \<Rightarrow> user_world \<Rightarrow> int \<Rightarrow> learning_config \<Rightarrow> auto_state \<Rightarrow> strategy \<Rightarrow> trade_intent \<Rightarrow> swap_input \<Rightarrow> bool" where
  "sound_trade env w now cfg st s i j =
    (proposeIntent env (uw_answer w (sg_id s)) = Some i \<and> freely cfg \<and> si_userId j = lc_userId cfg \<and>
     si_tokenOut j = nt_tokenOut i \<and> si_notionalUsd j \<le> lc_maxTradeUsd cfg \<and> si_notionalUsd j \<le> nt_notionalUsd i \<and>
     (te_enforce env \<longrightarrow> (\<exists>i'. nt_notionalUsd i' = si_notionalUsd j \<and> nt_tokenOut i' = si_tokenOut j \<and>
        rules_allow env i' (fst (getActive now (lc_userId cfg) None (au_rules st))))) \<and>
     fst (concentrationCheck (uw_trades w) (si_tokenOut j) (si_notionalUsd j)) \<and>
     (te_amount env (nt_amountIn i) \<noteq> None \<longrightarrow> si_amountIn j = te_amount env (nt_amountIn i)))"

lemma strategy_onchain:
  "es_onchain (au_ex (fst (strategy_step env w now cfg s st))) = es_onchain (au_ex st) \<or>
   (\<exists>i j hash. es_onchain (au_ex (fst (strategy_step env w now cfg s st))) = es_onchain (au_ex st) @ [(j, hash)] \<and>
      sound_trade env w now cfg st s i j)"
proof (cases "proposeIntent env (uw_answer w (sg_id s))")
  case None
  then show ?thesis by (simp add: strategy_step_def)
next
  case (Some i)
  note p = Some
  obtain sr g where r: "rule_gate env now (lc_userId cfg) (cap_notional (lc_maxTradeUsd cfg) i) st = (sr, g)" by force
  have sr: "au_ex sr = au_ex st" using rule_gate_ex r by (metis fst_conv)
  show ?thesis
  proof (cases g)
    case (Passed x)
    obtain i' force where x: "x = (i', force)" by force
    obtain sg ok where gg: "guard_gate env w now (lc_userId cfg) i' sr = (sg, ok)" by force
    have sg: "es_onchain (au_ex sg) = es_onchain (au_ex st)" using guard_gate_onchain gg sr by (metis fst_conv)
    show ?thesis
    proof (cases ok)
      case True
      have eq: "fst (strategy_step env w now cfg s st) = fst (route env w now cfg s i' force sg)"
        using p r Passed x gg True by (simp add: strategy_step_def split: prod.split)
      show ?thesis
        using route_onchain [of env w now cfg s i' force sg]
      proof (elim disjE conjE exE)
        fix j hash
        assume f: "freely cfg" "\<not> force" and n: "normalise_amount (uw_ex w) (swap_of env (lc_userId cfg) (Some (sg_id s)) i') = Inr j"
          and on: "es_onchain (au_ex (fst (route env w now cfg s i' force sg))) = es_onchain (au_ex sg) @ [(j, hash)]"
        have gs: "nt_notionalUsd i' \<le> nt_notionalUsd (cap_notional (lc_maxTradeUsd cfg) i)" "nt_amountIn i' = nt_amountIn i"
          "nt_tokenOut i' = nt_tokenOut i"
          "te_enforce env \<longrightarrow> rules_allow env i' (fst (getActive now (lc_userId cfg) None (au_rules st)))"
          using gate_sound [of env now "lc_userId cfg" "cap_notional (lc_maxTradeUsd cfg) i" st sr i'] r Passed x f(2)
          by (simp_all add: cap_notional_def split: if_splits)
        have "sound_trade env w now cfg st s i j"
          unfolding sound_trade_def
          using swap_input_of [OF n] guard_gate_passed [of env w now "lc_userId cfg" i' sr sg] gg True gs p f(1)
            cap_notional_le [of "lc_maxTradeUsd cfg" i] by (force simp: cap_notional_def split: if_splits)
        then show ?thesis using on eq sg by auto
      qed (simp add: eq sg)
    next
      case False
      have "fst (strategy_step env w now cfg s st) = sg"
        using p r Passed x gg False by (simp add: strategy_step_def)
      then show ?thesis using sg by simp
    qed
  qed (use p r sr in \<open>simp_all add: strategy_step_def\<close>)
qed


subsection \<open>A concrete tick\<close>

definition sample_cfg :: learning_config where
  "sample_cfg = \<lparr>lc_userId = ''u'', lc_enabled = True, lc_level = FULL_AUTO, lc_maxTradeUsd = 100, lc_dailyLimit = 3,
     lc_dailyUsed = 0, lc_dailyResetAt = None, lc_approvalRequired = False, lc_timeoutMin = 5, lc_channels = [],
     lc_onTimeout = ''execute''\<rparr>"

definition sample_env :: trader_env where
  "sample_env = \<lparr>te_llm = True, te_enforce = False, te_episodic = False, te_memory = False,
     te_parse = (\<lambda>_. Some (JObj [(''action'', JStr ''trade''), (''chain'', JStr ''SOLANA''), (''tokenIn'', JStr ''usdc''),
       (''tokenOut'', JStr SOL_MINT), (''walletId'', JStr ''w''), (''amountIn'', JStr ''900000000''),
       (''notionalUsd'', JNum 900)])),
     te_num = (\<lambda>_. None), te_text = (\<lambda>_. ''''), te_amount = (\<lambda>s. if s = ''900000000'' then Some 900000000 else None),
     te_regex = (\<lambda>_ _. None), te_hour = 0, te_day = 0, te_chat = (\<lambda>_. None)\<rparr>"

definition sample_world :: user_world where
  "sample_world = \<lparr>uw_ex = plain_world\<lparr>xw_strategies := {''s''}\<rparr>, uw_trades = [(''other'', Some 1000)],
     uw_strategies = [\<lparr>sg_id = ''s'', sg_enabled = True, sg_score = Some 1, sg_samples = None\<rparr>],
     uw_answer = (\<lambda>_. Some ''{}''), uw_newId = ''n''\<rparr>"

definition new_auto :: auto_state where
  "new_auto = \<lparr>au_configs = [sample_cfg], au_approvals = [], au_rules = \<lparr>rs_rows = [], rs_cache = Map.empty\<rparr>,
     au_ex = new_ex_state, au_jobs = [], au_out = []\<rparr>"

text \<open>The stages of the sample tick, for any identifier that the database gives out.\<close>

definition capped_intent :: trade_intent where
  "capped_intent = \<lparr>nt_chain = ''SOLANA'', nt_tokenIn = ''usdc'', nt_tokenOut = SOL_MINT, nt_amountIn = ''900000000'',
     nt_notionalUsd = 100, nt_slippageBps = 100, nt_side = ''buy'', nt_walletId = ''w'', nt_reason = ''''\<rparr>"

definition sample_strategy :: strategy where
  "sample_strategy = \<lparr>sg_id = ''s'', sg_enabled = True, sg_score = Some 1, sg_samples = None\<rparr>"

lemma sample_pick: "pick_strategies (uw_strategies sample_world) = [sample_strategy]"
  by (simp add: sample_strategy_def sample_world_def pick_strategies_def acts_def keeps_def MIN_SCORE_TO_ACT_def
      MAX_CANDIDATES_PER_TICK_PER_USER_def)

lemma sample_proposal:
  "proposeIntent sample_env (uw_answer sample_world ''s'') = Some (capped_intent\<lparr>nt_notionalUsd := 900\<rparr>)"
  by (simp add: sample_world_def proposeIntent_def sample_env_def braces_def read_intent_def num_field_def js_String_def
      clamp_slippage_def SOL_MINT_def capped_intent_def)

lemma sample_guard:
  assumes "au_ex st = new_ex_state"
  shows "guard_gate sample_env (sample_world\<lparr>uw_newId := nid\<rparr>) now ''u'' capped_intent st =
    (st\<lparr>au_ex := new_ex_state\<lparr>es_guardrails := [''u'' \<mapsto> new_gr_config]\<rparr>\<rparr>, True)"
  using assms by (simp add: guard_gate_def intent_guard_def capped_intent_def new_ex_state_def Let_def gr_check_def
      gr_config_of_def new_gr_config_def sample_world_def plain_world_def concentrationCheck_def SOL_MINT_def)

lemma sample_tick:
  assumes "au_ex st = new_ex_state" "lc_userId cfg = ''u''" "lc_maxTradeUsd cfg = 100" "lc_dailyLimit cfg = 3" "lc_dailyResetAt cfg = None"
  shows "fst (runForUser sample_env (sample_world\<lparr>uw_newId := nid\<rparr>) 0 cfg st) =
    fst (route sample_env (sample_world\<lparr>uw_newId := nid\<rparr>) 0 cfg sample_strategy capped_intent False
      (st\<lparr>au_ex := new_ex_state\<lparr>es_guardrails := [''u'' \<mapsto> new_gr_config]\<rparr>\<rparr>))"
proof -
  have te: "\<not> te_enforce sample_env" by (simp add: sample_env_def)
  have i: "capped_intent\<lparr>nt_notionalUsd := 100\<rparr> = capped_intent" by (simp add: capped_intent_def)
  have p: "proposeIntent sample_env (uw_answer sample_world (sg_id sample_strategy)) =
      Some (capped_intent\<lparr>nt_notionalUsd := 900\<rparr>)"
    using sample_proposal by (simp add: sample_strategy_def)
  show ?thesis
    using assms sample_guard [OF assms(1)]
    by (simp add: runForUser_def dailyCapState_def sample_pick strategy_step_def p rule_gate_def cap_notional_def i te
        split: prod.split)
qed

definition sample_ex :: ex_state where
  "sample_ex = new_ex_state\<lparr>es_guardrails := [''u'' \<mapsto> new_gr_config]\<rparr>"

definition sample_input :: swap_input where
  "sample_input = swap_of sample_env ''u'' (Some ''s'') capped_intent"

lemma sample_swap:
  "es_onchain (fst (ex_swap (uw_ex sample_world) 0 sample_input sample_ex)) = [(sample_input, ''sig'')]"
  "\<exists>res. snd (ex_swap (uw_ex sample_world) 0 sample_input sample_ex) = Inr res \<and> sr_tradeId res = ''t1''"
proof -
  let ?e = "uw_ex sample_world"
  have sell: "inferSwapSide ''usdc'' SOL_MINT = Sell"
    by (simp add: inferSwapSide_def is_quote_def QUOTE_TOKENS_def SOL_MINT_def to_lower_def lower_char_def
        upper_letters_def lower_letters_def)
  note x_defs = sample_input_def swap_of_def capped_intent_def sample_env_def
  have j: "normalise_amount ?e sample_input = Inr sample_input" by (simp add: normalise_amount_def x_defs)
  have "\<exists>sa. clear_swap ?e 0 sample_input sample_ex = (sa, Inr LIVE) \<and> es_onchain sa = []"
    using sell by (simp add: clear_swap_def emit_def new_ex_state_def plain_world_def sample_world_def sample_ex_def x_defs
        gr_check_def gr_config_of_def new_gr_config_def Let_def)
  then obtain sa where sa: "clear_swap ?e 0 sample_input sample_ex = (sa, Inr LIVE)" "es_onchain sa = []" by blast
  have "executeSolana ?e sample_input = Inr (''sig'', 7)"
    by (simp add: executeSolana_def plain_world_def sample_world_def sample_input_def swap_of_def capped_intent_def
        MAX_SWAP_ATTEMPTS_def numeral_3_eq_3 Let_def)
  then have r: "run_swap ?e LIVE sample_input sa = (sa\<lparr>es_onchain := [(sample_input, ''sig'')]\<rparr>, Inr (''sig'', 7))"
    using sa(2) by (simp add: run_swap_def sample_input_def swap_of_def capped_intent_def)
  have d: "si_applyDynamicSizing sample_input = False" and s: "si_strategyId sample_input = Some ''s''"
    by (simp_all add: sample_input_def swap_of_def)
  then show "es_onchain (fst (ex_swap ?e 0 sample_input sample_ex)) = [(sample_input, ''sig'')]"
    using j sa r by (simp add: ex_swap_def unsized)
  have w: "xw_strategies ?e = {''s''}" "xw_newId ?e = ''t1''" by (simp_all add: sample_world_def plain_world_def)
  show "\<exists>res. snd (ex_swap ?e 0 sample_input sample_ex) = Inr res \<and> sr_tradeId res = ''t1''"
    using j sa r d s w by (simp add: ex_swap_def unsized record_swap_def trade_created_def Let_def)
qed

text \<open>A full tick: the limit per trade of 100 dollars cuts the notional of the proposal, 900 dollars, and
  the whole amount of 900 million units is swapped.\<close>

lemma at_example:
  "map (\<lambda>p. (si_notionalUsd (fst p), si_amountIn (fst p)))
     (es_onchain (au_ex (fst (runForUser sample_env sample_world 0 sample_cfg new_auto)))) = [(100, Some 900000000)]"
proof -
  have w: "sample_world\<lparr>uw_newId := uw_newId sample_world\<rparr> = sample_world" by simp
  have "es_onchain (au_ex (fst (runForUser sample_env sample_world 0 sample_cfg new_auto))) = [(sample_input, ''sig'')]"
    using sample_swap(1) sample_tick [of new_auto sample_cfg "uw_newId sample_world"] unfolding w sample_input_def sample_ex_def
    by (simp add: sample_cfg_def new_auto_def route_def needs_approval_def execute_now_def Let_def sample_strategy_def
        split_beta split: sum.split)
  then show ?thesis by (simp add: sample_input_def swap_of_def capped_intent_def sample_env_def)
qed

subsection \<open>The life of a request\<close>

definition well_formed :: "approval \<Rightarrow> bool" where
  "well_formed a = ((ap_executed a \<noteq> None \<longrightarrow> given (ap_executed a) \<and> ap_status a = APPROVED) \<and>
     (ap_status a = APPROVED \<and> ap_executed a = None \<longrightarrow> ap_respondedVia a \<noteq> None))"

definition auto_inv :: "auto_state \<Rightarrow> bool" where
  "auto_inv st = (distinct (map ap_id (au_approvals st)) \<and> distinct (map lc_userId (au_configs st)) \<and>
     (\<forall>a \<in> set (au_approvals st). well_formed a) \<and>
     (\<forall>aid. ExecuteApproved aid \<in> fst ` set (au_jobs st) \<longrightarrow>
        (\<exists>a \<in> set (au_approvals st). ap_id a = aid \<and> ap_status a = APPROVED)))"

text \<open>What may become of a request in one step.\<close>

definition fate :: "auto_state \<Rightarrow> approval \<Rightarrow> approval \<Rightarrow> bool" where
  "fate st a a' = (ap_id a' = ap_id a \<and> ap_userId a' = ap_userId a \<and> ap_intent a' = ap_intent a \<and>
     (ap_status a \<in> {REJECTED, EXPIRED} \<or> ap_executed a \<noteq> None \<longrightarrow> a' = a) \<and>
     (ap_status a = APPROVED \<longrightarrow> ap_status a' = APPROVED) \<and>
     (ap_executed a = None \<and> ap_executed a' \<noteq> None \<longrightarrow>
        ap_status a = APPROVED \<and> ap_respondedVia a \<noteq> None \<or>
        ap_status a = PENDING \<and> timeout_policy (ap_userId a) st \<noteq> ''reject''))"

lemma fate_refl [simp]: "fate st a a"
  by (auto simp: fate_def)

text \<open>A step that maps the rows, and may add one job that executes an approved row.\<close>

lemma inv_map:
  assumes inv: "auto_inv st"
    and rows: "au_approvals st' = map g (au_approvals st)" and ids: "map lc_userId (au_configs st') = map lc_userId (au_configs st)"
    and g: "\<And>a. a \<in> set (au_approvals st) \<Longrightarrow> fate st a (g a) \<and> well_formed (g a)"
    and jobs: "\<And>aid. ExecuteApproved aid \<in> fst ` set (au_jobs st') \<Longrightarrow> ExecuteApproved aid \<in> fst ` set (au_jobs st) \<or>
        (\<exists>a \<in> set (au_approvals st). ap_id (g a) = aid \<and> ap_status (g a) = APPROVED)"
  shows "auto_inv st' \<and> (\<forall>a \<in> set (au_approvals st). \<exists>a' \<in> set (au_approvals st'). fate st a a')"
proof (intro conjI)
  have "map ap_id (map g (au_approvals st)) = map ap_id (au_approvals st)" using g by (simp add: fate_def)
  then have "distinct (map ap_id (map g (au_approvals st)))" using inv unfolding auto_inv_def by presburger
  moreover have "\<exists>a \<in> set (au_approvals st). ap_id (g a) = aid \<and> ap_status (g a) = APPROVED"
    if "ExecuteApproved aid \<in> fst ` set (au_jobs st')" for aid
    using jobs [OF that]
  proof
    assume "ExecuteApproved aid \<in> fst ` set (au_jobs st)"
    then obtain a where "a \<in> set (au_approvals st)" "ap_id a = aid" "ap_status a = APPROVED"
      using inv unfolding auto_inv_def by blast
    then show ?thesis using g [of a] unfolding fate_def by blast
  qed
  ultimately show "auto_inv st'"
    using inv g unfolding auto_inv_def rows ids by (simp del: map_map)
  show "\<forall>a \<in> set (au_approvals st). \<exists>a' \<in> set (au_approvals st'). fate st a a'"
    using g unfolding rows by auto
qed

lemma find_approvalD:
  "find_approval aid st = Some a \<Longrightarrow> a \<in> set (au_approvals st) \<and> ap_id a = aid"
  by (auto simp: find_approval_def find_Some_iff)

lemma same_id: "auto_inv st \<Longrightarrow> a \<in> set (au_approvals st) \<Longrightarrow> b \<in> set (au_approvals st) \<Longrightarrow> ap_id a = ap_id b \<Longrightarrow> a = b"
  by (auto simp: auto_inv_def distinct_map inj_on_def)

lemma row_frames [simp]:
  "au_approvals (tell e st) = au_approvals st" "au_approvals (enqueue j due st) = au_approvals st"
  "au_approvals (bumpDailyUsage now u st) = au_approvals st"
  "au_approvals (update_approval aid f st) = map (\<lambda>a. if ap_id a = aid then f a else a) (au_approvals st)"
  "au_jobs (tell e st) = au_jobs st" "au_jobs (enqueue j due st) = au_jobs st @ [(j, due)]"
  "au_jobs (bumpDailyUsage now u st) = au_jobs st" "au_jobs (update_approval aid f st) = au_jobs st"
  "au_configs (tell e st) = au_configs st" "au_configs (enqueue j due st) = au_configs st"
  "au_configs (update_approval aid f st) = au_configs st"
  "map lc_userId (au_configs (bumpDailyUsage now u st)) = map lc_userId (au_configs st)"
  by (simp_all add: tell_def enqueue_def bumpDailyUsage_def update_approval_def bumped_def split_beta)

abbreviation safe_step :: "auto_state \<Rightarrow> auto_state \<Rightarrow> bool" where
  "safe_step st st' \<equiv> auto_inv st' \<and> (\<forall>a \<in> set (au_approvals st). \<exists>a' \<in> set (au_approvals st'). fate st a a')"

lemma safe_refl: "auto_inv st \<Longrightarrow> safe_step st st"
  by (blast intro: fate_refl)

text \<open>One row changes.\<close>

lemma inv_update:
  assumes inv: "auto_inv st" and a: "a \<in> set (au_approvals st)"
    and rows: "au_approvals st' = map (\<lambda>b. if ap_id b = ap_id a then f b else b) (au_approvals st)"
    and ids: "map lc_userId (au_configs st') = map lc_userId (au_configs st)"
    and f: "fate st a (f a)" "well_formed (f a)"
    and jobs: "\<And>aid. ExecuteApproved aid \<in> fst ` set (au_jobs st') \<Longrightarrow> ExecuteApproved aid \<in> fst ` set (au_jobs st) \<or>
        aid = ap_id a \<and> ap_status (f a) = APPROVED"
  shows "safe_step st st'"
proof (rule inv_map [OF inv rows ids])
  fix b assume b: "b \<in> set (au_approvals st)"
  show "fate st b (if ap_id b = ap_id a then f b else b) \<and> well_formed (if ap_id b = ap_id a then f b else b)"
    using same_id [OF inv b a] f inv b by (auto simp: auto_inv_def)
next
  fix aid assume "ExecuteApproved aid \<in> fst ` set (au_jobs st')"
  from jobs [OF this] show "ExecuteApproved aid \<in> fst ` set (au_jobs st) \<or>
      (\<exists>b \<in> set (au_approvals st). ap_id (if ap_id b = ap_id a then f b else b) = aid \<and>
         ap_status (if ap_id b = ap_id a then f b else b) = APPROVED)"
    using a f(1) by (auto simp: fate_def)
qed

lemma respond_safe:
  assumes "auto_inv st"
  shows "safe_step st (fst (approval_respond env now u aid accept via category reason st))"
proof (cases "find_approval aid st")
  case None
  then show ?thesis using safe_refl [OF assms] by (simp add: approval_respond_def)
next
  case (Some a)
  show ?thesis
  proof (cases "ap_userId a = u \<and> ap_status a = PENDING")
    case True
    have a: "a \<in> set (au_approvals st)" "ap_id a = aid" using find_approvalD [OF Some] by simp_all
    have "ap_executed a = None" using a(1) assms True by (auto simp: auto_inv_def well_formed_def)
    then have f: "fate st a (answered now accept via category reason a)" "well_formed (answered now accept via category reason a)"
      using True by (simp_all add: answered_def Let_def fate_def well_formed_def)
    have st: "ap_status (answered now accept via category reason a) = (if accept then APPROVED else REJECTED)"
      by (simp add: answered_def Let_def)
    show ?thesis
      by (rule inv_update [OF assms a(1), where f = "answered now accept via category reason"])
         (use Some True a(2) st f in \<open>auto simp: approval_respond_def Let_def split: if_splits\<close>)
  qed (use Some safe_refl [OF assms] in \<open>simp add: approval_respond_def\<close>)
qed

lemma expired_fate: "ap_status a = PENDING \<Longrightarrow> well_formed a \<Longrightarrow> fate st a (expired now a) \<and> well_formed (expired now a)"
  by (auto simp: expired_def fate_def well_formed_def)

lemma update_expired_safe:
  assumes "auto_inv st" "find_approval aid st = Some a" "ap_status a = PENDING"
  shows "safe_step st (update_approval aid (expired now) st)"
proof (rule inv_update [OF assms(1), of a])
  show a: "a \<in> set (au_approvals st)" using find_approvalD [OF assms(2)] by simp
  then have w: "well_formed a" using assms(1) by (simp add: auto_inv_def)
  show "fate st a (expired now a)" "well_formed (expired now a)" using expired_fate [OF assms(3) w] by simp_all
qed (use find_approvalD [OF assms(2)] in simp_all)

lemma expire_safe: "auto_inv st \<Longrightarrow> safe_step st (fst (approval_expire now aid st))"
  using update_expired_safe [of st aid _ now] safe_refl
  by (auto simp: approval_expire_def split: option.split)

lemma expirer_safe: "auto_inv st \<Longrightarrow> safe_step st (fst (expirer_run now st))"
proof (rule inv_map [of _ _ "\<lambda>a. if is_due now a then expired now a else a"])
  fix a assume "auto_inv st" "a \<in> set (au_approvals st)"
  then have "well_formed a" by (simp add: auto_inv_def)
  then show "fate st a (if is_due now a then expired now a else a) \<and> well_formed (if is_due now a then expired now a else a)"
    using expired_fate [of a st now] by (simp add: is_due_def)
qed (simp_all add: expirer_run_def)

lemma execute_safe:
  assumes inv: "auto_inv st" and new: "xw_newId xw \<noteq> ''''"
    and ok: "\<And>a. find_approval aid st = Some a \<Longrightarrow> ap_status a = APPROVED \<or>
        ap_status a = PENDING \<and> timeout_policy (ap_userId a) st \<noteq> ''reject''"
  shows "safe_step st (executeApproved env xw now aid st)"
proof (cases "find_approval aid st")
  case None
  then show ?thesis using safe_refl [OF inv] by (simp add: executeApproved_def)
next
  case (Some a)
  note found = Some
  have a: "a \<in> set (au_approvals st)" "ap_id a = aid" using find_approvalD [OF Some] by simp_all
  have w: "well_formed a" using a(1) inv by (simp add: auto_inv_def)
  show ?thesis
  proof (cases "given (ap_executed a)")
    case True
    then show ?thesis using found safe_refl [OF inv] by (simp add: executeApproved_def execute_request_def)
  next
    case False
    then have un: "ap_executed a = None" using w by (auto simp: well_formed_def)
    let ?i = "swap_of env (ap_userId a) (if given (ap_strategyId a) then ap_strategyId a else None) (ap_intent a)"
    obtain ex r where r: "ex_swap xw now ?i (au_ex st) = (ex, r)" by force
    show ?thesis
    proof (cases r)
      case (Inl e)
      have "executeApproved env xw now aid st = tell (Notified (ap_userId a) ''AUTONOMOUS_FAILED'' None) (st\<lparr>au_ex := ex\<rparr>)"
        using found False r Inl by (simp add: executeApproved_def execute_request_def)
      moreover have "safe_step st (tell (Notified (ap_userId a) ''AUTONOMOUS_FAILED'' None) (st\<lparr>au_ex := ex\<rparr>))"
        by (rule inv_map [OF inv, of _ "\<lambda>a. a"]) (use inv in \<open>simp_all add: auto_inv_def\<close>)
      ultimately show ?thesis by simp
    next
      case (Inr res)
      have id: "sr_tradeId res = xw_newId xw"
        using r Inr by (auto simp: ex_swap_def record_swap_def trade_created_def Let_def split: sum.splits prod.splits if_splits)
      let ?f = "\<lambda>b. b\<lparr>ap_status := APPROVED, ap_respondedAt := Some now, ap_intent := ap_intent a, ap_executed := Some (sr_tradeId res)\<rparr>"
      have "executeApproved env xw now aid st = tell (Notified (ap_userId a) ''AUTONOMOUS_TRADE'' None)
          (bumpDailyUsage now (ap_userId a) (update_approval aid ?f (st\<lparr>au_ex := ex\<rparr>)))"
        using found False r Inr a(2) by (simp add: executeApproved_def execute_request_def)
      moreover have "safe_step st (tell (Notified (ap_userId a) ''AUTONOMOUS_TRADE'' None)
          (bumpDailyUsage now (ap_userId a) (update_approval aid ?f (st\<lparr>au_ex := ex\<rparr>))))"
      proof (rule inv_update [OF inv a(1), of _ ?f])
        show "fate st a (?f a)" using ok [OF found] un w by (auto simp: fate_def well_formed_def)
        show "well_formed (?f a)" using id new by (simp add: well_formed_def given_def)
      qed (simp_all add: a(2))
      ultimately show ?thesis by simp
    qed
  qed
qed

lemma decide_safe:
  assumes "auto_inv st" "xw_newId xw \<noteq> ''''"
  shows "safe_step st (handleAutoDecide env xw now aid st)"
proof (cases "find_approval aid st")
  case None
  then show ?thesis using safe_refl [OF assms(1)] by (simp add: handleAutoDecide_def)
next
  case (Some a)
  consider "ap_status a \<noteq> PENDING" | "ap_status a = PENDING" "timeout_policy (ap_userId a) st = ''reject''"
    | "ap_status a = PENDING" "timeout_policy (ap_userId a) st \<noteq> ''reject''" by blast
  then show ?thesis
  proof cases
    case 1
    then show ?thesis using safe_refl [OF assms(1)] Some by (simp add: handleAutoDecide_def)
  next
    case 2
    then show ?thesis using update_expired_safe [OF assms(1) Some] Some by (simp add: handleAutoDecide_def)
  next
    case 3
    have "handleAutoDecide env xw now aid st = executeApproved env xw now aid st" using 3 Some by (simp add: handleAutoDecide_def)
    moreover have "safe_step st (executeApproved env xw now aid st)"
      by (rule execute_safe [OF assms]) (use 3 Some in simp)
    ultimately show ?thesis by simp
  qed
qed

text \<open>A tick only adds rows, pending ones, and no job that executes one.\<close>

definition grows :: "string set \<Rightarrow> auto_state \<Rightarrow> auto_state \<Rightarrow> bool" where
  "grows ids st st' = (\<exists>news njobs. au_approvals st' = au_approvals st @ news \<and> au_jobs st' = au_jobs st @ njobs \<and>
     map lc_userId (au_configs st') = map lc_userId (au_configs st) \<and> distinct (map ap_id news) \<and> ap_id ` set news \<subseteq> ids \<and>
     (\<forall>a \<in> set news. ap_status a = PENDING \<and> ap_executed a = None) \<and>
     (\<forall>aid. ExecuteApproved aid \<notin> fst ` set njobs))"

lemma grows_quiet: "au_approvals st' = au_approvals st \<Longrightarrow> au_jobs st' = au_jobs st @ njobs \<Longrightarrow>
    map lc_userId (au_configs st') = map lc_userId (au_configs st) \<Longrightarrow> (\<forall>aid. ExecuteApproved aid \<notin> fst ` set njobs) \<Longrightarrow>
    grows ids st st'"
  unfolding grows_def by (intro exI [of _ "[]"] exI [of _ njobs]) simp

lemma grows_refl: "grows ids st st"
  by (rule grows_quiet [of _ _ "[]"]) simp_all

lemma grows_trans:
  assumes "grows ids st st'" "grows ids' st' st''" "ids \<inter> ids' = {}"
  shows "grows (ids \<union> ids') st st''"
proof -
  obtain n1 j1 where 1: "au_approvals st' = au_approvals st @ n1" "au_jobs st' = au_jobs st @ j1"
    "map lc_userId (au_configs st') = map lc_userId (au_configs st)" "distinct (map ap_id n1)" "ap_id ` set n1 \<subseteq> ids"
    "\<forall>a \<in> set n1. ap_status a = PENDING \<and> ap_executed a = None" "\<forall>aid. ExecuteApproved aid \<notin> fst ` set j1"
    using assms(1) unfolding grows_def by blast
  obtain n2 j2 where 2: "au_approvals st'' = au_approvals st' @ n2" "au_jobs st'' = au_jobs st' @ j2"
    "map lc_userId (au_configs st'') = map lc_userId (au_configs st')" "distinct (map ap_id n2)" "ap_id ` set n2 \<subseteq> ids'"
    "\<forall>a \<in> set n2. ap_status a = PENDING \<and> ap_executed a = None" "\<forall>aid. ExecuteApproved aid \<notin> fst ` set j2"
    using assms(2) unfolding grows_def by blast
  have "ap_id ` set n1 \<inter> ap_id ` set n2 = {}" using 1(5) 2(5) assms(3) by blast
  then show ?thesis
    unfolding grows_def using 1 2
    by (intro exI [of _ "n1 @ n2"] exI [of _ "j1 @ j2"]) (auto simp: image_Un)
qed

lemma grows_mono:
  assumes "grows ids st st'" "ids \<subseteq> ids'"
  shows "grows ids' st st'"
proof -
  obtain news njobs where "au_approvals st' = au_approvals st @ news" "au_jobs st' = au_jobs st @ njobs"
    "map lc_userId (au_configs st') = map lc_userId (au_configs st)" "distinct (map ap_id news)" and i: "ap_id ` set news \<subseteq> ids"
    "\<forall>a \<in> set news. ap_status a = PENDING \<and> ap_executed a = None" "\<forall>aid. ExecuteApproved aid \<notin> fst ` set njobs"
    using assms(1) unfolding grows_def by blast
  moreover have "ap_id ` set news \<subseteq> ids'" using i(1) assms(2) by (rule subset_trans)
  ultimately show ?thesis
    unfolding grows_def by (intro exI [of _ news] exI [of _ njobs] conjI)
qed

lemma episode_parts [simp]: "au_approvals (episode env now u k i st) = au_approvals st"
  "au_configs (episode env now u k i st) = au_configs st"
  "au_jobs (episode env now u k i st) = au_jobs st @ (if te_episodic env then [(EpisodeIngest u k (nt_tokenOut i), now)] else [])"
  by (simp_all add: episode_def)

lemma mark_parts [simp]: "au_approvals (mark_rules now dn st) = au_approvals st" "au_configs (mark_rules now dn st) = au_configs st"
  "au_jobs (mark_rules now dn st) = au_jobs st"
  by (simp_all add: mark_rules_def)

lemma rule_gate_grows: "grows {} st (fst (rule_gate env now u i st))"
proof -
  have "\<exists>njobs. au_approvals (fst (rule_gate env now u i st)) = au_approvals st \<and> au_jobs (fst (rule_gate env now u i st)) = au_jobs st @ njobs \<and>
      au_configs (fst (rule_gate env now u i st)) = au_configs st \<and> (\<forall>aid. ExecuteApproved aid \<notin> fst ` set njobs)"
    by (auto simp: rule_gate_def Let_def split_beta split: option.split)
  then show ?thesis using grows_quiet by metis
qed

lemma guard_gate_grows: "grows {} st (fst (guard_gate env w now u i st))"
  by (rule grows_quiet [of _ _ "if fst (gr_check (xw_used (uw_ex w) u) (intent_guard u i) (es_guardrails (au_ex st))) \<noteq> None \<or>
      \<not> fst (concentrationCheck (uw_trades w) (nt_tokenOut i) (nt_notionalUsd i))
      then if te_episodic env then [(EpisodeIngest u ''REJECTED'' (nt_tokenOut i), now)] else [] else []"])
     (auto simp: guard_gate_def Let_def split_beta)

lemma execute_now_grows: "grows {} st (fst (execute_now env w now u s i st))"
  by (rule grows_quiet [of _ _ "[]"]) (auto simp: execute_now_def Let_def split_beta split: sum.split)

lemma create_parts:
  "au_approvals (approval_create env now nid u sid i m ch st) = au_approvals st @ [\<lparr>ap_id = nid, ap_userId = u, ap_strategyId = sid,
     ap_intent = i, ap_executed = None, ap_status = PENDING, ap_expiresAt = now + m * 60000, ap_respondedAt = None,
     ap_respondedVia = None, ap_rejectCategory = None, ap_rejectReason = None\<rparr>]"
  "au_jobs (approval_create env now nid u sid i m ch st) = au_jobs st"
  "au_configs (approval_create env now nid u sid i m ch st) = au_configs st"
  by (simp_all add: approval_create_def Let_def tell_def)

lemma route_grows: "grows {uw_newId w} st (fst (route env w now cfg s i force st))"
proof -
  consider "lc_level cfg = GUIDED" | "lc_level cfg \<noteq> GUIDED" "needs_approval cfg force"
    | "lc_level cfg \<noteq> GUIDED" "\<not> needs_approval cfg force" by blast
  then show ?thesis
  proof cases
    case 1
    then show ?thesis by (intro grows_quiet [of _ _ "[]"]) (simp_all add: route_def Let_def)
  next
    case 2
    then show ?thesis
      unfolding grows_def by (auto simp: route_def Let_def create_parts)
  next
    case 3
    then have "route env w now cfg s i force st = execute_now env w now (lc_userId cfg) s i st" by (simp add: route_def)
    then show ?thesis using grows_mono [OF execute_now_grows] by simp
  qed
qed

lemma strategy_grows: "grows {uw_newId w} st (fst (strategy_step env w now cfg s st))"
proof (cases "proposeIntent env (uw_answer w (sg_id s))")
  case None
  then show ?thesis by (simp add: strategy_step_def grows_refl)
next
  case (Some i)
  note p = Some
  obtain sr g where r: "rule_gate env now (lc_userId cfg) (cap_notional (lc_maxTradeUsd cfg) i) st = (sr, g)" by force
  have sr: "grows {} st sr" using rule_gate_grows r by (metis fst_conv)
  show ?thesis
  proof (cases g)
    case (Passed x)
    obtain i' force where x: "x = (i', force)" by force
    obtain sg ok where gg: "guard_gate env w now (lc_userId cfg) i' sr = (sg, ok)" by force
    have sg: "grows {} st sg" using grows_trans [OF sr, of "{}" sg] guard_gate_grows gg by (metis Un_empty_left fst_conv inf_bot_left)
    have "fst (strategy_step env w now cfg s st) = (if ok then fst (route env w now cfg s i' force sg) else sg)"
      using p r Passed x gg by (simp add: strategy_step_def split: prod.split)
    then show ?thesis
      using grows_trans [OF sg route_grows] grows_mono [OF sg] by simp
  qed (use p r grows_mono [OF sr] in \<open>simp_all add: strategy_step_def\<close>)
qed

lemma user_grows: "grows {uw_newId w} st (fst (runForUser env w now cfg st))"
proof (cases "fst (snd (dailyCapState now cfg)) \<le> 0")
  case True
  then show ?thesis by (simp add: runForUser_def split_beta grows_refl)
next
  case False
  then have run: "runForUser env w now cfg st = run_strategies env w now cfg (pick_strategies (uw_strategies w)) (st, False)"
    by (simp add: runForUser_def split_beta)
  show ?thesis
    using pick_length [of "uw_strategies w"]
  proof (elim disjE exE conjE)
    fix s assume s: "pick_strategies (uw_strategies w) = [s]"
    have "fst (runForUser env w now cfg st) = fst (strategy_step env w now cfg s st)"
      unfolding run s by (simp split: prod.split gate.split)
    then show ?thesis using strategy_grows by simp
  qed (simp add: run grows_refl)
qed

lemma tick_grows:
  assumes "inj (\<lambda>u. uw_newId (w u))" "distinct (map lc_userId cfgs)"
  shows "grows ((\<lambda>c. uw_newId (w (lc_userId c))) ` set cfgs) st
    (foldl (\<lambda>st cfg. fst (runForUser env (w (lc_userId cfg)) now cfg st)) st cfgs)"
  using assms(2)
proof (induction cfgs arbitrary: st)
  case Nil
  then show ?case by (simp add: grows_refl)
next
  case (Cons c cs)
  let ?f = "\<lambda>c. uw_newId (w (lc_userId c))" and ?st = "fst (runForUser env (w (lc_userId c)) now c st)"
  have "?f c \<noteq> ?f d" if "d \<in> set cs" for d
    using that Cons.prems injD [OF assms(1), of "lc_userId c" "lc_userId d"] by auto
  then have d: "{?f c} \<inter> ?f ` set cs = {}" by blast
  have ih: "grows (?f ` set cs) ?st (foldl (\<lambda>st cfg. fst (runForUser env (w (lc_userId cfg)) now cfg st)) ?st cs)"
    using Cons.IH [of ?st] Cons.prems by simp
  show ?case using grows_trans [OF user_grows ih d] by simp
qed

text \<open>Rows that are added keep the invariant.\<close>

lemma grows_safe:
  assumes inv: "auto_inv st" and g: "grows ids st st'" and fresh: "ids \<inter> ap_id ` set (au_approvals st) = {}"
  shows "safe_step st st'"
proof -
  obtain news njobs where n: "au_approvals st' = au_approvals st @ news" "au_jobs st' = au_jobs st @ njobs"
    "map lc_userId (au_configs st') = map lc_userId (au_configs st)" "distinct (map ap_id news)" and i: "ap_id ` set news \<subseteq> ids"
    and p: "\<forall>a \<in> set news. ap_status a = PENDING \<and> ap_executed a = None" and j: "\<forall>aid. ExecuteApproved aid \<notin> fst ` set njobs"
    using g unfolding grows_def by blast
  have "ap_id ` set (au_approvals st) \<inter> ap_id ` set news = {}" using i fresh by blast
  then have "distinct (map ap_id (au_approvals st'))" using inv n(1,4) by (simp add: auto_inv_def)
  moreover have "well_formed a" if "a \<in> set (au_approvals st')" for a
    using that inv p unfolding n(1) auto_inv_def by (auto simp: well_formed_def)
  moreover have "\<exists>a \<in> set (au_approvals st'). ap_id a = aid \<and> ap_status a = APPROVED"
    if "ExecuteApproved aid \<in> fst ` set (au_jobs st')" for aid
  proof -
    have "ExecuteApproved aid \<in> fst ` set (au_jobs st)" using that j unfolding n(2) by auto
    then show ?thesis using inv unfolding auto_inv_def n(1) by auto
  qed
  ultimately have "auto_inv st'" using inv unfolding auto_inv_def n(3) by blast
  moreover have "\<exists>a' \<in> set (au_approvals st'). fate st a a'" if "a \<in> set (au_approvals st)" for a
    using that by (intro bexI [of _ a]) (simp_all add: n(1))
  ultimately show ?thesis by blast
qed

lemma tick_safe:
  assumes "auto_inv st" "inj (\<lambda>u. uw_newId (w u))" "\<And>u. uw_newId (w u) \<notin> ap_id ` set (au_approvals st)"
  shows "safe_step st (auto_tick env w now st)"
proof -
  have "distinct (map lc_userId (filter eligible (au_configs st)))" using assms(1) by (simp add: auto_inv_def distinct_map_filter)
  from grows_safe [OF assms(1) tick_grows [OF assms(2) this]]
  show ?thesis unfolding auto_tick_def using assms(3) by fastforce
qed

text \<open>The steps of the system: the user answers, a request expires, or the worker runs a job of its queue,
  or the repeated tick. A job stays in the queue, so it may run again. The identifiers that the database
  gives out are new and not empty.\<close>

inductive auto_step :: "trader_env \<Rightarrow> auto_state \<Rightarrow> auto_state \<Rightarrow> bool" for env where
  Respond: "auto_step env st (fst (approval_respond env now u aid accept via category reason st))"
| Expire: "auto_step env st (fst (approval_expire now aid st))"
| Expirer: "auto_step env st (fst (expirer_run now st))"
| Tick: "inj (\<lambda>u. uw_newId (w u)) \<Longrightarrow> (\<And>u. uw_newId (w u) \<notin> ap_id ` set (au_approvals st)) \<Longrightarrow>
    auto_step env st (worker_job env w xw now AutoTick st)"
| Job: "(j, due) \<in> set (au_jobs st) \<Longrightarrow> due \<le> now \<Longrightarrow> j \<noteq> AutoTick \<Longrightarrow> (\<And>aid. xw_newId (xw aid) \<noteq> '''') \<Longrightarrow>
    auto_step env st (worker_job env w xw now j st)"

definition auto_started :: "auto_state \<Rightarrow> bool" where
  "auto_started st = (au_approvals st = [] \<and> au_jobs st = [] \<and> distinct (map lc_userId (au_configs st)))"

lemma job_safe:
  assumes inv: "auto_inv st" and j: "(j, due) \<in> set (au_jobs st)" "j \<noteq> AutoTick" and new: "\<And>aid. xw_newId (xw aid) \<noteq> ''''"
  shows "safe_step st (worker_job env w xw now j st)"
proof (cases j)
  case (AutoDecide aid)
  then show ?thesis using decide_safe [OF inv new] by simp
next
  case (ExecuteApproved aid)
  then have "ExecuteApproved aid \<in> fst ` set (au_jobs st)" using j by force
  then obtain b where b: "b \<in> set (au_approvals st)" "ap_id b = aid" "ap_status b = APPROVED"
    using inv unfolding auto_inv_def by blast
  have "ap_status a = APPROVED" if "find_approval aid st = Some a" for a
    using find_approvalD [OF that] same_id [OF inv, of a b] b by simp
  then show ?thesis using execute_safe [OF inv new] ExecuteApproved by simp
qed (use safe_refl [OF inv] j(2) in simp_all)

lemma step_safe:
  assumes "auto_inv st" "auto_step env st st'"
  shows "safe_step st st'"
  using assms(2)
proof (cases rule: auto_step.cases)
  case (Respond now u aid accept via category reason)
  then show ?thesis using respond_safe [OF assms(1)] by blast
next
  case (Expire now aid)
  then show ?thesis using expire_safe [OF assms(1)] by blast
next
  case (Expirer now)
  then show ?thesis using expirer_safe [OF assms(1)] by blast
next
  case (Tick w xw now)
  then show ?thesis using tick_safe [OF assms(1)] by simp
next
  case (Job j due now xw w)
  then show ?thesis using job_safe [OF assms(1) Job(2)] by blast
qed

lemma reach_inv: "(auto_step env)\<^sup>*\<^sup>* st st' \<Longrightarrow> auto_inv st \<Longrightarrow> auto_inv st'"
  by (induction rule: rtranclp_induct) (use step_safe in blast)+


definition semi_auto :: auto_state where
  "semi_auto = new_auto\<lparr>au_configs := [sample_cfg\<lparr>lc_level := SEMI_AUTO\<rparr>]\<rparr>"

definition sample_request :: approval where
  "sample_request = \<lparr>ap_id = ''u'', ap_userId = ''u'', ap_strategyId = Some ''s'', ap_intent = capped_intent, ap_executed = None,
     ap_status = PENDING, ap_expiresAt = 300000, ap_respondedAt = None, ap_respondedVia = None, ap_rejectCategory = None,
     ap_rejectReason = None\<rparr>"

lemma semi_tick: "au_approvals (auto_tick sample_env (\<lambda>u. sample_world\<lparr>uw_newId := u\<rparr>) 0 semi_auto) = [sample_request]"
proof -
  let ?c = "sample_cfg\<lparr>lc_level := SEMI_AUTO\<rparr>"
  have f: "filter eligible (au_configs semi_auto) = [?c]" by (simp add: semi_auto_def new_auto_def eligible_def sample_cfg_def)
  have u: "lc_userId ?c = ''u''" by (simp add: sample_cfg_def)
  have s: "au_ex semi_auto = new_ex_state" "au_approvals semi_auto = []" by (simp_all add: semi_auto_def new_auto_def)
  have "fst (runForUser sample_env (sample_world\<lparr>uw_newId := ''u''\<rparr>) 0 ?c semi_auto) =
      fst (route sample_env (sample_world\<lparr>uw_newId := ''u''\<rparr>) 0 ?c sample_strategy capped_intent False
        (semi_auto\<lparr>au_ex := new_ex_state\<lparr>es_guardrails := [''u'' \<mapsto> new_gr_config]\<rparr>\<rparr>))"
    by (rule sample_tick) (simp_all add: s(1) sample_cfg_def)
  then show ?thesis
    using s(2) unfolding auto_tick_def f
    by (simp add: u route_def needs_approval_def Let_def create_parts sample_request_def sample_strategy_def)
       (simp add: sample_cfg_def)
qed


subsection \<open>Races\<close>

lemma find_map_id:
  "(\<And>a. ap_id (f a) = ap_id a) \<Longrightarrow>
   List.find (\<lambda>a. ap_id a = aid) (map f rows) = map_option f (List.find (\<lambda>a. ap_id a = aid) rows)"
  by (induction rows) auto

lemma find_update:
  assumes "\<And>a. ap_id (f a) = ap_id a"
  shows "find_approval aid (update_approval bid f st) =
    map_option (\<lambda>a. if ap_id a = bid then f a else a) (find_approval aid st)"
  unfolding find_approval_def update_approval_def by (simp add: find_map_id assms)

lemma find_frames [simp]: "find_approval aid (tell e st) = find_approval aid st"
  "find_approval aid (enqueue j due st) = find_approval aid st" "find_approval aid (bumpDailyUsage now u st) = find_approval aid st"
  "find_approval aid (st\<lparr>au_ex := ex\<rparr>) = find_approval aid st"
  by (simp_all add: find_approval_def)

lemma answered_id [simp]: "ap_id (answered now accept via category reason a) = ap_id a"
  by (simp add: answered_def Let_def)

text \<open>A rejection does not stop a trade that the timeout has begun. The worker has read the pending
  request and waits for the swap; the owner rejects, and is told that the request is rejected; then the
  swap succeeds, the trade is recorded, and the request ends as approved and executed.\<close>

theorem at_race:
  assumes "find_approval aid st = Some req" "ap_status req = PENDING" "ap_executed req = None"
    and "ex_swap w now' (swap_of env (ap_userId req) (if given (ap_strategyId req) then ap_strategyId req else None) (ap_intent req))
      (au_ex st) = (ex, Inr res)"
  shows "case approval_respond env now (ap_userId req) aid False via category reason st of (st1, answer) \<Rightarrow>
    (\<exists>a. answer = Inr a \<and> ap_status a = REJECTED \<and> find_approval aid st1 = Some a) \<and>
    (let st2 = execute_request env w now' req st1 in au_ex st2 = ex \<and>
      (\<exists>a. find_approval aid st2 = Some a \<and> ap_status a = APPROVED \<and> ap_executed a = Some (sr_tradeId res)))"
proof -
  have id: "ap_id req = aid" using find_approvalD [OF assms(1)] by simp
  have st: "ap_status (answered now False via category reason req) = REJECTED" by (simp add: answered_def Let_def)
  define st1 where "st1 = fst (approval_respond env now (ap_userId req) aid False via category reason st)"
  have r: "approval_respond env now (ap_userId req) aid False via category reason st =
      (st1, Inr (answered now False via category reason req))"
    using assms(1,2) by (simp add: st1_def approval_respond_def Let_def)
  have f1: "find_approval aid st1 = Some (answered now False via category reason req)"
    using assms(1,2) id by (simp add: st1_def approval_respond_def Let_def find_update)
  have ex1: "au_ex st1 = au_ex st" using assms(1,2) by (simp add: st1_def approval_respond_def Let_def)
  have g: "\<not> given (ap_executed req)" using assms(3) by (simp add: given_def)
  show ?thesis
    using r st f1 assms(4) g id by (simp add: execute_request_def ex1 Let_def find_update)
qed

definition racing :: auto_state where
  "racing = new_auto\<lparr>au_approvals := [sample_request], au_ex := sample_ex\<rparr>"

lemma racing_found: "find_approval ''u'' racing = Some sample_request"
  by (simp add: racing_def find_approval_def sample_request_def)

theorem at_race_witness:
  "case approval_respond sample_env 0 ''u'' ''u'' False WEB None None racing of (st1, answer) \<Rightarrow>
    \<exists>a. find_approval ''u'' (execute_request sample_env (uw_ex sample_world) 0 sample_request st1) = Some a \<and>
      ap_status a = APPROVED \<and> ap_executed a = Some ''t1''"
proof -
  obtain ex res where s: "ex_swap (uw_ex sample_world) 0 sample_input sample_ex = (ex, Inr res)" "sr_tradeId res = ''t1''"
    using sample_swap(2) by (metis prod.collapse)
  have i: "swap_of sample_env (ap_userId sample_request)
      (if given (ap_strategyId sample_request) then ap_strategyId sample_request else None) (ap_intent sample_request) = sample_input"
    "au_ex racing = sample_ex" "ap_userId sample_request = ''u''"
    by (simp_all add: sample_request_def given_def sample_input_def racing_def)
  have p: "ap_status sample_request = PENDING" "ap_executed sample_request = None" by (simp_all add: sample_request_def)
  show ?thesis
    using at_race [OF racing_found p, of "uw_ex sample_world" 0 sample_env ex res 0 WEB None None] s i
    by (auto simp: Let_def split: prod.splits)
qed

text \<open>The request that a tick creates expires at the instant at which the job of its timeout is due.\<close>

lemma route_times:
  assumes "lc_level cfg \<noteq> GUIDED" "needs_approval cfg force"
  shows "\<exists>a. au_approvals (fst (route env w now cfg s i force st)) = au_approvals st @ [a] \<and>
    (AutoDecide (ap_id a), ap_expiresAt a) \<in> set (au_jobs (fst (route env w now cfg s i force st)))"
  using assms by (simp add: route_def create_parts Let_def)

text \<open>The request of a user who wants it executed at the timeout is dropped when the expirer is
  faster: the expirer takes a request from the very instant at which the job of its timeout is due, and once
  it has run, that job does nothing: the trade is neither made nor offered again.\<close>

theorem at_dropped:
  assumes "find_approval aid st = Some req" "ap_status req = PENDING" "ap_expiresAt req \<le> t"
  shows "let st1 = fst (expirer_run t st) in
      map_option ap_status (find_approval aid st1) = Some EXPIRED \<and> handleAutoDecide env w now aid st1 = st1"
proof -
  have f: "find_approval aid (fst (expirer_run t st)) = Some (expired t req)"
    using assms by (simp add: find_approval_def expirer_run_def find_map_id expired_def is_due_def)
  then show ?thesis by (simp add: handleAutoDecide_def expired_def)
qed

theorem at_dropped_witness:
  "timeout_policy ''u'' racing = ''execute'' \<and>
   handleAutoDecide sample_env plain_world 300000 ''u'' (fst (expirer_run 300000 racing)) = fst (expirer_run 300000 racing)"
proof -
  have p: "ap_status sample_request = PENDING" "ap_expiresAt sample_request \<le> 300000" by (simp_all add: sample_request_def)
  show ?thesis
    using at_dropped [OF racing_found p, of sample_env plain_world 300000]
    by (simp add: Let_def timeout_policy_def racing_def new_auto_def sample_cfg_def)
qed

end
