(* ===== verification/Token_Types.thy ===== *)
theory Token_Types
  imports Js_Text
begin

text \<open>
  The market data of a token: \<open>apps/api/src/token-analysis/token-analysis.types.ts\<close>, the recognition of
  addresses in \<open>chain-detector.ts\<close>, and what \<open>providers/dexscreener.provider.ts\<close> makes of the pairs that
  the exchange lists. The HTTP request itself is left out: the functions take the pairs of the answer. A
  numeric field is the finite number that \<open>Number\<close> gives, \<open>None\<close> when there is none.
\<close>

subsection \<open>Text\<close>

definition js_space :: "char \<Rightarrow> bool" where
  "js_space c = (of_char c \<in> {9, 10, 11, 12, 13, 32, 160 :: nat})"

definition js_trim :: "string \<Rightarrow> string" where
  "js_trim s = rev (dropWhile js_space (rev (dropWhile js_space s)))"

definition contains :: "string \<Rightarrow> string \<Rightarrow> bool" where
  "contains p s = list_ex (\<lambda>n. starts_with p (drop n s)) [0 ..< Suc (length s)]"

subsection \<open>Chains\<close>

datatype chain = SOLANA | EVM

definition base58_chars :: string where
  "base58_chars = ''123456789ABCDEFGHJKLMNPQRSTUVWXYZabcdefghijkmnopqrstuvwxyz''"

definition hex_chars :: string where
  "hex_chars = ''0123456789abcdefABCDEF''"

text \<open>The regular expressions \<open>SOLANA_RE\<close> and \<open>EVM_RE\<close>.\<close>

definition SOLANA_RE :: "string \<Rightarrow> bool" where
  "SOLANA_RE s = (list_all (\<lambda>c. c \<in> set base58_chars) s \<and> 32 \<le> length s \<and> length s \<le> 44)"

definition EVM_RE :: "string \<Rightarrow> bool" where
  "EVM_RE s = (starts_with ''0x'' s \<and> list_all (\<lambda>c. c \<in> set hex_chars) (drop 2 s) \<and> length s = 42)"

definition detectChain :: "string \<Rightarrow> chain option" where
  "detectChain address =
    (let a = js_trim address
     in if SOLANA_RE a then Some SOLANA else if EVM_RE a then Some EVM else None)"

definition validateAddress :: "chain \<Rightarrow> string \<Rightarrow> bool" where
  "validateAddress chain address =
    (case chain of SOLANA \<Rightarrow> SOLANA_RE (js_trim address) | EVM \<Rightarrow> EVM_RE (js_trim address))"

definition EVM_CHAINS :: "string list" where
  "EVM_CHAINS = [''ethereum'', ''bsc'', ''base'', ''arbitrum'', ''optimism'', ''polygon'',
     ''avalanche'', ''zksync'', ''linea'', ''blast'', ''scroll'', ''mantle'',
     ''fantom'', ''cronos'', ''gnosis'', ''celo'', ''moonbeam'', ''aurora'']"

subsection \<open>Pairs and tokens\<close>

record dex_token =
  dt_address :: string
  dt_symbol :: "string option"
  dt_name :: "string option"

record dex_pair =
  dp_chainId :: string
  dp_dexId :: "string option"
  dp_url :: "string option"
  dp_pairCreatedAt :: "int option"
  dp_baseToken :: dex_token
  dp_quoteToken :: dex_token
  dp_priceUsd :: "real option"
  dp_liquidityUsd :: "real option"
  dp_volumeH24 :: "real option"
  dp_marketCap :: "real option"
  dp_fdv :: "real option"
  dp_buys :: "real option"
  dp_sells :: "real option"
  dp_imageUrl :: "string option"
  dp_changes :: "real option \<times> real option \<times> real option \<times> real option"

text \<open>Price changes of five minutes, one, six and 24 hours. Links to social media are not modelled.\<close>

record token_meta =
  tm_chain :: chain
  tm_chainId :: "string option"
  tm_address :: string
  tm_symbol :: "string option"
  tm_name :: "string option"
  tm_priceUsd :: "real option"
  tm_marketCapUsd :: "real option"
  tm_fdvUsd :: "real option"
  tm_liquidityUsd :: "real option"
  tm_volume24hUsd :: "real option"
  tm_m5 :: "real option"
  tm_h1 :: "real option"
  tm_h6 :: "real option"
  tm_h24 :: "real option"
  tm_txns24h :: "(real option \<times> real option) option"
  tm_pairCreatedAt :: "int option"
  tm_pairAgeHours :: "real option"
  tm_dex :: "string option"
  tm_url :: "string option"

text \<open>\<open>TradingProfile\<close> of \<open>profile.config.ts\<close>.\<close>

datatype trading_profile = Meme_hunter | Degen_sniper | Swing_trader | Gem_hunt | Alpha_hunt

definition num0 :: "real option \<Rightarrow> real" where
  "num0 x = (case x of None \<Rightarrow> 0 | Some v \<Rightarrow> v)"

lemma num0_code [simp]: "num0 None = 0" "num0 (Some v) = v"
  by (simp_all add: num0_def)

text \<open>\<open>t ? Math.max(0, (Date.now() - t) / 3600000) : undefined\<close>\<close>

definition age_hours :: "int \<Rightarrow> int option \<Rightarrow> real option" where
  "age_hours now t = (case t of None \<Rightarrow> None
     | Some t \<Rightarrow> if t = 0 then None else Some (max 0 (of_int (now - t) / 3600000)))"

definition on_chain :: "chain \<Rightarrow> dex_pair \<Rightarrow> bool" where
  "on_chain chain p = (if chain = SOLANA then dp_chainId p = ''solana'' else dp_chainId p \<in> set EVM_CHAINS)"

text \<open>\<open>getToken\<close> after a successful answer with the given pairs.\<close>

definition getToken :: "int \<Rightarrow> chain \<Rightarrow> string \<Rightarrow> dex_pair list \<Rightarrow> token_meta option" where
  "getToken now chain address pairs =
    (case sort_key (\<lambda>p. - num0 (dp_liquidityUsd p)) (filter (on_chain chain) pairs) of
       [] \<Rightarrow> None
     | deep # _ \<Rightarrow>
        let isBase = to_lower (dt_address (dp_baseToken deep)) = to_lower address;
            token = (if isBase then dp_baseToken deep else dp_quoteToken deep)
        in case dp_changes deep of (m5, h1, h6, h24) \<Rightarrow>
          Some \<lparr>tm_chain = chain, tm_chainId = Some (dp_chainId deep), tm_address = address,
            tm_symbol = dt_symbol token, tm_name = dt_name token, tm_priceUsd = dp_priceUsd deep,
            tm_marketCapUsd = dp_marketCap deep, tm_fdvUsd = dp_fdv deep, tm_liquidityUsd = dp_liquidityUsd deep,
            tm_volume24hUsd = dp_volumeH24 deep, tm_m5 = m5, tm_h1 = h1, tm_h6 = h6, tm_h24 = h24,
            tm_txns24h = Some (dp_buys deep, dp_sells deep),
            tm_pairCreatedAt = (if dp_pairCreatedAt deep = Some 0 then None else dp_pairCreatedAt deep),
            tm_pairAgeHours = age_hours now (dp_pairCreatedAt deep), tm_dex = dp_dexId deep, tm_url = dp_url deep\<rparr>)"

subsection \<open>Which pair prices a token\<close>

lemma sort_key_first:
  "sort_key f xs = x # ys \<Longrightarrow> x \<in> set xs \<and> (\<forall>y \<in> set xs. f x \<le> f y)"
  using sorted_sort_key [of f xs] set_sort [of f xs] by (auto simp flip: set_sort [of f xs])

text \<open>The quote of a token is taken from its deepest pool, whichever side of the pool the
  token is on: when the deepest pool has another token as its base, the result names the asked token and
  carries the price and the market value of that other token.\<close>

theorem dx_quote_price:
  assumes "getToken now chain address pairs = Some m"
  shows "\<exists>p \<in> set pairs. on_chain chain p \<and>
    list_all (\<lambda>q. on_chain chain q = False \<or> num0 (dp_liquidityUsd q) \<le> num0 (dp_liquidityUsd p)) pairs \<and>
    tm_address m = address \<and> tm_chain m = chain \<and> tm_chainId m = Some (dp_chainId p) \<and>
    tm_priceUsd m = dp_priceUsd p \<and> tm_marketCapUsd m = dp_marketCap p \<and>
    tm_symbol m = dt_symbol (if to_lower (dt_address (dp_baseToken p)) = to_lower address then dp_baseToken p else dp_quoteToken p)"
proof -
  from assms obtain deep rest where deep: "sort_key (\<lambda>p. - num0 (dp_liquidityUsd p)) (filter (on_chain chain) pairs) = deep # rest"
    unfolding getToken_def by (auto split: list.splits)
  from sort_key_first [OF this] have t: "deep \<in> set pairs" "on_chain chain deep"
    "\<forall>q \<in> set pairs. on_chain chain q \<longrightarrow> num0 (dp_liquidityUsd q) \<le> num0 (dp_liquidityUsd deep)" by auto
  show ?thesis
    by (rule bexI [OF _ t(1)])
      (use assms t(2,3) deep in \<open>auto simp: getToken_def Let_def list_all_iff split: prod.splits\<close>)
qed


definition sample_pair :: dex_pair where
  "sample_pair = \<lparr>dp_chainId = ''solana'', dp_dexId = None, dp_url = None, dp_pairCreatedAt = Some 0,
     dp_baseToken = \<lparr>dt_address = ''meme'', dt_symbol = Some ''MEME'', dt_name = None\<rparr>,
     dp_quoteToken = \<lparr>dt_address = ''sol'', dt_symbol = Some ''SOL'', dt_name = None\<rparr>,
     dp_priceUsd = Some (1 / 1000), dp_liquidityUsd = Some 90000, dp_volumeH24 = None, dp_marketCap = Some 700000, dp_fdv = None,
     dp_buys = None, dp_sells = None, dp_imageUrl = None, dp_changes = (None, None, None, None)\<rparr>"

lemma sample_quote:
  "\<exists>m. getToken 5 SOLANA ''sol'' [sample_pair] = Some m \<and> tm_symbol m = Some ''SOL'' \<and> tm_priceUsd m = Some (1 / 1000)"
  by (simp add: getToken_def sample_pair_def on_chain_def Let_def to_lower_def)

theorem dx_quote_price_witness:
  "\<exists>m. getToken 5 SOLANA ''sol'' [sample_pair] = Some m \<and> tm_symbol m = Some ''SOL'' \<and> tm_address m = ''sol'' \<and>
     tm_priceUsd m = dp_priceUsd sample_pair"
proof -
  obtain m where m: "getToken 5 SOLANA ''sol'' [sample_pair] = Some m" "tm_symbol m = Some ''SOL''" using sample_quote by blast
  from dx_quote_price [OF m(1)] m show ?thesis by auto
qed

end
