(* ===== verification/Token_Resolver.thy ===== *)
theory Token_Resolver
  imports Token_Types Bounded_Cache "HOL-Library.Multiset"
begin

text \<open>
  \<open>apps/api/src/token-resolver\<close>: how the text that a user types becomes the token that is traded. The
  input is classified (\<open>input-classifier.ts\<close>), the pools that the exchange finds are collapsed into
  candidates, enriched with what CoinGecko knows, ranked (\<open>ranking.ts\<close>) and cached, and a trade passes
  the guard of \<open>resolveForTrade\<close>. The providers are fields of an environment; they answer and do not throw,
  as their own code and the handlers at the calls see to.
\<close>

subsection \<open>\<open>input-classifier.ts\<close>\<close>

datatype classified = AddressInput chain string | TickerInput string | UnresolvableInput

definition alnum_chars :: string where
  "alnum_chars = ''ABCDEFGHIJKLMNOPQRSTUVWXYZabcdefghijklmnopqrstuvwxyz0123456789''"

definition TICKER_RE :: "string \<Rightarrow> bool" where
  "TICKER_RE s = (list_all (\<lambda>c. c \<in> set alnum_chars) s \<and> 1 \<le> length s \<and> length s \<le> 15)"

definition classifyInput :: "string \<Rightarrow> classified" where
  "classifyInput raw =
    (let trimmed = js_trim raw
     in if trimmed = [] then UnresolvableInput
        else if starts_with ''$'' trimmed then
          let symbol = js_trim (drop 1 trimmed)
          in if TICKER_RE symbol then TickerInput symbol else UnresolvableInput
        else case detectChain trimmed of
          Some chain \<Rightarrow> AddressInput chain trimmed
        | None \<Rightarrow> if 2 \<le> length trimmed \<and> TICKER_RE trimmed then TickerInput trimmed else UnresolvableInput)"

subsection \<open>\<open>Array.prototype.sort\<close> with a comparator\<close>

text \<open>The standard asks for a stable sort; for a consistent comparator there is one result.\<close>

fun js_insert :: "('a \<Rightarrow> 'a \<Rightarrow> real) \<Rightarrow> 'a \<Rightarrow> 'a list \<Rightarrow> 'a list" where
  "js_insert cmp x [] = [x]"
| "js_insert cmp x (y # ys) = (if cmp x y \<le> 0 then x # y # ys else y # js_insert cmp x ys)"

definition js_sort :: "('a \<Rightarrow> 'a \<Rightarrow> real) \<Rightarrow> 'a list \<Rightarrow> 'a list" where
  "js_sort cmp xs = foldr (js_insert cmp) xs []"

lemma js_sort_code [simp]: "js_sort cmp [] = []" "js_sort cmp (x # xs) = js_insert cmp x (js_sort cmp xs)"
  by (simp_all add: js_sort_def)

lemma mset_js_insert [simp]: "mset (js_insert cmp x ys) = add_mset x (mset ys)"
  by (induction ys) auto

lemma mset_js_sort [simp]: "mset (js_sort cmp xs) = mset xs"
  by (induction xs) auto

lemma set_js_sort [simp]: "set (js_sort cmp xs) = set xs"
  by (metis mset_js_sort set_mset_mset)

lemma length_js_sort [simp]: "length (js_sort cmp xs) = length xs"
  by (metis mset_js_sort size_mset)

definition consistent :: "('a \<Rightarrow> 'a \<Rightarrow> real) \<Rightarrow> bool" where
  "consistent cmp = ((\<forall>x y. cmp x y \<le> 0 \<or> cmp y x \<le> 0) \<and> (\<forall>x y z. cmp x y \<le> 0 \<and> cmp y z \<le> 0 \<longrightarrow> cmp x z \<le> 0))"

lemma sorted_js_insert:
  assumes "consistent cmp" and "sorted_wrt (\<lambda>x y. cmp x y \<le> 0) ys"
  shows "sorted_wrt (\<lambda>x y. cmp x y \<le> 0) (js_insert cmp x ys)"
  using assms(2)
proof (induction ys)
  case (Cons y ys)
  have tr: "cmp a c \<le> 0" if "cmp a b \<le> 0" "cmp b c \<le> 0" for a b c using assms(1) that unfolding consistent_def by blast
  have set: "set (js_insert cmp x ys) = insert x (set ys)" by (metis mset_js_insert set_mset_mset set_mset_add_mset_insert)
  show ?case
  proof (cases "cmp x y \<le> 0")
    case True
    then show ?thesis using Cons.prems tr [OF True] by auto
  next
    case False
    then have "cmp y x \<le> 0" using assms(1) unfolding consistent_def by blast
    then show ?thesis using False Cons by (simp add: set)
  qed
qed simp

lemma sorted_js_sort: "consistent cmp \<Longrightarrow> sorted_wrt (\<lambda>x y. cmp x y \<le> 0) (js_sort cmp xs)"
  by (induction xs) (auto simp: sorted_js_insert)

subsection \<open>\<open>ranking.ts\<close>\<close>

datatype match_tier = TierAddress | TierExact | TierPrefix | TierFuzzy

record score_input =
  sk_liquidity :: "real option"
  sk_volume :: "real option"
  sk_marketCap :: "real option"
  sk_txns :: "real option"
  sk_age :: "real option"
  sk_verified :: bool
  sk_cgRank :: "real option"

definition log_of :: "real option \<Rightarrow> real" where
  "log_of v = log 10 (1 + max 0 (num0 v))"

definition W_LIQ :: real where "W_LIQ = 1"
definition W_VOL :: real where "W_VOL = 6 / 10"
definition W_MC :: real where "W_MC = 4 / 10"
definition W_TX :: real where "W_TX = 3 / 10"
definition W_AGE :: real where "W_AGE = 3 / 10"
definition W_VERIFIED :: real where "W_VERIFIED = 1"
definition W_CG_RANK :: real where "W_CG_RANK = 3"
definition AGE_CAP_HOURS :: real where "AGE_CAP_HOURS = 720"

definition scoreToken :: "score_input \<Rightarrow> real" where
  "scoreToken i =
    (let ageBoost = min (max 0 (num0 (sk_age i)) / AGE_CAP_HOURS) 1;
         cgBoost = (case sk_cgRank i of None \<Rightarrow> 0
           | Some r \<Rightarrow> W_CG_RANK * max 0 (1 - log 10 (r + 1) / log 10 1001))
     in log_of (sk_liquidity i) * W_LIQ + log_of (sk_volume i) * W_VOL + log_of (sk_marketCap i) * W_MC +
        log_of (sk_txns i) * W_TX + ageBoost * W_AGE + (if sk_verified i then W_VERIFIED else 0) + cgBoost)"

record resolved_token =
  rt_chain :: chain
  rt_chainId :: string
  rt_address :: string
  rt_symbol :: string
  rt_name :: string
  rt_priceUsd :: "real option"
  rt_liquidityUsd :: "real option"
  rt_volume24hUsd :: "real option"
  rt_marketCapUsd :: "real option"
  rt_fdvUsd :: "real option"
  rt_pairAgeHours :: "real option"
  rt_txns24h :: "real option"
  rt_logoURI :: "string option"
  rt_url :: "string option"
  rt_verified :: bool
  rt_cgRank :: "real option"
  rt_score :: real
  rt_matchTier :: match_tier

fun MATCH_TIER_RANK :: "match_tier \<Rightarrow> real" where
  "MATCH_TIER_RANK TierAddress = 4"
| "MATCH_TIER_RANK TierExact = 3"
| "MATCH_TIER_RANK TierPrefix = 2"
| "MATCH_TIER_RANK TierFuzzy = 1"

definition candidate_order :: "resolved_token \<Rightarrow> resolved_token \<Rightarrow> real" where
  "candidate_order a b =
    (let tier = MATCH_TIER_RANK (rt_matchTier b) - MATCH_TIER_RANK (rt_matchTier a)
     in if tier \<noteq> 0 then tier else rt_score b - rt_score a)"

definition sortCandidates :: "resolved_token list \<Rightarrow> resolved_token list" where
  "sortCandidates tokens = js_sort candidate_order tokens"

definition scoreGap :: "real \<Rightarrow> real \<Rightarrow> real" where
  "scoreGap s1 s2 = (if s1 \<le> 0 then 0 else min 1 (max 0 ((s1 - s2) / s1)))"

definition computeConfidence :: "resolved_token list \<Rightarrow> real" where
  "computeConfidence ranked = (case ranked of [] \<Rightarrow> 0 | [_] \<Rightarrow> 1
     | a # b # _ \<Rightarrow>
        (if MATCH_TIER_RANK (rt_matchTier a) - MATCH_TIER_RANK (rt_matchTier b) > 0
         then max (85 / 100) (scoreGap (rt_score a) (rt_score b)) else scoreGap (rt_score a) (rt_score b)))"

lemma candidate_consistent: "consistent candidate_order"
  unfolding consistent_def candidate_order_def Let_def by auto

lemma confidence_range: "0 \<le> computeConfidence ts" "computeConfidence ts \<le> 1"
  by (auto simp: computeConfidence_def scoreGap_def split: list.split)


subsection \<open>The providers and the tables\<close>

definition chainIdToChain :: "string \<Rightarrow> chain option" where
  "chainIdToChain chainId =
    (if chainId = ''solana'' then Some SOLANA else if chainId \<in> set EVM_CHAINS then Some EVM else None)"

definition CG_FALLBACK_TOKEN :: "(string \<times> string \<times> string) list" where
  "CG_FALLBACK_TOKEN = [
     (''bitcoin'', ''solana'', ''5imLbJMGssyY78uCNk9NucsWbDh2kvtKLyXQJuY8XtkP''),
     (''ethereum'', ''bsc'', ''0x2170Ed0880ac9A755fd29B2688956BD959F933F8''),
     (''binancecoin'', ''bsc'', ''0xbb4CdB9CBd36B01bD1cBaEBF2De08d9173bc095c''),
     (''ripple'', ''bsc'', ''0x1D2F0da169ceB9fC7B3144628dB156f3F6c60dBE''),
     (''solana'', ''solana'', ''So11111111111111111111111111111111111111112''),
     (''dogecoin'', ''bsc'', ''0xbA2aE424d960c26247Dd6c32edC70B295c744C43''),
     (''usd-coin'', ''solana'', ''EPjFWdd5AufqSSqeM2qN1xzybapC8G4wEGGkZwyTDt1v''),
     (''tether'', ''solana'', ''Es9vMFrzaCERmJfrF4H2FYD4KCoNkY11McCe8BenwNYB''),
     (''pepe'', ''ethereum'', ''0x6982508145454Ce325dDbE47a25d4ec3d2311933''),
     (''shiba-inu'', ''ethereum'', ''0x95aD61b0a150d79219dCF64E1E6Cc01f0B64C4cE''),
     (''bonk'', ''solana'', ''DezXAZ8z7PnrnRJjz3wXBoRgixCa6xjnB7YaB1pPB263''),
     (''dogwifcoin'', ''solana'', ''EKpQGSJtjMFqKZ9KQanSqYXRcF8fBopzLHYxdM65zcjm''),
     (''sui'', ''solana'', ''9aFGPqCsGbYk2e3SQbz4PXNdGMUMHmDpRrFiJRAhFtax''),
     (''avalanche-2'', ''bsc'', ''0x1CE0c2827e2eF14D5C4f29a091d735A204794041''),
     (''chainlink'', ''ethereum'', ''0x514910771AF9Ca656af840dff83E8264EcF986CA'')]"

definition CG_PLATFORM_TO_CHAIN_ID :: "(string \<times> string) list" where
  "CG_PLATFORM_TO_CHAIN_ID = [
     (''ethereum'', ''ethereum''), (''binance-smart-chain'', ''bsc''), (''base'', ''base''),
     (''arbitrum-one'', ''arbitrum''), (''optimistic-ethereum'', ''optimism''), (''polygon-pos'', ''polygon''),
     (''avalanche'', ''avalanche''), (''zksync'', ''zksync''), (''linea'', ''linea''), (''blast'', ''blast''),
     (''solana'', ''solana''), (''fantom'', ''fantom''), (''cronos'', ''cronos'')]"

definition TRADE_DOMINANCE_RATIO :: real where "TRADE_DOMINANCE_RATIO = 3"
definition TRADE_MIN_LIQUIDITY_USD :: real where "TRADE_MIN_LIQUIDITY_USD = 5000"

record cg_coin =
  cg_id :: string
  cg_symbol :: string
  cg_name :: string
  cg_rank :: "real option"

record cg_market =
  ck_price :: "real option"
  ck_marketCap :: "real option"
  ck_volume :: "real option"
  ck_image :: "string option"

text \<open>What the providers answer during one call, and the clock before and after they have answered. The
  entry of a market is the first of the list that \<open>markets\<close> returns.\<close>

record resolver_env =
  rv_start :: int
  rv_done :: int
  rv_search :: "string \<Rightarrow> dex_pair list"
  rv_getToken :: "chain \<Rightarrow> string \<Rightarrow> token_meta option"
  rv_coins :: "string \<Rightarrow> cg_coin list"
  rv_market :: "string \<Rightarrow> cg_market option"
  rv_platforms :: "string \<Rightarrow> (string \<times> string) list"

record resolve_options =
  op_chain :: "chain option"
  op_limit :: "nat option"
  op_minLiquidityUsd :: "real option"

datatype resolve_kind = KindAddress | KindTicker | KindUnresolvable

record resolve_result =
  rq_kind :: resolve_kind
  rq_query :: string
  rq_best :: "resolved_token option"
  rq_candidates :: "resolved_token list"
  rq_ambiguous :: bool
  rq_confidence :: real

definition EMPTY :: "resolve_kind \<Rightarrow> string \<Rightarrow> resolve_result" where
  "EMPTY kind query = \<lparr>rq_kind = kind, rq_query = query, rq_best = None, rq_candidates = [], rq_ambiguous = False,
     rq_confidence = 0\<rparr>"

subsection \<open>\<open>collapsePairs\<close>\<close>

definition matchTier :: "string \<Rightarrow> string \<Rightarrow> string \<Rightarrow> match_tier option" where
  "matchTier symbol name q =
    (if symbol = q then Some TierExact else if starts_with q symbol then Some TierPrefix
     else if contains q symbol \<or> contains q name then Some TierFuzzy else None)"

definition lower_or_empty :: "string option \<Rightarrow> string" where
  "lower_or_empty s = (case s of None \<Rightarrow> [] | Some s \<Rightarrow> to_lower s)"

definition pair_tier :: "string \<Rightarrow> dex_pair \<Rightarrow> match_tier option" where
  "pair_tier q p = matchTier (lower_or_empty (dt_symbol (dp_baseToken p))) (lower_or_empty (dt_name (dp_baseToken p))) q"

definition pair_txns :: "dex_pair \<Rightarrow> real" where
  "pair_txns p = num0 (dp_buys p) + num0 (dp_sells p)"

text \<open>The guards at the top of the loop.\<close>

definition admitted :: "string \<Rightarrow> chain option \<Rightarrow> dex_pair \<Rightarrow> bool" where
  "admitted q want p =
    (case chainIdToChain (dp_chainId p) of None \<Rightarrow> False
     | Some chain \<Rightarrow>
        (want = None \<or> want = Some chain) \<and> pair_tier q p \<noteq> None \<and>
        \<not> (num0 (dp_liquidityUsd p) \<le> 0 \<and> num0 (dp_volumeH24 p) \<le> 0 \<and> pair_txns p \<le> 0))"

type_synonym token_key = "string \<times> string"

definition pair_key :: "dex_pair \<Rightarrow> token_key" where
  "pair_key p = (dp_chainId p, to_lower (dt_address (dp_baseToken p)))"

definition group_pair :: "(token_key, dex_pair list) js_map \<Rightarrow> dex_pair \<Rightarrow> (token_key, dex_pair list) js_map" where
  "group_pair m p = (case map_of m (pair_key p) of
     Some arr \<Rightarrow> map_set (pair_key p) (arr @ [p]) m
   | None \<Rightarrow> map_set (pair_key p) [p] m)"

definition group_pairs :: "string \<Rightarrow> chain option \<Rightarrow> dex_pair list \<Rightarrow> (token_key, dex_pair list) js_map" where
  "group_pairs q want pairs = foldl group_pair [] (filter (admitted q want) pairs)"

fun sum_step :: "real option \<Rightarrow> real option \<Rightarrow> real option" where
  "sum_step acc None = acc"
| "sum_step acc (Some v) = Some (num0 acc + v)"

definition sum_some :: "(dex_pair \<Rightarrow> real option) \<Rightarrow> dex_pair list \<Rightarrow> real option" where
  "sum_some pick ps = foldl (\<lambda>acc p. sum_step acc (pick p)) None ps"

fun max_step :: "real option \<Rightarrow> real option \<Rightarrow> real option" where
  "max_step m None = m"
| "max_step None (Some v) = Some v"
| "max_step (Some m) (Some v) = Some (if v > m then v else m)"

definition max_some :: "(dex_pair \<Rightarrow> real option) \<Rightarrow> dex_pair list \<Rightarrow> real option" where
  "max_some pick ps = foldl (\<lambda>m p. max_step m (pick p)) None ps"

definition created_first :: "dex_pair list \<Rightarrow> int option" where
  "created_first ps = (case sort (filter (\<lambda>t. t > 0) (List.map_filter dp_pairCreatedAt ps)) of [] \<Rightarrow> None | t # _ \<Rightarrow> Some t)"

definition best_tier :: "string \<Rightarrow> dex_pair list \<Rightarrow> match_tier" where
  "best_tier q ps = (case js_sort (\<lambda>a b. MATCH_TIER_RANK b - MATCH_TIER_RANK a) (List.map_filter (pair_tier q) ps) of
     [] \<Rightarrow> TierFuzzy | t # _ \<Rightarrow> t)"

text \<open>A candidate before it is verified and scored.\<close>

definition candidate_of :: "int \<Rightarrow> string \<Rightarrow> dex_pair list \<Rightarrow> resolved_token" where
  "candidate_of now q ps =
    (let rep = hd (js_sort (\<lambda>a b. num0 (dp_liquidityUsd b) - num0 (dp_liquidityUsd a)) ps)
     in \<lparr>rt_chain = the (chainIdToChain (dp_chainId (hd ps))), rt_chainId = dp_chainId rep,
         rt_address = dt_address (dp_baseToken rep),
         rt_symbol = (case dt_symbol (dp_baseToken rep) of None \<Rightarrow> [] | Some s \<Rightarrow> s),
         rt_name = (case dt_name (dp_baseToken rep) of None \<Rightarrow> [] | Some s \<Rightarrow> s),
         rt_priceUsd = dp_priceUsd rep, rt_liquidityUsd = sum_some dp_liquidityUsd ps,
         rt_volume24hUsd = sum_some dp_volumeH24 ps, rt_marketCapUsd = max_some dp_marketCap ps,
         rt_fdvUsd = max_some dp_fdv ps, rt_pairAgeHours = age_hours now (created_first ps),
         rt_txns24h = Some (foldl (\<lambda>s p. s + num0 (dp_buys p) + num0 (dp_sells p)) 0 ps),
         rt_logoURI = dp_imageUrl rep, rt_url = dp_url rep, rt_verified = False, rt_cgRank = None, rt_score = 0,
         rt_matchTier = best_tier q ps\<rparr>)"

definition collapsePairs :: "int \<Rightarrow> string \<Rightarrow> resolve_options \<Rightarrow> dex_pair list \<Rightarrow> resolved_token list" where
  "collapsePairs now q opts pairs =
    filter (\<lambda>c. case op_minLiquidityUsd opts of None \<Rightarrow> True | Some m \<Rightarrow> \<not> num0 (rt_liquidityUsd c) < m)
      (map (\<lambda>(k, group). candidate_of now q group) (group_pairs q (op_chain opts) pairs))"


subsection \<open>\<open>resolveTicker\<close>\<close>

text \<open>What CoinGecko knows of the symbol.\<close>

record cg_view =
  cv_verifiedSymbols :: "string list"
  cv_canonical :: "cg_coin option"
  cv_top :: bool
  cv_market :: "cg_market option"
  cv_platforms :: "(string \<times> string) list"

definition canonical_coin :: "string \<Rightarrow> cg_coin list \<Rightarrow> cg_coin option" where
  "canonical_coin q coins =
    (case sort_key (\<lambda>c. num0 (cg_rank c)) (filter (\<lambda>c. to_lower (cg_symbol c) = q \<and> cg_rank c \<noteq> None) coins) of
       [] \<Rightarrow> None | c # _ \<Rightarrow> Some c)"

definition cg_view_of :: "resolver_env \<Rightarrow> string \<Rightarrow> cg_view" where
  "cg_view_of env symbol =
    (let coins = rv_coins env symbol; canon = canonical_coin (to_lower symbol) coins;
         isTop = (case canon of None \<Rightarrow> False | Some c \<Rightarrow> num0 (cg_rank c) \<le> 100)
     in \<lparr>cv_verifiedSymbols = filter (\<lambda>s. s \<noteq> []) (map (\<lambda>c. to_lower (cg_symbol c)) coins), cv_canonical = canon,
         cv_top = isTop, cv_market = (case canon of None \<Rightarrow> None | Some c \<Rightarrow> if isTop then rv_market env (cg_id c) else None),
         cv_platforms = (case canon of None \<Rightarrow> [] | Some c \<Rightarrow> rv_platforms env (cg_id c))\<rparr>)"

definition canonical_addrs :: "cg_view \<Rightarrow> string list" where
  "canonical_addrs cv = map to_lower (filter (\<lambda>a. a \<noteq> []) (map snd (cv_platforms cv)))"

definition or_else :: "'a option \<Rightarrow> 'a option \<Rightarrow> 'a option" where
  "or_else a b = (if a = None then b else a)"

definition scored :: "resolved_token \<Rightarrow> resolved_token" where
  "scored t = t\<lparr>rt_score := scoreToken \<lparr>sk_liquidity = rt_liquidityUsd t, sk_volume = rt_volume24hUsd t,
     sk_marketCap = rt_marketCapUsd t, sk_txns = rt_txns24h t, sk_age = rt_pairAgeHours t,
     sk_verified = rt_verified t, sk_cgRank = rt_cgRank t\<rparr>\<rparr>"

definition enrich :: "cg_view \<Rightarrow> string \<Rightarrow> resolved_token \<Rightarrow> resolved_token" where
  "enrich cv q t =
    (let verified = (to_lower (rt_symbol t) \<in> set (cv_verifiedSymbols cv));
         isCanonical = (to_lower (rt_address t) \<in> set (canonical_addrs cv));
         cgRank = (if (verified \<or> isCanonical) \<and> to_lower (rt_symbol t) = q
           then (case cv_canonical cv of None \<Rightarrow> None | Some c \<Rightarrow> cg_rank c) else None);
         market = (if cgRank \<noteq> None then cv_market cv else None)
     in scored (t\<lparr>rt_priceUsd := (case market of None \<Rightarrow> rt_priceUsd t | Some m \<Rightarrow> or_else (ck_price m) (rt_priceUsd t)),
          rt_marketCapUsd := (case market of None \<Rightarrow> rt_marketCapUsd t | Some m \<Rightarrow> or_else (ck_marketCap m) (rt_marketCapUsd t)),
          rt_verified := (verified \<or> isCanonical), rt_cgRank := cgRank\<rparr>))"

text \<open>The platform contracts that the search did not return.\<close>

definition fetch_jobs :: "cg_view \<Rightarrow> resolved_token list \<Rightarrow> (string \<times> string) list" where
  "fetch_jobs cv collapsed =
    (let knownAddrs = map (\<lambda>t. to_lower (rt_address t)) collapsed
     in List.map_filter (\<lambda>(platform, addr). case map_of CG_PLATFORM_TO_CHAIN_ID platform of None \<Rightarrow> None
          | Some chainId \<Rightarrow> if addr \<noteq> [] \<and> to_lower addr \<notin> set knownAddrs then Some (chainId, addr) else None)
        (cv_platforms cv))"

definition fetch_token :: "resolver_env \<Rightarrow> cg_view \<Rightarrow> cg_coin \<Rightarrow> string \<times> string \<Rightarrow> resolved_token option" where
  "fetch_token env cv canon job = (case job of (chainId, addr) \<Rightarrow>
     (case chainIdToChain chainId of None \<Rightarrow> None
      | Some chain \<Rightarrow> (case rv_getToken env chain addr of None \<Rightarrow> None
         | Some m \<Rightarrow>
            Some (scored \<lparr>rt_chain = chain, rt_chainId = chainId, rt_address = addr,
              rt_symbol = to_upper (case tm_symbol m of None \<Rightarrow> cg_symbol canon | Some s \<Rightarrow> s),
              rt_name = (case tm_name m of None \<Rightarrow> cg_name canon | Some s \<Rightarrow> s),
              rt_priceUsd = or_else (case cv_market cv of None \<Rightarrow> None | Some k \<Rightarrow> ck_price k) (tm_priceUsd m),
              rt_liquidityUsd = tm_liquidityUsd m, rt_volume24hUsd = tm_volume24hUsd m,
              rt_marketCapUsd = or_else (case cv_market cv of None \<Rightarrow> None | Some k \<Rightarrow> ck_marketCap k) (tm_marketCapUsd m),
              rt_fdvUsd = tm_fdvUsd m, rt_pairAgeHours = tm_pairAgeHours m,
              rt_txns24h = (case tm_txns24h m of None \<Rightarrow> None | Some (b, s) \<Rightarrow> Some (num0 b + num0 s)),
              rt_logoURI = None, rt_url = tm_url m, rt_verified = True, rt_cgRank = cg_rank canon, rt_score = 0,
              rt_matchTier = TierExact\<rparr>))))"

definition fetched_tokens :: "resolver_env \<Rightarrow> cg_view \<Rightarrow> resolved_token list \<Rightarrow> resolved_token list" where
  "fetched_tokens env cv collapsed = (case cv_canonical cv of None \<Rightarrow> []
     | Some canon \<Rightarrow> List.map_filter (fetch_token env cv canon) (take 4 (fetch_jobs cv collapsed)))"

definition fallback_tokens :: "cg_view \<Rightarrow> resolved_token list" where
  "fallback_tokens cv = (case (cv_canonical cv, cv_market cv) of
     (Some canon, Some m) \<Rightarrow>
       (if cv_top cv then
          (case map_of CG_FALLBACK_TOKEN (cg_id canon) of None \<Rightarrow> []
           | Some (chainId, addr) \<Rightarrow> (case chainIdToChain chainId of None \<Rightarrow> []
              | Some chain \<Rightarrow> [scored \<lparr>rt_chain = chain, rt_chainId = chainId, rt_address = addr,
                  rt_symbol = to_upper (cg_symbol canon), rt_name = cg_name canon, rt_priceUsd = ck_price m,
                  rt_liquidityUsd = None, rt_volume24hUsd = ck_volume m, rt_marketCapUsd = ck_marketCap m,
                  rt_fdvUsd = None, rt_pairAgeHours = None, rt_txns24h = None, rt_logoURI = ck_image m, rt_url = None,
                  rt_verified = True, rt_cgRank = cg_rank canon, rt_score = 0, rt_matchTier = TierExact\<rparr>]))
        else [])
   | _ \<Rightarrow> [])"

definition all_candidates :: "resolver_env \<Rightarrow> string \<Rightarrow> resolve_options \<Rightarrow> resolved_token list" where
  "all_candidates env symbol opts =
    (let q = to_lower symbol; cv = cg_view_of env symbol;
         collapsed = collapsePairs (rv_done env) q opts (rv_search env symbol);
         candidates = map (enrich cv q) collapsed @ fetched_tokens env cv collapsed
     in if candidates = [] then fallback_tokens cv else candidates)"

definition ticker_result :: "resolver_env \<Rightarrow> string \<Rightarrow> resolve_options \<Rightarrow> resolve_result" where
  "ticker_result env symbol opts =
    (let candidates = take (case op_limit opts of None \<Rightarrow> 8 | Some l \<Rightarrow> l) (sortCandidates (all_candidates env symbol opts))
     in \<lparr>rq_kind = KindTicker, rq_query = symbol,
         rq_best = (case candidates of [] \<Rightarrow> None | c # _ \<Rightarrow> Some c), rq_candidates = candidates,
         rq_ambiguous = (length candidates > 1), rq_confidence = computeConfidence candidates\<rparr>)"

text \<open>The key of the cache; its text is determined by these four parts.\<close>

type_synonym resolver_key = "chain option \<times> string \<times> nat \<times> real"

definition cache_key :: "string \<Rightarrow> resolve_options \<Rightarrow> resolver_key" where
  "cache_key symbol opts =
    (op_chain opts, to_lower symbol, case op_limit opts of None \<Rightarrow> 8 | Some l \<Rightarrow> l, num0 (op_minLiquidityUsd opts))"

type_synonym resolver_cache = "(resolver_key, resolve_result) cstore"

definition resolver_bounds :: bcache where
  "resolver_bounds = \<lparr>bc_max = 500, bc_ttlMs = 90000\<rparr>"

definition resolveTicker ::
    "resolver_env \<Rightarrow> string \<Rightarrow> resolve_options \<Rightarrow> resolver_cache \<Rightarrow> resolve_result \<times> resolver_cache" where
  "resolveTicker env symbol opts st =
    (case bc_get resolver_bounds (rv_start env) (cache_key symbol opts) st of
       (Some cached, st) \<Rightarrow> (cached, st)
     | (None, st) \<Rightarrow>
        let result = ticker_result env symbol opts
        in (result, if rq_candidates result \<noteq> [] then bc_set resolver_bounds (rv_done env) (cache_key symbol opts) result st else st))"

subsection \<open>\<open>resolve\<close> and \<open>resolveForTrade\<close>\<close>

definition resolveAddress :: "resolver_env \<Rightarrow> chain \<Rightarrow> string \<Rightarrow> resolve_result" where
  "resolveAddress env chain address =
    (let m = rv_getToken env chain address;
         stub = (if chain = SOLANA then ''solana'' else ''ethereum'');
         token = \<lparr>rt_chain = chain,
           rt_chainId = (case m of None \<Rightarrow> stub | Some m \<Rightarrow> (case tm_chainId m of None \<Rightarrow> stub | Some c \<Rightarrow> c)),
           rt_address = address,
           rt_symbol = (case Option.bind m tm_symbol of None \<Rightarrow> [] | Some s \<Rightarrow> s),
           rt_name = (case Option.bind m tm_name of None \<Rightarrow> [] | Some s \<Rightarrow> s),
           rt_priceUsd = Option.bind m tm_priceUsd, rt_liquidityUsd = Option.bind m tm_liquidityUsd,
           rt_volume24hUsd = Option.bind m tm_volume24hUsd, rt_marketCapUsd = Option.bind m tm_marketCapUsd,
           rt_fdvUsd = Option.bind m tm_fdvUsd, rt_pairAgeHours = Option.bind m tm_pairAgeHours,
           rt_txns24h = (case Option.bind m tm_txns24h of None \<Rightarrow> None | Some (b, s) \<Rightarrow> Some (num0 b + num0 s)),
           rt_logoURI = None, rt_url = Option.bind m tm_url, rt_verified = False, rt_cgRank = None, rt_score = 0,
           rt_matchTier = TierAddress\<rparr>
     in \<lparr>rq_kind = KindAddress, rq_query = address, rq_best = Some token, rq_candidates = [token],
         rq_ambiguous = False, rq_confidence = 1\<rparr>)"

definition resolve_input ::
    "resolver_env \<Rightarrow> string \<Rightarrow> resolve_options \<Rightarrow> resolver_cache \<Rightarrow> resolve_result \<times> resolver_cache" where
  "resolve_input env input opts st = (case classifyInput input of
     UnresolvableInput \<Rightarrow> (EMPTY KindUnresolvable (js_trim input), st)
   | AddressInput chain a \<Rightarrow> (resolveAddress env chain a, st)
   | TickerInput symbol \<Rightarrow> resolveTicker env symbol opts st)"

datatype trade_refusal = CouldNotResolve string | AmbiguousTicker string "resolved_token list" | LowLiquidity string "resolved_token list"

definition liq_of :: "resolved_token \<Rightarrow> real" where
  "liq_of t = num0 (rt_liquidityUsd t)"

definition real_contender :: "resolved_token \<Rightarrow> resolved_token list \<Rightarrow> bool" where
  "real_contender best candidates = (case candidates of _ # second # _ \<Rightarrow>
       rt_matchTier second = rt_matchTier best \<and> liq_of second \<ge> TRADE_MIN_LIQUIDITY_USD \<and>
       liq_of best < TRADE_DOMINANCE_RATIO * liq_of second
     | _ \<Rightarrow> False)"

definition trade_guard :: "string \<Rightarrow> resolve_result \<Rightarrow> trade_refusal + resolved_token" where
  "trade_guard input r = (case rq_best r of None \<Rightarrow> Inl (CouldNotResolve input)
     | Some best \<Rightarrow>
         if rq_kind r = KindUnresolvable then Inl (CouldNotResolve input)
         else if rq_kind r = KindAddress then Inr best
         else if real_contender best (rq_candidates r) then Inl (AmbiguousTicker (rq_query r) (rq_candidates r))
         else if liq_of best < TRADE_MIN_LIQUIDITY_USD then Inl (LowLiquidity (rq_query r) (rq_candidates r))
         else Inr best)"

definition resolveForTrade ::
    "resolver_env \<Rightarrow> string \<Rightarrow> resolve_options \<Rightarrow> resolver_cache \<Rightarrow> (trade_refusal + resolved_token) \<times> resolver_cache" where
  "resolveForTrade env input opts st =
    (case resolve_input env input opts st of (r, st) \<Rightarrow> (trade_guard input r, st))"

text \<open>The leg of a swap, in \<open>execution.controller.ts\<close>.\<close>

definition resolveLeg ::
    "resolver_env \<Rightarrow> string \<Rightarrow> chain \<Rightarrow> resolver_cache \<Rightarrow> (trade_refusal + string \<times> resolved_token option) \<times> resolver_cache" where
  "resolveLeg env v chain st =
    (if detectChain v \<noteq> None then (Inr (v, None), st)
     else case resolveForTrade env v \<lparr>op_chain = Some chain, op_limit = None, op_minLiquidityUsd = None\<rparr> st of
       (Inl e, st) \<Rightarrow> (Inl e, st) | (Inr t, st) \<Rightarrow> (Inr (rt_address t, Some t), st))"


subsection \<open>Pools become tokens\<close>

text \<open>What the loop keeps: the keys are distinct, and a group is not empty and holds pairs of its key.\<close>

definition groups_ok :: "(token_key, dex_pair list) js_map \<Rightarrow> bool" where
  "groups_ok m = (distinct (map fst m) \<and> (\<forall>(k, g) \<in> set m. g \<noteq> [] \<and> (\<forall>p \<in> set g. pair_key p = k)))"

definition pools_in :: "(token_key, dex_pair list) js_map \<Rightarrow> dex_pair multiset" where
  "pools_in m = (\<Sum>(k, g) \<leftarrow> m. mset g)"

lemma map_set_keys: "distinct (map fst m) \<Longrightarrow> distinct (map fst (map_set k v m)) \<and> fst ` set (map_set k v m) = insert k (fst ` set m)"
  by (induction m) auto

lemma set_map_set: "distinct (map fst m) \<Longrightarrow> set (map_set k v m) = insert (k, v) {p \<in> set m. fst p \<noteq> k}"
  by (induction m) (auto simp: rev_image_eqI)

lemma pools_map_set:
  "map_of m k = None \<Longrightarrow> pools_in (map_set k [p] m) = add_mset p (pools_in m)"
  "map_of m k = Some g \<Longrightarrow> pools_in (map_set k (g @ [p]) m) = add_mset p (pools_in m)"
  by (induction m) (auto simp: pools_in_def split: if_splits)

lemma group_pair_ok:
  assumes "groups_ok m"
  shows "groups_ok (group_pair m p)" "pools_in (group_pair m p) = add_mset p (pools_in m)"
proof -
  have d: "distinct (map fst m)" using assms by (simp add: groups_ok_def)
  have old: "g \<noteq> [] \<and> (\<forall>p \<in> set g. pair_key p = k)" if "(k, g) \<in> set m" for k g
    using assms that unfolding groups_ok_def by blast
  have old2: "pair_key q = k" if "(k, g) \<in> set m" "q \<in> set g" for k g q using old [OF that(1)] that(2) by blast
  have step: "groups_ok (map_set k g m)" if "g \<noteq> []" "\<forall>p \<in> set g. pair_key p = k" for k g
    using that old map_set_keys [OF d, of k g] unfolding groups_ok_def set_map_set [OF d] by auto
  show "groups_ok (group_pair m p)"
    by (cases "map_of m (pair_key p)") (auto simp: group_pair_def intro!: step dest!: map_of_SomeD intro: old2)
  show "pools_in (group_pair m p) = add_mset p (pools_in m)"
    by (simp add: group_pair_def pools_map_set split: option.split)
qed

lemma group_foldl_ok:
  "groups_ok m \<Longrightarrow> groups_ok (foldl group_pair m ps) \<and> pools_in (foldl group_pair m ps) = pools_in m + mset ps"
  by (induction ps arbitrary: m) (simp_all add: group_pair_ok)

lemma group_pairs_ok:
  "groups_ok (group_pairs q want pairs)" "pools_in (group_pairs q want pairs) = mset (filter (admitted q want) pairs)"
  using group_foldl_ok [of "[]"] by (simp_all add: group_pairs_def groups_ok_def pools_in_def)

definition pair_liq :: "dex_pair \<Rightarrow> real" where
  "pair_liq p = num0 (dp_liquidityUsd p)"

lemma sum_some_num0: "num0 (sum_some pick ps) = (\<Sum>p \<leftarrow> ps. num0 (pick p))"
proof -
  have "num0 (foldl (\<lambda>acc p. sum_step acc (pick p)) a ps) = num0 a + (\<Sum>p \<leftarrow> ps. num0 (pick p))" for a
  proof (induction ps arbitrary: a)
    case (Cons p ps)
    have "num0 (sum_step a (pick p)) = num0 a + num0 (pick p)" by (cases "pick p") auto
    then show ?case by (simp add: Cons.IH)
  qed simp
  from this [of None] show ?thesis by (simp add: sum_some_def)
qed

lemma candidate_liq: "liq_of (candidate_of now q ps) = (\<Sum>p \<leftarrow> ps. pair_liq p)"
  by (simp add: liq_of_def candidate_of_def Let_def sum_some_num0 pair_liq_def)

lemma groups_liq: "(\<Sum>(k, g) \<leftarrow> m. \<Sum>p \<leftarrow> g. pair_liq p) = (\<Sum>p \<in># pools_in m. pair_liq p)"
proof (induction m)
  case (Cons kg m)
  have "(\<Sum>p \<leftarrow> snd kg. pair_liq p) = (\<Sum>p \<in># mset (snd kg). pair_liq p)"
    by (metis mset_map sum_mset_sum_list)
  then show ?case using Cons by (simp add: pools_in_def case_prod_beta)
qed (simp add: pools_in_def)


lemma map_of_group_pair: "map_of (group_pair m p) k =
    (if pair_key p = k then Some ((case map_of m k of None \<Rightarrow> [] | Some g \<Rightarrow> g) @ [p]) else map_of m k)"
  by (auto simp: group_pair_def map_of_map_set split: option.split)

lemma map_of_groups:
  "map_of (foldl group_pair m ps) k =
    (case filter (\<lambda>p. pair_key p = k) ps of [] \<Rightarrow> map_of m k
     | p # qs \<Rightarrow> Some ((case map_of m k of None \<Rightarrow> [] | Some g \<Rightarrow> g) @ p # qs))"
proof (induction ps arbitrary: m)
  case (Cons p ps)
  show ?case
    by (auto simp: Cons.IH map_of_group_pair split: list.split option.split)
qed simp

lemma group_is_filter:
  assumes "(k, g) \<in> set (group_pairs q want pairs)"
  shows "g = filter (\<lambda>p. pair_key p = k) (filter (admitted q want) pairs) \<and> g \<noteq> []"
proof -
  have ok: "groups_ok (group_pairs q want pairs)" by (rule group_pairs_ok)
  then have "map_of (group_pairs q want pairs) k = Some g" using assms by (simp add: groups_ok_def)
  then show ?thesis
    using ok assms by (auto simp: groups_ok_def group_pairs_def map_of_groups split: list.splits)
qed

lemma group_keys: "set (map fst (group_pairs q want pairs)) = pair_key ` set (filter (admitted q want) pairs)"
proof (rule set_eqI)
  fix k
  have "k \<in> set (map fst (group_pairs q want pairs)) \<longleftrightarrow> map_of (group_pairs q want pairs) k \<noteq> None"
    by (simp add: map_of_eq_None_iff)
  also have "\<dots> \<longleftrightarrow> filter (\<lambda>p. pair_key p = k) (filter (admitted q want) pairs) \<noteq> []"
    by (simp add: group_pairs_def map_of_groups split: list.split)
  also have "\<dots> \<longleftrightarrow> k \<in> pair_key ` set (filter (admitted q want) pairs)"
    by (simp only: filter_empty_conv image_iff) blast
  finally show "k \<in> set (map fst (group_pairs q want pairs)) \<longleftrightarrow> k \<in> pair_key ` set (filter (admitted q want) pairs)" .
qed

definition token_key_of :: "resolved_token \<Rightarrow> token_key" where
  "token_key_of t = (rt_chainId t, to_lower (rt_address t))"

lemma candidate_key:
  assumes "g \<noteq> []" "\<forall>p \<in> set g. pair_key p = k"
  shows "token_key_of (candidate_of now q g) = k"
proof -
  have "hd (js_sort (\<lambda>a b. num0 (dp_liquidityUsd b) - num0 (dp_liquidityUsd a)) g) \<in> set g"
    using assms(1) by (metis hd_in_set length_0_conv length_js_sort set_js_sort)
  then show ?thesis using assms(2) by (auto simp: token_key_of_def candidate_of_def Let_def pair_key_def)
qed

lemma collapse_all:
  "op_minLiquidityUsd opts = None \<Longrightarrow>
    collapsePairs now q opts pairs = map (\<lambda>(k, g). candidate_of now q g) (group_pairs q (op_chain opts) pairs)"
  by (simp add: collapsePairs_def)

lemma collapse_key: "(k, g) \<in> set (group_pairs q want pairs) \<Longrightarrow> token_key_of (candidate_of now q g) = k"
  using group_is_filter [of k g q want pairs] by (intro candidate_key) auto

text \<open>C25: The pools of a search become tokens without loss: there is one candidate for every chain and address
  that an admitted pool has as its base token and no other, each with the liquidity of all its pools, and
  together they hold the liquidity of all admitted pools, whatever the order of the answer.\<close>

theorem tk_collapse:
  "let cands = collapsePairs now q \<lparr>op_chain = c, op_limit = l, op_minLiquidityUsd = None\<rparr> pairs;
       pools = filter (admitted q c) pairs
   in distinct (map token_key_of cands) \<and> set (map token_key_of cands) = pair_key ` set pools \<and>
      list_all (\<lambda>t. liq_of t = (\<Sum>p \<leftarrow> filter (\<lambda>p. pair_key p = token_key_of t) pools. pair_liq p)) cands \<and>
      (\<Sum>t \<leftarrow> cands. liq_of t) = (\<Sum>p \<leftarrow> pools. pair_liq p)"
proof -
  define cands where "cands = collapsePairs now q \<lparr>op_chain = c, op_limit = l, op_minLiquidityUsd = None\<rparr> pairs"
  let ?gs = "group_pairs q c pairs"
  have eq: "cands = map (\<lambda>(k, g). candidate_of now q g) ?gs"
    by (simp add: cands_def collapse_all)
  have keys: "map token_key_of cands = map fst ?gs"
    unfolding eq by (auto simp: collapse_key)
  have each: "list_all (\<lambda>t. liq_of t = (\<Sum>p \<leftarrow> filter (\<lambda>p. pair_key p = token_key_of t) (filter (admitted q c) pairs). pair_liq p))
      cands"
    unfolding eq list_all_iff using group_is_filter [of _ _ q c pairs]
    by (auto simp: candidate_liq collapse_key)
  have "(\<Sum>t \<leftarrow> cands. liq_of t) = (\<Sum>(k, g) \<leftarrow> ?gs. \<Sum>p \<leftarrow> g. pair_liq p)"
    unfolding eq by (simp add: comp_def case_prod_unfold candidate_liq)
  also have "\<dots> = (\<Sum>p \<in># mset (filter (admitted q c) pairs). pair_liq p)"
    unfolding groups_liq group_pairs_ok(2) ..
  also have "\<dots> = (\<Sum>p \<leftarrow> filter (admitted q c) pairs. pair_liq p)"
    by (metis mset_map sum_mset_sum_list)
  finally show ?thesis
    using each group_keys [of q c pairs] group_pairs_ok(1) [of q c pairs] unfolding Let_def cands_def [symmetric] keys groups_ok_def by blast
qed


subsection \<open>What a run of calls answers\<close>

definition better :: "resolved_token \<Rightarrow> resolved_token \<Rightarrow> bool" where
  "better a b = (MATCH_TIER_RANK (rt_matchTier b) < MATCH_TIER_RANK (rt_matchTier a) \<or>
     MATCH_TIER_RANK (rt_matchTier b) = MATCH_TIER_RANK (rt_matchTier a) \<and> rt_score b \<le> rt_score a)"

lemma better_order: "candidate_order a b \<le> 0 \<longleftrightarrow> better a b"
  by (auto simp: candidate_order_def better_def Let_def)

definition well_ranked :: "nat \<Rightarrow> resolve_result \<Rightarrow> bool" where
  "well_ranked limit r = (rq_kind r = KindTicker \<and>
     rq_best r = (case rq_candidates r of [] \<Rightarrow> None | c # _ \<Rightarrow> Some c) \<and> sorted_wrt better (rq_candidates r) \<and>
     length (rq_candidates r) \<le> limit \<and> rq_ambiguous r = (length (rq_candidates r) > 1) \<and>
     0 \<le> rq_confidence r \<and> rq_confidence r \<le> 1)"

lemma sorted_wrt_take: "sorted_wrt P xs \<Longrightarrow> sorted_wrt P (take n xs)"
  by (metis append_take_drop_id sorted_wrt_append)

lemma ticker_well_ranked: "well_ranked (fst (snd (snd (cache_key symbol opts)))) (ticker_result env symbol opts)"
  using sorted_js_sort [OF candidate_consistent]
  by (auto simp: well_ranked_def ticker_result_def cache_key_def Let_def confidence_range sortCandidates_def
      better_order intro!: sorted_wrt_take)

text \<open>Every cached answer was computed for its key.\<close>

definition cache_ok :: "resolver_cache \<Rightarrow> bool" where
  "cache_ok st = (\<forall>(k, e) \<in> set st. \<exists>env symbol opts. k = cache_key symbol opts \<and> ce_value e = ticker_result env symbol opts)"

lemma get_sub: "set (snd (bc_get b now k st)) \<subseteq> set st"
  by (auto simp: bc_get_def set_map_delete dest: map_of_SomeD split: option.split)

lemma get_from: "fst (bc_get b now k st) = Some v \<Longrightarrow> \<exists>e. (k, e) \<in> set st \<and> ce_value e = v"
  by (auto simp: bc_get_def dest: map_of_SomeD split: option.splits if_splits)

lemma set_sub: "p \<in> set (bc_set b now k v st) \<Longrightarrow> p = (k, \<lparr>ce_value = v, ce_ts = now\<rparr>) \<or> p \<in> set st"
  by (auto simp: bc_set_eq Let_def set_map_delete split: if_splits)

lemma cache_ok_sub: "set st' \<subseteq> set st \<Longrightarrow> cache_ok st \<Longrightarrow> cache_ok st'"
  unfolding cache_ok_def by blast

lemma cache_ok_set:
  assumes "cache_ok st"
  shows "cache_ok (bc_set b now (cache_key symbol opts) (ticker_result env symbol opts) st)"
  unfolding cache_ok_def
proof (intro ballI)
  fix p assume "p \<in> set (bc_set b now (cache_key symbol opts) (ticker_result env symbol opts) st)"
  from set_sub [OF this] show "case p of (k, e) \<Rightarrow> \<exists>env symbol opts. k = cache_key symbol opts \<and> ce_value e = ticker_result env symbol opts"
  proof
    assume "p = (cache_key symbol opts, \<lparr>ce_value = ticker_result env symbol opts, ce_ts = now\<rparr>)"
    then show ?thesis by (simp only: prod.case entry.select_convs) blast
  next
    assume "p \<in> set st"
    then show ?thesis using assms unfolding cache_ok_def by (rule bspec [rotated])
  qed
qed

lemma ticker_answer:
  assumes "cache_ok st"
  shows "cache_ok (snd (resolveTicker env symbol opts st))"
    and "\<exists>env' symbol' opts'. cache_key symbol' opts' = cache_key symbol opts \<and>
      fst (resolveTicker env symbol opts st) = ticker_result env' symbol' opts'"
proof -
  let ?k = "cache_key symbol opts"
  obtain hit st1 where g: "bc_get resolver_bounds (rv_start env) ?k st = (hit, st1)" by fastforce
  have ok1: "cache_ok st1"
    by (rule cache_ok_sub [OF _ assms]) (use get_sub [of resolver_bounds "rv_start env" ?k st] g in simp)
  show "cache_ok (snd (resolveTicker env symbol opts st))"
    using ok1 cache_ok_set [OF ok1] by (simp add: resolveTicker_def g Let_def split: option.split)
  show "\<exists>env' symbol' opts'. cache_key symbol' opts' = ?k \<and> fst (resolveTicker env symbol opts st) = ticker_result env' symbol' opts'"
  proof (cases hit)
    case None
    then show ?thesis by (intro exI [of _ env] exI [of _ symbol] exI [of _ opts]) (simp add: resolveTicker_def g Let_def)
  next
    case (Some r)
    then obtain e where m: "(?k, e) \<in> set st" "ce_value e = r" using get_from [of resolver_bounds "rv_start env" ?k st r] g by auto
    from bspec [OF assms [unfolded cache_ok_def] m(1)] m(2) obtain env' symbol' opts' where e: "cache_key symbol' opts' = ?k" "r = ticker_result env' symbol' opts'"
      by (simp only: prod.case) metis
    have "fst (resolveTicker env symbol opts st) = r" using Some by (simp add: resolveTicker_def g)
    with e show ?thesis by blast
  qed
qed

fun resolve_run :: "(resolver_env \<times> string \<times> resolve_options) list \<Rightarrow> resolver_cache \<Rightarrow> resolver_cache" where
  "resolve_run [] st = st"
| "resolve_run ((env, input, opts) # calls) st = resolve_run calls (snd (resolve_input env input opts st))"

lemma run_cache_ok: "cache_ok st \<Longrightarrow> cache_ok (resolve_run calls st)"
  by (induction calls st rule: resolve_run.induct)
    (auto simp: resolve_input_def ticker_answer(1) split: classified.split)

lemma run_ranked:
  assumes "classifyInput input = TickerInput symbol"
  shows "well_ranked (case op_limit opts of None \<Rightarrow> 8 | Some l \<Rightarrow> l) (fst (resolve_input env input opts (resolve_run calls [])))"
proof -
  have "cache_ok (resolve_run calls [])" by (rule run_cache_ok) (simp add: cache_ok_def)
  from ticker_answer(2) [OF this] obtain env' symbol' opts' where a: "cache_key symbol' opts' = cache_key symbol opts"
    "fst (resolveTicker env symbol opts (resolve_run calls [])) = ticker_result env' symbol' opts'" by blast
  show ?thesis using ticker_well_ranked [of symbol' opts' env'] a assms
    by (simp add: resolve_input_def) (simp add: cache_key_def)
qed



definition quiet_env :: resolver_env where
  "quiet_env = \<lparr>rv_start = 0, rv_done = 0, rv_search = (\<lambda>_. []), rv_getToken = (\<lambda>_ _. None), rv_coins = (\<lambda>_. []),
     rv_market = (\<lambda>_. None), rv_platforms = (\<lambda>_. [])\<rparr>"

definition no_options :: resolve_options where
  "no_options = \<lparr>op_chain = None, op_limit = None, op_minLiquidityUsd = None\<rparr>"

definition meme_env :: resolver_env where
  "meme_env = quiet_env\<lparr>rv_search := \<lambda>_. [sample_pair]\<rparr>"

lemma text_code: "js_trim ''meme'' = ''meme''" "starts_with ''$'' ''meme'' = False" "detectChain ''meme'' = None" "TICKER_RE ''meme''"
  by code_simp+

lemma meme_input: "classifyInput ''meme'' = TickerInput ''meme''"
  by (simp add: classifyInput_def text_code)

lemma meme_lower: "to_lower ''meme'' = ''meme''" "to_lower ''MEME'' = ''meme''"
  by code_simp+

definition meme_token :: resolved_token where
  "meme_token = enrich (cg_view_of meme_env ''meme'') ''meme'' (candidate_of 0 ''meme'' [sample_pair])"

lemma meme_candidates: "all_candidates meme_env ''meme'' no_options = [meme_token]"
  by (simp add: all_candidates_def meme_lower meme_token_def Let_def meme_env_def collapsePairs_def no_options_def
      group_pairs_def group_pair_def admitted_def sample_pair_def chainIdToChain_def pair_tier_def matchTier_def
      lower_or_empty_def fetched_tokens_def cg_view_of_def quiet_env_def canonical_coin_def)

lemma meme_liq: "liq_of meme_token = 90000"
  by (simp add: meme_token_def enrich_def scored_def Let_def liq_of_def candidate_of_def sum_some_def sample_pair_def)

lemma meme_result: "ticker_result meme_env ''meme'' no_options =
    \<lparr>rq_kind = KindTicker, rq_query = ''meme'', rq_best = Some meme_token, rq_candidates = [meme_token], rq_ambiguous = False,
      rq_confidence = 1\<rparr>"
  unfolding ticker_result_def meme_candidates
  by (simp add: sortCandidates_def computeConfidence_def Let_def no_options_def)

lemma fresh_ticker: "fst (resolveTicker env symbol opts []) = ticker_result env symbol opts"
  by (simp add: resolveTicker_def bc_get_def Let_def)

lemma meme_traded: "fst (resolveForTrade meme_env ''meme'' no_options (resolve_run [] [])) = Inr meme_token"
  unfolding resolveForTrade_def resolve_input_def meme_input split_beta resolve_run.simps classified.case fst_conv fresh_ticker meme_result
  by (simp add: trade_guard_def real_contender_def meme_liq TRADE_MIN_LIQUIDITY_USD_def)



subsection \<open>Where the guard does not look\<close>

lemma scored_fields [simp]: "rt_address (scored t) = rt_address t" "rt_chain (scored t) = rt_chain t"
  "rt_liquidityUsd (scored t) = rt_liquidityUsd t" "rt_matchTier (scored t) = rt_matchTier t"
  "rt_verified (scored t) = rt_verified t" "rt_cgRank (scored t) = rt_cgRank t" "rt_priceUsd (scored t) = rt_priceUsd t"
  by (simp_all add: scored_def)

lemma enrich_fields [simp]: "rt_address (enrich cv q t) = rt_address t" "rt_chain (enrich cv q t) = rt_chain t"
  "rt_liquidityUsd (enrich cv q t) = rt_liquidityUsd t" "rt_matchTier (enrich cv q t) = rt_matchTier t"
  by (simp_all add: enrich_def Let_def del: if_split)

lemma canonical_symbol: "canonical_coin q coins = Some c \<Longrightarrow> c \<in> set coins \<and> to_lower (cg_symbol c) = q \<and> cg_rank c \<noteq> None"
proof -
  assume a: "canonical_coin q coins = Some c"
  then obtain cs where "sort_key (\<lambda>c. num0 (cg_rank c)) (filter (\<lambda>c. to_lower (cg_symbol c) = q \<and> cg_rank c \<noteq> None) coins) = c # cs"
    unfolding canonical_coin_def by (cases "sort_key (\<lambda>c. num0 (cg_rank c)) (filter (\<lambda>c. to_lower (cg_symbol c) = q \<and> cg_rank c \<noteq> None) coins)") auto
  from sort_key_first [OF this] show ?thesis by simp
qed


definition listed_coin :: cg_coin where
  "listed_coin = \<lparr>cg_id = ''real-meme'', cg_symbol = ''MEME'', cg_name = ''Meme'', cg_rank = Some 50\<rparr>"

definition listed_env :: resolver_env where
  "listed_env = meme_env\<lparr>rv_coins := \<lambda>_. [listed_coin],
     rv_market := \<lambda>_. Some \<lparr>ck_price = Some 7, ck_marketCap = None, ck_volume = None, ck_image = None\<rparr>\<rparr>"

lemma listed_candidate: "candidate_of 0 ''meme'' [sample_pair] \<in> set (collapsePairs 0 ''meme'' no_options [sample_pair])"
  by (simp add: collapsePairs_def no_options_def group_pairs_def group_pair_def admitted_def sample_pair_def
      chainIdToChain_def pair_tier_def matchTier_def lower_or_empty_def meme_lower)


text \<open>C15: The chain of a trade is not respected: when the exchange finds no pool and CoinGecko knows the coin
  with a contract on Ethereum that trades with enough liquidity, the leg of a swap on Solana resolves to that
  contract.\<close>

theorem tk_wrong_chain:
  assumes "classifyInput v = TickerInput s" and "detectChain v = None" and "rv_search env s = []"
    and "canonical_coin (to_lower s) (rv_coins env s) = Some c" and "rv_platforms env (cg_id c) = [(''ethereum'', addr)]"
    and "addr \<noteq> []" and "rv_getToken env EVM addr = Some m" and "TRADE_MIN_LIQUIDITY_USD \<le> num0 (tm_liquidityUsd m)"
  shows "\<exists>t. fst (resolveLeg env v SOLANA []) = Inr (addr, Some t) \<and> rt_chain t = EVM \<and> rt_address t = addr"
proof -
  let ?o = "\<lparr>op_chain = Some SOLANA, op_limit = None, op_minLiquidityUsd = None\<rparr>" and ?cv = "cg_view_of env s"
  have cv: "cv_canonical ?cv = Some c" "cv_platforms ?cv = [(''ethereum'', addr)]"
    using assms(4,5) by (simp_all add: cg_view_of_def Let_def)
  have jobs: "fetch_jobs ?cv [] = [(''ethereum'', addr)]"
    using assms(6) by (simp add: fetch_jobs_def cv CG_PLATFORM_TO_CHAIN_ID_def map_filter_simps)
  obtain t where t: "fetch_token env ?cv c (''ethereum'', addr) = Some t"
    "rt_chain t = EVM" "rt_address t = addr" "rt_liquidityUsd t = tm_liquidityUsd m"
    using assms(7) by (auto simp: fetch_token_def chainIdToChain_def EVM_CHAINS_def scored_def)
  have none: "collapsePairs n q ?o [] = []" for n q by (simp add: collapsePairs_def group_pairs_def)
  have "all_candidates env s ?o = [t]"
    by (simp add: all_candidates_def assms(3) none fetched_tokens_def cv jobs t(1) map_filter_simps)
  then have "ticker_result env s ?o = \<lparr>rq_kind = KindTicker, rq_query = s, rq_best = Some t, rq_candidates = [t],
      rq_ambiguous = False, rq_confidence = 1\<rparr>"
    by (simp add: ticker_result_def sortCandidates_def computeConfidence_def Let_def)
  then have "fst (resolveForTrade env v ?o []) = Inr t"
    using assms(8) by (simp add: resolveForTrade_def resolve_input_def assms(1) split_beta fresh_ticker trade_guard_def
        real_contender_def liq_of_def t(4))
  then show ?thesis using t(2,3) assms(2) by (simp add: resolveLeg_def split_beta split: sum.split)
qed


definition ether_meta :: token_meta where
  "ether_meta = \<lparr>tm_chain = EVM, tm_chainId = Some ''ethereum'', tm_address = ''0xabc'', tm_symbol = None, tm_name = None,
     tm_priceUsd = None, tm_marketCapUsd = None, tm_fdvUsd = None, tm_liquidityUsd = Some 80000, tm_volume24hUsd = None,
     tm_m5 = None, tm_h1 = None, tm_h6 = None, tm_h24 = None, tm_txns24h = None, tm_pairCreatedAt = None, tm_pairAgeHours = None,
     tm_dex = None, tm_url = None\<rparr>"

definition ether_env :: resolver_env where
  "ether_env = quiet_env\<lparr>rv_coins := \<lambda>_. [listed_coin], rv_platforms := \<lambda>_. [(''ethereum'', ''0xabc'')],
     rv_getToken := \<lambda>_ _. Some ether_meta\<rparr>"

theorem tk_wrong_chain_witness:
  "\<exists>t. fst (resolveLeg ether_env ''meme'' SOLANA []) = Inr (''0xabc'', Some t) \<and> rt_chain t = EVM \<and> rt_address t = ''0xabc''"
  by (rule tk_wrong_chain [OF meme_input text_code(3), of _ listed_coin _ ether_meta])
    (simp_all add: ether_env_def quiet_env_def meme_lower listed_coin_def canonical_coin_def ether_meta_def TRADE_MIN_LIQUIDITY_USD_def)

definition pool :: "string \<Rightarrow> real \<Rightarrow> real \<Rightarrow> dex_pair" where
  "pool a liq vol = sample_pair\<lparr>dp_baseToken := \<lparr>dt_address = a, dt_symbol = Some ''MEME'', dt_name = None\<rparr>,
     dp_liquidityUsd := Some liq, dp_volumeH24 := Some vol, dp_marketCap := None\<rparr>"

definition washed_env :: resolver_env where
  "washed_env = quiet_env\<lparr>rv_search := \<lambda>_. [pool ''deep'' 999999 0, pool ''a'' 9999 999999999, pool ''b'' 999 9999999999]\<rparr>"

definition found :: "string \<Rightarrow> real \<Rightarrow> real \<Rightarrow> resolved_token" where
  "found a liq vol = enrich (cg_view_of washed_env ''meme'') ''meme'' (candidate_of 0 ''meme'' [pool a liq vol])"

lemma washed_candidates: "all_candidates washed_env ''meme'' no_options =
    [found ''deep'' 999999 0, found ''a'' 9999 999999999, found ''b'' 999 9999999999]"
  by (simp add: all_candidates_def meme_lower found_def Let_def washed_env_def collapsePairs_def no_options_def
      group_pairs_def group_pair_def admitted_def pool_def sample_pair_def chainIdToChain_def pair_tier_def matchTier_def
      lower_or_empty_def fetched_tokens_def cg_view_of_def quiet_env_def canonical_coin_def pair_key_def to_lower_def lower_char_def
      lower_letters_def upper_letters_def)


lemma washed_view: "cg_view_of washed_env ''meme'' = \<lparr>cv_verifiedSymbols = [], cv_canonical = None, cv_top = False,
    cv_market = None, cv_platforms = []\<rparr>"
  by (simp add: cg_view_of_def washed_env_def quiet_env_def canonical_coin_def Let_def)

lemma found_fields: "rt_matchTier (found a liq vol) = TierExact" "rt_liquidityUsd (found a liq vol) = Some liq"
  "rt_address (found a liq vol) = a"
  by (simp_all add: found_def candidate_of_def Let_def pool_def sample_pair_def sum_some_def best_tier_def map_filter_simps
      pair_tier_def matchTier_def lower_or_empty_def meme_lower)

lemma found_score: "0 \<le> liq \<Longrightarrow> 0 \<le> vol \<Longrightarrow> rt_score (found a liq vol) = log 10 (1 + liq) + log 10 (1 + vol) * (6 / 10)"
  by (simp add: found_def washed_view enrich_def canonical_addrs_def scored_def scoreToken_def log_of_def candidate_of_def Let_def
      pool_def sample_pair_def sum_some_def max_some_def created_first_def age_hours_def map_filter_simps
      W_LIQ_def W_VOL_def W_MC_def W_TX_def W_AGE_def AGE_CAP_HOURS_def)

lemma log10_powers: "log 10 (1000::real) = 3" "log 10 (10000::real) = 4" "log 10 (1000000::real) = 6"
  "log 10 (1000000000::real) = 9" "log 10 (10000000000::real) = 10"
  using log_pow_cancel [of 10 3] log_pow_cancel [of 10 4] log_pow_cancel [of 10 6] log_pow_cancel [of 10 9] log_pow_cancel [of 10 10]
  by simp_all

text \<open>The guard compares the best candidate with the second one only, and the ranking weighs the volume
  of a day, which its traders can inflate: there are pools for which a token is traded although
  another one of exactly the same symbol has a hundred times its liquidity.\<close>

theorem tk_blind:
  "\<exists>t u. fst (resolveForTrade washed_env ''meme'' no_options []) = Inr t \<and>
     u \<in> set (all_candidates washed_env ''meme'' no_options) \<and> rt_matchTier u = rt_matchTier t \<and>
     rt_address u \<noteq> rt_address t \<and> 100 * liq_of t \<le> liq_of u"
proof -
  let ?d = "found ''deep'' 999999 0" and ?a = "found ''a'' 9999 999999999" and ?b = "found ''b'' 999 9999999999"
  have sc: "rt_score ?d = 6" "rt_score ?a = 94 / 10" "rt_score ?b = 9"
    by (simp_all add: found_score log10_powers)
  have "sortCandidates [?d, ?a, ?b] = [?a, ?b, ?d]"
    by (simp add: sortCandidates_def candidate_order_def found_fields sc Let_def)
  then have r: "fst (resolveTicker washed_env ''meme'' no_options []) = \<lparr>rq_kind = KindTicker, rq_query = ''meme'',
      rq_best = Some ?a, rq_candidates = [?a, ?b, ?d], rq_ambiguous = True, rq_confidence = computeConfidence [?a, ?b, ?d]\<rparr>"
    by (simp add: fresh_ticker ticker_result_def washed_candidates Let_def no_options_def [symmetric])
      (simp add: no_options_def)
  have "fst (resolveForTrade washed_env ''meme'' no_options []) = Inr ?a"
    unfolding resolveForTrade_def resolve_input_def meme_input split_beta classified.case fst_conv r
    by (simp add: trade_guard_def real_contender_def liq_of_def found_fields TRADE_MIN_LIQUIDITY_USD_def)
  then show ?thesis
    by (intro exI [of _ ?a] exI [of _ ?d]) (simp add: washed_candidates found_fields liq_of_def)
qed

end
