(* ===== verification/Token_Analysis.thy ===== *)
theory Token_Analysis
  imports Token_Types
begin

text \<open>
  \<open>apps/api/src/token-analysis\<close>: the kill switch (\<open>kill-switch.ts\<close>), the trading profiles
  (\<open>profile.config.ts\<close>), the plan of a trade (\<open>trading-strategy.engine.ts\<close>) and the four playbooks
  (\<open>playbooks.ts\<close>). Of the inputs the fields are modelled that this code reads; the persona of a profile
  and the fixed texts that explain a signal or a plan are left out. Dashes and other characters outside
  ASCII are written as their UTF-8 bytes.
\<close>

subsection \<open>Inputs\<close>

datatype tri_state = TriYes | TriNo | TriUnknown

record safety_signals =
  sf_honeypot :: "tri_state option"
  sf_buyTax :: "real option"
  sf_sellTax :: "real option"
  sf_mintAuthority :: "bool option"
  sf_freezeAuthority :: "bool option"
  sf_lpLocked :: "tri_state option"
  sf_topHoldersPct :: "real option"
  sf_holdersCount :: "real option"
  sf_rugScore :: "real option"
  sf_flags :: "string list"

record bundle_info =
  bi_detected :: bool
  bi_bundledSupplyPct :: "real option"

record price_impact =
  pi_buy1000Usd :: "real option"

record lifecycle_info =
  li_bonding :: bool
  li_bondingCurvePct :: "real option"

record holder_metrics =
  hm_top10 :: "real option"
  hm_bundleInfo :: "bundle_info option"
  hm_priceImpact :: "price_impact option"
  hm_lifecycle :: "lifecycle_info option"

definition em_dash :: string where "em_dash = [CHR '' '', CHR 0xE2, CHR 0x80, CHR 0x94, CHR '' '']"
definition en_dash :: string where "en_dash = [CHR 0xE2, CHR 0x80, CHR 0x93]"
definition minus_sign :: string where "minus_sign = [CHR 0xE2, CHR 0x88, CHR 0x92]"
definition times_suffix :: string where "times_suffix = [CHR 0xC3, CHR 0x97]"
definition plus_minus :: string where "plus_minus = [CHR 0xC2, CHR 0xB1]"

definition js_round :: "real \<Rightarrow> real" where
  "js_round x = of_int \<lfloor>x + 1 / 2\<rfloor>"

definition above :: "real option \<Rightarrow> real \<Rightarrow> bool" where
  "above x b = (case x of None \<Rightarrow> False | Some v \<Rightarrow> v > b)"

definition below :: "real option \<Rightarrow> real \<Rightarrow> bool" where
  "below x b = (case x of None \<Rightarrow> False | Some v \<Rightarrow> v < b)"

lemma above_below_code [simp]: "above None b = False" "above (Some v) b = (v > b)" "below None b = False" "below (Some v) b = (v < b)"
  by (simp_all add: above_def below_def)

subsection \<open>\<open>kill-switch.ts\<close>\<close>

record kill_check =
  kc_id :: string
  kc_reason :: string
  kc_test :: "safety_signals \<Rightarrow> token_meta \<Rightarrow> bool"

definition CHECKS :: "kill_check list" where
  "CHECKS = [
     \<lparr>kc_id = ''honeypot'', kc_reason = ''Honeypot'' @ em_dash @ ''token cannot be sold'',
       kc_test = \<lambda>s m. sf_honeypot s = Some TriYes\<rparr>,
     \<lparr>kc_id = ''mint_authority'', kc_reason = ''Mint authority active'' @ em_dash @ ''deployer can print unlimited tokens'',
       kc_test = \<lambda>s m. sf_mintAuthority s = Some True\<rparr>,
     \<lparr>kc_id = ''freeze_authority'', kc_reason = ''Freeze authority active'' @ em_dash @ ''deployer can freeze your balance'',
       kc_test = \<lambda>s m. sf_freezeAuthority s = Some True\<rparr>,
     \<lparr>kc_id = ''high_buy_tax'', kc_reason = ''Buy tax exceeds 10%'' @ em_dash @ ''entering costs more than you get'',
       kc_test = \<lambda>s m. num0 (sf_buyTax s) > 1000\<rparr>,
     \<lparr>kc_id = ''high_sell_tax'', kc_reason = ''Sell tax exceeds 10%'' @ em_dash @ ''exiting costs more than you get'',
       kc_test = \<lambda>s m. num0 (sf_sellTax s) > 1000\<rparr>,
     \<lparr>kc_id = ''no_liquidity'', kc_reason = ''Liquidity below $5,000'' @ em_dash @ ''impossible to exit meaningfully'',
       kc_test = \<lambda>s m. below (tm_liquidityUsd m) 5000\<rparr>,
     \<lparr>kc_id = ''too_young'', kc_reason = ''Token less than 3 minutes old'' @ em_dash @ ''wait for liquidity to stabilize'',
       kc_test = \<lambda>s m. below (tm_pairAgeHours m) (5 / 100)\<rparr>,
     \<lparr>kc_id = ''rug_score_critical'', kc_reason = ''Rug score critically high (>80/100)'' @ em_dash @ ''multiple severe risk vectors'',
       kc_test = \<lambda>s m. num0 (sf_rugScore s) > 80\<rparr>]"

record kill_result =
  kr_triggered :: bool
  kr_checkId :: "string option"
  kr_reason :: "string option"

fun first_check :: "kill_check list \<Rightarrow> safety_signals \<Rightarrow> token_meta \<Rightarrow> kill_result" where
  "first_check [] s m = \<lparr>kr_triggered = False, kr_checkId = None, kr_reason = None\<rparr>"
| "first_check (c # cs) s m =
    (if kc_test c s m then \<lparr>kr_triggered = True, kr_checkId = Some (kc_id c), kr_reason = Some (kc_reason c)\<rparr>
     else first_check cs s m)"

definition checkKill :: "safety_signals \<Rightarrow> token_meta \<Rightarrow> kill_result" where
  "checkKill safety meta = first_check CHECKS safety meta"

subsection \<open>\<open>profile.config.ts\<close>\<close>

record profile_weights =
  pw_safety :: real
  pw_distribution :: real
  pw_market :: real
  pw_social :: real
  pw_macro :: real

record kill_overrides =
  ko_minLiquidityUsd :: "real option"
  ko_minAgeHours :: "real option"
  ko_maxAgeHours :: "real option"
  ko_maxBundledSupplyPct :: "real option"
  ko_maxRugScore :: "real option"

record strategy_defaults =
  sd_holdRange :: string
  sd_stopLossPct :: real
  sd_targets :: "real list"
  sd_positionPctRange :: "real \<times> real"
  sd_trailingStopAfterT1Pct :: real
  sd_maxHoldMs :: real

record profile_definition =
  pf_key :: trading_profile
  pf_label :: string
  pf_weights :: profile_weights
  pf_killOverrides :: kill_overrides
  pf_strategy :: strategy_defaults

text \<open>The table; \<open>maxAge\<close> is the number of the environment variable \<open>HOT_TOKEN_MAX_AGE_HOURS\<close>.\<close>

fun PROFILES :: "real \<Rightarrow> trading_profile \<Rightarrow> profile_definition" where
  "PROFILES maxAge Meme_hunter = \<lparr>pf_key = Meme_hunter, pf_label = ''Meme Hunter'',
     pf_weights = \<lparr>pw_safety = 25, pw_distribution = 32, pw_market = 25, pw_social = 13, pw_macro = 5\<rparr>,
     pf_killOverrides = \<lparr>ko_minLiquidityUsd = Some 8000, ko_minAgeHours = None, ko_maxAgeHours = Some maxAge,
       ko_maxBundledSupplyPct = Some 25, ko_maxRugScore = Some 75\<rparr>,
     pf_strategy = \<lparr>sd_holdRange = ''30min '' @ en_dash @ '' 4hr'', sd_stopLossPct = 20, sd_targets = [15 / 10, 25 / 10, 5],
       sd_positionPctRange = (5 / 10, 15 / 10), sd_trailingStopAfterT1Pct = 15, sd_maxHoldMs = 4 * 60 * 60 * 1000\<rparr>\<rparr>"
| "PROFILES maxAge Degen_sniper = \<lparr>pf_key = Degen_sniper, pf_label = ''Degen Sniper'',
     pf_weights = \<lparr>pw_safety = 18, pw_distribution = 28, pw_market = 32, pw_social = 12, pw_macro = 10\<rparr>,
     pf_killOverrides = \<lparr>ko_minLiquidityUsd = Some 3000, ko_minAgeHours = None, ko_maxAgeHours = Some maxAge,
       ko_maxBundledSupplyPct = Some 15, ko_maxRugScore = Some 65\<rparr>,
     pf_strategy = \<lparr>sd_holdRange = ''5min '' @ en_dash @ '' 30min'', sd_stopLossPct = 25, sd_targets = [2, 5, 20],
       sd_positionPctRange = (2 / 10, 6 / 10), sd_trailingStopAfterT1Pct = 20, sd_maxHoldMs = 30 * 60 * 1000\<rparr>\<rparr>"
| "PROFILES maxAge Swing_trader = \<lparr>pf_key = Swing_trader, pf_label = ''Swing Trader'',
     pf_weights = \<lparr>pw_safety = 30, pw_distribution = 22, pw_market = 32, pw_social = 11, pw_macro = 5\<rparr>,
     pf_killOverrides = \<lparr>ko_minLiquidityUsd = Some 50000, ko_minAgeHours = Some 6, ko_maxAgeHours = None,
       ko_maxBundledSupplyPct = None, ko_maxRugScore = Some 60\<rparr>,
     pf_strategy = \<lparr>sd_holdRange = ''2 '' @ en_dash @ '' 14 days'', sd_stopLossPct = 12, sd_targets = [125 / 100, 15 / 10, 25 / 10],
       sd_positionPctRange = (1, 3), sd_trailingStopAfterT1Pct = 10, sd_maxHoldMs = 14 * 24 * 60 * 60 * 1000\<rparr>\<rparr>"
| "PROFILES maxAge Gem_hunt = \<lparr>pf_key = Gem_hunt, pf_label = ''Gem Hunt'',
     pf_weights = \<lparr>pw_safety = 38, pw_distribution = 22, pw_market = 18, pw_social = 12, pw_macro = 10\<rparr>,
     pf_killOverrides = \<lparr>ko_minLiquidityUsd = Some 100000, ko_minAgeHours = Some 72, ko_maxAgeHours = None,
       ko_maxBundledSupplyPct = Some 10, ko_maxRugScore = Some 40\<rparr>,
     pf_strategy = \<lparr>sd_holdRange = ''2 '' @ en_dash @ '' 12 weeks'', sd_stopLossPct = 20, sd_targets = [2, 4, 10],
       sd_positionPctRange = (2, 6), sd_trailingStopAfterT1Pct = 15, sd_maxHoldMs = 84 * 24 * 60 * 60 * 1000\<rparr>\<rparr>"
| "PROFILES maxAge Alpha_hunt = \<lparr>pf_key = Alpha_hunt, pf_label = ''Alpha Hunt'',
     pf_weights = \<lparr>pw_safety = 22, pw_distribution = 18, pw_market = 18, pw_social = 12, pw_macro = 5\<rparr>,
     pf_killOverrides = \<lparr>ko_minLiquidityUsd = Some 20000, ko_minAgeHours = None, ko_maxAgeHours = None,
       ko_maxBundledSupplyPct = None, ko_maxRugScore = Some 70\<rparr>,
     pf_strategy = \<lparr>sd_holdRange = ''Mirrors smart money'', sd_stopLossPct = 18, sd_targets = [15 / 10, 3, 6],
       sd_positionPctRange = (1, 25 / 10), sd_trailingStopAfterT1Pct = 15, sd_maxHoldMs = 7 * 24 * 60 * 60 * 1000\<rparr>\<rparr>"

definition profile_keys :: "(string \<times> trading_profile) list" where
  "profile_keys = [(''meme_hunter'', Meme_hunter), (''degen_sniper'', Degen_sniper), (''swing_trader'', Swing_trader),
     (''gem_hunt'', Gem_hunt), (''alpha_hunt'', Alpha_hunt)]"

definition getProfile :: "real \<Rightarrow> string option \<Rightarrow> profile_definition" where
  "getProfile maxAge k = (case Option.bind k (map_of profile_keys) of None \<Rightarrow> PROFILES maxAge Meme_hunter | Some p \<Rightarrow> PROFILES maxAge p)"


subsection \<open>\<open>trading-strategy.engine.ts\<close>\<close>

record strategy_target =
  tg_label :: tmpl
  tg_pct :: real
  tg_price :: "real option"
  tg_action :: string

record position_sizing =
  sz_pctRange :: "real \<times> real"
  sz_portfolioNote :: tmpl
  sz_dollarRange :: "(real \<times> real) option"
  sz_modifier :: real
  sz_modifierReason :: "tmpl option"

datatype plan_confidence = HighConf | MediumConf | LowConf

record trading_strategy =
  ts_profile :: trading_profile
  ts_profileLabel :: string
  ts_entryPrice :: "real option"
  ts_entryZone :: "(real \<times> real) option"
  ts_entryNote :: tmpl
  ts_stopLossPrice :: "real option"
  ts_stopLossPct :: real
  ts_stopLossNote :: tmpl
  ts_targets :: "strategy_target list"
  ts_trailingStop :: tmpl
  ts_maxHoldTime :: tmpl
  ts_positionSizing :: position_sizing
  ts_riskReward :: real
  ts_confidence :: plan_confidence
  ts_confidenceReason :: tmpl
  ts_warnings :: "tmpl list"

text \<open>A price of zero counts as no price.\<close>

definition truthy_num :: "real option \<Rightarrow> real option" where
  "truthy_num x = (if x = Some 0 then None else x)"

definition entry_note :: "token_meta \<Rightarrow> holder_metrics option \<Rightarrow> tmpl" where
  "entry_note m holders =
    (case Option.bind holders hm_lifecycle of
       Some l \<Rightarrow> if li_bonding l
         then [S ''Bonding curve at '', (case li_bondingCurvePct l of None \<Rightarrow> S ''?'' | Some p \<Rightarrow> F p 0),
           S (''%'' @ em_dash @ ''enter before graduation for best price, exit on spike.'')]
         else if below (tm_pairAgeHours m) 1
         then [S ''Token very new (<1h). Wait for initial dump to stabilize, then enter on reversal.'']
         else [S (''Market buy at spot or limit within '' @ plus_minus @ ''3% zone.'')]
     | None \<Rightarrow> if below (tm_pairAgeHours m) 1
         then [S ''Token very new (<1h). Wait for initial dump to stabilize, then enter on reversal.'']
         else [S (''Market buy at spot or limit within '' @ plus_minus @ ''3% zone.'')])"

definition impact_1000 :: "holder_metrics option \<Rightarrow> real option" where
  "impact_1000 holders = Option.bind (Option.bind holders hm_priceImpact) pi_buy1000Usd"

text \<open>The stop in percent, and the warning of a thin book.\<close>

definition stop_stage :: "holder_metrics option \<Rightarrow> strategy_defaults \<Rightarrow> real \<times> tmpl list" where
  "stop_stage holders sd = (case impact_1000 holders of
     None \<Rightarrow> (sd_stopLossPct sd, [])
   | Some i \<Rightarrow> if i > 5
       then (min (sd_stopLossPct sd) 15,
         [[S (''Thin liquidity'' @ em_dash @ ''$1K buy moves price ''), F i 1, S ''%. Use limit orders.'']])
       else (sd_stopLossPct sd, []))"

definition target_actions :: "string list" where
  "target_actions = [''Take 30-40% profit, move stop to breakeven.'', ''Take 40-50% of remaining, trail stop.'',
     ''Let remaining ride with trailing stop.'']"

definition build_targets :: "real option \<Rightarrow> real list \<Rightarrow> strategy_target list" where
  "build_targets price mults = map (\<lambda>(i, mult).
     \<lparr>tg_label = [S ''T'', N (of_nat (i + 1))], tg_pct = js_round ((mult - 1) * 100),
      tg_price = map_option (\<lambda>p. p * mult) price,
      tg_action = (if i < length target_actions then target_actions ! i else ''Take partial profit.'')\<rparr>) (enumerate 0 mults)"

text \<open>The factor of the size, its reason and the warnings, through the four stages.\<close>

type_synonym sizing = "real \<times> tmpl option \<times> tmpl list"

definition and_reason :: "tmpl option \<Rightarrow> tmpl \<Rightarrow> tmpl" where
  "and_reason old new = (case old of None \<Rightarrow> new | Some t \<Rightarrow> t @ S '' '' # new)"

definition bundle_stage :: "holder_metrics option \<Rightarrow> sizing \<Rightarrow> sizing" where
  "bundle_stage holders st = (case st of (modifier, reason, warnings) \<Rightarrow>
     (case Option.bind holders hm_bundleInfo of None \<Rightarrow> st
      | Some b \<Rightarrow> if bi_detected b \<and> num0 (bi_bundledSupplyPct b) > 10
          then let r = [S (''Bundle detected'' @ em_dash), F (num0 (bi_bundledSupplyPct b)) 0, S ''% supply at risk. Half size.'']
            in (modifier * (5 / 10), Some r, warnings @ [r])
          else st))"

definition reduce_stage :: "bool \<Rightarrow> real \<Rightarrow> tmpl \<Rightarrow> sizing \<Rightarrow> sizing" where
  "reduce_stage c f r st = (case st of (modifier, reason, warnings) \<Rightarrow>
     if c then (modifier * f, Some (and_reason reason r), warnings @ [r]) else st)"

definition boost_stage :: "real option \<Rightarrow> trading_profile \<Rightarrow> sizing \<Rightarrow> sizing" where
  "boost_stage holdersFound key st = (case st of (modifier, reason, warnings) \<Rightarrow>
     (case holdersFound of None \<Rightarrow> st
      | Some n \<Rightarrow> if n > 0 \<and> key = Alpha_hunt
          then (min (12 / 10) (modifier * (12 / 10)), reason,
            warnings @ [[S (''Smart money signal detected'' @ em_dash), N n, S '' wallet(s). Small size boost applied.'']])
          else st))"

definition before_boost :: "safety_signals \<Rightarrow> holder_metrics option \<Rightarrow> tmpl list \<Rightarrow> sizing" where
  "before_boost safety holders warnings =
      reduce_stage (above (sf_rugScore safety) 50) (4 / 10)
         [S ''Rug score '', N (num0 (sf_rugScore safety)), S (''/100'' @ em_dash @ ''elevated risk. Minimum size only.'')]
      (reduce_stage (sf_mintAuthority safety = Some True) (5 / 10)
         [S (''Mint authority active'' @ em_dash @ ''deployer can dilute. Reduce size.'')]
      (bundle_stage holders (1, None, warnings)))"

definition sizing_stages ::
    "safety_signals \<Rightarrow> holder_metrics option \<Rightarrow> real option \<Rightarrow> trading_profile \<Rightarrow> tmpl list \<Rightarrow> sizing" where
  "sizing_stages safety holders holdersFound key warnings =
    boost_stage holdersFound key (before_boost safety holders warnings)"

definition data_points :: "token_meta \<Rightarrow> safety_signals \<Rightarrow> holder_metrics option \<Rightarrow> nat" where
  "data_points m safety holders = length (filter (\<lambda>b. b)
     [tm_marketCapUsd m \<noteq> None, tm_liquidityUsd m \<noteq> None, Option.bind holders hm_top10 \<noteq> None,
      Option.bind holders hm_bundleInfo \<noteq> None, Option.bind holders hm_priceImpact \<noteq> None, sf_rugScore safety \<noteq> None])"

definition hold_text :: "real \<Rightarrow> tmpl" where
  "hold_text ms = (let h = ms / (1000 * 60 * 60)
     in if h < 1 then [N (js_round (h * 60)), S ''min max'']
        else if h < 24 then [F h 0, S ''h max''] else [F (h / 24) 0, S ''d max''])"

text \<open>\<open>holdersFound\<close> is the count of the smart money result, if there is one.\<close>

definition buildTradingStrategy ::
    "token_meta \<Rightarrow> safety_signals \<Rightarrow> holder_metrics option \<Rightarrow> real option \<Rightarrow> profile_definition \<Rightarrow> real option \<Rightarrow> trading_strategy" where
  "buildTradingStrategy m safety holders holdersFound profile portfolioUsd =
    (let sd = pf_strategy profile; price = truthy_num (tm_priceUsd m);
         (stopPct, warnings) = stop_stage holders sd;
         t1Pct = (hd (sd_targets sd) - 1) * 100;
         riskReward = (if stopPct > 0 then t1Pct / stopPct else 1);
         (modifier, reason, warnings) = sizing_stages safety holders holdersFound (pf_key profile) warnings;
         (minPct, maxPct) = sd_positionPctRange sd;
         adjMin = to_fixed 2 (minPct * modifier); adjMax = to_fixed 2 (maxPct * modifier);
         dataPoints = data_points m safety holders
     in \<lparr>ts_profile = pf_key profile, ts_profileLabel = pf_label profile, ts_entryPrice = tm_priceUsd m,
         ts_entryZone = map_option (\<lambda>p. (p * (97 / 100), p * (103 / 100))) price, ts_entryNote = entry_note m holders,
         ts_stopLossPrice = map_option (\<lambda>p. p * (1 - stopPct / 100)) price, ts_stopLossPct = stopPct,
         ts_stopLossNote = [S (''Hard stop at '' @ minus_sign), N stopPct, S ''% from entry.''] @
           (if below (tm_liquidityUsd m) 30000
            then [S ('' Set as limit sell'' @ em_dash @ ''thin book may gap past market stops.'')] else []),
         ts_targets = build_targets price (sd_targets sd),
         ts_trailingStop = [S (''Move stop to breakeven after T1. Trail at '' @ minus_sign), N (sd_trailingStopAfterT1Pct sd), S ''% after T2.''],
         ts_maxHoldTime = hold_text (sd_maxHoldMs sd),
         ts_positionSizing = \<lparr>sz_pctRange = (adjMin, adjMax),
           sz_portfolioNote = (if modifier < 1
             then [N adjMin, S en_dash, N adjMax, S ''% of portfolio (reduced from '', N minPct, S en_dash, N maxPct,
               S (''%'' @ em_dash @ ''see warnings)'')]
             else [N adjMin, S en_dash, N adjMax, S ''% of portfolio'']),
           sz_dollarRange = map_option (\<lambda>u. (js_round (u * adjMin / 100), js_round (u * adjMax / 100))) (truthy_num portfolioUsd),
           sz_modifier = modifier, sz_modifierReason = reason\<rparr>,
         ts_riskReward = to_fixed 1 riskReward,
         ts_confidence = (if dataPoints \<ge> 5 \<and> sf_flags safety = [] then HighConf else if dataPoints \<ge> 3 then MediumConf else LowConf),
         ts_confidenceReason = (if dataPoints \<ge> 5 \<and> sf_flags safety = []
           then [N (of_nat dataPoints), S '' data signals available, no safety flags.'']
           else if dataPoints \<ge> 3 then [N (of_nat dataPoints), S ('' data signals'' @ em_dash @ ''some fields missing.'')]
           else [S (''Limited data'' @ em_dash @ ''treat as indicative only.'')]),
         ts_warnings = warnings\<rparr>)"


subsection \<open>What a plan promises\<close>

lemma reduce_le: "0 < f \<Longrightarrow> f \<le> 1 \<Longrightarrow> 0 < fst st \<Longrightarrow> 0 < fst (reduce_stage c f r st) \<and> fst (reduce_stage c f r st) \<le> fst st"
  by (auto simp: reduce_stage_def mult_le_cancel_left1 split: prod.split)

lemma bundle_range: "fst (bundle_stage holders (1, None, w)) \<in> {5 / 10, 1}"
  by (simp add: bundle_stage_def Let_def split: option.split)

lemma before_boost_range: "0 < fst (before_boost safety holders w)" "fst (before_boost safety holders w) \<le> 1"
proof -
  have b: "0 < fst (bundle_stage holders (1, None, w))" "fst (bundle_stage holders (1, None, w)) \<le> 1"
    using bundle_range [of holders w] by auto
  note m = reduce_le [of "5 / 10", OF _ _ b(1)]
  show "0 < fst (before_boost safety holders w)" "fst (before_boost safety holders w) \<le> 1"
    unfolding before_boost_def
    using reduce_le [of "4 / 10", OF _ _ conjunct1 [OF m]] m b(2) by (fastforce intro: order_trans)+
qed

lemma sizing_modifier: "fst (sizing_stages safety holders n k w) =
    (if above n 0 \<and> k = Alpha_hunt then min (12 / 10) (fst (before_boost safety holders w) * (12 / 10))
     else fst (before_boost safety holders w))"
  by (cases n; cases "before_boost safety holders w") (simp_all add: sizing_stages_def boost_stage_def)

lemma stop_range: "12 \<le> sd_stopLossPct (pf_strategy (PROFILES a k))" "sd_stopLossPct (pf_strategy (PROFILES a k)) \<le> 25"
  by (cases k; simp)+

lemma stop_stage_range:
  "12 \<le> fst (stop_stage holders (pf_strategy (PROFILES a k)))"
  "fst (stop_stage holders (pf_strategy (PROFILES a k))) \<le> sd_stopLossPct (pf_strategy (PROFILES a k))"
  using stop_range [of a k] by (auto simp: stop_stage_def split: option.split)

lemma plan_fields:
  "ts_stopLossPct (buildTradingStrategy m s holders n p u) = fst (stop_stage holders (pf_strategy p))"
  "ts_targets (buildTradingStrategy m s holders n p u) = build_targets (truthy_num (tm_priceUsd m)) (sd_targets (pf_strategy p))"
  "ts_stopLossPrice (buildTradingStrategy m s holders n p u) =
     map_option (\<lambda>x. x * (1 - fst (stop_stage holders (pf_strategy p)) / 100)) (truthy_num (tm_priceUsd m))"
  "sz_modifier (ts_positionSizing (buildTradingStrategy m s holders n p u)) =
     fst (sizing_stages s holders n (pf_key p) (snd (stop_stage holders (pf_strategy p))))"
  "sz_pctRange (ts_positionSizing (buildTradingStrategy m s holders n p u)) =
     (let f = fst (sizing_stages s holders n (pf_key p) (snd (stop_stage holders (pf_strategy p))))
      in (to_fixed 2 (fst (sd_positionPctRange (pf_strategy p)) * f), to_fixed 2 (snd (sd_positionPctRange (pf_strategy p)) * f)))"
  "ts_riskReward (buildTradingStrategy m s holders n p u) = to_fixed 1
     (if fst (stop_stage holders (pf_strategy p)) > 0
      then (hd (sd_targets (pf_strategy p)) - 1) * 100 / fst (stop_stage holders (pf_strategy p)) else 1)"
  by (simp_all add: buildTradingStrategy_def Let_def split_beta)


lemma targets_table: "1 < hd (sd_targets (pf_strategy (PROFILES a k)))"
  "list_all (\<lambda>x. 1 < x) (sd_targets (pf_strategy (PROFILES a k)))" "sorted (sd_targets (pf_strategy (PROFILES a k)))"
  by (cases k; simp)+

lemma target_prices: "map tg_price (build_targets price mults) = map (\<lambda>x. map_option (\<lambda>p. p * x) price) mults"
proof -
  have "map (\<lambda>(i, x). map_option (\<lambda>p. p * x) price) (enumerate n mults) = map (\<lambda>x. map_option (\<lambda>p. p * x) price) mults" for n
    by (induction mults arbitrary: n) simp_all
  then show ?thesis by (simp add: build_targets_def comp_def case_prod_unfold)
qed

lemma before_boost_cases: "fst (before_boost s holders w) = 1 \<or> fst (before_boost s holders w) \<le> 5 / 10"
proof -
  have b: "fst (bundle_stage holders (1, None, w)) = 1 \<or> fst (bundle_stage holders (1, None, w)) = 5 / 10"
    using bundle_range [of holders w] by auto
  then show ?thesis by (auto simp: before_boost_def reduce_stage_def split_beta)
qed

lemma profile_key: "pf_key (PROFILES a k) = k"
  by (cases k) simp_all

lemma to_fixed_mono: "x \<le> y \<Longrightarrow> to_fixed n x \<le> to_fixed n y"
  unfolding to_fixed_def by (intro divide_right_mono of_int_le_iff [THEN iffD2] floor_mono) (auto intro: mult_right_mono)

lemma to_fixed_of: "to_fixed n (of_int k / 10 ^ n) = of_int k / 10 ^ n"
  by (simp add: to_fixed_def)

lemma reward_floor: "2 \<le> to_fixed 1 ((hd (sd_targets (pf_strategy (PROFILES a k))) - 1) * 100 / sd_stopLossPct (pf_strategy (PROFILES a k)))"
proof -
  have "2 \<le> (hd (sd_targets (pf_strategy (PROFILES a k))) - 1) * 100 / sd_stopLossPct (pf_strategy (PROFILES a k))"
    by (cases k) simp_all
  from to_fixed_mono [OF this, of 1] show ?thesis using to_fixed_of [of 1 20] by simp
qed



definition plain_meta :: token_meta where
  "plain_meta = \<lparr>tm_chain = SOLANA, tm_chainId = None, tm_address = ''a'', tm_symbol = None, tm_name = None,
     tm_priceUsd = Some 100, tm_marketCapUsd = None, tm_fdvUsd = None, tm_liquidityUsd = None, tm_volume24hUsd = None,
     tm_m5 = None, tm_h1 = None, tm_h6 = None, tm_h24 = None, tm_txns24h = None, tm_pairCreatedAt = None, tm_pairAgeHours = None,
     tm_dex = None, tm_url = None\<rparr>"

definition plain_safety :: safety_signals where
  "plain_safety = \<lparr>sf_honeypot = None, sf_buyTax = None, sf_sellTax = None, sf_mintAuthority = None, sf_freezeAuthority = None,
     sf_lpLocked = None, sf_topHoldersPct = None, sf_holdersCount = None, sf_rugScore = None, sf_flags = []\<rparr>"


subsection \<open>\<open>playbooks.ts\<close>\<close>

datatype signal_weight = CriticalW | PositiveW | NegativeW | InfoW

record pb_signal =
  ps_label :: tmpl
  ps_weight :: signal_weight
  ps_delta :: "real option"

datatype pb_verdict = Strong_yes | Yes_verdict | Neutral_verdict | No_verdict | Strong_no | Insufficient_data

record pb_breakdown =
  bd_baseline :: real
  bd_applied :: "(tmpl \<times> real \<times> signal_weight) list"
  bd_raw :: real
  bd_clamped :: real
  bd_evidenceTotal :: real
  bd_evidenceThreshold :: real

text \<open>A plan is a record of fixed texts; it is there exactly when there is a score.\<close>

record playbook =
  pb_key :: string
  pb_score :: "real option"
  pb_verdict :: pb_verdict
  pb_signals :: "pb_signal list"
  pb_breakdown :: pb_breakdown
  pb_hasPlan :: bool

definition BASELINE :: real where "BASELINE = 5"

definition round1 :: "real \<Rightarrow> real" where
  "round1 v = js_round (v * 10) / 10"

definition toVerdict :: "real \<Rightarrow> pb_verdict" where
  "toVerdict score = (if score \<ge> 8 then Strong_yes else if score \<ge> 65 / 10 then Yes_verdict
     else if score \<ge> 4 then Neutral_verdict else if score \<ge> 2 then No_verdict else Strong_no)"

definition fmtUsd :: "real \<Rightarrow> tmpl" where
  "fmtUsd n = (if n \<ge> 1000000000 then [F (n / 1000000000) 2, S ''B''] else if n \<ge> 1000000 then [F (n / 1000000) 2, S ''M'']
     else if n \<ge> 1000 then [F (n / 1000) 1, S ''K''] else [F n 0])"

definition fmtPct :: "real \<Rightarrow> tmpl" where
  "fmtPct n = [S (if n > 0 then ''+'' else ''''), F n 1, S ''%'']"

definition bpsToPct :: "real option \<Rightarrow> tmpl" where
  "bpsToPct bps = (case bps of None \<Rightarrow> [S ''?''] | Some b \<Rightarrow> [F (b / 100) 1, S ''%''])"

text \<open>\<open>push\<close> and \<open>info\<close> of the builder, as the signals they append.\<close>

definition pb_push :: "tmpl \<Rightarrow> signal_weight \<Rightarrow> real \<Rightarrow> pb_signal list" where
  "pb_push label w d = [\<lparr>ps_label = label, ps_weight = w, ps_delta = Some d\<rparr>]"

definition pb_info :: "tmpl \<Rightarrow> pb_signal list" where
  "pb_info label = [\<lparr>ps_label = label, ps_weight = InfoW, ps_delta = None\<rparr>]"

definition applied_deltas :: "pb_signal list \<Rightarrow> (tmpl \<times> real \<times> signal_weight) list" where
  "applied_deltas ss = List.map_filter (\<lambda>s. case ps_delta s of None \<Rightarrow> None
     | Some d \<Rightarrow> if d = 0 then None else Some (ps_label s, d, ps_weight s)) ss"

definition finalize :: "string \<Rightarrow> real \<Rightarrow> pb_signal list \<Rightarrow> playbook" where
  "finalize k threshold signals =
    (let applied = applied_deltas signals;
         total = (\<Sum>a \<leftarrow> applied. fst (snd a)); evidenceTotal = (\<Sum>a \<leftarrow> applied. \<bar>fst (snd a)\<bar>);
         raw = BASELINE + total; clamped = max 0 (min 10 raw);
         breakdown = \<lparr>bd_baseline = BASELINE, bd_applied = applied, bd_raw = raw, bd_clamped = round1 clamped,
           bd_evidenceTotal = round1 evidenceTotal, bd_evidenceThreshold = threshold\<rparr>
     in if evidenceTotal < threshold
        then \<lparr>pb_key = k, pb_score = None, pb_verdict = Insufficient_data,
          pb_signals = signals @ pb_info [S ''Insufficient evidence to commit''], pb_breakdown = breakdown, pb_hasPlan = False\<rparr>
        else \<lparr>pb_key = k, pb_score = Some (round1 clamped), pb_verdict = toVerdict clamped, pb_signals = signals,
          pb_breakdown = breakdown, pb_hasPlan = True\<rparr>)"


definition early_authority :: "safety_signals \<Rightarrow> pb_signal list" where
  "early_authority s =
    (if sf_honeypot s = Some TriYes then pb_push [S ''Honeypot detected''] CriticalW (-10)
     else if sf_honeypot s = Some TriNo then pb_push [S ''Honeypot check passed''] PositiveW (6 / 10) else []) @
    (if sf_mintAuthority s = Some True then pb_push [S ''Mint authority enabled''] CriticalW (-3) else []) @
    (if sf_mintAuthority s = Some False then pb_push [S ''Mint authority renounced''] PositiveW (8 / 10) else []) @
    (if sf_freezeAuthority s = Some True then pb_push [S ''Freeze authority enabled''] NegativeW (-15 / 10) else []) @
    (if sf_freezeAuthority s = Some False then pb_push [S ''Freeze authority renounced''] PositiveW (5 / 10) else [])"

definition early_tax :: "safety_signals \<Rightarrow> pb_signal list" where
  "early_tax s =
    (if num0 (sf_buyTax s) > 500 \<or> num0 (sf_sellTax s) > 500
     then pb_push ([S ''High taxes (buy ''] @ bpsToPct (sf_buyTax s) @ [S ''/sell ''] @ bpsToPct (sf_sellTax s) @ [S '')'']) CriticalW (-2)
     else if sf_buyTax s \<noteq> None \<and> sf_sellTax s \<noteq> None \<and> num0 (sf_buyTax s) + num0 (sf_sellTax s) = 0
     then pb_push [S ''Zero buy/sell tax''] PositiveW (6 / 10) else []) @
    (case sf_rugScore s of None \<Rightarrow> []
     | Some r \<Rightarrow> if r \<ge> 60 then pb_push [S ''High rug score '', N r, S ''/100''] CriticalW (-3)
         else if r \<ge> 30 then pb_push [S ''Elevated rug score '', N r, S ''/100''] NegativeW (-1)
         else pb_push [S ''Low rug score '', N r, S ''/100''] PositiveW 1)"

definition early_market :: "token_meta \<Rightarrow> safety_signals \<Rightarrow> pb_signal list" where
  "early_market m s =
    (case tm_marketCapUsd m of None \<Rightarrow> []
     | Some mc \<Rightarrow> if mc < 2000000 then pb_push ([S ''Small cap $''] @ fmtUsd mc) PositiveW 2
         else if mc < 20000000 then pb_info ([S ''Mid-small cap $''] @ fmtUsd mc)
         else pb_push ([S ''Cap too large for early-safe ($''] @ fmtUsd mc @ [S '')'']) NegativeW (-15 / 10)) @
    (if sf_lpLocked s = Some TriYes then pb_push [S ''LP locked''] PositiveW (12 / 10)
     else if sf_lpLocked s = Some TriNo then pb_push [S ''LP not locked''] CriticalW (-25 / 10) else []) @
    (case tm_liquidityUsd m of None \<Rightarrow> []
     | Some l \<Rightarrow> if l \<ge> 50000 then pb_push ([S ''Liquidity $''] @ fmtUsd l) PositiveW (6 / 10)
         else if l < 20000 then pb_push ([S ''Thin liquidity $''] @ fmtUsd l) NegativeW (-1) else []) @
    (case tm_pairAgeHours m of None \<Rightarrow> []
     | Some a \<Rightarrow> if a < 48 then pb_push [S ''Pair age '', N (js_round a), S ''h''] PositiveW (8 / 10)
         else if a > 24 * 14 then pb_push [S ''Pair is '', N (js_round (a / 24)), S ''d old''] NegativeW (-5 / 10) else []) @
    (case sf_topHoldersPct s of None \<Rightarrow> []
     | Some t \<Rightarrow> if t < 25 then pb_push [S ''Top-10 holders '', F t 1, S ''%''] PositiveW (8 / 10)
         else if t > 60 then pb_push [S ''Top-10 holders '', F t 1, S ''%''] CriticalW (-2) else [])"

definition earlySafe :: "token_meta \<Rightarrow> safety_signals \<Rightarrow> playbook" where
  "earlySafe m s = finalize ''early_safe'' 2
    (early_authority s @ early_tax s @ early_market m s @
     concat (map (\<lambda>f. pb_push [S f] NegativeW (-4 / 10)) (sf_flags s)))"

definition flow_signals :: "token_meta \<Rightarrow> pb_signal list" where
  "flow_signals m =
    (let buys = num0 (Option.bind (tm_txns24h m) fst); sells = num0 (Option.bind (tm_txns24h m) snd); totalTx = buys + sells;
         ratio = (if sells > 0 then buys / sells else 2); tail = [F ratio 2, S '' ('', N totalTx, S '' txns)'']
     in if totalTx > 0 then
          if ratio \<ge> 15 / 10 \<and> totalTx \<ge> 100 then pb_push ([S ''Buy/sell ratio ''] @ tail) PositiveW (15 / 10)
          else if ratio \<ge> 12 / 10 \<and> totalTx \<ge> 100 then pb_push ([S ''Mild buy edge, ratio ''] @ tail) PositiveW (5 / 10)
          else if ratio \<le> 6 / 10 \<and> totalTx \<ge> 100 then pb_push ([S ''Sell-side dominant, ratio ''] @ tail) NegativeW (-15 / 10)
          else if totalTx < 30 then pb_push [S (''Thin activity'' @ em_dash @ ''only ''), N totalTx, S '' txns 24h''] NegativeW (-8 / 10)
          else pb_push ([S ''Balanced order flow, ratio ''] @ tail) NegativeW (-3 / 10)
        else pb_push [S (''No transaction data'' @ em_dash @ ''cannot score order flow'')] NegativeW (-5 / 10))"

definition velocity_signals :: "token_meta \<Rightarrow> pb_signal list" where
  "velocity_signals m =
    (let vol = num0 (tm_volume24hUsd m); liq = num0 (tm_liquidityUsd m); velocity = vol / liq
     in if vol > 0 \<and> liq > 0 then
          if velocity \<ge> 3 then pb_push [S ''Volume/liquidity '', F velocity 1, S (times_suffix @ em_dash @ ''strong rotation'')] PositiveW 1
          else if velocity \<ge> 2 then pb_push [S ''Volume/liquidity '', F velocity 1, S times_suffix] PositiveW (8 / 10)
          else if velocity \<ge> 5 / 10 then pb_push [S ''Volume/liquidity '', F velocity 1, S (times_suffix @ em_dash @ ''moderate'')] NegativeW (-2 / 10)
          else pb_push [S ''Low volume vs liquidity ('', F velocity 1, S (times_suffix @ '')'')] NegativeW (-8 / 10)
        else if vol > 0 then pb_info ([S ''Volume $''] @ fmtUsd vol @ [S (em_dash @ ''no liquidity reference'')])
        else [])"

definition holder_signals :: "safety_signals \<Rightarrow> pb_signal list" where
  "holder_signals s =
    (let n = num0 (sf_holdersCount s)
     in if n > 5000 then pb_push [N n, S ('' holders'' @ em_dash @ ''established'')] PositiveW (8 / 10)
        else if n > 2000 then pb_push [N n, S '' holders''] PositiveW (5 / 10)
        else if n > 500 then pb_push [N n, S ('' holders'' @ em_dash @ ''growing'')] NegativeW (-2 / 10)
        else if n > 0 then pb_push [S ''Only '', N n, S ('' holders'' @ em_dash @ ''thin base'')] NegativeW (-8 / 10) else [])"

definition smartMoney :: "token_meta \<Rightarrow> safety_signals \<Rightarrow> playbook" where
  "smartMoney m s =
    (let buys = num0 (Option.bind (tm_txns24h m) fst); sells = num0 (Option.bind (tm_txns24h m) snd); h1 = num0 (tm_h1 m)
     in finalize ''smart_money'' 1
       (flow_signals m @ velocity_signals m @ holder_signals s @
        (case tm_pairAgeHours m of None \<Rightarrow> []
         | Some a \<Rightarrow> if a \<ge> 24 * 30 then pb_push [S ''Pair '', N (js_round (a / 24)), S (''d old'' @ em_dash @ ''survived rug window'')] PositiveW (5 / 10)
             else if a < 24 then pb_push [S (''Pair <24h'' @ em_dash @ ''rug window open'')] NegativeW (-5 / 10) else []) @
        (if h1 > 3 \<and> buys + sells > 0 \<and> buys / max 1 sells > 12 / 10
         then pb_push [S ''Fresh 1h pump on buy pressure''] PositiveW 1 else []) @
        (if h1 < -5 \<and> buys + sells > 0 \<and> buys / max 1 sells > 15 / 10
         then pb_push [S ''Dip being absorbed (buys > sells on 1h drawdown)''] PositiveW (15 / 10) else []) @
        pb_info [S (''Heuristic only'' @ em_dash @ ''Nansen/Arkham wallet labels not wired'')]))"


text \<open>The patterns of the sectors: words to find anywhere, or as a whole word where the pattern has \<open>\b\<close>.\<close>

definition word_char :: "char \<Rightarrow> bool" where
  "word_char c = (c \<in> set upper_letters \<or> c \<in> set lower_letters \<or> c \<in> set digit_chars \<or> c = CHR ''_'')"

definition whole_word :: "string \<Rightarrow> string \<Rightarrow> bool" where
  "whole_word w s = list_ex (\<lambda>n. starts_with w (drop n s) \<and> (n = 0 \<or> \<not> word_char (s ! (n - 1))) \<and>
     (case drop (n + length w) s of [] \<Rightarrow> True | c # _ \<Rightarrow> \<not> word_char c)) [0 ..< Suc (length s)]"

definition sectors :: "((bool \<times> string) list \<times> string) list" where
  "sectors = [
     ([(True, ''ai''), (False, ''gpt''), (False, ''agent''), (False, ''llm''), (True, ''ml'')], ''AI / Agents''),
     (map (Pair False) [''depin'', ''helium'', ''iot'', ''wifi'', ''render'', ''compute''], ''DePIN''),
     (map (Pair False) [''rwa'', ''real-world'', ''treasury'', ''ondo'', ''tbill''], ''RWA''),
     (map (Pair False) [''l2'', ''layer2'', ''rollup'', ''arb'', ''op'', ''base'', ''zksync'', ''linea''], ''L2 / Scaling''),
     (map (Pair False) [''game'', ''gamefi'', ''play'', ''metagame''], ''Gaming''),
     (map (Pair False) [''doge'', ''shib'', ''pepe'', ''wif'', ''bonk'', ''mog'', ''popcat'', ''meme''], ''Memes''),
     (map (Pair False) [''stake'', ''lst'', ''lrt'', ''eigen'', ''restake''], ''LST / Restaking''),
     (map (Pair False) [''sol'', ''eth'', ''btc'', ''avax'', ''matic'', ''dot'', ''ada''], ''Layer 1''),
     (map (Pair False) [''dex'', ''swap'', ''amm'', ''lp'', ''pool'', ''liquidity''], ''DeFi / DEX''),
     (map (Pair False) [''nft'', ''ordinals'', ''inscription'', ''rune''], ''NFT / Ordinals'')]"

definition sector_of :: "string \<Rightarrow> string option" where
  "sector_of text = map_option snd
     (find (\<lambda>(ws, name). list_ex (\<lambda>(whole, w). if whole then whole_word w text else contains w text) ws) sectors)"

definition or_empty :: "string option \<Rightarrow> string" where
  "or_empty s = (case s of None \<Rightarrow> [] | Some s \<Rightarrow> s)"

definition sector_signals :: "token_meta \<Rightarrow> pb_signal list" where
  "sector_signals m =
    (case sector_of (to_lower (or_empty (tm_symbol m) @ '' '' @ or_empty (tm_name m))) of
       Some sector \<Rightarrow>
         let hot = sector \<in> {''AI / Agents'', ''DePIN'', ''RWA'', ''L2 / Scaling'', ''LST / Restaking''}
         in pb_push [S ''Sector: '', S sector] (if hot then PositiveW else NegativeW) (if hot then 1 else -2 / 10)
     | None \<Rightarrow> pb_push [S (''No known sector tag'' @ em_dash @ ''harder to ride a narrative wave'')] NegativeW (-4 / 10))"

definition narrative :: "token_meta \<Rightarrow> safety_signals \<Rightarrow> playbook" where
  "narrative m s = finalize ''narrative'' (12 / 10)
    ((case tm_marketCapUsd m of
        Some mc \<Rightarrow> if mc \<ge> 1000000000 then pb_push ([S ''Mega cap $''] @ fmtUsd mc) PositiveW (8 / 10)
          else if mc \<ge> 50000000 then pb_push ([S ''Mid-cap $''] @ fmtUsd mc) PositiveW (12 / 10)
          else if mc \<ge> 5000000 then pb_push ([S ''Small cap $''] @ fmtUsd mc @ [S (em_dash @ ''not yet established'')]) NegativeW (-5 / 10)
          else pb_push ([S ''Micro cap $''] @ fmtUsd mc @ [S (em_dash @ ''too small for a narrative bet'')]) NegativeW (-15 / 10)
      | None \<Rightarrow> pb_push [S (''MCap not available'' @ em_dash @ ''cannot size narrative potential'')] NegativeW (-3 / 10)) @
     (case tm_pairAgeHours m of None \<Rightarrow> []
      | Some a \<Rightarrow> if a \<ge> 24 * 30 then pb_push [S ''Mature pair ('', N (js_round (a / 24)), S ''d)''] PositiveW 1
          else if a \<ge> 24 * 14 then pb_push [S ''Established pair ('', N (js_round (a / 24)), S ''d)''] PositiveW (8 / 10)
          else if a \<ge> 24 * 7 then pb_push [S ''Pair '', N (js_round (a / 24)), S (''d old'' @ em_dash @ ''early stage'')] NegativeW (-3 / 10)
          else pb_push [S ''Too new for a narrative bet''] NegativeW (-1)) @
     sector_signals m @
     (if below (Some (case sf_rugScore s of None \<Rightarrow> 100 | Some r \<Rightarrow> r)) 30 \<and> num0 (sf_holdersCount s) > 5000
      then pb_push [S ''Low rug score + broad holder base''] PositiveW (8 / 10) else []) @
     (let vol = num0 (tm_volume24hUsd m)
      in if vol \<ge> 10000000 then pb_push ([S ''Deep volume $''] @ fmtUsd vol @ [S (em_dash @ ''narrative is moving money'')]) PositiveW (8 / 10)
         else if vol \<ge> 1000000 then pb_push ([S ''Active volume $''] @ fmtUsd vol) PositiveW (5 / 10)
         else if vol \<ge> 100000 then pb_push ([S ''Moderate volume $''] @ fmtUsd vol) NegativeW (-2 / 10)
         else if vol > 0 then pb_push ([S ''Low volume $''] @ fmtUsd vol @ [S (em_dash @ ''thin interest'')]) NegativeW (-8 / 10)
         else []) @
     pb_info [S (''Narrative layer'' @ em_dash @ ''wire LunarCrush/Kaito for mindshare + sentiment confirmation'')])"

definition danger_signals :: "safety_signals \<Rightarrow> pb_signal list" where
  "danger_signals s =
    (if sf_honeypot s = Some TriYes then pb_push [S (''Honeypot'' @ em_dash @ ''cannot momentum-trade an unsellable token'')] CriticalW (-10)
     else if num0 (sf_rugScore s) \<ge> 70
     then pb_push [S ''Rug score '', N (num0 (sf_rugScore s)), S (''/100'' @ em_dash @ ''too risky to momentum-trade'')] CriticalW (-4)
     else [])"

definition change_signals :: "token_meta \<Rightarrow> pb_signal list" where
  "change_signals m =
    (case tm_h24 m of None \<Rightarrow> []
     | Some d \<Rightarrow>
        if d \<ge> 20 then
          if num0 (tm_h1 m) \<ge> 0 then pb_push ([S ''Strong 24h rally ''] @ fmtPct d @ [S '', holding on 1h'']) PositiveW (15 / 10)
          else pb_push ([S ''Big 24h ''] @ fmtPct d @ [S ('' but 1h fading'' @ em_dash @ ''blow-off risk'')]) NegativeW (-1)
        else if d \<ge> 8 then pb_push ([S ''24h momentum ''] @ fmtPct d) PositiveW
          (case tm_h1 m of None \<Rightarrow> 6 / 10 | Some h \<Rightarrow> if h \<ge> 0 then 12 / 10 else 6 / 10)
        else if d \<ge> 2 then pb_push ([S ''Mild 24h gain ''] @ fmtPct d) NegativeW (-2 / 10)
        else if d < -10 then pb_push ([S ''Dumping 24h ''] @ fmtPct d) NegativeW (-15 / 10)
        else if d < -3 then pb_push ([S ''Downtrend 24h ''] @ fmtPct d) NegativeW (-8 / 10)
        else pb_push ([S ''Flat 24h (''] @ fmtPct d @ [S ('')'' @ em_dash @ ''no momentum'')]) NegativeW (-5 / 10)) @
    (case tm_h6 m of None \<Rightarrow> []
     | Some h \<Rightarrow> if h \<ge> 5 then pb_push ([S ''6h surge ''] @ fmtPct h @ [S (em_dash @ ''intraday momentum'')]) PositiveW (8 / 10)
         else if h < -5 then pb_push ([S ''6h drop ''] @ fmtPct h @ [S (em_dash @ ''selling into strength'')]) NegativeW (-8 / 10) else []) @
    (case tm_h1 m of None \<Rightarrow> []
     | Some h \<Rightarrow> if h \<ge> 5 then pb_push ([S ''1h spike ''] @ fmtPct h @ [S (em_dash @ ''breaking out now'')]) PositiveW (8 / 10)
         else if h < -5 then pb_push ([S ''1h reversal ''] @ fmtPct h @ [S (em_dash @ ''momentum failing'')]) NegativeW (-8 / 10) else [])"

definition rotation_signals :: "token_meta \<Rightarrow> pb_signal list" where
  "rotation_signals m = (case tm_volume24hUsd m of None \<Rightarrow> []
     | Some vol \<Rightarrow>
        if above (tm_marketCapUsd m) 0 then
          let ratio = vol / num0 (tm_marketCapUsd m); label = [S ''Vol/MCap '', F (ratio * 100) 0]
          in if ratio \<ge> 5 / 10 then pb_push (label @ [S (''%'' @ em_dash @ ''heavy rotation'')]) PositiveW 1
             else if ratio \<ge> 2 / 10 then pb_push (label @ [S (''%'' @ em_dash @ ''moderate rotation'')]) PositiveW (4 / 10)
             else if ratio \<ge> 5 / 100 then pb_push (label @ [S (''%'' @ em_dash @ ''thin'')]) NegativeW (-5 / 10)
             else pb_push (label @ [S (''%'' @ em_dash @ ''very low turnover'')]) NegativeW (-1)
        else if vol \<ge> 5000000 then pb_push ([S ''High absolute volume $''] @ fmtUsd vol) PositiveW (6 / 10)
        else if vol < 50000 then pb_push ([S ''Low volume $''] @ fmtUsd vol @ [S (em_dash @ ''illiquid'')]) NegativeW (-8 / 10)
        else pb_push ([S ''Volume $''] @ fmtUsd vol @ [S (em_dash @ ''MCap unavailable for ratio'')]) NegativeW (-1 / 10))"

definition trade_signals :: "token_meta \<Rightarrow> pb_signal list" where
  "trade_signals m = (case tm_txns24h m of
     Some (Some buys, Some sells) \<Rightarrow>
       let n = buys + sells
       in if n > 200 \<and> buys > sells * (15 / 10) then pb_push [N n, S '' txns, strongly buy-dominant''] PositiveW (8 / 10)
          else if n > 50 \<and> buys > sells then pb_push [N n, S '' txns, buy-side leading''] PositiveW (3 / 10)
          else if n > 50 \<and> sells > buys * (15 / 10)
          then pb_push [N n, S ('' txns, sell-dominant'' @ em_dash @ ''distribution'')] NegativeW (-8 / 10)
          else if n < 20 then pb_push [S ''Only '', N n, S ('' txns'' @ em_dash @ ''too thin for momentum trade'')] NegativeW (-8 / 10)
          else []
   | _ \<Rightarrow> [])"

definition momentum :: "token_meta \<Rightarrow> safety_signals \<Rightarrow> playbook" where
  "momentum m s = finalize ''momentum'' 1
    (danger_signals s @ change_signals m @ rotation_signals m @ trade_signals m @
     pb_info [S (''Perp / OI / funding rate not wired'' @ em_dash @ ''Coinglass integration would confirm derivatives leg'')])"

definition runPlaybooks :: "token_meta \<Rightarrow> safety_signals \<Rightarrow> playbook list" where
  "runPlaybooks m s = [earlySafe m s, smartMoney m s, narrative m s, momentum m s]"


subsection \<open>What a playbook says\<close>

definition deltas :: "pb_signal list \<Rightarrow> real list" where
  "deltas ss = map (\<lambda>a. fst (snd a)) (applied_deltas ss)"

lemma applied_append [simp]: "applied_deltas [] = []" "applied_deltas (ss @ ts) = applied_deltas ss @ applied_deltas ts"
  by (simp_all add: applied_deltas_def map_filter_def)

lemma applied_info [simp]: "applied_deltas (pb_info l) = []"
  by (simp add: applied_deltas_def pb_info_def map_filter_simps)

lemma deltas_append [simp]: "deltas [] = []" "deltas (ss @ ts) = deltas ss @ deltas ts" "deltas (pb_info l) = []"
  by (simp_all add: deltas_def)

lemma deltas_push [simp]: "deltas (pb_push l w d) = (if d = 0 then [] else [d])"
  by (simp add: deltas_def applied_deltas_def pb_push_def map_filter_simps)

lemma round1_range: "0 \<le> x \<Longrightarrow> x \<le> 10 \<Longrightarrow> 0 \<le> round1 x \<and> round1 x \<le> 10"
proof -
  assume "0 \<le> x" "x \<le> 10"
  then have "\<lfloor>0 + 1 / 2 :: real\<rfloor> \<le> \<lfloor>x * 10 + 1 / 2\<rfloor>" "\<lfloor>x * 10 + 1 / 2\<rfloor> \<le> \<lfloor>100 + 1 / 2 :: real\<rfloor>"
    by (intro floor_mono; simp)+
  then show ?thesis by (simp add: round1_def js_round_def)
qed

definition explained :: "playbook \<Rightarrow> bool" where
  "explained p =
    (let b = pb_breakdown p; ds = map (\<lambda>a. fst (snd a)) (bd_applied b); clamped = max 0 (min 10 (5 + sum_list ds))
     in bd_applied b = applied_deltas (pb_signals p) \<and> bd_raw b = 5 + sum_list ds \<and>
        (if (\<Sum>d \<leftarrow> ds. \<bar>d\<bar>) < bd_evidenceThreshold b
         then pb_score p = None \<and> pb_verdict p = Insufficient_data \<and> \<not> pb_hasPlan p
         else pb_score p = Some (round1 clamped) \<and> 0 \<le> round1 clamped \<and> round1 clamped \<le> 10 \<and>
           pb_verdict p = toVerdict clamped \<and> pb_hasPlan p))"

lemma finalize_explained: "explained (finalize k t ss)"
proof -
  let ?c = "max 0 (min 10 (5 + (\<Sum>a\<leftarrow>applied_deltas ss. fst (snd a))))"
  have r: "0 \<le> round1 ?c" "round1 ?c \<le> 10" using round1_range [of ?c] by simp_all
  show ?thesis
  proof (cases "(\<Sum>a \<leftarrow> applied_deltas ss. \<bar>fst (snd a)\<bar>) < t")
    case True
    then show ?thesis unfolding explained_def finalize_def Let_def by (simp add: BASELINE_def comp_def)
  next
    case False
    then show ?thesis using r unfolding explained_def finalize_def Let_def by (simp only: if_False) (simp add: BASELINE_def comp_def)
  qed
qed


lemma sum_append_le: "sum_list (deltas ss) \<le> a \<Longrightarrow> sum_list (deltas ts) \<le> b \<Longrightarrow> sum_list (deltas (ss @ ts)) \<le> a + b"
  by simp

lemma early_authority_max:
  assumes "sf_honeypot s = Some TriYes"
  shows "sum_list (deltas (early_authority s)) \<le> -10 + (0 + (8 / 10 + (0 + 5 / 10)))"
  unfolding early_authority_def by (intro sum_append_le) (simp_all add: assms)

lemma early_tax_max: "sum_list (deltas (early_tax s)) \<le> 6 / 10 + 1"
  unfolding early_tax_def by (intro sum_append_le) (simp_all split: option.split)

lemma early_market_max: "sum_list (deltas (early_market m s)) \<le> 2 + (12 / 10 + (6 / 10 + (8 / 10 + 8 / 10)))"
  unfolding early_market_def by (intro sum_append_le) (simp_all split: option.split)

lemma flags_max: "sum_list (deltas (concat (map (\<lambda>f. pb_push [S f] NegativeW (-4 / 10)) fs))) \<le> 0"
  by (induction fs) simp_all

lemma change_max: "sum_list (deltas (change_signals m)) \<le> 15 / 10 + (8 / 10 + 8 / 10)"
  unfolding change_signals_def by (intro sum_append_le) (simp_all split: option.split)

lemma rotation_max: "sum_list (deltas (rotation_signals m)) \<le> 1"
  by (simp add: rotation_signals_def Let_def split: option.split)

lemma trade_max: "sum_list (deltas (trade_signals m)) \<le> 8 / 10"
  by (simp add: trade_signals_def Let_def split: option.split prod.split)

lemma finalize_verdict: "pb_verdict (finalize k t ss) =
    (if (\<Sum>d \<leftarrow> deltas ss. \<bar>d\<bar>) < t then Insufficient_data else toVerdict (max 0 (min 10 (5 + sum_list (deltas ss)))))"
  by (simp add: finalize_def Let_def BASELINE_def deltas_def comp_def)

lemma low_verdict: "x < 4 \<Longrightarrow> toVerdict x \<in> {No_verdict, Strong_no}"
  by (simp add: toVerdict_def)

lemma not_less_evidence: "10 \<le> (x :: real) \<Longrightarrow> \<not> x < 2"
  by simp

lemma abs_sum_nonneg [simp]: "0 \<le> (\<Sum>d \<leftarrow> ds. \<bar>d :: real\<bar>)"
  by (induction ds) auto

lemma abs_evidence: "- sum_list ds \<le> (\<Sum>d \<leftarrow> ds. \<bar>d :: real\<bar>)"
  by (induction ds) auto

text \<open>A token that cannot be sold is rated at most as a no by the playbook for early buys and as a strong
  no by the one for momentum, whatever else speaks for it. The other two playbooks do not look at that
  signal at all: they rate it as any other token.\<close>

theorem pb_honeypot:
  assumes "sf_honeypot s = Some TriYes"
  shows "pb_verdict (earlySafe m s) \<in> {No_verdict, Strong_no} \<and> pb_verdict (momentum m s) = Strong_no \<and>
    smartMoney m s = smartMoney m (s\<lparr>sf_honeypot := Some TriNo\<rparr>) \<and> narrative m s = narrative m (s\<lparr>sf_honeypot := Some TriNo\<rparr>)"
proof (intro conjI)
  let ?e = "early_authority s @ early_tax s @ early_market m s @ concat (map (\<lambda>f. pb_push [S f] NegativeW (-4 / 10)) (sf_flags s))"
  have e: "sum_list (deltas ?e) \<le> - 17 / 10"
    using early_authority_max [OF assms] early_tax_max [of s] early_market_max [of m s] flags_max [of "sf_flags s"] by simp
  have a: "10 \<le> (\<Sum>d \<leftarrow> deltas ?e. \<bar>d\<bar>)" using assms by (simp add: early_authority_def)
  have "max 0 (min 10 (5 + sum_list (deltas ?e))) < 4" using e by linarith
  then show "pb_verdict (earlySafe m s) \<in> {No_verdict, Strong_no}"
    using low_verdict a unfolding earlySafe_def finalize_verdict by (metis (no_types, lifting) not_less_evidence)
  let ?m = "danger_signals s @ change_signals m @ rotation_signals m @ trade_signals m @
     pb_info [S (''Perp / OI / funding rate not wired'' @ em_dash @ ''Coinglass integration would confirm derivatives leg'')]"
  have n: "sum_list (deltas ?m) \<le> - 51 / 10"
    using change_max [of m] rotation_max [of m] trade_max [of m] assms by (simp add: danger_signals_def)
  have "max 0 (min 10 (5 + sum_list (deltas ?m))) = 0" using n by linarith
  moreover have "1 \<le> (\<Sum>d \<leftarrow> deltas ?m. \<bar>d\<bar>)" using n abs_evidence [of "deltas ?m"] by linarith
  ultimately show "pb_verdict (momentum m s) = Strong_no"
    unfolding momentum_def finalize_verdict by (simp add: toVerdict_def)
  show "smartMoney m s = smartMoney m (s\<lparr>sf_honeypot := Some TriNo\<rparr>)"
    by (simp add: smartMoney_def holder_signals_def)
  show "narrative m s = narrative m (s\<lparr>sf_honeypot := Some TriNo\<rparr>)"
    by (simp add: narrative_def)
qed

theorem pb_honeypot_witness:
  "pb_verdict (momentum plain_meta (plain_safety\<lparr>sf_honeypot := Some TriYes\<rparr>)) = Strong_no"
  using pb_honeypot [of "plain_safety\<lparr>sf_honeypot := Some TriYes\<rparr>" plain_meta] by simp

lemma first_check_find:
  "kr_triggered (first_check cs s m) = list_ex (\<lambda>c. kc_test c s m) cs"
  "kr_checkId (first_check cs s m) = map_option kc_id (find (\<lambda>c. kc_test c s m) cs)"
  "kr_reason (first_check cs s m) = map_option kc_reason (find (\<lambda>c. kc_test c s m) cs)"
  by (induction cs) simp_all

lemma num0_above: "0 \<le> b \<Longrightarrow> (num0 x > b) = above x b"
  by (cases x) simp_all

text \<open>The kill switch stops exactly the tokens that cannot be sold, whose supply or accounts the deployer still
  controls, that tax a side by more than a tenth, have less than 5000 dollars of liquidity, are younger
  than three minutes or have a rug score above 80; what is not known stops nothing, and the reason is that of the
  first test that holds.\<close>

theorem kk_exact:
  "kr_triggered (checkKill s m) =
    (sf_honeypot s = Some TriYes \<or> sf_mintAuthority s = Some True \<or> sf_freezeAuthority s = Some True \<or>
     above (sf_buyTax s) 1000 \<or> above (sf_sellTax s) 1000 \<or> below (tm_liquidityUsd m) 5000 \<or>
     below (tm_pairAgeHours m) (3 / 60) \<or> above (sf_rugScore s) 80) \<and>
   kr_checkId (checkKill s m) = map_option kc_id (find (\<lambda>c. kc_test c s m) CHECKS) \<and>
   kr_reason (checkKill s m) = map_option kc_reason (find (\<lambda>c. kc_test c s m) CHECKS)"
proof (intro conjI)
  show "kr_triggered (checkKill s m) =
    (sf_honeypot s = Some TriYes \<or> sf_mintAuthority s = Some True \<or> sf_freezeAuthority s = Some True \<or>
     above (sf_buyTax s) 1000 \<or> above (sf_sellTax s) 1000 \<or> below (tm_liquidityUsd m) 5000 \<or>
     below (tm_pairAgeHours m) (3 / 60) \<or> above (sf_rugScore s) 80)"
    unfolding checkKill_def first_check_find by (simp add: CHECKS_def num0_above)
qed (simp_all only: checkKill_def first_check_find)

end
