(* ===== verification/Hot_Score.thy ===== *)
theory Hot_Score
  imports Token_Types
begin

text \<open>
  \<open>apps/api/src/hot-tokens/scoring.ts\<close>: the heuristic score of a token. The code adds up signals in a
  positive and a negative sum and lists them; a signal is modelled with its category, its label and its
  weight. Characters of a label outside ASCII are written as their UTF-8 bytes.
\<close>

subsection \<open>Input and result\<close>

datatype token_source = Pumpfun | Dexscreener_boost | Dexscreener_profile | Geckoterminal_new | Geckoterminal_trending
datatype hot_verdict = STRONG_BUY | BUY | CAUTIOUS | SKIP | HIGH_RISK
datatype signal_category = PriceSig | VolumeSig | LiquiditySig | AgeSig | TapeSig | BondingSig | CommunitySig | TwitterSig | DampenerSig | DeadBagSig
datatype signal_kind = AddSig | SubSig | DampSig

record scoring_input =
  sc_priceChange1h :: real
  sc_priceChange5m :: real
  sc_priceChange24h :: real
  sc_volume24hUsd :: real
  sc_liquidityUsd :: real
  sc_marketCapUsd :: real
  sc_pairAgeHours :: real
  sc_source :: token_source
  sc_buys1h :: "real option"
  sc_sells1h :: "real option"
  sc_volume1hUsd :: "real option"
  sc_bondingCurvePct :: "real option"
  sc_graduated :: bool
  sc_isLive :: bool
  sc_replyCount :: "real option"
  sc_athMarketCapUsd :: "real option"
  sc_alignedMatches :: "real option"
  sc_uniqueAuthors :: "real option"
  sc_callerFollowerLog :: "real option"
  sc_projectActive :: bool

record score_signal =
  ss_category :: signal_category
  ss_label :: tmpl
  ss_delta :: real
  ss_kind :: signal_kind

record scoring_result =
  sr_score :: real
  sr_verdict :: hot_verdict
  sr_summary :: tmpl
  sr_breakdown :: "score_signal list option"

text \<open>The variables that \<open>add\<close>, \<open>sub\<close> and \<open>damp\<close> change. The breakdown is collected in any case
  and left out of the result when it is not wanted.\<close>

record tally =
  ty_pos :: real
  ty_neg :: real
  ty_posTags :: "tmpl list"
  ty_negTags :: "tmpl list"
  ty_signals :: "score_signal list"

definition sig_add :: "real \<Rightarrow> tmpl \<Rightarrow> signal_category \<Rightarrow> tally \<Rightarrow> tally" where
  "sig_add n tag cat t = t\<lparr>ty_pos := ty_pos t + n, ty_posTags := ty_posTags t @ [tag],
     ty_signals := ty_signals t @ [\<lparr>ss_category = cat, ss_label = tag, ss_delta = n, ss_kind = AddSig\<rparr>]\<rparr>"

definition sig_sub :: "real \<Rightarrow> tmpl \<Rightarrow> signal_category \<Rightarrow> tally \<Rightarrow> tally" where
  "sig_sub n tag cat t = t\<lparr>ty_neg := ty_neg t - n, ty_negTags := ty_negTags t @ [tag],
     ty_signals := ty_signals t @ [\<lparr>ss_category = cat, ss_label = tag, ss_delta = - n, ss_kind = SubSig\<rparr>]\<rparr>"

text \<open>A dampener: the entry of \<open>damp\<close>, the tag that is pushed after it, and the smaller factor.\<close>

definition sig_damp :: "tmpl \<Rightarrow> real \<Rightarrow> tmpl \<Rightarrow> tally \<times> real \<Rightarrow> tally \<times> real" where
  "sig_damp label factor tag td = (case td of (t, d) \<Rightarrow>
     (t\<lparr>ty_negTags := ty_negTags t @ [tag],
        ty_signals := ty_signals t @ [\<lparr>ss_category = DampenerSig, ss_label = label, ss_delta = 0, ss_kind = DampSig\<rparr>]\<rparr>,
      min d factor))"

subsection \<open>The stages\<close>

definition pct_label :: "string \<Rightarrow> real \<Rightarrow> string \<Rightarrow> tmpl" where
  "pct_label pre x post = [S pre, F x 0, S post]"

definition price_stage :: "scoring_input \<Rightarrow> tally \<Rightarrow> tally" where
  "price_stage d t =
    (let p = sc_priceChange1h d; q = sc_priceChange5m d;
         t = (if p > 100 then sig_add 22 (pct_label ''+'' p ''% 1h'') PriceSig t
              else if p > 50 then sig_add 15 (pct_label ''+'' p ''% 1h'') PriceSig t
              else if p > 20 then sig_add 9 (pct_label ''+'' p ''% 1h'') PriceSig t
              else if p > 5 then sig_add 3 (pct_label ''+'' p ''% 1h'') PriceSig t
              else if p < -30 then sig_sub 12 (pct_label '''' p ''% 1h'') PriceSig t
              else if p < -15 then sig_sub 6 (pct_label '''' p ''% 1h'') PriceSig t else t)
     in if q > 15 then sig_add 10 (pct_label ''+'' q ''% 5m'') PriceSig t
        else if q > 5 then sig_add 5 (pct_label ''+'' q ''% 5m'') PriceSig t
        else if q < -10 then sig_sub 5 (pct_label '''' q ''% 5m'') PriceSig t else t)"

definition volLiq :: "scoring_input \<Rightarrow> real" where
  "volLiq d = (if sc_liquidityUsd d > 0 then sc_volume24hUsd d / sc_liquidityUsd d else 0)"

definition liquidity_stage :: "scoring_input \<Rightarrow> tally \<Rightarrow> tally" where
  "liquidity_stage d t =
    (let v = volLiq d; liq = sc_liquidityUsd d;
         t = (if v > 20 then sig_add 14 [F v 0, S ''x vol/liq''] VolumeSig t
              else if v > 8 then sig_add 8 [F v 0, S ''x vol/liq''] VolumeSig t
              else if v > 3 then sig_add 4 [F v 1, S ''x vol/liq''] VolumeSig t
              else if v < 5 / 10 \<and> liq > 0 then sig_sub 5 [S ''low vol/liq''] VolumeSig t else t)
     in if liq \<ge> 200000 then sig_add 7 (pct_label ''$'' (liq / 1000) ''k LP'') LiquiditySig t
        else if liq \<ge> 50000 then sig_add 3 (pct_label ''$'' (liq / 1000) ''k LP'') LiquiditySig t
        else if 0 < liq \<and> liq < 5000 then sig_sub 8 [S ''thin liq''] LiquiditySig t else t)"

definition age_stage :: "trading_profile \<Rightarrow> scoring_input \<Rightarrow> tally \<Rightarrow> tally" where
  "age_stage profile d t =
    (let age = sc_pairAgeHours d
     in if profile = Meme_hunter \<or> profile = Degen_sniper then
          let t = (if age < 1 then sig_add 14 [F (age * 60) 0, S ''m old''] AgeSig t
                   else if age < 4 then sig_add 9 [F age 1, S ''h old''] AgeSig t
                   else if age < 12 then sig_add 4 [F age 0, S ''h old''] AgeSig t
                   else if age > 72 then sig_sub 8 [S ''aged out''] AgeSig t else t)
          in if sc_source d = Pumpfun then sig_add 5 [S ''pump.fun launch''] AgeSig t else t
        else if profile = Swing_trader then
          if age \<ge> 6 \<and> age \<le> 168 then sig_add 5 [S ''mature pair''] AgeSig t
          else if age < 6 then sig_sub 5 [S ''too new''] AgeSig t else t
        else if profile = Gem_hunt then
          if age \<ge> 72 then sig_add 10 [S ''>3 day pair''] AgeSig t else sig_sub 12 [S ''too new''] AgeSig t
        else t)"

definition txCount :: "scoring_input \<Rightarrow> real" where
  "txCount d = num0 (sc_buys1h d) + num0 (sc_sells1h d)"

definition hasTape :: "scoring_input \<Rightarrow> bool" where
  "hasTape d = (sc_buys1h d \<noteq> None \<and> sc_sells1h d \<noteq> None \<and> txCount d > 0)"

definition avgTradeUsd :: "scoring_input \<Rightarrow> real" where
  "avgTradeUsd d = (if hasTape d \<and> num0 (sc_volume1hUsd d) \<noteq> 0 then num0 (sc_volume1hUsd d) / txCount d else 0)"

definition buyRatio :: "scoring_input \<Rightarrow> real" where
  "buyRatio d = (if hasTape d then num0 (sc_buys1h d) / txCount d else 0)"

definition buys_signal :: "scoring_input \<Rightarrow> tally \<Rightarrow> tally" where
  "buys_signal d t = (let r = buyRatio d; l = [F (r * 100) 0, S ''% buys'']
     in if \<not> hasTape d then t
        else if r > 65 / 100 then sig_add 7 l TapeSig t
        else if r > 55 / 100 then sig_add 3 l TapeSig t
        else if r < 40 / 100 then sig_sub 8 l TapeSig t
        else if r < 45 / 100 then sig_sub 3 l TapeSig t else t)"

definition size_signal :: "scoring_input \<Rightarrow> tally \<Rightarrow> tally" where
  "size_signal d t = (let a = avgTradeUsd d
     in if hasTape d \<and> sc_marketCapUsd d \<ge> 200000 \<and> a > 0 then
          if a > 500 then sig_add 6 (pct_label ''$'' a '' avg buy'') TapeSig t
          else if a > 150 then sig_add 3 (pct_label ''$'' a '' avg buy'') TapeSig t
          else if a < 15 then sig_sub 10 [S ''pure dust''] TapeSig t
          else if a < 40 then sig_sub 5 [S ''dust trades''] TapeSig t else t
        else t)"

definition activity_signal :: "scoring_input \<Rightarrow> tally \<Rightarrow> tally" where
  "activity_signal d t = (let n = txCount d
     in if \<not> hasTape d then t
        else if n > 200 then sig_add 4 [N n, S '' tx active''] TapeSig t
        else if n > 80 then sig_add 2 [N n, S '' tx''] TapeSig t
        else if sc_pairAgeHours d > 1 \<and> n < 8 then sig_sub 10 [S ''dead tape''] TapeSig t else t)"

definition turnover_signal :: "scoring_input \<Rightarrow> tally \<Rightarrow> tally" where
  "turnover_signal d t = (case sc_volume1hUsd d of None \<Rightarrow> t
     | Some vol \<Rightarrow>
        if sc_marketCapUsd d > 0 then
          let v = vol / sc_marketCapUsd d;
              t = (if v > 5 / 100 then sig_add 3 [S ''vol/MC '', F (v * 100) 0, S ''%''] TapeSig t else t);
              t = (if v > 20 / 100 then sig_add 2 [S ''hot tape''] TapeSig t else t);
              t = (if v > 3 then sig_sub 4 [S ''fomo peak''] TapeSig t else t)
          in if sc_marketCapUsd d > 500000 \<and> v < 2 / 1000 then sig_sub 6 [S ''illiquid for size''] TapeSig t else t
        else t)"

definition bonding_stage :: "scoring_input \<Rightarrow> tally \<Rightarrow> tally" where
  "bonding_stage d t = (case sc_bondingCurvePct d of
     Some b \<Rightarrow>
       if sc_graduated d then sig_add 3 [S ''graduated''] BondingSig t
       else if b < 30 then sig_sub 10 [S ''dead curve''] BondingSig t
       else if b < 70 then sig_add 5 (pct_label ''curve '' b ''%'') BondingSig t
       else if b < 95 then sig_add 8 (pct_label ''curve '' b ''%'') BondingSig t else t
   | None \<Rightarrow> if sc_graduated d then sig_add 3 [S ''graduated''] BondingSig t else t)"

definition fire :: string where "fire = [CHR 0xF0, CHR 0x9F, CHR 0x94, CHR 0xA5, CHR '' '']"
definition bird :: string where "bird = [CHR 0xF0, CHR 0x9F, CHR 0x90, CHR 0xA6, CHR '' '']"
definition times_sign :: string where "times_sign = [CHR 0xC3, CHR 0x97]"
definition middle_dot :: string where "middle_dot = [CHR '' '', CHR 0xC2, CHR 0xB7, CHR '' '']"

definition community_stage :: "scoring_input \<Rightarrow> tally \<Rightarrow> tally" where
  "community_stage d t =
    (let t = (case sc_replyCount d of None \<Rightarrow> t
           | Some n \<Rightarrow> if n > 500 then sig_add 8 [S fire, N n, S '' replies''] CommunitySig t
               else if n > 100 then sig_add 5 [N n, S '' replies''] CommunitySig t
               else if n > 30 then sig_add 3 [N n, S '' replies''] CommunitySig t else t)
     in if sc_isLive d then sig_add 5 [S ''creator LIVE''] CommunitySig t else t)"

definition twitter_stage :: "scoring_input \<Rightarrow> tally \<Rightarrow> tally" where
  "twitter_stage d t =
    (let t = (case sc_alignedMatches d of None \<Rightarrow> t
           | Some n \<Rightarrow> if n \<ge> 50 then sig_add 10 [S bird, N n, S ''+ posts''] TwitterSig t
               else if n \<ge> 20 then sig_add 6 [S bird, N n, S '' posts''] TwitterSig t
               else if n \<ge> 8 then sig_add 3 [S bird, N n, S '' posts''] TwitterSig t else t);
         t = (case sc_callerFollowerLog d of None \<Rightarrow> t
           | Some n \<Rightarrow> if n \<ge> 25 then sig_add 6 [S ''KOL backed''] TwitterSig t
               else if n \<ge> 12 then sig_add 3 [S ''mid-tier callers''] TwitterSig t else t);
         t = (case sc_uniqueAuthors d of None \<Rightarrow> t
           | Some n \<Rightarrow> if n \<ge> 15 then sig_add 3 [N n, S '' unique authors''] TwitterSig t else t)
     in if sc_projectActive d then sig_add 3 [S ''team active''] TwitterSig t else t)"

definition tape_damp :: "scoring_input \<Rightarrow> tally \<times> real \<Rightarrow> tally \<times> real" where
  "tape_damp d td =
    (let mc = sc_marketCapUsd d; a = avgTradeUsd d; n = txCount d
     in if hasTape d \<and> sc_volume1hUsd d \<noteq> None \<and> mc \<ge> 1000000 \<and> a > 0 \<and> a < 50 \<and> n < 30
        then sig_damp [S (''paper tape ('' @ times_sign @ ''0.3)'')] (3 / 10) [S ''paper tape''] td
        else if hasTape d \<and> sc_volume1hUsd d \<noteq> None \<and> mc \<ge> 500000 \<and> a > 0 \<and> a < 80 \<and> n < 50
        then sig_damp [S (''thin tape ('' @ times_sign @ ''0.5)'')] (5 / 10) [S ''thin tape''] td else td)"

definition wash_damp :: "scoring_input \<Rightarrow> tally \<times> real \<Rightarrow> tally \<times> real" where
  "wash_damp d td =
    (if hasTape d \<and> sc_marketCapUsd d > 0 \<and> sc_volume24hUsd d / sc_marketCapUsd d > 1 \<and> txCount d < 20
     then sig_damp [S (''maybe wash ('' @ times_sign @ ''0.7)'')] (7 / 10) [S ''maybe wash''] td else td)"

definition ath_damp :: "scoring_input \<Rightarrow> tally \<times> real \<Rightarrow> tally \<times> real" where
  "ath_damp d td = (case sc_athMarketCapUsd d of None \<Rightarrow> td
     | Some ath \<Rightarrow> if ath > 0 \<and> sc_marketCapUsd d > 0 \<and> sc_pairAgeHours d > 4 \<and> sc_marketCapUsd d < ath * (3 / 10)
         then sig_damp [S (''post-ATH dead-bag ('' @ times_sign @ ''0.7)'')] (7 / 10) [S ''post-ATH''] td else td)"

definition dampeners :: "scoring_input \<Rightarrow> tally \<times> real \<Rightarrow> tally \<times> real" where
  "dampeners d td = ath_damp d (wash_damp d (tape_damp d td))"

definition verdict_of :: "real \<Rightarrow> hot_verdict" where
  "verdict_of score = (if score \<ge> 78 then STRONG_BUY else if score \<ge> 62 then BUY else if score \<ge> 46 then CAUTIOUS
     else if score \<ge> 28 then SKIP else HIGH_RISK)"

definition BASE :: real where "BASE = 35"

definition stages :: "trading_profile \<Rightarrow> scoring_input \<Rightarrow> tally" where
  "stages profile d = twitter_stage d (community_stage d (bonding_stage d (turnover_signal d (activity_signal d (size_signal d
     (buys_signal d (age_stage profile d (liquidity_stage d (price_stage d
       \<lparr>ty_pos = 0, ty_neg = 0, ty_posTags = [], ty_negTags = [], ty_signals = []\<rparr>)))))))))"

definition computeHotTokenScore :: "scoring_input \<Rightarrow> trading_profile \<Rightarrow> bool \<Rightarrow> scoring_result" where
  "computeHotTokenScore d profile want = (case dampeners d (stages profile d, 1) of (t, dampener) \<Rightarrow>
     let score = max 0 (min 100 (BASE + ty_pos t * dampener + ty_neg t));
         tags = take 2 (ty_posTags t) @ take 1 (ty_negTags t)
     in \<lparr>sr_score = score, sr_verdict = verdict_of score,
          sr_summary = (if tags = [] then [S ''on watch''] else join_tmpl middle_dot tags),
          sr_breakdown = (if want then Some (ty_signals t) else None)\<rparr>)"

subsection \<open>The breakdown explains the score\<close>

definition sum_of :: "signal_kind \<Rightarrow> score_signal list \<Rightarrow> real" where
  "sum_of k ss = (\<Sum>s \<leftarrow> ss. if ss_kind s = k then ss_delta s else 0)"

text \<open>What every stage keeps of the two sums and the list of signals.\<close>

definition tally_ok :: "tally \<Rightarrow> bool" where
  "tally_ok t = (ty_pos t = sum_of AddSig (ty_signals t) \<and> ty_neg t = sum_of SubSig (ty_signals t) \<and>
     (\<forall>s \<in> set (ty_signals t). (ss_kind s = AddSig \<longrightarrow> 0 < ss_delta s) \<and> (ss_kind s = SubSig \<longrightarrow> ss_delta s < 0) \<and> (ss_kind s = DampSig \<longrightarrow> ss_delta s = 0)))"

named_theorems tally_intro \<open>preservation of the well-formedness of the tally\<close>

lemma sig_add_ok: "0 < n \<Longrightarrow> tally_ok t \<Longrightarrow> tally_ok (sig_add n tag cat t)"
  by (auto simp: tally_ok_def sig_add_def sum_of_def)

lemma sig_sub_ok: "0 < n \<Longrightarrow> tally_ok t \<Longrightarrow> tally_ok (sig_sub n tag cat t)"
  by (auto simp: tally_ok_def sig_sub_def sum_of_def)

lemma sig_damp_ok: "tally_ok (fst td) \<Longrightarrow> tally_ok (fst (sig_damp l f tag td))"
  by (auto simp: tally_ok_def sig_damp_def sum_of_def split: prod.split)

lemmas stage_ok = sig_add_ok sig_sub_ok

lemma price_ok [tally_intro]: "tally_ok t \<Longrightarrow> tally_ok (price_stage d t)"
  by (simp add: price_stage_def Let_def stage_ok)

lemma liquidity_ok [tally_intro]: "tally_ok t \<Longrightarrow> tally_ok (liquidity_stage d t)"
  by (simp add: liquidity_stage_def Let_def stage_ok)

lemma age_ok [tally_intro]: "tally_ok t \<Longrightarrow> tally_ok (age_stage p d t)"
  by (simp add: age_stage_def Let_def stage_ok)

lemma buys_ok [tally_intro]: "tally_ok t \<Longrightarrow> tally_ok (buys_signal d t)"
  by (simp add: buys_signal_def Let_def stage_ok)

lemma size_ok [tally_intro]: "tally_ok t \<Longrightarrow> tally_ok (size_signal d t)"
  by (simp add: size_signal_def Let_def stage_ok)

lemma activity_ok [tally_intro]: "tally_ok t \<Longrightarrow> tally_ok (activity_signal d t)"
  by (simp add: activity_signal_def Let_def stage_ok)

lemma turnover_ok [tally_intro]: "tally_ok t \<Longrightarrow> tally_ok (turnover_signal d t)"
  by (simp add: turnover_signal_def Let_def stage_ok split: option.split)

lemma bonding_ok [tally_intro]: "tally_ok t \<Longrightarrow> tally_ok (bonding_stage d t)"
  by (simp add: bonding_stage_def stage_ok split: option.split)

lemma community_ok [tally_intro]: "tally_ok t \<Longrightarrow> tally_ok (community_stage d t)"
  by (simp add: community_stage_def Let_def stage_ok split: option.split)

lemma twitter_ok [tally_intro]: "tally_ok t \<Longrightarrow> tally_ok (twitter_stage d t)"
  by (simp add: twitter_stage_def Let_def stage_ok split: option.split)

lemma stages_ok: "tally_ok (stages p d)"
  unfolding stages_def by (intro tally_intro) (simp add: tally_ok_def sum_of_def)

text \<open>The dampeners leave the two sums alone.\<close>

lemma sig_damp_fst [simp]: "ty_pos (fst (sig_damp l f tag td)) = ty_pos (fst td)" "ty_neg (fst (sig_damp l f tag td)) = ty_neg (fst td)"
  "snd (sig_damp l f tag td) = min (snd td) f"
  by (simp_all add: sig_damp_def split: prod.split)

lemma damp_sums [simp]:
  "ty_pos (fst (tape_damp d td)) = ty_pos (fst td)" "ty_neg (fst (tape_damp d td)) = ty_neg (fst td)"
  "ty_pos (fst (wash_damp d td)) = ty_pos (fst td)" "ty_neg (fst (wash_damp d td)) = ty_neg (fst td)"
  "ty_pos (fst (ath_damp d td)) = ty_pos (fst td)" "ty_neg (fst (ath_damp d td)) = ty_neg (fst td)"
  by (simp_all add: tape_damp_def wash_damp_def ath_damp_def Let_def split: option.split)

lemma dampeners_sums [simp]: "ty_pos (fst (dampeners d td)) = ty_pos (fst td)" "ty_neg (fst (dampeners d td)) = ty_neg (fst td)"
  by (simp_all add: dampeners_def)

lemma damp_ok:
  "tally_ok (fst td) \<Longrightarrow> tally_ok (fst (tape_damp d td))"
  "tally_ok (fst td) \<Longrightarrow> tally_ok (fst (wash_damp d td))"
  "tally_ok (fst td) \<Longrightarrow> tally_ok (fst (ath_damp d td))"
  by (simp_all add: tape_damp_def wash_damp_def ath_damp_def Let_def sig_damp_ok split: option.split)

lemma dampeners_ok: "tally_ok (fst td) \<Longrightarrow> tally_ok (fst (dampeners d td))"
  by (simp add: dampeners_def damp_ok)

lemma dampeners_range: "snd (dampeners d (t, 1)) \<in> {3 / 10, 5 / 10, 7 / 10, 1}"
  by (simp add: dampeners_def tape_damp_def wash_damp_def ath_damp_def Let_def split: option.split)

lemma tally_sums: "tally_ok t \<Longrightarrow> sum_of AddSig (ty_signals t) = ty_pos t" "tally_ok t \<Longrightarrow> sum_of SubSig (ty_signals t) = ty_neg t"
  by (simp_all add: tally_ok_def)

lemma sum_of_nonneg: "\<forall>s \<in> set ss. ss_kind s = AddSig \<longrightarrow> 0 < ss_delta s \<Longrightarrow> 0 \<le> sum_of AddSig ss"
  by (induction ss) (auto simp: sum_of_def)

lemma tally_pos: "tally_ok t \<Longrightarrow> 0 \<le> ty_pos t"
  using sum_of_nonneg [of "ty_signals t"] by (simp add: tally_ok_def)

lemma sum_of_nonpos: "\<forall>s \<in> set ss. ss_kind s = SubSig \<longrightarrow> ss_delta s < 0 \<Longrightarrow> sum_of SubSig ss \<le> 0"
  by (induction ss) (auto simp: sum_of_def)

lemma tally_neg: "tally_ok t \<Longrightarrow> ty_neg t \<le> 0"
  using sum_of_nonpos [of "ty_signals t"] by (simp add: tally_ok_def)

lemma tally_kinds: "tally_ok t \<Longrightarrow>
    list_all (\<lambda>s. (ss_kind s = AddSig) = (0 < ss_delta s) \<and> (ss_kind s = SubSig) = (ss_delta s < 0)) (ty_signals t)"
proof (unfold list_all_iff, intro ballI)
  fix s assume "tally_ok t" "s \<in> set (ty_signals t)"
  then show "(ss_kind s = AddSig) = (0 < ss_delta s) \<and> (ss_kind s = SubSig) = (ss_delta s < 0)"
    by (cases "ss_kind s") (force simp: tally_ok_def)+
qed

lemma scored: "computeHotTokenScore d p True = r \<Longrightarrow> dampeners d (stages p d, 1) = (t, f) \<Longrightarrow>
    sr_score r = max 0 (min 100 (35 + ty_pos (stages p d) * f + ty_neg (stages p d))) \<and> sr_verdict r = verdict_of (sr_score r) \<and>
    sr_breakdown r = Some (ty_signals t)"
  using dampeners_sums [of d "(stages p d, 1)"] by (auto simp: computeHotTokenScore_def Let_def BASE_def)



subsection \<open>How much the stages can add\<close>

named_theorems stage_max \<open>the most that a stage adds to the positive sum\<close>

lemma sig_pos [simp]: "ty_pos (sig_add n tag cat t) = ty_pos t + n" "ty_pos (sig_sub n tag cat t) = ty_pos t"
  by (simp_all add: sig_add_def sig_sub_def)

lemma price_max [stage_max]: "ty_pos t \<le> m \<Longrightarrow> ty_pos (price_stage d t) \<le> m + 32"
  by (simp add: price_stage_def Let_def)

lemma liquidity_max [stage_max]: "ty_pos t \<le> m \<Longrightarrow> ty_pos (liquidity_stage d t) \<le> m + 21"
  by (simp add: liquidity_stage_def Let_def)

lemma age_max [stage_max]: "ty_pos t \<le> m \<Longrightarrow> ty_pos (age_stage p d t) \<le> m + 19"
  by (simp add: age_stage_def Let_def)

lemma buys_max [stage_max]: "ty_pos t \<le> m \<Longrightarrow> ty_pos (buys_signal d t) \<le> m + 7"
  by (simp add: buys_signal_def Let_def)

lemma size_max [stage_max]: "avgTradeUsd d \<le> 150 \<Longrightarrow> ty_pos t \<le> m \<Longrightarrow> ty_pos (size_signal d t) \<le> m"
  by (simp add: size_signal_def Let_def)

lemma activity_max [stage_max]: "txCount d \<le> 80 \<Longrightarrow> ty_pos t \<le> m \<Longrightarrow> ty_pos (activity_signal d t) \<le> m"
  by (simp add: activity_signal_def Let_def)

lemma turnover_max [stage_max]: "ty_pos t \<le> m \<Longrightarrow> ty_pos (turnover_signal d t) \<le> m + 5"
  by (simp add: turnover_signal_def Let_def split: option.split)

lemma bonding_max [stage_max]: "ty_pos t \<le> m \<Longrightarrow> ty_pos (bonding_stage d t) \<le> m + 8"
  by (simp add: bonding_stage_def split: option.split)

lemma community_max [stage_max]: "ty_pos t \<le> m \<Longrightarrow> ty_pos (community_stage d t) \<le> m + 13"
  by (simp add: community_stage_def Let_def split: option.split)

lemma twitter_max [stage_max]: "ty_pos t \<le> m \<Longrightarrow> ty_pos (twitter_stage d t) \<le> m + 22"
  by (simp add: twitter_stage_def Let_def split: option.split)

lemma stages_max:
  assumes "avgTradeUsd d \<le> 150" "txCount d \<le> 80"
  shows "ty_pos (stages p d) \<le> 127"
proof -
  have "ty_pos (stages p d) \<le> 0 + 32 + 21 + 19 + 7 + 5 + 8 + 13 + 22"
    unfolding stages_def by (intro stage_max assms) simp
  then show ?thesis by simp
qed

text \<open>A token of a million dollars or more whose hour of trading consists of fewer than 30
  trades worth less than 50 dollars each is never rated as a strong buy, however bullish everything else
  about it looks: with the dampener of 0.3 its score stays below 74.\<close>

theorem hs_paper_tape:
  assumes "1000000 \<le> sc_marketCapUsd d" "0 < avgTradeUsd d" "avgTradeUsd d < 50" "txCount d < 30"
  shows "sr_score (computeHotTokenScore d p want) < 74 \<and> sr_verdict (computeHotTokenScore d p want) \<noteq> STRONG_BUY"
proof -
  obtain t f where tf: "dampeners d (stages p d, 1) = (t, f)" by fastforce
  have "hasTape d" "sc_volume1hUsd d \<noteq> None" using assms(2) by (auto simp: avgTradeUsd_def num0_def split: if_splits option.splits)
  then have "snd (tape_damp d (stages p d, 1)) = 3 / 10" using assms by (simp add: tape_damp_def Let_def)
  then have f: "f \<le> 3 / 10" using arg_cong [OF tf, of snd]
    by (auto simp: dampeners_def wash_damp_def ath_damp_def split: option.splits if_splits)
  have "0 \<le> f" using dampeners_range [of d "stages p d"] by (auto simp: tf)
  then have "ty_pos (stages p d) * f \<le> 127 * (3 / 10)"
    using f stages_max [of d p] assms by (intro mult_mono) auto
  moreover have "ty_neg (stages p d) \<le> 0" using tally_neg [OF stages_ok] .
  ultimately have "max 0 (min 100 (35 + ty_pos (stages p d) * f + ty_neg (stages p d))) < 74" by simp
  moreover have "ty_pos t = ty_pos (stages p d)" "ty_neg t = ty_neg (stages p d)"
    using dampeners_sums [of d "(stages p d, 1)"] by (simp_all add: tf)
  ultimately have "sr_score (computeHotTokenScore d p want) < 74"
    by (simp add: computeHotTokenScore_def tf Let_def BASE_def)
  moreover have "sr_verdict (computeHotTokenScore d p want) = verdict_of (sr_score (computeHotTokenScore d p want))"
    by (simp add: computeHotTokenScore_def tf Let_def)
  ultimately show ?thesis by (simp add: verdict_of_def)
qed

definition dusty :: scoring_input where
  "dusty = \<lparr>sc_priceChange1h = 120, sc_priceChange5m = 20, sc_priceChange24h = 300, sc_volume24hUsd = 500000,
     sc_liquidityUsd = 250000, sc_marketCapUsd = 2000000, sc_pairAgeHours = 1 / 2, sc_source = Pumpfun,
     sc_buys1h = Some 15, sc_sells1h = Some 5, sc_volume1hUsd = Some 900, sc_bondingCurvePct = Some 80,
     sc_graduated = False, sc_isLive = True, sc_replyCount = Some 600, sc_athMarketCapUsd = None,
     sc_alignedMatches = Some 60, sc_uniqueAuthors = Some 20, sc_callerFollowerLog = Some 30, sc_projectActive = True\<rparr>"

theorem hs_paper_tape_witness:
  "sr_score (computeHotTokenScore dusty Meme_hunter False) < 74 \<and>
   sr_verdict (computeHotTokenScore dusty Meme_hunter False) \<noteq> STRONG_BUY"
  by (rule hs_paper_tape) (simp_all add: dusty_def avgTradeUsd_def txCount_def hasTape_def num0_def)

end
