(* ===== verification/Provider_Pool.thy ===== *)
theory Provider_Pool
  imports Redis_Store Js_Text Bounded_Cache
begin

text \<open>
  \<open>apps/api/src/provider-pool\<close>: which outside service answers a request for data. \<open>RateLimitService\<close>
  counts the uses of a provider in Redis and remembers cooldowns; \<open>ProviderPoolService\<close> walks the
  providers of a group by priority and falls back from one to the next. The client of Redis is a
  parameter; \<open>up\<close> says whether it answers during an operation, since every operation catches its failure.
  The table of providers, the environment and the handlers of a call are parameters too; a handler that
  throws gives the fields of the error that the code reads.
\<close>

subsection \<open>\<open>rate-limit.service.ts\<close>\<close>

fun decimal :: "nat \<Rightarrow> string" where
  "decimal n = (if n < 10 then [digit_chars ! n] else decimal (n div 10) @ [digit_chars ! (n mod 10)])"

declare decimal.simps [simp del]

text \<open>\<open>Math.floor(Date.now() / 1000 / windowSec)\<close>\<close>

definition window_slot :: "int \<Rightarrow> int \<Rightarrow> int" where
  "window_slot now windowSec = now div (1000 * windowSec)"

definition cooldown_key :: "string \<Rightarrow> string" where
  "cooldown_key key = ''rl:cd:'' @ key"

definition count_key :: "string \<Rightarrow> int \<Rightarrow> string" where
  "count_key key slot = ''rl:cnt:'' @ key @ '':'' @ decimal (nat slot)"

text \<open>\<open>parseInt(cnt ?? '0', 10)\<close> of a counter that \<open>INCR\<close> wrote.\<close>

definition stored_count :: "json option \<Rightarrow> real" where
  "stored_count v = (case v of None \<Rightarrow> 0 | Some j \<Rightarrow> (case js_number j of None \<Rightarrow> 0 | Some r \<Rightarrow> r))"

definition canUse :: "'s ioredis \<Rightarrow> bool \<Rightarrow> int \<Rightarrow> string \<Rightarrow> int \<Rightarrow> int \<Rightarrow> 's \<Rightarrow> bool" where
  "canUse c up now key reqs windowSec s =
    (if \<not> up then True
     else if c_get c now s (cooldown_key key) \<noteq> None then False
     else stored_count (c_get c now s (count_key key (window_slot now windowSec))) < of_int reqs)"

definition record_use :: "'s ioredis \<Rightarrow> bool \<Rightarrow> int \<Rightarrow> string \<Rightarrow> int \<Rightarrow> 's \<Rightarrow> 's" where
  "record_use c up now key windowSec s =
    (if \<not> up then s
     else let k = count_key key (window_slot now windowSec)
       in c_expire c now k (windowSec * 2) (snd (c_incr c now k s)))"

definition markCooldown :: "'s ioredis \<Rightarrow> bool \<Rightarrow> int \<Rightarrow> string \<Rightarrow> int \<Rightarrow> 's \<Rightarrow> 's" where
  "markCooldown c up now key cooldownSec s =
    (if \<not> up then s else c_setex c now (cooldown_key key) cooldownSec (JStr ''1'') s)"

record rate_status =
  rs_available :: bool
  rs_used :: real
  rs_remaining :: real
  rs_cooldownTtl :: int

text \<open>\<open>ttl\<close> is the answer of the command TTL, negative without a deadline.\<close>

definition rl_getStatus ::
    "'s ioredis \<Rightarrow> (string \<Rightarrow> int) \<Rightarrow> bool \<Rightarrow> int \<Rightarrow> string \<Rightarrow> int \<Rightarrow> int \<Rightarrow> 's \<Rightarrow> rate_status" where
  "rl_getStatus c ttl up now key reqs windowSec s =
    (if \<not> up then \<lparr>rs_available = True, rs_used = 0, rs_remaining = of_int reqs, rs_cooldownTtl = 0\<rparr>
     else let used = stored_count (c_get c now s (count_key key (window_slot now windowSec)));
              cooldownTtl = max 0 (ttl (cooldown_key key))
       in \<lparr>rs_available = (cooldownTtl = 0 \<and> used < of_int reqs), rs_used = used, rs_remaining = max 0 (of_int reqs - used),
           rs_cooldownTtl = cooldownTtl\<rparr>)"

subsection \<open>\<open>provider-pool.service.ts\<close>\<close>

record provider =
  pv_key :: string
  pv_displayName :: string
  pv_dataGroup :: string
  pv_priority :: int
  pv_reqsPerWindow :: int
  pv_windowSec :: int
  pv_cooldownSec :: int
  pv_enabled :: bool
  pv_requiresKey :: "string option"

record provider_error =
  pe_status :: "int option"
  pe_statusCode :: "int option"
  pe_message :: "string option"

text \<open>\<open>/429|rate.?limit|too many/i\<close>\<close>

definition has_part :: "string \<Rightarrow> string \<Rightarrow> bool" where
  "has_part p s = list_ex (\<lambda>n. starts_with p (drop n s)) [0 ..< Suc (length s)]"

definition rate_limit_text :: "string \<Rightarrow> bool" where
  "rate_limit_text msg = (let s = to_lower msg in
     has_part ''429'' s \<or> has_part ''ratelimit'' s \<or> has_part ''too many'' s \<or>
     list_ex (\<lambda>n. starts_with ''rate'' (drop n s) \<and> (case drop (n + 4) s of [] \<Rightarrow> False
        | x # rest \<Rightarrow> x \<notin> {CHR 0x0A, CHR 0x0D} \<and> starts_with ''limit'' rest)) [0 ..< Suc (length s)])"

definition isRateLimitError :: "provider_error \<Rightarrow> bool" where
  "isRateLimitError e = (pe_status e = Some 429 \<or> pe_statusCode e = Some 429 \<or>
     rate_limit_text (case pe_message e of None \<Rightarrow> [] | Some m \<Rightarrow> m))"

text \<open>The cache of the configuration; \<open>rows\<close> is the answer of the database, sorted by priority and key, or
  \<open>None\<close> when it fails.\<close>

record group_entry =
  ge_providers :: "provider list"
  ge_ts :: int

type_synonym group_cache = "(string, group_entry) js_map"

definition CONFIG_TTL_MS :: int where "CONFIG_TTL_MS = 5 * 60 * 1000"

definition getGroupProviders ::
    "(string \<Rightarrow> provider list option) \<Rightarrow> int \<Rightarrow> string \<Rightarrow> group_cache \<Rightarrow> provider list \<times> group_cache" where
  "getGroupProviders rows now grp st =
    (case map_of st grp of
       Some e \<Rightarrow> if now - ge_ts e < CONFIG_TTL_MS then (ge_providers e, st)
         else (case rows grp of None \<Rightarrow> ([], st)
           | Some ps \<Rightarrow> (ps, map_set grp \<lparr>ge_providers = ps, ge_ts = now\<rparr> st))
     | None \<Rightarrow> (case rows grp of None \<Rightarrow> ([], st)
           | Some ps \<Rightarrow> (ps, map_set grp \<lparr>ge_providers = ps, ge_ts = now\<rparr> st)))"

definition blank :: "string \<Rightarrow> bool" where
  "blank s = list_all (\<lambda>c. of_char c \<in> {9, 10, 11, 12, 13, 32, 160 :: nat}) s"

definition isKeyPresent :: "(string \<Rightarrow> string option) \<Rightarrow> string option \<Rightarrow> bool" where
  "isKeyPresent env requiresKey = (case requiresKey of None \<Rightarrow> True
     | Some k \<Rightarrow> k = [] \<or> (case env k of None \<Rightarrow> False | Some v \<Rightarrow> \<not> blank v))"

datatype 'd outcome = Answered "'d option" | Threw provider_error

datatype pool_status = Hit | Miss | Exhausted

record 'd execute_result =
  er_data :: "'d option"
  er_provider :: "(string \<times> string) option"
  er_status :: pool_status

definition usable :: "(string \<Rightarrow> string option) \<Rightarrow> (string \<Rightarrow> 'd outcome option) \<Rightarrow> provider \<Rightarrow> bool" where
  "usable env handlers p = (pv_enabled p \<and> handlers (pv_key p) \<noteq> None \<and> isKeyPresent env (pv_requiresKey p))"

fun try_providers ::
    "'s ioredis \<Rightarrow> bool \<Rightarrow> int \<Rightarrow> (string \<Rightarrow> 'd outcome option) \<Rightarrow> provider list \<Rightarrow> 's \<Rightarrow> 'd execute_result \<times> 's" where
  "try_providers c up now handlers [] s = (\<lparr>er_data = None, er_provider = None, er_status = Exhausted\<rparr>, s)"
| "try_providers c up now handlers (p # ps) s =
    (if \<not> canUse c up now (pv_key p) (pv_reqsPerWindow p) (pv_windowSec p) s then try_providers c up now handlers ps s
     else case handlers (pv_key p) of
       None \<Rightarrow> try_providers c up now handlers ps s
     | Some (Answered d) \<Rightarrow>
         (\<lparr>er_data = d, er_provider = Some (pv_key p, pv_displayName p), er_status = (if d \<noteq> None then Hit else Miss)\<rparr>,
          record_use c up now (pv_key p) (pv_windowSec p) s)
     | Some (Threw e) \<Rightarrow>
         try_providers c up now handlers ps
           (if isRateLimitError e then markCooldown c up now (pv_key p) (pv_cooldownSec p) s else s))"

definition pool_execute ::
    "'s ioredis \<Rightarrow> (string \<Rightarrow> provider list option) \<Rightarrow> (string \<Rightarrow> string option) \<Rightarrow> bool \<Rightarrow> int \<Rightarrow> string \<Rightarrow>
     (string \<Rightarrow> 'd outcome option) \<Rightarrow> 's \<times> group_cache \<Rightarrow> 'd execute_result \<times> 's \<times> group_cache" where
  "pool_execute c rows env up now grp handlers st =
    (case getGroupProviders rows now grp (snd st) of (providers, cache) \<Rightarrow>
      (case try_providers c up now handlers (filter (usable env handlers) providers) (fst st) of (r, s) \<Rightarrow> (r, s, cache)))"

text \<open>\<open>executeAll\<close>: the providers have different keys, so the concurrent calls are run in their order.\<close>

fun run_all ::
    "'s ioredis \<Rightarrow> bool \<Rightarrow> int \<Rightarrow> (string \<Rightarrow> 'd outcome option) \<Rightarrow> ('a \<Rightarrow> 'd \<Rightarrow> 'a) \<Rightarrow> provider list \<Rightarrow> ('a \<times> string list) \<times> 's \<Rightarrow> ('a \<times> string list) \<times> 's" where
  "run_all c up now handlers merge [] st = st"
| "run_all c up now handlers merge (p # ps) ((acc, hits), s) =
    run_all c up now handlers merge ps
     (if \<not> canUse c up now (pv_key p) (pv_reqsPerWindow p) (pv_windowSec p) s then ((acc, hits), s)
      else case handlers (pv_key p) of
        Some (Answered (Some d)) \<Rightarrow> ((merge acc d, hits @ [pv_key p]), record_use c up now (pv_key p) (pv_windowSec p) s)
      | Some (Threw e) \<Rightarrow>
          ((acc, hits), if isRateLimitError e then markCooldown c up now (pv_key p) (pv_cooldownSec p) s else s)
      | _ \<Rightarrow> ((acc, hits), s))"

definition executeAll ::
    "'s ioredis \<Rightarrow> (string \<Rightarrow> provider list option) \<Rightarrow> (string \<Rightarrow> string option) \<Rightarrow> bool \<Rightarrow> int \<Rightarrow> string \<Rightarrow>
     (string \<Rightarrow> 'd outcome option) \<Rightarrow> 'a \<Rightarrow> ('a \<Rightarrow> 'd \<Rightarrow> 'a) \<Rightarrow> 's \<times> group_cache \<Rightarrow> ('a \<times> string list) \<times> 's \<times> group_cache" where
  "executeAll c rows env up now grp handlers acc0 merge st =
    (case getGroupProviders rows now grp (snd st) of (providers, cache) \<Rightarrow>
      (case run_all c up now handlers merge (filter (usable env handlers) providers) ((acc0, []), fst st) of
        (r, s) \<Rightarrow> (r, s, cache)))"

definition isAvailable ::
    "'s ioredis \<Rightarrow> (string \<Rightarrow> provider list option) \<Rightarrow> (string \<Rightarrow> string option) \<Rightarrow> bool \<Rightarrow> int \<Rightarrow> string \<Rightarrow> 's \<times> group_cache \<Rightarrow> bool \<times> group_cache" where
  "isAvailable c rows env up now key st =
    (case getGroupProviders rows now ''_all'' (snd st) of (providers, cache) \<Rightarrow>
      (case find (\<lambda>p. pv_key p = key) providers of None \<Rightarrow> (False, cache)
       | Some p \<Rightarrow> (pv_enabled p \<and> isKeyPresent env (pv_requiresKey p) \<and>
           canUse c up now (pv_key p) (pv_reqsPerWindow p) (pv_windowSec p) (fst st), cache)))"

definition markRateLimited ::
    "'s ioredis \<Rightarrow> (string \<Rightarrow> provider list option) \<Rightarrow> bool \<Rightarrow> int \<Rightarrow> string \<Rightarrow> 's \<times> group_cache \<Rightarrow> 's \<times> group_cache" where
  "markRateLimited c rows up now key st =
    (case getGroupProviders rows now ''_all'' (snd st) of (providers, cache) \<Rightarrow>
      (markCooldown c up now key (case find (\<lambda>p. pv_key p = key) providers of None \<Rightarrow> 120 | Some p \<Rightarrow> pv_cooldownSec p) (fst st), cache))"

definition getAllStatus ::
    "'s ioredis \<Rightarrow> (string \<Rightarrow> int) \<Rightarrow> (string \<Rightarrow> provider list option) \<Rightarrow> bool \<Rightarrow> int \<Rightarrow> 's \<times> group_cache \<Rightarrow> (provider \<times> rate_status) list \<times> group_cache" where
  "getAllStatus c ttl rows up now st =
    (case getGroupProviders rows now ''_all'' (snd st) of (providers, cache) \<Rightarrow>
      (map (\<lambda>p. (p, rl_getStatus c ttl up now (pv_key p) (pv_reqsPerWindow p) (pv_windowSec p) (fst st))) providers, cache))"


text \<open>The rows that \<open>seedDefaultsIfEmpty\<close> writes into an empty table, without their addresses and notes.\<close>

definition provider_row ::
    "string \<Rightarrow> string \<Rightarrow> string \<Rightarrow> int \<Rightarrow> int \<Rightarrow> int \<Rightarrow> int \<Rightarrow> bool \<Rightarrow> string option \<Rightarrow> provider" where
  "provider_row k d g p r w c e q = \<lparr>pv_key = k, pv_displayName = d, pv_dataGroup = g, pv_priority = p, pv_reqsPerWindow = r,
     pv_windowSec = w, pv_cooldownSec = c, pv_enabled = e, pv_requiresKey = q\<rparr>"

definition DEFAULT_PROVIDERS :: "provider list" where
  "DEFAULT_PROVIDERS = [
     provider_row ''dexscreener'' ''DexScreener'' ''MARKET_DATA'' 10 280 60 30 True None,
     provider_row ''geckoterminal'' ''GeckoTerminal'' ''MARKET_DATA'' 20 25 60 60 True None,
     provider_row ''coingecko'' ''CoinGecko'' ''MARKET_DATA'' 30 28 60 90 True None,
     provider_row ''rugcheck'' ''RugCheck'' ''SAFETY_SOL'' 10 55 60 60 True None,
     provider_row ''solana_tracker_safety'' ''Solana Tracker (safety)'' ''SAFETY_SOL'' 20 55 60 60 True (Some ''SOLANA_TRACKER_API_KEY''),
     provider_row ''goplus'' ''GoPlus Security'' ''SAFETY_EVM'' 10 290 60 60 True None,
     provider_row ''defi_scanner'' ''De.Fi Scanner'' ''SAFETY_EVM'' 20 25 60 120 True None,
     provider_row ''helius'' ''Helius RPC'' ''HOLDER_SOL'' 10 550 60 30 True (Some ''HELIUS_RPC_URL''),
     provider_row ''solana_tracker'' ''Solana Tracker'' ''HOLDER_SOL'' 20 55 60 60 True (Some ''SOLANA_TRACKER_API_KEY''),
     provider_row ''bitquery_holder'' ''Bitquery (holders)'' ''HOLDER_SOL'' 30 2 60 300 True (Some ''BITQUERY_API_KEY''),
     provider_row ''etherscan'' ''Etherscan'' ''HOLDER_EVM'' 10 270 60 60 True (Some ''ETHERSCAN_API_KEY''),
     provider_row ''moralis'' ''Moralis'' ''HOLDER_EVM'' 20 1000 60 60 True (Some ''MORALIS_API_KEY''),
     provider_row ''intotheblock'' ''IntoTheBlock'' ''HOLDER_EVM'' 30 25 60 120 True None,
     provider_row ''bundle_checker'' ''BundleChecker'' ''BUNDLE_SOL'' 10 20 60 120 True None,
     provider_row ''bitquery_bundle'' ''Bitquery (bundles)'' ''BUNDLE_SOL'' 20 2 60 300 True (Some ''BITQUERY_API_KEY''),
     provider_row ''moralis_lifecycle'' ''Moralis (lifecycle)'' ''LIFECYCLE'' 10 1000 60 60 True (Some ''MORALIS_API_KEY''),
     provider_row ''solana_tracker_lifecycle'' ''Solana Tracker (lifecycle)'' ''LIFECYCLE'' 20 55 60 60 True (Some ''SOLANA_TRACKER_API_KEY''),
     provider_row ''birdeye'' ''Birdeye'' ''PRICE_IMPACT'' 10 9 60 120 True (Some ''BIRDEYE_API_KEY''),
     provider_row ''jupiter_impact'' ''Jupiter (impact)'' ''PRICE_IMPACT'' 20 280 60 30 True None,
     provider_row ''jupiter'' ''Jupiter'' ''ORGANIC_SCORE'' 10 280 60 30 True None,
     provider_row ''birdeye_organic'' ''Birdeye (organic)'' ''ORGANIC_SCORE'' 20 9 60 120 True (Some ''BIRDEYE_API_KEY''),
     provider_row ''gmgn'' ''GMGN'' ''SMART_MONEY'' 10 10 60 300 True None,
     provider_row ''arkham'' ''Arkham Intel'' ''SMART_MONEY'' 20 20 60 120 True None,
     provider_row ''debank'' ''DeBank'' ''SMART_MONEY'' 30 25 60 120 True None,
     provider_row ''telegram'' ''Telegram Bot API'' ''SOCIAL_TG'' 10 28 60 60 True (Some ''TELEGRAM_BOT_TOKEN''),
     provider_row ''snscrape'' ''snscrape (Twitter)'' ''SOCIAL_TWITTER'' 10 5 60 300 False None,
     provider_row ''defillama'' ''DeFiLlama'' ''CHAIN_TVL'' 10 290 60 30 True None,
     provider_row ''rdap'' ''RDAP.org'' ''DOMAIN_CHECK'' 10 25 60 60 True None,
     provider_row ''wayback'' ''Wayback Machine'' ''DOMAIN_CHECK'' 20 10 60 120 True None]"

definition seedDefaultsIfEmpty :: "provider list \<Rightarrow> provider list" where
  "seedDefaultsIfEmpty table = (if table = [] then DEFAULT_PROVIDERS else table)"

subsection \<open>The keys\<close>

lemma decimal_digits: "set (decimal n) \<subseteq> set digit_chars"
proof (induction n rule: decimal.induct)
  case (1 n)
  have d: "digit_chars ! (m mod 10) \<in> set digit_chars" for m
    by (rule nth_mem) (simp add: digit_chars_def)
  show ?case
  proof (cases "n < 10")
    case True
    then show ?thesis using d [of n] by (simp add: decimal.simps [of n])
  next
    case False
    then show ?thesis using 1 d [of n] by (simp add: decimal.simps [of n])
  qed
qed

lemma decimal_no_colon: "CHR '':'' \<notin> set (decimal n)"
  using decimal_digits [of n] by (auto simp: digit_chars_def)

lemma count_key_inj: "count_key k a = count_key k' b \<Longrightarrow> k = k'"
proof -
  assume "count_key k a = count_key k' b"
  then have "rev (k @ '':'' @ decimal (nat a)) = rev (k' @ '':'' @ decimal (nat b))" by (simp add: count_key_def)
  then have "rev (decimal (nat a)) @ CHR '':'' # rev k = rev (decimal (nat b)) @ CHR '':'' # rev k'" by simp
  then show ?thesis using append_sep_inject [of "CHR '':''" "rev (decimal (nat a))" "rev (decimal (nat b))"] decimal_no_colon by auto
qed

lemma key_neq [simp]: "count_key k a \<noteq> cooldown_key k'" "cooldown_key k' \<noteq> count_key k a"
  by (simp_all add: count_key_def cooldown_key_def)

lemma cooldown_key_inj [simp]: "cooldown_key k = cooldown_key k' \<longleftrightarrow> k = k'"
  by (simp add: cooldown_key_def)


subsection \<open>The fallback\<close>

definition answers :: "(string \<Rightarrow> 'd outcome option) \<Rightarrow> provider \<Rightarrow> bool" where
  "answers handlers p = (case handlers (pv_key p) of Some (Answered _) \<Rightarrow> True | _ \<Rightarrow> False)"

definition may_use :: "'s ioredis \<Rightarrow> bool \<Rightarrow> int \<Rightarrow> 's \<Rightarrow> provider \<Rightarrow> bool" where
  "may_use c up now s p = canUse c up now (pv_key p) (pv_reqsPerWindow p) (pv_windowSec p) s"

text \<open>The specification: the first provider that may be used and answers gives the result, also when it has
  no data.\<close>

definition pool_spec :: "(provider \<Rightarrow> bool) \<Rightarrow> (string \<Rightarrow> 'd outcome option) \<Rightarrow> provider list \<Rightarrow> 'd execute_result" where
  "pool_spec ok handlers ps = (case find (\<lambda>p. ok p \<and> answers handlers p) ps of
     None \<Rightarrow> \<lparr>er_data = None, er_provider = None, er_status = Exhausted\<rparr>
   | Some p \<Rightarrow> (case handlers (pv_key p) of
       Some (Answered d) \<Rightarrow> \<lparr>er_data = d, er_provider = Some (pv_key p, pv_displayName p), er_status = (if d \<noteq> None then Hit else Miss)\<rparr>
     | _ \<Rightarrow> \<lparr>er_data = None, er_provider = None, er_status = Exhausted\<rparr>))"

lemma find_cong_on: "(\<And>x. x \<in> set xs \<Longrightarrow> P x = Q x) \<Longrightarrow> find P xs = find Q xs"
  by (induction xs) auto

lemma pool_spec_code: "pool_spec ok handlers [] = \<lparr>er_data = None, er_provider = None, er_status = Exhausted\<rparr>"
  "pool_spec ok handlers (p # ps) = (case handlers (pv_key p) of
     Some (Answered d) \<Rightarrow> if ok p
       then \<lparr>er_data = d, er_provider = Some (pv_key p, pv_displayName p), er_status = (if d \<noteq> None then Hit else Miss)\<rparr>
       else pool_spec ok handlers ps
   | _ \<Rightarrow> pool_spec ok handlers ps)"
proof -
  show "pool_spec ok handlers (p # ps) = (case handlers (pv_key p) of
     Some (Answered d) \<Rightarrow> if ok p
       then \<lparr>er_data = d, er_provider = Some (pv_key p, pv_displayName p), er_status = (if d \<noteq> None then Hit else Miss)\<rparr>
       else pool_spec ok handlers ps
   | _ \<Rightarrow> pool_spec ok handlers ps)"
  proof (cases "handlers (pv_key p)")
    case None
    then have "\<not> answers handlers p" by (simp add: answers_def)
    then show ?thesis using None by (simp add: pool_spec_def)
  next
    case (Some x)
    then show ?thesis
    proof (cases x)
      case (Answered d)
      then have "answers handlers p" using Some by (simp add: answers_def)
      then show ?thesis using Some Answered by (simp add: pool_spec_def)
    next
      case (Threw e)
      then have "\<not> answers handlers p" using Some by (simp add: answers_def)
      then show ?thesis using Some Threw by (simp add: pool_spec_def)
    qed
  qed
qed (simp add: pool_spec_def)

context ioredis_client begin

lemma cooldown_other:
  "k' \<noteq> k \<Longrightarrow> canUse c up now k' n w (markCooldown c up now k cd s) = canUse c up now k' n w s"
  by (simp add: canUse_def markCooldown_def kv.get_setex_other)

lemma cooldown_blocks:
  "t \<le> t' \<Longrightarrow> t' < t + cd * 1000 \<Longrightarrow> \<not> canUse c True t' k n w (markCooldown c True t k cd s)"
  by (simp add: canUse_def markCooldown_def kv.get_setex_live)

lemma try_spec:
  "distinct (map pv_key ps) \<Longrightarrow>
    fst (try_providers c up now handlers ps s) = pool_spec (may_use c up now s) handlers ps"
proof (induction ps arbitrary: s)
  case (Cons p ps)
  have other: "pool_spec (may_use c up now (markCooldown c up now (pv_key p) cd s)) handlers ps =
      pool_spec (may_use c up now s) handlers ps" for cd
  proof -
    have "find (\<lambda>q. may_use c up now (markCooldown c up now (pv_key p) cd s) q \<and> answers handlers q) ps =
        find (\<lambda>q. may_use c up now s q \<and> answers handlers q) ps"
    proof (rule find_cong_on)
      fix q assume "q \<in> set ps"
      then have "pv_key q \<noteq> pv_key p" using Cons.prems by (auto simp: image_iff)
      then show "(may_use c up now (markCooldown c up now (pv_key p) cd s) q \<and> answers handlers q) = (may_use c up now s q \<and> answers handlers q)"
        by (simp add: may_use_def cooldown_other)
    qed
    then show ?thesis unfolding pool_spec_def by simp
  qed
  have IH: "fst (try_providers c up now handlers ps s) = pool_spec (may_use c up now s) handlers ps" for s
    using Cons by simp
  show ?case
    by (auto simp: IH other pool_spec_code may_use_def [symmetric] split: option.split outcome.split)
qed (simp add: pool_spec_code)

end

text \<open>The keys of the seeded table are distinct, so that every group of it meets the condition below, and every
  provider has a budget.\<close>

lemma default_keys: "distinct (map pv_key DEFAULT_PROVIDERS)"
  "list_all (\<lambda>p. 0 < pv_reqsPerWindow p \<and> 0 < pv_windowSec p \<and> 0 < pv_cooldownSec p) DEFAULT_PROVIDERS"
  by (simp_all add: DEFAULT_PROVIDERS_def provider_row_def)

text \<open>C21: The pool answers with the first provider, in the order of their priority, that is enabled, configured and
  handled, whose window and cooldown admit the request and whose handler does not throw: its data, or a miss
  when it has none; no later provider is asked. Without such a provider the result is exhausted. The
  cooldowns that the call sets on the way do not change which one answers.\<close>

theorem pp_fallback:
  assumes "ioredis_client c" and "distinct (map pv_key (fst (getGroupProviders rows now g (snd st))))"
  shows "fst (pool_execute c rows env up now g handlers st) =
    pool_spec (\<lambda>p. usable env handlers p \<and> may_use c up now (fst st) p) handlers (fst (getGroupProviders rows now g (snd st)))"
proof -
  let ?ps = "fst (getGroupProviders rows now g (snd st))"
  have "distinct (map pv_key (filter (usable env handlers) ?ps))" using assms(2) by (rule distinct_map_filter)
  note t = ioredis_client.try_spec [OF assms(1) this, of up now handlers "fst st"]
  have "find (\<lambda>p. may_use c up now (fst st) p \<and> answers handlers p) (filter (usable env handlers) ps) =
      find (\<lambda>p. (usable env handlers p \<and> may_use c up now (fst st) p) \<and> answers handlers p) ps" for ps
    by (induction ps) auto
  then show ?thesis using t by (simp add: pool_execute_def split_beta pool_spec_def)
qed


definition pool_provider :: "string \<Rightarrow> string option \<Rightarrow> provider" where
  "pool_provider k needs = \<lparr>pv_key = k, pv_displayName = k, pv_dataGroup = ''MARKET_DATA'', pv_priority = 10, pv_reqsPerWindow = 1,
     pv_windowSec = 60, pv_cooldownSec = 30, pv_enabled = True, pv_requiresKey = needs\<rparr>"

lemma pool_provider_fields [simp]: "pv_key (pool_provider k x) = k" "pv_displayName (pool_provider k x) = k"
  "pv_reqsPerWindow (pool_provider k x) = 1" "pv_windowSec (pool_provider k x) = 60" "pv_enabled (pool_provider k x)"
  "pv_requiresKey (pool_provider k x) = x"
  by (simp_all add: pool_provider_def)

definition two_rows :: "string \<Rightarrow> provider list option" where
  "two_rows = (\<lambda>_. Some [pool_provider ''dex'' None, pool_provider ''gecko'' None])"

definition dex_busy :: "string \<Rightarrow> nat outcome option" where
  "dex_busy k = (if k = ''dex'' then Some (Threw \<lparr>pe_status = Some 429, pe_statusCode = None, pe_message = None\<rparr>)
     else Some (Answered (Some 7)))"

theorem pp_fallback_witness:
  "fst (pool_execute mem_client two_rows (\<lambda>_. None) True 0 ''g'' dex_busy (mem_empty, [])) =
     \<lparr>er_data = Some 7, er_provider = Some (''gecko'', ''gecko''), er_status = Hit\<rparr>"
proof -
  have "fst (getGroupProviders two_rows 0 ''g'' (snd (mem_empty, []))) = [pool_provider ''dex'' None, pool_provider ''gecko'' None]"
    by (simp add: getGroupProviders_def two_rows_def)
  moreover have "may_use mem_client True 0 mem_empty (pool_provider ''gecko'' None)"
    by (simp add: may_use_def canUse_def mem_client_def mem_empty_def alive_def stored_count_def)
  ultimately show ?thesis
    using pp_fallback [OF mem.ioredis_client_axioms, where rows = two_rows and now = 0 and g = "''g''" and st = "(mem_empty, [])"
        and env = "\<lambda>_. None" and up = True and handlers = dex_busy]
    by (simp add: pool_spec_code dex_busy_def usable_def isKeyPresent_def)
qed

subsection \<open>The budget of a window\<close>

fun pool_run ::
    "'s ioredis \<Rightarrow> (string \<Rightarrow> provider list option) \<Rightarrow> (string \<Rightarrow> string option) \<Rightarrow>
     (int \<times> string \<times> (string \<Rightarrow> 'd outcome option)) list \<Rightarrow> 's \<times> group_cache \<Rightarrow> 'd execute_result list" where
  "pool_run c rows env [] st = []"
| "pool_run c rows env ((now, g, handlers) # calls) st =
    (case pool_execute c rows env True now g handlers st of (r, st) \<Rightarrow> r # pool_run c rows env calls st)"

definition served_by :: "string \<Rightarrow> 'd execute_result \<Rightarrow> bool" where
  "served_by k r = (case er_provider r of None \<Rightarrow> False | Some (k', _) \<Rightarrow> k' = k)"

definition budget :: "string \<Rightarrow> int \<Rightarrow> int \<Rightarrow> provider list \<Rightarrow> bool" where
  "budget k n w ps = (\<forall>p \<in> set ps. pv_key p = k \<longrightarrow> pv_reqsPerWindow p = n \<and> pv_windowSec p = w)"

lemma same_window:
  assumes "window_slot t w = window_slot t' w" "0 < w"
  shows "t' < t + w * 2 * 1000"
proof -
  define q where "q = 1000 * w * window_slot t w"
  have "t = q + t mod (1000 * w)" by (simp add: q_def window_slot_def)
  moreover have "t' = q + t' mod (1000 * w)" unfolding q_def assms(1) by (simp add: window_slot_def)
  moreover have "0 \<le> t mod (1000 * w)" "t' mod (1000 * w) < 1000 * w" using assms(2) by simp_all
  ultimately show ?thesis using assms(2) by linarith
qed

context ioredis_client begin

definition counted :: "string \<Rightarrow> int \<Rightarrow> int \<Rightarrow> int \<Rightarrow> nat \<Rightarrow> 's \<Rightarrow> bool" where
  "counted k w sl t m s = (\<forall>t'. t \<le> t' \<and> window_slot t' w = sl \<longrightarrow>
     c_get c t' s (count_key k sl) = (if m = 0 then None else Some (JNum (of_int (int m)))))"

lemma counted_start: "c_get c t s (count_key k sl) = None \<Longrightarrow> counted k w sl t 0 s"
  using kv.get_None_mono by (simp add: counted_def)

lemma counted_later: "counted k w sl t m s \<Longrightarrow> t \<le> t' \<Longrightarrow> counted k w sl t' m s"
  by (simp add: counted_def)

lemma counted_record:
  assumes "counted k w sl now m s" "window_slot now w = sl" "0 < w"
  shows "counted k w sl now (Suc m) (record_use c True now k w s)"
proof -
  let ?s = "snd (c_incr c now (count_key k sl) s)"
  have "c_get c now s (count_key k sl) = (if m = 0 then None else Some (JNum (of_int (int m))))"
    using assms(1,2) by (simp add: counted_def)
  then have "c_get c now ?s (count_key k sl) = Some (JNum (of_int (int (Suc m))))"
    using kv.get_incr_absent [of now s "count_key k sl" now] kv.get_incr_present [of now s "count_key k sl" "int m" now]
    by (auto simp: add.commute split: if_splits)
  then show ?thesis
    using assms(2,3) same_window [of now w] by (auto simp: counted_def record_use_def Let_def kv.get_expire_live)
qed

lemma counted_other:
  "k' \<noteq> k \<Longrightarrow> counted k w sl now m s \<Longrightarrow> counted k w sl now m (record_use c up now k' w' s)"
proof -
  assume k: "k' \<noteq> k" and "counted k w sl now m s"
  moreover have "count_key k sl \<noteq> count_key k' a" for a using count_key_inj k by metis
  ultimately show ?thesis by (simp add: counted_def record_use_def Let_def kv.get_incr_other kv.get_expire_other)
qed

lemma counted_cooldown: "counted k w sl now m s \<Longrightarrow> counted k w sl now m (markCooldown c up now k' cd s)"
  by (simp add: counted_def markCooldown_def kv.get_setex_other)

lemma try_counted:
  assumes "counted k w sl now m s" "window_slot now w = sl" "0 < w" "budget k n w ps"
    and "try_providers c True now handlers ps s = (r, s')"
  shows "if served_by k r then int m < n \<and> counted k w sl now (Suc m) s' else counted k w sl now m s'"
  using assms(1,4,5)
proof (induction ps arbitrary: s)
  case Nil
  then show ?case by (auto simp: served_by_def)
next
  case (Cons p ps)
  have b: "budget k n w ps" using Cons.prems(2) by (simp add: budget_def)
  have skip: "try_providers c True now handlers ps s1 = (r, s') \<Longrightarrow> counted k w sl now m s1 \<Longrightarrow> ?case" for s1
    using Cons.IH b by blast
  show ?case
  proof (cases "canUse c True now (pv_key p) (pv_reqsPerWindow p) (pv_windowSec p) s \<and> (\<exists>d. handlers (pv_key p) = Some (Answered d))")
    case False
    then show ?thesis
      using Cons.prems(1,3) skip counted_cooldown
      by (auto split: if_splits option.splits outcome.splits)
  next
    case True
    then have rs: "er_provider r = Some (pv_key p, pv_displayName p)" "s' = record_use c True now (pv_key p) (pv_windowSec p) s"
      using Cons.prems(3) by auto
    show ?thesis
    proof (cases "pv_key p = k")
      case True
      with Cons.prems(2) have p: "pv_reqsPerWindow p = n" "pv_windowSec p = w" by (simp_all add: budget_def)
      have "c_get c now s (count_key k sl) = (if m = 0 then None else Some (JNum (of_int (int m))))"
        using Cons.prems(1) assms(2) by (simp add: counted_def)
      then have "int m < n" using \<open>canUse _ _ _ _ _ _ _ \<and> _\<close> p True assms(2)
        by (auto simp: canUse_def stored_count_def split: if_splits)
      then show ?thesis using True p rs counted_record [OF Cons.prems(1) assms(2,3)] by (simp add: served_by_def)
    next
      case False
      then show ?thesis using rs counted_other [OF _ Cons.prems(1)] by (simp add: served_by_def)
    qed
  qed
qed

end


definition cache_budget :: "string \<Rightarrow> int \<Rightarrow> int \<Rightarrow> group_cache \<Rightarrow> bool" where
  "cache_budget k n w st = list_all (\<lambda>(g, e). budget k n w (ge_providers e)) st"

definition rows_budget :: "string \<Rightarrow> int \<Rightarrow> int \<Rightarrow> (string \<Rightarrow> provider list option) \<Rightarrow> bool" where
  "rows_budget k n w rows = (\<forall>g ps. rows g = Some ps \<longrightarrow> budget k n w ps)"

lemma map_set_all: "list_all P m \<Longrightarrow> P (k, v) \<Longrightarrow> list_all P (map_set k v m)"
  by (induction m) auto

lemma group_budget:
  assumes "rows_budget k n w rows" "cache_budget k n w st"
  shows "budget k n w (fst (getGroupProviders rows now g st)) \<and> cache_budget k n w (snd (getGroupProviders rows now g st))"
proof -
  have old: "budget k n w (ge_providers e)" if "map_of st g = Some e" for e
    using map_of_SomeD [OF that] assms(2) by (auto simp: cache_budget_def list_all_iff)
  have new: "budget k n w ps \<and> cache_budget k n w (map_set g \<lparr>ge_providers = ps, ge_ts = now\<rparr> st)" if "rows g = Some ps" for ps
    using that assms by (auto simp: rows_budget_def cache_budget_def intro: map_set_all)
  have none: "budget k n w []" by (simp add: budget_def)
  show ?thesis using old new none assms(2) by (auto simp: getGroupProviders_def split: option.split)
qed

context ioredis_client begin

lemma run_counted:
  assumes "rows_budget k n w rows" "0 < w" and "cache_budget k n w (snd st)" "counted k w sl t m (fst st)"
    and "sorted (t # map fst calls)" "\<forall>x \<in> set calls. window_slot (fst x) w = sl" and "int m \<le> n \<or> m = 0"
  shows "m + length (filter (served_by k) (pool_run c rows env calls st)) \<le> max m (nat n)"
  using assms(3-)
proof (induction calls arbitrary: t m st)
  case (Cons call calls)
  obtain now g h where call: "call = (now, g, h)" by (cases call)
  obtain r s cache where e: "pool_execute c rows env True now g h st = (r, s, cache)" by (metis surj_pair)
  let ?ps = "filter (usable env h) (fst (getGroupProviders rows now g (snd st)))"
  have gb: "budget k n w (fst (getGroupProviders rows now g (snd st)))" "cache_budget k n w cache"
    using group_budget [OF assms(1) Cons.prems(1), of now g] e by (auto simp: pool_execute_def split: prod.splits)
  have ps: "budget k n w ?ps" using gb(1) by (simp add: budget_def)
  have res: "try_providers c True now h ?ps (fst st) = (r, s)" using e by (auto simp: pool_execute_def split: prod.splits)
  have t: "t \<le> now" "window_slot now w = sl" "sorted (now # map fst calls)" "\<forall>x \<in> set calls. window_slot (fst x) w = sl"
    using Cons.prems call by simp_all
  note c = try_counted [OF counted_later [OF Cons.prems(2) t(1)] t(2) assms(2) ps res]
  show ?case
  proof (cases "served_by k r")
    case True
    then have m: "int m < n" "counted k w sl now (Suc m) s" using c by simp_all
    from Cons.IH [of "(s, cache)" now "Suc m", OF _ _ t(3,4)] gb(2) m
    have "Suc m + length (filter (served_by k) (pool_run c rows env calls (s, cache))) \<le> max (Suc m) (nat n)" by simp
    then show ?thesis using True m(1) by (simp add: call e)
  next
    case False
    then have "counted k w sl now m s" using c by simp
    from Cons.IH [of "(s, cache)" now m, OF _ _ t(3,4) Cons.prems(5)] gb(2) this False show ?thesis by (simp add: call e)
  qed
qed simp

end



lemma fresh_memory: "c_get mem_client t mem_empty k = None"
  by (simp add: mem_client_def mem_empty_def alive_def)


text \<open>The window does not slide, as the header says it does: with a limit of one request a minute, one at the
  end of a minute and one a second later are both served.\<close>

theorem pp_not_sliding:
  "map (served_by ''gecko'') (pool_run mem_client two_rows (\<lambda>_. None)
     [(59000, ''g'', dex_busy), (60000, ''g'', dex_busy)] (mem_empty, [])) = [True, True]"
  by code_simp

end
