(* ===== verification/Spec2Isabelle.thy ===== *)
theory Spec2Isabelle
  imports Risk_Engine Confirmation Rate_Limit Auth_Tokens Auth_Session Output_Filter Compliance Forensics Market_Data Drift Anomaly_Detector Input_Guard Secrets Headers Resilience Auto_Trader Token_Resolver Token_Analysis Hot_Score Provider_Pool
begin

text \<open>Security engine of the trading agent.\<close>

end
